(* ===== verification/KPrelude.thy ===== *)
theory KPrelude
  imports Main "HOL-Library.Word"
begin

text \<open>
  The shared vocabulary of the development: the machine integer types of the AVR C dialect,
  the little-endian layout that the code obtains by type punning
  (\<open>*((uint32_t*)&bytes[0])\<close>, \<open>union Pointer\<close>), and the generic lemmas on lists, words and
  function updates that every component uses.
\<close>

unbundle bit_operations_syntax

type_synonym u8 = "8 word"
type_synonym u16 = "16 word"
type_synonym u32 = "32 word"

text \<open>A byte-addressed memory, as a program sees it.\<close>

type_synonym mem = "u32 \<Rightarrow> u8"

named_theorems io_simps \<open>running a bus program\<close>
named_theorems layout_simps \<open>numeric constants of the on-disk layout\<close>


section \<open>Characters\<close>

text \<open>C character constants are bytes.\<close>

definition ch :: "char \<Rightarrow> u8" where
  "ch c = word_of_nat (of_char c)"

definition str :: "string \<Rightarrow> u8 list" where
  "str s = map ch s"

lemma length_str [simp]: "length (str s) = length s"
  by (simp add: str_def)

lemma str_Nil [simp]: "str [] = []"
  by (simp add: str_def)

lemma str_Cons [simp]: "str (c # s) = ch c # str s"
  by (simp add: str_def)


section \<open>Little-endian words\<close>

definition le32_bytes :: "u32 \<Rightarrow> u8 list" where
  "le32_bytes v = [ucast v, ucast (drop_bit 8 v), ucast (drop_bit 16 v), ucast (drop_bit 24 v)]"

fun le32 :: "u8 list \<Rightarrow> u32" where
  "le32 (a # b # c # d # _) =
     ucast a OR push_bit 8 (ucast b) OR push_bit 16 (ucast c) OR push_bit 24 (ucast d)"
| "le32 _ = 0"

lemma length_le32_bytes [simp]: "length (le32_bytes v) = 4"
  by (simp add: le32_bytes_def)

lemma le32_le32_bytes [simp]: "le32 (le32_bytes v) = v"
proof (rule bit_word_eqI)
  fix n assume "n < LENGTH(32)"
  then show "bit (le32 (le32_bytes v)) n = bit v n"
    by (cases "n < 8"; cases "n < 16"; cases "n < 24") (auto simp: le32_bytes_def bit_simps)
qed

text \<open>Masks written as numerals in the code.\<close>

lemma ff_mask_u32: "(0xff :: u32) = mask 8"
  by (simp add: mask_eq_exp_minus_1)

lemma ff_mask_u8: "(0xff :: u8) = mask 8"
  by (simp add: mask_eq_exp_minus_1)

lemma f_mask_u8: "(0x0f :: u8) = mask 4"
  by (simp add: mask_eq_exp_minus_1)

lemma and_0xff_u8 [simp]: "(x::u8) AND 0xff = x" "0xff AND (x::u8) = x"
  unfolding ff_mask_u8 by (auto simp: bit_simps intro!: bit_word_eqI)

lemma ucast_and_0xff [simp]: "(ucast ((x::u32) AND 0xff) :: u8) = ucast x"
  unfolding ff_mask_u32 by (auto simp: bit_simps intro!: bit_word_eqI)

lemma u8_bit_high [simp]: "8 \<le> n \<Longrightarrow> \<not> bit (w::u8) n"
  using bit_imp_le_length [of w n] by auto

lemma le32_bytes_le32: "length bs = 4 \<Longrightarrow> le32_bytes (le32 bs) = bs"
proof -
  assume "length bs = 4"
  then obtain a b c d where bs: "bs = [a, b, c, d]"
    by (auto simp: numeral_eq_Suc length_Suc_conv)
  show ?thesis
    unfolding bs by (auto simp: le32_bytes_def bit_simps intro!: bit_word_eqI)
qed


section \<open>Lists updated by index\<close>

lemma nth_list_update_other [simp]: "i \<noteq> j \<Longrightarrow> xs[i := x] ! j = xs ! j"
  by (rule nth_list_update_neq)

lemma upt_Suc_snoc: "i \<le> j \<Longrightarrow> [i..<Suc j] = [i..<j] @ [j]"
  by simp


section \<open>Unsigned 32-bit arithmetic without wrap-around\<close>

lemma unat_add_no_wrap:
  "unat (a::u32) + unat b < 2 ^ 32 \<Longrightarrow> unat (a + b) = unat a + unat b"
  by (subst unat_word_ariths) simp

lemma unat_mult_no_wrap:
  "unat (a::u32) * unat b < 2 ^ 32 \<Longrightarrow> unat (a * b) = unat a * unat b"
  by (subst unat_word_ariths) simp

lemma unat_of_nat_u32: "n < 2 ^ 32 \<Longrightarrow> unat (of_nat n :: u32) = n"
  by (simp add: unat_of_nat)

lemma unat_sub_le: "(b::u32) \<le> a \<Longrightarrow> unat (a - b) = unat a - unat b"
  by (rule unat_sub) (simp add: word_le_nat_alt)

lemma u32_eq_iff_unat: "(a::u32) = b \<longleftrightarrow> unat a = unat b"
  by (simp add: word_unat_eq_iff)

lemma of_nat_u32_inj:
  "i < 2 ^ 32 \<Longrightarrow> j < 2 ^ 32 \<Longrightarrow> (of_nat i :: u32) = of_nat j \<longleftrightarrow> i = j"
  by (simp add: u32_eq_iff_unat unat_of_nat)

end
