(* ===== verification/BusPins.thy ===== *)
theory BusPins
  imports KPrelude
begin

text \<open>
  The pin level of kernel/bus/Retroboard_REV2/bus.c: the sequence of port writes that one raw
  bus cycle makes. Address and data share port A, so the order of the writes matters: the
  address must be on the ports when the address latch closes, the data byte on port A while
  the write strobe is low.
\<close>

section \<open>Bus descriptors\<close>

record bus =
  read_waitstate :: u16
  write_waitstate :: u16
  bus_type :: u8

section \<open>Ports and control bytes\<close>

datatype pin = LowerDir | LowerOut | MiddleDir | MiddleOut | UpperDir | UpperOut | ControlDir | ControlOut

datatype pin_event =
    Drive pin u8        \<comment> \<open>assignment to a port or direction register\<close>
  | Nops u16            \<comment> \<open>the wait-state loop\<close>
  | Delay nat           \<comment> \<open>\<open>_delay_ms\<close>\<close>
  | SampleLower         \<comment> \<open>reading the lower port's input register\<close>

definition CONTROL_READ_CYCLE :: u8 where "CONTROL_READ_CYCLE = 0b00100100"
definition CONTROL_WRITE_CYCLE :: u8 where "CONTROL_WRITE_CYCLE = 0b00010101"
definition CONTROL_READ_LATCH :: u8 where "CONTROL_READ_LATCH = 0b00110100"
definition CONTROL_WRITE_LATCH :: u8 where "CONTROL_WRITE_LATCH = 0b00110101"
definition CONTROL_OPEN_LATCH :: u8 where "CONTROL_OPEN_LATCH = 0b00111111"
definition CONTROL_CLOSED_LATCH :: u8 where "CONTROL_CLOSED_LATCH = 0b00111101"

text \<open>Bit numbers of the control signals.\<close>

definition CONTROL_ADDRESS_LATCH :: nat where "CONTROL_ADDRESS_LATCH = 3"
definition CONTROL_READ :: nat where "CONTROL_READ = 4"
definition CONTROL_WRITE :: nat where "CONTROL_WRITE = 5"

lemmas control_defs = CONTROL_READ_CYCLE_def CONTROL_WRITE_CYCLE_def CONTROL_READ_LATCH_def
  CONTROL_WRITE_LATCH_def CONTROL_OPEN_LATCH_def CONTROL_CLOSED_LATCH_def
  CONTROL_ADDRESS_LATCH_def CONTROL_READ_def CONTROL_WRITE_def

definition bus_control_zero :: "pin_event list" where
  "bus_control_zero = [Drive ControlDir 0xff, Drive ControlOut 0xff]"

definition bus_address_zero :: "pin_event list" where
  "bus_address_zero =
     [Drive LowerDir 0xff, Drive LowerOut 0xff,
      Drive MiddleDir 0xff, Drive MiddleOut 0xff,
      Drive UpperDir 0x0f, Drive UpperOut 0xff]"

definition bus_initiate :: "pin_event list" where
  "bus_initiate =
     [Drive LowerDir 0x00, Drive LowerOut 0xff, Drive LowerDir 0xff]
     @ bus_control_zero @ bus_address_zero"

text \<open>\<open>(address >> 16) & 0xff\<close> and its two lower neighbours.\<close>

definition upper_byte :: "u32 \<Rightarrow> u8" where "upper_byte a = ucast (drop_bit 16 a AND 0xff)"
definition middle_byte :: "u32 \<Rightarrow> u8" where "middle_byte a = ucast (drop_bit 8 a AND 0xff)"
definition lower_byte :: "u32 \<Rightarrow> u8" where "lower_byte a = ucast (a AND 0xff)"

definition raw_read_pins :: "bus \<Rightarrow> u32 \<Rightarrow> pin_event list" where
  "raw_read_pins bus address =
     [Drive UpperOut (upper_byte address),
      Drive MiddleOut (middle_byte address),
      Drive LowerOut (lower_byte address),
      Drive ControlOut CONTROL_OPEN_LATCH,
      Drive ControlOut CONTROL_READ_LATCH,
      Drive LowerDir 0x00,
      Drive ControlOut CONTROL_READ_CYCLE,
      Nops (read_waitstate bus),
      SampleLower,
      Drive ControlOut CONTROL_OPEN_LATCH,
      Drive UpperOut 0x00,
      Drive ControlOut CONTROL_CLOSED_LATCH,
      Drive LowerDir 0xff]"

definition raw_write_pins :: "bus \<Rightarrow> u32 \<Rightarrow> u8 \<Rightarrow> pin_event list" where
  "raw_write_pins bus address byte =
     [Drive UpperOut (upper_byte address),
      Drive MiddleOut (middle_byte address),
      Drive LowerOut (lower_byte address),
      Drive ControlOut CONTROL_OPEN_LATCH,
      Drive ControlOut CONTROL_WRITE_LATCH,
      Drive LowerOut byte,
      Drive ControlOut CONTROL_WRITE_CYCLE,
      Nops (write_waitstate bus),
      Drive ControlOut CONTROL_OPEN_LATCH,
      Drive UpperOut 0x00,
      Drive ControlOut CONTROL_CLOSED_LATCH]"

definition bus_read_byte :: "bus \<Rightarrow> u32 \<Rightarrow> pin_event list" where
  "bus_read_byte bus address = raw_read_pins bus address"

definition bus_write_byte :: "bus \<Rightarrow> u32 \<Rightarrow> u8 \<Rightarrow> pin_event list" where
  "bus_write_byte bus address byte = raw_write_pins bus address byte"

definition bus_write_byte_eeprom :: "bus \<Rightarrow> u32 \<Rightarrow> u8 \<Rightarrow> pin_event list" where
  "bus_write_byte_eeprom bus address byte = raw_write_pins bus address byte @ [Delay 10]"

section \<open>What the outside sees\<close>

type_synonym pins = "pin \<Rightarrow> u8"

fun pin_step :: "pins \<Rightarrow> pin_event \<Rightarrow> pins" where
  "pin_step p (Drive r v) = p(r := v)"
| "pin_step p (Nops n) = p"
| "pin_step p (Delay n) = p"
| "pin_step p SampleLower = p"

definition pins_after :: "pins \<Rightarrow> pin_event list \<Rightarrow> pins" where
  "pins_after p es = fold (\<lambda>e q. pin_step q e) es p"

text \<open>The address lines the processor drives: output registers masked by the directions.\<close>

definition driven_address :: "pins \<Rightarrow> u32" where
  "driven_address p =
     push_bit 16 (ucast (p UpperOut AND p UpperDir))
     OR push_bit 8 (ucast (p MiddleOut AND p MiddleDir))
     OR ucast (p LowerOut AND p LowerDir)"

text \<open>The addresses on the lines each time the address latch signal falls.\<close>

fun latched_addresses :: "pins \<Rightarrow> pin_event list \<Rightarrow> u32 list" where
  "latched_addresses p [] = []"
| "latched_addresses p (e # es) =
     (let q = pin_step p e in
      if bit (p ControlOut) CONTROL_ADDRESS_LATCH \<and> \<not> bit (q ControlOut) CONTROL_ADDRESS_LATCH
      then driven_address p # latched_addresses q es
      else latched_addresses q es)"

text \<open>The bytes driven on port A each time the write strobe falls.\<close>

fun strobed_bytes :: "pins \<Rightarrow> pin_event list \<Rightarrow> u8 list" where
  "strobed_bytes p [] = []"
| "strobed_bytes p (e # es) =
     (let q = pin_step p e in
      if bit (p ControlOut) CONTROL_WRITE \<and> \<not> bit (q ControlOut) CONTROL_WRITE
      then (p LowerOut AND p LowerDir) # strobed_bytes q es
      else strobed_bytes q es)"

text \<open>Whether port A is an input and the read strobe is low whenever it is sampled.\<close>

fun samples_safely :: "pins \<Rightarrow> pin_event list \<Rightarrow> bool" where
  "samples_safely p [] = True"
| "samples_safely p (e # es) =
     ((e = SampleLower \<longrightarrow> p LowerDir = 0 \<and> \<not> bit (p ControlOut) CONTROL_READ)
      \<and> samples_safely (pin_step p e) es)"

text \<open>
  The resting state of the bus: directions as \<open>bus_initiate\<close> leaves them and the latch
  transparent.
\<close>

definition bus_idle :: "pins \<Rightarrow> bool" where
  "bus_idle p \<longleftrightarrow>
     p LowerDir = 0xff \<and> p MiddleDir = 0xff \<and> p UpperDir = 0x0f \<and> p ControlDir = 0xff
     \<and> bit (p ControlOut) CONTROL_ADDRESS_LATCH
     \<and> bit (p ControlOut) CONTROL_READ \<and> bit (p ControlOut) CONTROL_WRITE"

lemma bus_initiate_idle: "bus_idle (pins_after p bus_initiate)"
  by (simp add: bus_idle_def pins_after_def bus_initiate_def bus_control_zero_def
      bus_address_zero_def control_defs)

lemma address_split:
  "push_bit 16 (ucast (upper_byte a AND 0x0f)) OR push_bit 8 (ucast (middle_byte a))
     OR ucast (lower_byte a) = take_bit 20 (a :: u32)"
proof (rule bit_word_eqI)
  fix n assume n: "n < LENGTH(32)"
  show "bit (push_bit 16 (ucast (upper_byte a AND 0x0f)) OR push_bit 8 (ucast (middle_byte a))
     OR ucast (lower_byte a) :: u32) n = bit (take_bit 20 a) n"
    using n
    by (cases "n < 8"; cases "n < 16"; cases "n < 20")
      (auto simp: upper_byte_def middle_byte_def lower_byte_def bit_simps f_mask_u8)
qed

lemma raw_read_idle: "bus_idle p \<Longrightarrow> bus_idle (pins_after p (raw_read_pins b a))"
  by (simp add: bus_idle_def pins_after_def raw_read_pins_def control_defs)

lemma raw_write_idle: "bus_idle p \<Longrightarrow> bus_idle (pins_after p (raw_write_pins b a x))"
  by (simp add: bus_idle_def pins_after_def raw_write_pins_def control_defs)

text \<open>
  The two raw cycles of the bus, from its idle state. A write latches exactly one address, the low 20
  bits of the one asked for (the upper four lines of port D are inputs), and strobes exactly one byte, the
  byte asked for. A read latches the same address, strobes no byte, and samples port A only while
  it is an input and the read strobe is low. Both leave the bus idle.
\<close>

theorem raw_cycles:
  assumes "bus_idle p"
  shows "latched_addresses p (raw_write_pins b a x) = [take_bit 20 a]
     \<and> strobed_bytes p (raw_write_pins b a x) = [x]
     \<and> bus_idle (pins_after p (raw_write_pins b a x))
     \<and> latched_addresses p (raw_read_pins b a) = [take_bit 20 a]
     \<and> strobed_bytes p (raw_read_pins b a) = []
     \<and> samples_safely p (raw_read_pins b a)
     \<and> bus_idle (pins_after p (raw_read_pins b a))
     \<and> latched_addresses p (bus_write_byte_eeprom b a x) = [take_bit 20 a]
     \<and> strobed_bytes p (bus_write_byte_eeprom b a x) = [x]
     \<and> bus_idle (pins_after p (bus_write_byte_eeprom b a x))"
  using raw_read_idle [OF assms] raw_write_idle [OF assms] assms
  by (simp add: bus_idle_def raw_read_pins_def raw_write_pins_def control_defs driven_address_def Let_def
      address_split bus_write_byte_eeprom_def pins_after_def)

theorem raw_cycles_witness:
  "latched_addresses (pins_after (\<lambda>_. 0) bus_initiate)
       (raw_write_pins \<lparr>read_waitstate = 2, write_waitstate = 2, bus_type = 0\<rparr> 0x12345 7)
     = [take_bit 20 0x12345]
   \<and> samples_safely (pins_after (\<lambda>_. 0) bus_initiate)
       (raw_read_pins \<lparr>read_waitstate = 2, write_waitstate = 2, bus_type = 0\<rparr> 0x12345)"
  using raw_cycles [OF bus_initiate_idle] by blast

end
