(* ===== verification/BusProgram.thy ===== *)
theory BusProgram
  imports KPrelude
begin

text \<open>
  Bus programs. The kernel reaches everything outside the processor (memory, display,
  network card, keyboard) by reading and writing bytes at 32-bit bus addresses. A piece of
  the kernel that does so is a value of type \<open>'a io\<close>: the tree of its bus transactions, where
  the byte a read returns selects the rest of the program. The same program can then be run
  against different things behind the bus: a flat memory, the write-back cache in front of the
  external RAM (theory BusCache), or a device with registers of its own (theory Network).

  The locale \<open>byte_store\<close> is the contract a provider of byte storage makes to the code above
  it; the refinement lemma proved in it says that a program cannot tell such a provider from a
  flat memory.
\<close>

section \<open>Programs\<close>

datatype 'a io =
    Ret 'a
  | Rd u32 "u8 \<Rightarrow> 'a io"
  | Wr u32 u8 "'a io"

primrec bindio :: "'a io \<Rightarrow> ('a \<Rightarrow> 'b io) \<Rightarrow> 'b io" where
  "bindio (Ret x) f = f x"
| "bindio (Rd a k) f = Rd a (\<lambda>b. bindio (k b) f)"
| "bindio (Wr a b k) f = Wr a b (bindio k f)"

text \<open>Sequencing when the first result is not used.\<close>

definition seqio :: "unit io \<Rightarrow> 'b io \<Rightarrow> 'b io" where
  "seqio p q = bindio p (\<lambda>_. q)"

text \<open>\<open>for\<close> loops over a list of indices: collecting results, or for the effect only.\<close>

primrec mapio :: "('a \<Rightarrow> 'b io) \<Rightarrow> 'a list \<Rightarrow> 'b list io" where
  "mapio f [] = Ret []"
| "mapio f (x # xs) = bindio (f x) (\<lambda>y. bindio (mapio f xs) (\<lambda>ys. Ret (y # ys)))"

primrec foreach :: "('a \<Rightarrow> unit io) \<Rightarrow> 'a list \<Rightarrow> unit io" where
  "foreach f [] = Ret ()"
| "foreach f (x # xs) = bindio (f x) (\<lambda>_. foreach f xs)"

lemma bindio_Ret [simp]: "bindio p Ret = p"
  by (induction p) auto

lemma bindio_assoc: "bindio (bindio p f) g = bindio p (\<lambda>x. bindio (f x) g)"
  by (induction p) auto

lemma foreach_append: "foreach f (xs @ ys) = bindio (foreach f xs) (\<lambda>_. foreach f ys)"
  by (induction xs) (simp_all add: bindio_assoc)


section \<open>Running a program\<close>

text \<open>\<open>rd\<close> and \<open>wr\<close> say what is behind the bus; its state is threaded through.\<close>

primrec run_io ::
  "('s \<Rightarrow> u32 \<Rightarrow> u8 \<times> 's) \<Rightarrow> ('s \<Rightarrow> u32 \<Rightarrow> u8 \<Rightarrow> 's) \<Rightarrow> 'a io \<Rightarrow> 's \<Rightarrow> 'a \<times> 's" where
  "run_io rd wr (Ret x) s = (x, s)"
| "run_io rd wr (Rd a k) s = (case rd s a of (b, s') \<Rightarrow> run_io rd wr (k b) s')"
| "run_io rd wr (Wr a b k) s = run_io rd wr k (wr s a b)"

lemma run_io_bind [io_simps]:
  "run_io rd wr (bindio p f) s = (case run_io rd wr p s of (x, s') \<Rightarrow> run_io rd wr (f x) s')"
  by (induction p arbitrary: s) (auto split: prod.splits)

lemma run_io_Rd: "run_io rd wr (Rd a k) s = (case rd s a of (b, s') \<Rightarrow> run_io rd wr (k b) s')"
  by simp

lemma run_io_Wr: "run_io rd wr (Wr a b k) s = run_io rd wr k (wr s a b)"
  by simp

lemma run_io_seq [io_simps]:
  "run_io rd wr (seqio p q) s = run_io rd wr q (snd (run_io rd wr p s))"
  by (simp add: seqio_def run_io_bind split: prod.splits)

text \<open>The flat memory: the reference behaviour of byte storage.\<close>

definition mem_rd :: "mem \<Rightarrow> u32 \<Rightarrow> u8 \<times> mem" where
  "mem_rd m a = (m a, m)"

definition mem_wr :: "mem \<Rightarrow> u32 \<Rightarrow> u8 \<Rightarrow> mem" where
  "mem_wr m a b = m(a := b)"

abbreviation exec :: "'a io \<Rightarrow> mem \<Rightarrow> 'a \<times> mem" where
  "exec \<equiv> run_io mem_rd mem_wr"

lemma exec_Rd [io_simps]: "exec (Rd a k) m = exec (k (m a)) m"
  by (simp add: mem_rd_def)

lemma exec_Wr [io_simps]: "exec (Wr a b k) m = exec k (m(a := b))"
  by (simp add: mem_wr_def)

declare run_io.simps(2,3) [simp del]

text \<open>The addresses a run over a flat memory uses.\<close>

primrec touched :: "'a io \<Rightarrow> mem \<Rightarrow> u32 set" where
  "touched (Ret x) m = {}"
| "touched (Rd a k) m = insert a (touched (k (m a)) m)"
| "touched (Wr a b k) m = insert a (touched k (m(a := b)))"

lemma touched_bind [io_simps]:
  "touched (bindio p f) m =
     touched p m \<union> (case exec p m of (x, m') \<Rightarrow> touched (f x) m')"
  by (induction p arbitrary: m) (simp_all add: io_simps exec_Rd exec_Wr)

text \<open>A program that only reads leaves the memory alone, and a write loop is a fold.\<close>

lemma exec_mapio_read:
  assumes "\<And>x m. exec (f x) m = (g m x, m)"
  shows "exec (mapio f xs) m = (map (g m) xs, m)"
  by (induction xs) (auto simp: io_simps assms)

lemma exec_foreach:
  assumes "\<And>x m. exec (f x) m = ((), g x m)"
  shows "exec (foreach f xs) m = ((), fold g xs m)"
  by (induction xs arbitrary: m) (auto simp: io_simps assms)


section \<open>The contract of byte storage\<close>

text \<open>
  \<open>view\<close> is the memory a provider stands for, \<open>ok\<close> its representation invariant and
  \<open>valid\<close> the addresses it serves faithfully.
\<close>

locale byte_store =
  fixes rd :: "'s \<Rightarrow> u32 \<Rightarrow> u8 \<times> 's"
    and wr :: "'s \<Rightarrow> u32 \<Rightarrow> u8 \<Rightarrow> 's"
    and view :: "'s \<Rightarrow> mem"
    and ok :: "'s \<Rightarrow> bool"
    and valid :: "u32 \<Rightarrow> bool"
  assumes rd_val: "ok s \<Longrightarrow> valid a \<Longrightarrow> fst (rd s a) = view s a"
    and rd_ok: "ok s \<Longrightarrow> valid a \<Longrightarrow> ok (snd (rd s a))"
    and rd_view: "ok s \<Longrightarrow> valid a \<Longrightarrow> valid c \<Longrightarrow> view (snd (rd s a)) c = view s c"
    and wr_ok: "ok s \<Longrightarrow> valid a \<Longrightarrow> ok (wr s a b)"
    and wr_view: "ok s \<Longrightarrow> valid a \<Longrightarrow> valid c \<Longrightarrow> view (wr s a b) c = ((view s)(a := b)) c"
begin

text \<open>Two memories a client cannot tell apart.\<close>

definition same :: "mem \<Rightarrow> mem \<Rightarrow> bool" where
  "same m m' \<longleftrightarrow> (\<forall>a. valid a \<longrightarrow> m a = m' a)"

lemma same_refl [simp]: "same m m"
  by (simp add: same_def)

lemma same_upd: "same m m' \<Longrightarrow> same (m(a := b)) (m'(a := b))"
  by (simp add: same_def)

lemma refines_flat:
  assumes "ok s" and "same (view s) m" and "touched p m \<subseteq> Collect valid"
  shows "fst (run_io rd wr p s) = fst (exec p m)
    \<and> ok (snd (run_io rd wr p s))
    \<and> same (view (snd (run_io rd wr p s))) (snd (exec p m))"
  using assms
proof (induction p arbitrary: s m)
  case (Ret x)
  then show ?case by simp
next
  case (Rd a k)
  from Rd.prems have a: "valid a" by simp
  obtain b s' where rd: "rd s a = (b, s')" by force
  have b: "b = m a"
    using rd_val [OF Rd.prems(1) a] Rd.prems(2) a rd by (simp add: same_def)
  have "ok s'" using rd_ok [OF Rd.prems(1) a] rd by simp
  moreover have "same (view s') m"
    using rd_view [OF Rd.prems(1) a] Rd.prems(2) rd by (auto simp: same_def)
  ultimately show ?case
    using Rd.IH [of "k b" s' m] Rd.prems(3) rd b by (simp add: run_io_Rd mem_rd_def)
next
  case (Wr a b k)
  from Wr.prems have a: "valid a" by simp
  have o: "ok (wr s a b)" using wr_ok [OF Wr.prems(1) a] .
  have v: "same (view (wr s a b)) (m(a := b))"
    using wr_view [OF Wr.prems(1) a] Wr.prems(2) by (auto simp: same_def)
  have t: "touched k (m(a := b)) \<subseteq> Collect valid"
    using Wr.prems(3) by simp
  show ?case
    using Wr.IH [OF o v t] by (simp only: run_io_Wr [of rd wr] exec_Wr)
qed

end

interpretation flat: byte_store mem_rd mem_wr "\<lambda>m. m" "\<lambda>_. True" "\<lambda>_. True"
  by unfold_locales (auto simp: mem_rd_def mem_wr_def)

end
