(* ===== verification/BusCache.thy ===== *)
theory BusCache
  imports BusProgram
begin

text \<open>
  The write-back cache of kernel/bus/Retroboard_REV2/bus.c: one line of 32 bytes that starts at
  the address of the access that filled it, with a dirty flag for each byte. Its operations are
  bus programs whose transactions are the raw cycles of theory BusPins. The bus descriptor
  argument of the C functions only selects wait states and has no part here.

  The section on refinement shows that the cache in front of the RAM is a \<open>byte_store\<close>: no
  program that stays inside the external memory can tell it from a flat memory.
\<close>

section \<open>The cache\<close>

definition CACHE_SIZE :: nat where "CACHE_SIZE = 32"
definition MAX_MEMORY_SIZE :: u32 where "MAX_MEMORY_SIZE = 0x40000"

record cache =
  cdata :: "u8 list"
  dirty_bits :: "u8 list"
  cache_begin :: u32
  cache_end :: u32

definition cache_reset :: cache where
  "cache_reset = \<lparr>cdata = replicate CACHE_SIZE 0, dirty_bits = replicate CACHE_SIZE 0,
     cache_begin = 0, cache_end = 0\<rparr>"

text \<open>The two loops of \<open>bus_flush_cache\<close>, over the indices still to visit.\<close>

fun flush_writeback :: "nat list \<Rightarrow> cache \<Rightarrow> cache io" where
  "flush_writeback [] c = Ret c"
| "flush_writeback (i # is) c =
     (if dirty_bits c ! i \<noteq> 0
      then Wr (cache_begin c + of_nat i) (cdata c ! i)
             (flush_writeback is (c\<lparr>dirty_bits := (dirty_bits c)[i := 0]\<rparr>))
      else flush_writeback is c)"

fun flush_fetch :: "nat list \<Rightarrow> u32 \<Rightarrow> cache \<Rightarrow> cache io" where
  "flush_fetch [] address c = Ret c"
| "flush_fetch (i # is) address c =
     Rd (address + of_nat i) (\<lambda>b.
       flush_fetch is address
         (c\<lparr>cdata := (cdata c)[i := b], dirty_bits := (dirty_bits c)[i := 0]\<rparr>))"

definition bus_flush_cache :: "cache \<Rightarrow> u32 \<Rightarrow> cache io" where
  "bus_flush_cache c address =
     bindio (flush_writeback [0..<CACHE_SIZE] c) (\<lambda>c.
     bindio (flush_fetch [0..<CACHE_SIZE] address c) (\<lambda>c.
     Ret (c\<lparr>cache_begin := address, cache_end := address + of_nat CACHE_SIZE\<rparr>)))"

definition bus_read_memory :: "cache \<Rightarrow> u32 \<Rightarrow> (u8 \<times> cache) io" where
  "bus_read_memory c address =
     (if cache_begin c \<le> address \<and> address < cache_end c
      then Ret (cdata c ! unat (address - cache_begin c), c)
      else bindio (bus_flush_cache c address) (\<lambda>c. Ret (cdata c ! 0, c)))"

definition bus_write_memory :: "cache \<Rightarrow> u32 \<Rightarrow> u8 \<Rightarrow> cache io" where
  "bus_write_memory c address byte =
     (if cache_begin c \<le> address \<and> address < cache_end c
      then let offset = unat (address - cache_begin c) in
           Ret (c\<lparr>cdata := (cdata c)[offset := byte],
                  dirty_bits := (dirty_bits c)[offset := 1]\<rparr>)
      else bindio (bus_flush_cache c address) (\<lambda>c.
           Ret (c\<lparr>cdata := (cdata c)[0 := byte],
                  dirty_bits := (dirty_bits c)[0 := 1]\<rparr>)))"

text \<open>The cached memory as something to run programs against: the cache and the RAM behind it.\<close>

definition cached_rd :: "cache \<times> mem \<Rightarrow> u32 \<Rightarrow> u8 \<times> (cache \<times> mem)" where
  "cached_rd s a = (case exec (bus_read_memory (fst s) a) (snd s) of ((b, c), r) \<Rightarrow> (b, (c, r)))"

definition cached_wr :: "cache \<times> mem \<Rightarrow> u32 \<Rightarrow> u8 \<Rightarrow> cache \<times> mem" where
  "cached_wr s a b = exec (bus_write_memory (fst s) a b) (snd s)"


section \<open>The invariant and the memory the cache stands for\<close>

text \<open>Addresses whose whole cache line lies inside the external memory.\<close>

definition cacheable :: "u32 \<Rightarrow> bool" where
  "cacheable a \<longleftrightarrow> unat a + CACHE_SIZE \<le> unat MAX_MEMORY_SIZE"

definition in_line :: "cache \<Rightarrow> u32 \<Rightarrow> bool" where
  "in_line c a \<longleftrightarrow> cache_begin c \<le> a \<and> a < cache_end c"

definition cache_view :: "cache \<times> mem \<Rightarrow> mem" where
  "cache_view s a =
     (if in_line (fst s) a then cdata (fst s) ! unat (a - cache_begin (fst s)) else snd s a)"

definition cache_filled :: "cache \<Rightarrow> mem \<Rightarrow> bool" where
  "cache_filled c r \<longleftrightarrow> cacheable (cache_begin c) \<and> cache_end c = cache_begin c + 32
     \<and> (\<forall>i < 32. dirty_bits c ! i = 0 \<longrightarrow> cdata c ! i = r (cache_begin c + of_nat i))"

definition cache_empty :: "cache \<Rightarrow> bool" where
  "cache_empty c \<longleftrightarrow> cache_begin c = 0 \<and> cache_end c = 0 \<and> (\<forall>i < 32. dirty_bits c ! i = 0)"

definition cache_ok :: "cache \<times> mem \<Rightarrow> bool" where
  "cache_ok s \<longleftrightarrow> length (cdata (fst s)) = 32 \<and> length (dirty_bits (fst s)) = 32
     \<and> (cache_filled (fst s) (snd s) \<or> cache_empty (fst s))"

lemma cache_reset_ok: "cache_ok (cache_reset, r)"
  by (simp add: cache_ok_def cache_reset_def cache_empty_def CACHE_SIZE_def)

lemma cacheable_bound: "cacheable a \<Longrightarrow> unat a + 32 \<le> 0x40000"
  by (simp add: cacheable_def CACHE_SIZE_def MAX_MEMORY_SIZE_def)

lemma unat_line: "cacheable b \<Longrightarrow> i < 32 \<Longrightarrow> unat (b + of_nat i) = unat b + i"
  using cacheable_bound [of b]
  by (subst unat_add_no_wrap) (simp_all add: unat_of_nat)

lemma in_line_iff:
  assumes "cacheable (cache_begin c)" "cache_end c = cache_begin c + 32"
  shows "in_line c a \<longleftrightarrow> (\<exists>i < 32. a = cache_begin c + of_nat i)"
proof -
  have e: "unat (cache_end c) = unat (cache_begin c) + 32"
    using cacheable_bound [OF assms(1)] assms(2)
    by (simp add: unat_add_no_wrap)
  show ?thesis
  proof
    assume "in_line c a"
    then have le: "cache_begin c \<le> a" and lt: "unat a < unat (cache_begin c) + 32"
      using e by (auto simp: in_line_def word_less_nat_alt)
    have "unat (a - cache_begin c) < 32"
      using unat_sub_le [OF le] lt by (simp add: word_le_nat_alt [symmetric])
    moreover have "a = cache_begin c + of_nat (unat (a - cache_begin c))"
      by simp
    ultimately show "\<exists>i < 32. a = cache_begin c + of_nat i" by blast
  next
    assume "\<exists>i < 32. a = cache_begin c + of_nat i"
    then show "in_line c a"
      using e by (auto simp: in_line_def word_less_nat_alt word_le_nat_alt unat_line assms(1))
  qed
qed

lemma line_offset: "i < 32 \<Longrightarrow> unat (b + of_nat i - b :: u32) = i"
  by (simp add: unat_of_nat)

lemma not_in_line_empty: "cache_empty c \<Longrightarrow> \<not> in_line c a"
  by (simp add: cache_empty_def in_line_def)


section \<open>What the two flush loops do\<close>

lemma exec_writeback:
  assumes "distinct is" "set is \<subseteq> {..<32}" "length (dirty_bits c) = 32"
  shows "\<exists>d r'. exec (flush_writeback is c) r = (c\<lparr>dirty_bits := d\<rparr>, r')
     \<and> length d = 32
     \<and> (\<forall>j < 32. d ! j = (if j \<in> set is then 0 else dirty_bits c ! j))
     \<and> (\<forall>a. r' a = (if \<exists>i \<in> set is. dirty_bits c ! i \<noteq> 0 \<and> a = cache_begin c + of_nat i
                 then cdata c ! unat (a - cache_begin c) else r a))"
  using assms
proof (induction "is" arbitrary: c r)
  case Nil
  then show ?case by (auto intro!: exI [of _ "dirty_bits c"])
next
  case (Cons i "is")
  have i: "i < 32" "i \<notin> set is" using Cons.prems by auto
  show ?case
  proof (cases "dirty_bits c ! i = 0")
    case True
    obtain d r' where h: "exec (flush_writeback is c) r = (c\<lparr>dirty_bits := d\<rparr>, r')"
      "length d = 32" "\<forall>j < 32. d ! j = (if j \<in> set is then 0 else dirty_bits c ! j)"
      "\<forall>a. r' a = (if \<exists>k \<in> set is. dirty_bits c ! k \<noteq> 0 \<and> a = cache_begin c + of_nat k
                 then cdata c ! unat (a - cache_begin c) else r a)"
      using Cons.IH [of c r] Cons.prems by auto
    then show ?thesis using True i by auto
  next
    case False
    let ?c = "c\<lparr>dirty_bits := (dirty_bits c)[i := 0]\<rparr>"
    let ?r = "r(cache_begin c + of_nat i := cdata c ! i)"
    have p: "distinct is" "set is \<subseteq> {..<32}" "length (dirty_bits ?c) = 32"
      using Cons.prems by auto
    obtain d r' where h: "exec (flush_writeback is ?c) ?r = (?c\<lparr>dirty_bits := d\<rparr>, r')"
      "length d = 32" "\<forall>j < 32. d ! j = (if j \<in> set is then 0 else dirty_bits ?c ! j)"
      "\<forall>a. r' a = (if \<exists>k \<in> set is. dirty_bits ?c ! k \<noteq> 0 \<and> a = cache_begin ?c + of_nat k
                 then cdata ?c ! unat (a - cache_begin ?c) else ?r a)"
      using Cons.IH [OF p, of ?r] by blast
    have sub: "k \<in> set is \<Longrightarrow> (dirty_bits c)[i := 0] ! k = dirty_bits c ! k" for k
      using i by (cases "k = i") auto
    have "\<forall>a. r' a = (if \<exists>k \<in> set (i # is). dirty_bits c ! k \<noteq> 0 \<and> a = cache_begin c + of_nat k
                 then cdata c ! unat (a - cache_begin c) else r a)"
      using h(4) False i line_offset [of i "cache_begin c"] by (auto simp: sub)
    moreover have "\<forall>j < 32. d ! j = (if j \<in> set (i # is) then 0 else dirty_bits c ! j)"
      using h(3) Cons.prems by auto
    ultimately show ?thesis using h(1,2) False by (auto simp: io_simps)
  qed
qed

lemma exec_fetch:
  assumes "distinct is" "set is \<subseteq> {..<32}" "length (dirty_bits c) = 32" "length (cdata c) = 32"
  shows "\<exists>d e. exec (flush_fetch is address c) r = (c\<lparr>cdata := d, dirty_bits := e\<rparr>, r)
     \<and> length d = 32 \<and> length e = 32
     \<and> (\<forall>j < 32. d ! j = (if j \<in> set is then r (address + of_nat j) else cdata c ! j))
     \<and> (\<forall>j < 32. e ! j = (if j \<in> set is then 0 else dirty_bits c ! j))"
  using assms
proof (induction "is" arbitrary: c)
  case Nil
  then show ?case
    by (intro exI [of _ "cdata c"] exI [of _ "dirty_bits c"]) auto
next
  case (Cons i "is")
  let ?c = "c\<lparr>cdata := (cdata c)[i := r (address + of_nat i)],
               dirty_bits := (dirty_bits c)[i := 0]\<rparr>"
  have p: "distinct is" "set is \<subseteq> {..<32}" "length (dirty_bits ?c) = 32" "length (cdata ?c) = 32"
    using Cons.prems by auto
  obtain d e where h: "exec (flush_fetch is address ?c) r = (?c\<lparr>cdata := d, dirty_bits := e\<rparr>, r)"
    "length d = 32" "length e = 32"
    "\<forall>j < 32. d ! j = (if j \<in> set is then r (address + of_nat j) else cdata ?c ! j)"
    "\<forall>j < 32. e ! j = (if j \<in> set is then 0 else dirty_bits ?c ! j)"
    using Cons.IH [OF p] by blast
  then show ?case using Cons.prems
    by (intro exI [of _ d] exI [of _ e]) (auto simp: io_simps nth_list_update)
qed

text \<open>A flush writes the memory the cache stood for back, and loads the new line from it.\<close>

lemma exec_flush:
  assumes ok: "cache_ok (c, r)" and a: "cacheable a"
  shows "\<exists>c'. exec (bus_flush_cache c a) r = (c', cache_view (c, r))
     \<and> length (cdata c') = 32 \<and> length (dirty_bits c') = 32
     \<and> cache_begin c' = a \<and> cache_end c' = a + 32
     \<and> (\<forall>i < 32. cdata c' ! i = cache_view (c, r) (a + of_nat i))
     \<and> (\<forall>i < 32. dirty_bits c' ! i = 0)"
proof -
  have len: "length (dirty_bits c) = 32" "length (cdata c) = 32"
    using ok by (auto simp: cache_ok_def)
  obtain d r' where wb: "exec (flush_writeback [0..<32] c) r = (c\<lparr>dirty_bits := d\<rparr>, r')"
    "length d = 32" "\<forall>j < 32. d ! j = (0::u8)"
    "\<forall>a. r' a = (if \<exists>i < 32. dirty_bits c ! i \<noteq> 0 \<and> a = cache_begin c + of_nat i
                 then cdata c ! unat (a - cache_begin c) else r a)"
  proof -
    have sub: "set [0..<32] \<subseteq> {..<32::nat}" by auto
    have "(\<exists>i \<in> set [0..<32]. P i) \<longleftrightarrow> (\<exists>i < 32. P i)" for P :: "nat \<Rightarrow> bool" by auto
    then show ?thesis using that exec_writeback [OF _ sub len(1), of r] by simp blast
  qed
  have "r' x = cache_view (c, r) x" for x
  proof (cases "cache_empty c")
    case True
    then show ?thesis using wb(4) not_in_line_empty [OF True, of x]
      by (auto simp: cache_view_def cache_empty_def)
  next
    case False
    then have f: "cache_filled c r" using ok by (simp add: cache_ok_def)
    then have l: "in_line c x \<longleftrightarrow> (\<exists>i < 32. x = cache_begin c + of_nat i)"
      by (intro in_line_iff) (auto simp: cache_filled_def)
    show ?thesis
    proof (cases "in_line c x")
      case True
      then obtain i where i: "i < 32" "x = cache_begin c + of_nat i" using l by auto
      then have "dirty_bits c ! i = 0 \<Longrightarrow> cdata c ! i = r x"
        using f by (simp add: cache_filled_def)
      then show ?thesis
        using wb(4) i True line_offset [of i "cache_begin c"]
        by (cases "dirty_bits c ! i = 0") (auto simp: cache_view_def)
    next
      case False
      then show ?thesis using wb(4) l by (auto simp: cache_view_def)
    qed
  qed
  then have r': "r' = cache_view (c, r)" by blast
  obtain d' e where fe: "exec (flush_fetch [0..<32] a (c\<lparr>dirty_bits := d\<rparr>)) r'
      = (c\<lparr>cdata := d', dirty_bits := e\<rparr>, r')"
    "length d' = 32" "length e = 32" "\<forall>j < 32. d' ! j = r' (a + of_nat j)" "\<forall>j < 32. e ! j = (0::u8)"
    using exec_fetch [of "[0..<32]" "c\<lparr>dirty_bits := d\<rparr>" a r'] len wb(2)
    by (force simp: subset_eq)
  show ?thesis
    using wb(1) fe r' by (auto simp: bus_flush_cache_def CACHE_SIZE_def io_simps)
qed


section \<open>Refinement\<close>

lemma view_after_flush:
  assumes "cacheable a" "cache_begin c' = a" "cache_end c' = a + 32"
    "\<forall>i < 32. cdata c' ! i = v (a + of_nat i)"
  shows "cache_view (c', v) = v"
proof
  fix x
  show "cache_view (c', v) x = v x"
    using in_line_iff [of c' x] assms line_offset [of _ a] by (auto simp: cache_view_def)
qed

lemma cached_rd_correct:
  assumes ok: "cache_ok s" and a: "cacheable a"
  shows "fst (cached_rd s a) = cache_view s a \<and> cache_ok (snd (cached_rd s a))
     \<and> cache_view (snd (cached_rd s a)) = cache_view s"
proof -
  obtain c r where s: "s = (c, r)" by force
  show ?thesis
  proof (cases "in_line c a")
    case True
    then show ?thesis using ok
      by (auto simp: s cached_rd_def bus_read_memory_def in_line_def cache_view_def)
  next
    case False
    obtain c' where fl: "exec (bus_flush_cache c a) r = (c', cache_view s)"
      "length (cdata c') = 32" "length (dirty_bits c') = 32"
      "cache_begin c' = a" "cache_end c' = a + 32"
      "\<forall>i < 32. cdata c' ! i = cache_view s (a + of_nat i)" "\<forall>i < 32. dirty_bits c' ! i = 0"
      using exec_flush [of c r a] ok a unfolding s by blast
    have rd: "cached_rd s a = (cdata c' ! 0, (c', cache_view s))"
      using False fl(1) by (auto simp: s cached_rd_def bus_read_memory_def in_line_def io_simps)
    have "cache_ok (c', cache_view s)"
      using fl a by (simp add: cache_ok_def cache_filled_def)
    moreover have "cdata c' ! 0 = cache_view s a"
      using fl(6)[rule_format, of 0] by simp
    moreover have "cache_view (c', cache_view s) = cache_view s"
      using view_after_flush [OF a fl(4,5)] fl(6) by blast
    ultimately show ?thesis using rd by simp
  qed
qed

lemma cache_write_line:
  fixes b :: u8
  assumes f: "cache_filled c r" "length (cdata c) = 32" "length (dirty_bits c) = 32" and i: "i < 32"
  defines "c' \<equiv> c\<lparr>cdata := (cdata c)[i := b], dirty_bits := (dirty_bits c)[i := 1]\<rparr>"
  shows "cache_ok (c', r) \<and> cache_view (c', r) = (cache_view (c, r))(cache_begin c + of_nat i := b)"
proof
  show "cache_ok (c', r)"
    using f i by (auto simp: c'_def cache_ok_def cache_filled_def nth_list_update)
  have cb: "cacheable (cache_begin c)" "cache_end c = cache_begin c + 32"
    using f(1) by (auto simp: cache_filled_def)
  show "cache_view (c', r) = (cache_view (c, r))(cache_begin c + of_nat i := b)"
  proof
    fix x
    have "in_line c' x = in_line c x" by (simp add: c'_def in_line_def)
    then show "cache_view (c', r) x = ((cache_view (c, r))(cache_begin c + of_nat i := b)) x"
      using in_line_iff [OF cb, of x] f(2) i line_offset [of _ "cache_begin c"]
      by (auto simp: cache_view_def c'_def nth_list_update)
  qed
qed

lemma cached_wr_correct:
  assumes ok: "cache_ok s" and a: "cacheable a"
  shows "cache_ok (cached_wr s a b) \<and> cache_view (cached_wr s a b) = (cache_view s)(a := b)"
proof -
  obtain c r where s: "s = (c, r)" by force
  show ?thesis
  proof (cases "in_line c a")
    case True
    then have f: "cache_filled c r"
      using ok not_in_line_empty [of c a] by (auto simp: s cache_ok_def)
    obtain i where i: "i < 32" "a = cache_begin c + of_nat i"
      using True in_line_iff [of c a] f by (auto simp: cache_filled_def)
    have len: "length (cdata c) = 32" "length (dirty_bits c) = 32"
      using ok by (auto simp: s cache_ok_def)
    have "cached_wr s a b =
        (c\<lparr>cdata := (cdata c)[i := b], dirty_bits := (dirty_bits c)[i := 1]\<rparr>, r)"
      using True i line_offset [of i "cache_begin c"]
      by (simp add: s cached_wr_def bus_write_memory_def in_line_def)
    then show ?thesis using cache_write_line [OF f len i(1), of b] i(2) s by simp
  next
    case False
    obtain c' where fl: "exec (bus_flush_cache c a) r = (c', cache_view s)"
      "length (cdata c') = 32" "length (dirty_bits c') = 32"
      "cache_begin c' = a" "cache_end c' = a + 32"
      "\<forall>i < 32. cdata c' ! i = cache_view s (a + of_nat i)" "\<forall>i < 32. dirty_bits c' ! i = 0"
      using exec_flush [of c r a] ok a unfolding s by blast
    have wr: "cached_wr s a b =
        (c'\<lparr>cdata := (cdata c')[0 := b], dirty_bits := (dirty_bits c')[0 := 1]\<rparr>, cache_view s)"
      using False fl(1) by (auto simp: s cached_wr_def bus_write_memory_def in_line_def io_simps)
    have f: "cache_filled c' (cache_view s)"
      using fl a by (simp add: cache_filled_def)
    show ?thesis
      using cache_write_line [OF f fl(2,3), of 0 b] wr fl(4) view_after_flush [OF a fl(4,5,6)]
      by simp
  qed
qed

interpretation cached: byte_store cached_rd cached_wr cache_view cache_ok cacheable
  by unfold_locales (simp_all add: cached_rd_correct cached_wr_correct)

text \<open>
  C1. The cached memory refines a flat memory: a program whose accesses stay inside the external
  memory computes through the cache exactly what it computes on the flat memory the cache stands
  for, whatever line is loaded and whatever is dirty, and leaves a cache that stands for the
  resulting memory.
\<close>

theorem cached_memory_refines_flat:
  assumes "cache_ok s" and "touched p (cache_view s) \<subseteq> Collect cacheable"
  shows "fst (run_io cached_rd cached_wr p s) = fst (exec p (cache_view s))
    \<and> cache_ok (snd (run_io cached_rd cached_wr p s))
    \<and> (\<forall>a. cacheable a \<longrightarrow>
         cache_view (snd (run_io cached_rd cached_wr p s)) a = snd (exec p (cache_view s)) a)"
  using cached.refines_flat [OF assms(1) cached.same_refl assms(2)]
  by (simp add: cached.same_def)

theorem cached_memory_refines_flat_witness:
  "fst (run_io cached_rd cached_wr (Wr 5 7 (Wr 100 8 (Rd 5 Ret))) (cache_reset, \<lambda>_. 0)) = 7"
proof -
  have "touched (Wr 5 7 (Wr 100 8 (Rd 5 Ret))) (cache_view (cache_reset, \<lambda>_. 0)) \<subseteq> Collect cacheable"
    by (simp add: cacheable_def CACHE_SIZE_def MAX_MEMORY_SIZE_def)
  from cached_memory_refines_flat [OF cache_reset_ok this]
  show ?thesis by (simp add: io_simps)
qed

end
