(* ===== verification/RetroBus.thy ===== *)
theory RetroBus
  imports BusPins BusProgram
begin

text \<open>
  The bus of the other board, the Retro AVR X4 (kernel/bus/RetroAVRx4/bus.c up to the comment that
  repeats the file). Ports A and C carry the address through latches, port D the kind of the cycle and the
  strobes. The cache is one line of 32 bytes like that of theory BusCache, but without dirty flags: every
  flush writes the whole line. The bus descriptor selects wait states only.

  A cycle is specified by what the outside observes: the latches and the strobes.
\<close>

section \<open>Cycles\<close>

datatype port = DDRA | DDRB | DDRC | DDRD | PORTA | PORTB | PORTC | PORTD

datatype port_event =
    Out port u8       \<comment> \<open>assignment to a register\<close>
  | Wait u16          \<comment> \<open>the wait-state loop\<close>
  | SamplePINA

definition retro_control_zero :: "port_event list" where
  "retro_control_zero =
     [Out DDRB 0b00011001, Out DDRD 0b11111111, Out PORTB 0b00011001, Out PORTD 0b11111111]"

definition retro_address_zero :: "port_event list" where
  "retro_address_zero = [Out DDRA 0xff, Out DDRC 0xff, Out PORTA 0x00, Out PORTC 0x00]"

definition retro_initiate :: "port_event list" where
  "retro_initiate = retro_control_zero @ retro_address_zero"

definition retro_raw_read_memory :: "bus \<Rightarrow> u32 \<Rightarrow> port_event list" where
  "retro_raw_read_memory bus address =
     [Out PORTA (lower_byte address), Out PORTC (middle_byte address),
      Out PORTB 0b00011001, Out PORTB 0b00010001,
      Out PORTC (upper_byte address),
      Out PORTD 0b10011111, Out PORTD 0b10011011,
      Out DDRA 0x00,
      Out PORTB 0b00000000,
      Out PORTD 0b10010011,
      Wait (read_waitstate bus),
      SamplePINA,
      Out PORTD 0b10011011,
      Out DDRA 0xff,
      Out PORTB 0b00011001]"

definition retro_raw_write_memory :: "bus \<Rightarrow> u32 \<Rightarrow> u8 \<Rightarrow> port_event list" where
  "retro_raw_write_memory bus address byte =
     [Out PORTA (lower_byte address), Out PORTC (middle_byte address),
      Out PORTB 0b00011001, Out PORTB 0b00010001,
      Out PORTC (upper_byte address),
      Out PORTD 0b11011111, Out PORTD 0b11011011,
      Out PORTA byte,
      Out PORTB 0b00000000,
      Out PORTD 0b11001011,
      Wait (write_waitstate bus),
      Out PORTD 0b11011011,
      Out PORTB 0b00011001]"

definition retro_read_io :: "bus \<Rightarrow> u32 \<Rightarrow> port_event list" where
  "retro_read_io bus address =
     [Out PORTA (lower_byte address), Out PORTC (middle_byte address),
      Out PORTB 0b00011001, Out PORTB 0b00010001,
      Out PORTC (upper_byte address),
      Out PORTD 0b10111111, Out PORTD 0b10111011,
      Out DDRA 0x00,
      Out PORTB 0b00000000,
      Out PORTD 0b10110011,
      Wait (read_waitstate bus),
      SamplePINA,
      Out PORTD 0b10111011,
      Out DDRA 0xff,
      Out PORTB 0b00011001]"

definition retro_write_io :: "bus \<Rightarrow> u32 \<Rightarrow> u8 \<Rightarrow> port_event list" where
  "retro_write_io bus address byte =
     [Out PORTA (lower_byte address), Out PORTC (middle_byte address),
      Out PORTB 0b00011001, Out PORTB 0b00010001,
      Out PORTC (upper_byte address),
      Out PORTD 0b11111111, Out PORTD 0b11111011,
      Out PORTA byte,
      Out PORTB 0b00000000,
      Out PORTD 0b11101011,
      Wait (write_waitstate bus),
      Out PORTD 0b11111011,
      Out PORTB 0b00011001]"

text \<open>\<open>bus_read_byte\<close> and \<open>bus_write_byte\<close> are cycles of peripherals; the delays of the EEPROM have no effect.\<close>

definition retro_read_byte :: "bus \<Rightarrow> u32 \<Rightarrow> port_event list" where
  "retro_read_byte = retro_read_io"

definition retro_write_byte :: "bus \<Rightarrow> u32 \<Rightarrow> u8 \<Rightarrow> port_event list" where
  "retro_write_byte = retro_write_io"

definition retro_write_byte_eeprom :: "bus \<Rightarrow> u32 \<Rightarrow> u8 \<Rightarrow> port_event list" where
  "retro_write_byte_eeprom = retro_write_io"

definition retro_write_memory_eeprom :: "bus \<Rightarrow> u32 \<Rightarrow> u8 \<Rightarrow> port_event list" where
  "retro_write_memory_eeprom = retro_raw_write_memory"


section \<open>What the outside sees\<close>

type_synonym ports = "port \<Rightarrow> u8"

fun port_step :: "ports \<Rightarrow> port_event \<Rightarrow> ports" where
  "port_step p (Out r v) = p(r := v)"
| "port_step p (Wait n) = p"
| "port_step p SamplePINA = p"

definition ports_after :: "ports \<Rightarrow> port_event list \<Rightarrow> ports" where
  "ports_after p es = fold (\<lambda>e q. port_step q e) es p"

definition falls :: "port \<Rightarrow> nat \<Rightarrow> ports \<Rightarrow> ports \<Rightarrow> bool" where
  "falls r n p q \<longleftrightarrow> bit (p r) n \<and> \<not> bit (q r) n"

text \<open>
  Bit 3 of port B is the latch of the lower 16 address lines, bit 2 of port D that of the upper
  ones, both from ports A and C. Bits 3 and 4 of port D are the strobes, bit 5 tells a
  peripheral from memory.
\<close>

definition latch_lower :: "ports \<Rightarrow> u32 \<Rightarrow> u32" where
  "latch_lower p a = (a AND 0xff0000) OR push_bit 8 (ucast (p PORTC AND p DDRC)) OR ucast (p PORTA AND p DDRA)"

definition latch_upper :: "ports \<Rightarrow> u32 \<Rightarrow> u32" where
  "latch_upper p a = (a AND 0xffff) OR push_bit 16 (ucast (p PORTC AND p DDRC))"

datatype transaction =
    ReadCycle bool u32
  | WriteCycle bool u32 u8

fun observed :: "ports \<Rightarrow> u32 \<Rightarrow> port_event list \<Rightarrow> transaction list" where
  "observed p a [] = []"
| "observed p a (e # es) =
     (let q = port_step p e;
          a = (if falls PORTB 3 p q then latch_lower p a else a);
          a = (if falls PORTD 2 p q then latch_upper p a else a)
      in (if falls PORTD 4 p q then [WriteCycle (bit (q PORTD) 5) a (p PORTA AND p DDRA)] else [])
         @ (if falls PORTD 3 p q then [ReadCycle (bit (q PORTD) 5) a] else [])
         @ observed q a es)"

text \<open>Port A is an input and the read strobe low whenever it is sampled.\<close>

fun samples_in_read :: "ports \<Rightarrow> port_event list \<Rightarrow> bool" where
  "samples_in_read p [] = True"
| "samples_in_read p (e # es) =
     ((e = SamplePINA \<longrightarrow> p DDRA = 0 \<and> \<not> bit (p PORTD) 3) \<and> samples_in_read (port_step p e) es)"

definition retro_idle :: "ports \<Rightarrow> bool" where
  "retro_idle p \<longleftrightarrow> p DDRA = 0xff \<and> p DDRB = 0b00011001 \<and> p DDRC = 0xff \<and> p DDRD = 0xff
     \<and> bit (p PORTB) 3 \<and> bit (p PORTD) 3 \<and> bit (p PORTD) 4"

lemma retro_initiate_idle: "retro_idle (ports_after p retro_initiate)"
  by (simp add: retro_idle_def ports_after_def retro_initiate_def retro_control_zero_def retro_address_zero_def)

lemma latched_address:
  "((c AND 0xff0000) OR push_bit 8 (ucast (middle_byte a)) OR ucast (lower_byte a)) AND 0xffff
     OR push_bit 16 (ucast (upper_byte a)) = take_bit 24 (a :: u32)"
proof (rule bit_word_eqI)
  fix n assume n: "n < LENGTH(32)"
  have m: "(0xff0000 :: u32) = push_bit 16 (mask 8)" "(0xffff :: u32) = mask 16" by (simp_all add: mask_eq_exp_minus_1)
  show "bit (((c AND 0xff0000) OR push_bit 8 (ucast (middle_byte a)) OR ucast (lower_byte a)) AND 0xffff
     OR push_bit 16 (ucast (upper_byte a)) :: u32) n = bit (take_bit 24 a) n"
    unfolding m using n
    by (cases "n < 8"; cases "n < 16"; cases "n < 24")
      (auto simp: upper_byte_def middle_byte_def lower_byte_def bit_simps)
qed

text \<open>
  The four cycles of the bus, from idle ports and whatever the latches hold: each is seen from
  outside as one transaction, of its kind, at the low 24 bits of the address, with the
  byte of a write; port A is sampled only while it is an input and the read strobe is low; and the ports are
  idle again.
\<close>

theorem retro_cycles:
  assumes "retro_idle p"
  shows "observed p c (retro_raw_read_memory b a) = [ReadCycle False (take_bit 24 a)]
    \<and> observed p c (retro_raw_write_memory b a x) = [WriteCycle False (take_bit 24 a) x]
    \<and> observed p c (retro_read_io b a) = [ReadCycle True (take_bit 24 a)]
    \<and> observed p c (retro_write_io b a x) = [WriteCycle True (take_bit 24 a) x]
    \<and> samples_in_read p (retro_raw_read_memory b a) \<and> samples_in_read p (retro_read_io b a)
    \<and> (\<forall>es \<in> {retro_raw_read_memory b a, retro_raw_write_memory b a x, retro_read_io b a, retro_write_io b a x}.
         retro_idle (ports_after p es))"
proof (intro conjI)
  note cycles = retro_raw_read_memory_def retro_raw_write_memory_def retro_read_io_def retro_write_io_def
  show "observed p c (retro_raw_read_memory b a) = [ReadCycle False (take_bit 24 a)]"
    "observed p c (retro_raw_write_memory b a x) = [WriteCycle False (take_bit 24 a) x]"
    "observed p c (retro_read_io b a) = [ReadCycle True (take_bit 24 a)]"
    "observed p c (retro_write_io b a x) = [WriteCycle True (take_bit 24 a) x]"
    using assms
    by (simp_all add: retro_idle_def cycles falls_def Let_def latch_lower_def latch_upper_def latched_address)
  show "samples_in_read p (retro_raw_read_memory b a)" "samples_in_read p (retro_read_io b a)"
    by (simp_all add: cycles)
  show "\<forall>es \<in> {retro_raw_read_memory b a, retro_raw_write_memory b a x, retro_read_io b a, retro_write_io b a x}.
         retro_idle (ports_after p es)"
    using assms by (simp add: retro_idle_def cycles ports_after_def)
qed

theorem retro_cycles_witness:
  "observed (ports_after (\<lambda>_. 0) retro_initiate) 0
     (retro_write_io \<lparr>read_waitstate = 2, write_waitstate = 2, bus_type = 0\<rparr> 0x1040010 7) = [WriteCycle True 0x40010 7]"
  using retro_cycles [OF retro_initiate_idle, where c = 0 and b = "\<lparr>read_waitstate = 2, write_waitstate = 2, bus_type = 0\<rparr>"
      and a = "0x1040010" and x = 7]
  by (simp add: take_bit_eq_mask mask_eq_exp_minus_1)


section \<open>The cache\<close>

text \<open>A transaction of a bus program is one raw cycle of the memory.\<close>

definition RETRO_CACHE_SIZE :: nat where "RETRO_CACHE_SIZE = 32"

record line_cache =
  line_data :: "u8 list"
  line_begin :: u32
  line_end :: u32

definition retro_cache_reset :: line_cache where
  "retro_cache_reset = \<lparr>line_data = replicate RETRO_CACHE_SIZE 0, line_begin = 0, line_end = 0\<rparr>"

definition retro_flush_cache :: "line_cache \<Rightarrow> u32 \<Rightarrow> line_cache io" where
  "retro_flush_cache c address =
     bindio (foreach (\<lambda>i. Wr (line_begin c + of_nat i) (line_data c ! i) (Ret ())) [0..<RETRO_CACHE_SIZE]) (\<lambda>_.
     bindio (mapio (\<lambda>i. Rd (address + of_nat i) Ret) [0..<RETRO_CACHE_SIZE]) (\<lambda>bs.
     Ret \<lparr>line_data = bs, line_begin = address, line_end = address + of_nat RETRO_CACHE_SIZE - 1\<rparr>))"

definition retro_read_memory :: "line_cache \<Rightarrow> u32 \<Rightarrow> (u8 \<times> line_cache) io" where
  "retro_read_memory c address =
     (if address < line_begin c \<or> address > line_end c
      then bindio (retro_flush_cache c address) (\<lambda>c. Ret (line_data c ! 0, c))
      else Ret (line_data c ! unat (address - line_begin c), c))"

definition retro_write_memory :: "line_cache \<Rightarrow> u32 \<Rightarrow> u8 \<Rightarrow> line_cache io" where
  "retro_write_memory c address byte =
     (if address < line_begin c \<or> address > line_end c
      then bindio (retro_flush_cache c address) (\<lambda>c. Ret (c\<lparr>line_data := (line_data c)[0 := byte]\<rparr>))
      else Ret (c\<lparr>line_data := (line_data c)[unat (address - line_begin c) := byte]\<rparr>))"

definition retro_rd :: "line_cache \<times> mem \<Rightarrow> u32 \<Rightarrow> u8 \<times> (line_cache \<times> mem)" where
  "retro_rd s a = (case exec (retro_read_memory (fst s) a) (snd s) of ((b, c), r) \<Rightarrow> (b, (c, r)))"

definition retro_wr :: "line_cache \<times> mem \<Rightarrow> u32 \<Rightarrow> u8 \<Rightarrow> line_cache \<times> mem" where
  "retro_wr s a b = exec (retro_write_memory (fst s) a b) (snd s)"

text \<open>The memory behind the line, with the line over it; the line loaded; addresses with room for a line.\<close>

definition line_over :: "line_cache \<times> mem \<Rightarrow> mem" where
  "line_over s a = (if unat (a - line_begin (fst s)) < 32
     then line_data (fst s) ! unat (a - line_begin (fst s)) else snd s a)"

definition line_room :: "u32 \<Rightarrow> bool" where
  "line_room a \<longleftrightarrow> unat a + 32 \<le> 2 ^ 32"

definition line_loaded :: "line_cache \<times> mem \<Rightarrow> bool" where
  "line_loaded s \<longleftrightarrow> length (line_data (fst s)) = 32 \<and> line_room (line_begin (fst s))
     \<and> line_end (fst s) = line_begin (fst s) + 31"

lemma line_hit:
  assumes "line_room b"
  shows "\<not> (a < b \<or> a > b + 31) \<longleftrightarrow> unat (a - b) < 32"
proof -
  have e: "unat (b + 31) = unat b + 31"
    using assms by (subst unat_add_no_wrap) (simp_all add: line_room_def)
  show ?thesis
  proof (cases "a < b")
    case True
    then have "unat a < unat b" by (simp add: word_less_nat_alt)
    then have "unat (a - b) = 2 ^ 32 + unat a - unat b"
      by (simp add: unat_sub_if')
    then show ?thesis using True assms by (simp add: line_room_def)
  next
    case False
    then have "unat (a - b) = unat a - unat b" "unat b \<le> unat a"
      by (simp_all add: unat_sub_le word_le_nat_alt not_less)
    then show ?thesis using False e by (auto simp: word_less_nat_alt)
  qed
qed

lemma fold_line:
  assumes "n \<le> 32"
  shows "fold (\<lambda>i m. m(b + of_nat i := d ! i)) [0..<n] m
    = (\<lambda>x. if unat (x - b :: u32) < n then d ! unat (x - b) else m x)"
  using assms
proof (induction n)
  case 0
  then show ?case by simp
next
  case (Suc n)
  have "x = b + of_nat n \<longleftrightarrow> unat (x - b) = n" for x
  proof
    assume "x = b + of_nat n"
    then show "unat (x - b) = n" using Suc.prems by (simp add: unat_of_nat)
  next
    assume "unat (x - b) = n"
    then have "of_nat n = x - b" by auto
    then show "x = b + of_nat n" by simp
  qed
  then show ?case using Suc by (auto simp: fun_eq_iff less_Suc_eq)
qed

lemma exec_retro_flush:
  "exec (retro_flush_cache c a) r =
     (\<lparr>line_data = map (\<lambda>i. line_over (c, r) (a + of_nat i)) [0..<32], line_begin = a, line_end = a + 31\<rparr>,
      line_over (c, r))"
proof -
  have w: "exec (foreach (\<lambda>i. Wr (line_begin c + of_nat i) (line_data c ! i) (Ret ())) [0..<32]) r
      = ((), line_over (c, r))"
    using exec_foreach [where f = "\<lambda>i. Wr (line_begin c + of_nat i) (line_data c ! i) (Ret ())"
        and g = "\<lambda>i m. m(line_begin c + of_nat i := line_data c ! i)" and xs = "[0..<32]" and m = r]
      fold_line [of 32 "line_begin c" "line_data c" r]
    by (simp add: exec_Wr line_over_def fun_eq_iff)
  have "exec (mapio (\<lambda>i. Rd (a + of_nat i) Ret) [0..<32]) m = (map (\<lambda>i. m (a + of_nat i)) [0..<32], m)" for m
    by (rule exec_mapio_read [where g = "\<lambda>m i. m (a + of_nat i)"]) (simp add: exec_Rd)
  then show ?thesis
    by (simp add: retro_flush_cache_def RETRO_CACHE_SIZE_def io_simps w)
qed

lemma line_over_fetched:
  "line_over (\<lparr>line_data = map (\<lambda>i. v (a + of_nat i)) [0..<32], line_begin = a, line_end = e\<rparr>, v) = v"
  by (auto simp: line_over_def fun_eq_iff)

lemma line_over_store:
  assumes "length (line_data c) = 32" and "unat (a - line_begin c) < 32"
  shows "line_over (c\<lparr>line_data := (line_data c)[unat (a - line_begin c) := b]\<rparr>, r) = (line_over (c, r))(a := b)"
proof
  fix x
  have "unat (x - line_begin c) = unat (a - line_begin c) \<longleftrightarrow> x = a" by (simp add: word_unat_eq_iff [symmetric])
  then show "line_over (c\<lparr>line_data := (line_data c)[unat (a - line_begin c) := b]\<rparr>, r) x = ((line_over (c, r))(a := b)) x"
    using assms by (auto simp: line_over_def nth_list_update)
qed


section \<open>Refinement\<close>

lemma flush_loaded:
  "line_room a \<Longrightarrow> line_loaded (fst (exec (retro_flush_cache c a) r), r')"
  by (simp add: line_loaded_def exec_retro_flush)

lemma retro_rd_miss:
  assumes "a < line_begin c \<or> a > line_end c"
  shows "retro_rd (c, r) a = (line_over (c, r) a, exec (retro_flush_cache c a) r)"
  using assms by (simp add: retro_rd_def retro_read_memory_def io_simps exec_retro_flush)

lemma retro_rd_correct:
  assumes l: "line_loaded s" and a: "line_room a"
  shows "fst (retro_rd s a) = line_over s a" "line_loaded (snd (retro_rd s a))"
    "line_over (snd (retro_rd s a)) = line_over s"
proof -
  obtain c r where s: "s = (c, r)" by force
  have hit: "\<not> (a < line_begin c \<or> a > line_end c) \<longleftrightarrow> unat (a - line_begin c) < 32"
    using line_hit [of "line_begin c" a] l by (simp add: s line_loaded_def)
  have "fst (retro_rd s a) = line_over s a \<and> line_loaded (snd (retro_rd s a)) \<and> line_over (snd (retro_rd s a)) = line_over s"
  proof (cases "a < line_begin c \<or> a > line_end c")
    case True
    then show ?thesis
      using a by (simp add: s retro_rd_miss exec_retro_flush line_over_fetched line_loaded_def)
  next
    case False
    then show ?thesis using hit l by (simp add: s retro_rd_def retro_read_memory_def line_over_def)
  qed
  then show "fst (retro_rd s a) = line_over s a" "line_loaded (snd (retro_rd s a))"
    "line_over (snd (retro_rd s a)) = line_over s" by simp_all
qed

lemma retro_wr_correct:
  assumes l: "line_loaded s" and a: "line_room a"
  shows "line_loaded (retro_wr s a b)" "line_over (retro_wr s a b) = (line_over s)(a := b)"
proof -
  obtain c r where s: "s = (c, r)" by force
  have hit: "\<not> (a < line_begin c \<or> a > line_end c) \<longleftrightarrow> unat (a - line_begin c) < 32"
    using line_hit [of "line_begin c" a] l by (simp add: s line_loaded_def)
  have "line_loaded (retro_wr s a b) \<and> line_over (retro_wr s a b) = (line_over s)(a := b)"
  proof (cases "a < line_begin c \<or> a > line_end c")
    case True
    let ?c = "fst (exec (retro_flush_cache c a) r)"
    have c: "line_begin ?c = a" "length (line_data ?c) = 32" "line_end ?c = a + 31"
      by (simp_all add: exec_retro_flush)
    have "retro_wr s a b = (?c\<lparr>line_data := (line_data ?c)[unat (a - line_begin ?c) := b]\<rparr>, line_over s)"
      using True by (simp add: s retro_wr_def retro_write_memory_def io_simps exec_retro_flush)
    moreover have "line_over (?c, line_over s) = line_over s"
      by (simp add: s exec_retro_flush line_over_fetched)
    ultimately show ?thesis
      using line_over_store [of ?c a b "line_over s"] c a by (simp add: line_loaded_def)
  next
    case False
    then show ?thesis
      using hit l line_over_store [of c a b r] by (simp add: s retro_wr_def retro_write_memory_def line_loaded_def)
  qed
  then show "line_loaded (retro_wr s a b)" "line_over (retro_wr s a b) = (line_over s)(a := b)" by simp_all
qed

interpretation retro: byte_store retro_rd retro_wr line_over line_loaded line_room
  by unfold_locales (simp_all add: retro_rd_correct retro_wr_correct)

text \<open>
  C40. The cache of the other board. Once a line is loaded, every program computes through the cache what it
  computes on the flat memory. But the cache starts with a line that was never loaded, at address 0, and
  the first access elsewhere writes it back: the first 32 bytes of the memory are cleared, and the
  access itself finds a zero if it is to one of them.
\<close>

theorem retro_cache_refines_after_loss:
  assumes "a \<noteq> 0" and "line_room a"
    and "touched p (\<lambda>x. if unat x < 32 then 0 else r x) \<subseteq> Collect line_room"
  shows "(let cleared = (\<lambda>x. if unat x < 32 then 0 else r x);
              s = retro_rd (retro_cache_reset, r) a in
      fst s = cleared a \<and> line_over (snd s) = cleared
      \<and> fst (run_io retro_rd retro_wr p (snd s)) = fst (exec p cleared))"
proof -
  let ?m = "\<lambda>x. if unat x < 32 then 0 else r x"
  have o: "line_over (retro_cache_reset, r) = ?m"
    by (auto simp: line_over_def retro_cache_reset_def RETRO_CACHE_SIZE_def)
  have miss: "a < line_begin retro_cache_reset \<or> a > line_end retro_cache_reset"
    using assms(1) by (simp add: retro_cache_reset_def word_gt_0)
  let ?s = "exec (retro_flush_cache retro_cache_reset a) r"
  have s: "retro_rd (retro_cache_reset, r) a = (?m a, ?s)" by (simp add: retro_rd_miss [OF miss] o)
  have l: "line_loaded ?s" using assms(2) by (simp add: exec_retro_flush line_loaded_def)
  have "line_over ?s = line_over (retro_cache_reset, r)" unfolding exec_retro_flush by (rule line_over_fetched)
  then have v: "line_over ?s = ?m" using o by simp
  have "fst (run_io retro_rd retro_wr p ?s) = fst (exec p ?m)"
    using retro.refines_flat [OF l retro.same_refl, unfolded v, OF assms(3)] by blast
  then show ?thesis by (simp add: Let_def s v)
qed

theorem retro_cache_refines_after_loss_witness:
  "fst (run_io retro_rd retro_wr (Wr 40 7 (Rd 5 Ret)) (snd (retro_rd (retro_cache_reset, \<lambda>_. 9) 100))) = 0"
proof -
  have "touched (Wr 40 7 (Rd 5 Ret)) (\<lambda>x. if unat x < 32 then 0 else 9) \<subseteq> Collect line_room"
    by (simp add: line_room_def)
  from retro_cache_refines_after_loss [OF _ _ this, of 100]
  show ?thesis by (simp add: Let_def line_room_def exec_Rd exec_Wr)
qed

end
