(* ===== verification/FsLayout.thy ===== *)
theory FsLayout
  imports BusProgram
begin

text \<open>
  The on-device layout of the base file system (kernel/fs/fs.h) and the accessors of a file
  header (kernel/fs/basefs/fsFile.c, fsDirectory.c). Every operation is a bus program over the
  two byte accesses of fsDevice.c, which the bus serves through the cached memory of theory
  BusCache. The abstract specification is the record of a header's fields: each setter updates
  exactly one field of it, and each getter reads one.
\<close>

section \<open>Constants and types\<close>

definition FILE_NAME_LENGTH :: nat where "FILE_NAME_LENGTH = 10"

definition SECTOR_FREE :: u8 where "SECTOR_FREE = ch CHR ''?''"
definition SECTOR_HEADER :: u8 where "SECTOR_HEADER = ch CHR ''U''"
definition SECTOR_USED :: u8 where "SECTOR_USED = ch CHR ''D''"

definition FILE_OFFSET_NAME :: u32 where "FILE_OFFSET_NAME = 1"
definition FILE_OFFSET_SIZE :: u32 where "FILE_OFFSET_SIZE = 11"
definition FILE_OFFSET_ATTRIBUTES :: u32 where "FILE_OFFSET_ATTRIBUTES = 15"
definition FILE_OFFSET_REF_COUNT :: u32 where "FILE_OFFSET_REF_COUNT = 19"
definition FILE_OFFSET_FLAG :: u32 where "FILE_OFFSET_FLAG = 23"
definition FILE_OFFSET_PARENT :: u32 where "FILE_OFFSET_PARENT = 24"
definition FILE_OFFSET_NEXT :: u32 where "FILE_OFFSET_NEXT = 28"

declare FILE_NAME_LENGTH_def [layout_simps] FILE_OFFSET_NAME_def [layout_simps]
  FILE_OFFSET_SIZE_def [layout_simps] FILE_OFFSET_ATTRIBUTES_def [layout_simps]
  FILE_OFFSET_REF_COUNT_def [layout_simps] FILE_OFFSET_FLAG_def [layout_simps]
  FILE_OFFSET_PARENT_def [layout_simps] FILE_OFFSET_NEXT_def [layout_simps]

lemma sector_markers_distinct [simp]:
  "SECTOR_FREE \<noteq> SECTOR_HEADER" "SECTOR_HEADER \<noteq> SECTOR_FREE"
  "SECTOR_FREE \<noteq> SECTOR_USED" "SECTOR_USED \<noteq> SECTOR_FREE"
  "SECTOR_HEADER \<noteq> SECTOR_USED" "SECTOR_USED \<noteq> SECTOR_HEADER"
  by (simp_all add: SECTOR_FREE_def SECTOR_HEADER_def SECTOR_USED_def ch_def)

type_synonym handle = u32

record partition =
  block_address :: u32
  block_size :: u32
  sector_count :: u32
  sector_size :: u32

text \<open>
  C arrays are functions from the index, so that a read behind the end has the value that
  happens to lie there, as in C. A C string is the list of its bytes before the terminating
  NUL; \<open>cstr_at\<close> is its indexing.
\<close>

type_synonym buffer = "nat \<Rightarrow> u8"

definition cstr_at :: "u8 list \<Rightarrow> nat \<Rightarrow> u8" where
  "cstr_at s i = (if i < length s then s ! i else 0)"


section \<open>Byte access\<close>

definition fs_read_byte :: "u32 \<Rightarrow> u8 io" where
  "fs_read_byte address = Rd address Ret"

definition fs_write_byte :: "u32 \<Rightarrow> u8 \<Rightarrow> unit io" where
  "fs_write_byte address data = Wr address data (Ret ())"

lemma exec_fs_read_byte [io_simps]: "exec (fs_read_byte a) m = (m a, m)"
  by (simp add: fs_read_byte_def io_simps)

lemma exec_fs_write_byte [io_simps]: "exec (fs_write_byte a b) m = ((), m(a := b))"
  by (simp add: fs_write_byte_def io_simps)


section \<open>Header accessors\<close>

definition fsFileGetSize :: "partition \<Rightarrow> handle \<Rightarrow> u32 io" where
  "fsFileGetSize part handle =
     bindio (mapio (\<lambda>i. fs_read_byte (block_address part + handle + of_nat i + FILE_OFFSET_SIZE)) [0..<4])
       (\<lambda>sizeBytes. Ret (le32 sizeBytes))"

definition fsFileSetAttributes :: "partition \<Rightarrow> handle \<Rightarrow> u8 list \<Rightarrow> unit io" where
  "fsFileSetAttributes part handle attributes =
     foreach (\<lambda>i. fs_write_byte (block_address part + handle + of_nat i + FILE_OFFSET_ATTRIBUTES)
                (cstr_at attributes i)) [0..<4]"

definition fsFileGetAttributes :: "partition \<Rightarrow> handle \<Rightarrow> u8 list io" where
  "fsFileGetAttributes part handle =
     mapio (\<lambda>i. fs_read_byte (block_address part + handle + of_nat i + FILE_OFFSET_ATTRIBUTES)) [0..<4]"

definition fsFileSetFlag :: "partition \<Rightarrow> handle \<Rightarrow> u8 \<Rightarrow> u8 \<Rightarrow> unit io" where
  "fsFileSetFlag part handle index state =
     bindio (fs_read_byte (block_address part + handle + FILE_OFFSET_FLAG)) (\<lambda>flag.
     let flag = (if state = 1 then flag OR push_bit (unat index) 1
                 else flag AND NOT (push_bit (unat index) 1)) in
     fs_write_byte (block_address part + handle + FILE_OFFSET_FLAG) flag)"

definition fsFileGetFlag :: "partition \<Rightarrow> handle \<Rightarrow> u8 \<Rightarrow> u8 io" where
  "fsFileGetFlag part handle index =
     bindio (fs_read_byte (block_address part + handle + FILE_OFFSET_FLAG)) (\<lambda>flag.
     Ret (drop_bit (unat index) flag AND 1))"

definition fsFileSetParentAddress :: "partition \<Rightarrow> handle \<Rightarrow> u32 \<Rightarrow> unit io" where
  "fsFileSetParentAddress part handle parent =
     foreach (\<lambda>i. fs_write_byte (block_address part + handle + of_nat i + FILE_OFFSET_PARENT)
                (le32_bytes parent ! i)) [0..<4]"

definition fsFileGetParentAddress :: "partition \<Rightarrow> handle \<Rightarrow> u32 io" where
  "fsFileGetParentAddress part handle =
     bindio (mapio (\<lambda>i. fs_read_byte (block_address part + handle + of_nat i + FILE_OFFSET_PARENT)) [0..<4])
       (\<lambda>ptrBytes. Ret (le32 ptrBytes))"

definition fsFileSetNextAddress :: "partition \<Rightarrow> handle \<Rightarrow> u32 \<Rightarrow> unit io" where
  "fsFileSetNextAddress part handle nxt =
     foreach (\<lambda>i. fs_write_byte (block_address part + handle + of_nat i + FILE_OFFSET_NEXT)
                (le32_bytes nxt ! i)) [0..<4]"

definition fsFileGetNextAddress :: "partition \<Rightarrow> handle \<Rightarrow> u32 io" where
  "fsFileGetNextAddress part handle =
     bindio (mapio (\<lambda>i. fs_read_byte (block_address part + handle + of_nat i + FILE_OFFSET_NEXT)) [0..<4])
       (\<lambda>ptrBytes. Ret (le32 ptrBytes))"

definition fsDirectorySetReferenceCount :: "partition \<Rightarrow> handle \<Rightarrow> u32 \<Rightarrow> unit io" where
  "fsDirectorySetReferenceCount part handle count =
     foreach (\<lambda>i. fs_write_byte (block_address part + handle + of_nat i + FILE_OFFSET_REF_COUNT)
                (le32_bytes count ! i)) [0..<4]"

definition fsDirectoryGetReferenceCount :: "partition \<Rightarrow> handle \<Rightarrow> u32 io" where
  "fsDirectoryGetReferenceCount part handle =
     bindio (mapio (\<lambda>i. fs_read_byte (block_address part + handle + of_nat i + FILE_OFFSET_REF_COUNT)) [0..<4])
       (\<lambda>sizeBytes. Ret (le32 sizeBytes))"

text \<open>
  Names. \<open>clean_name\<close> is the second loop of \<open>fsFileSetName\<close>: it copies into the blank
  buffer up to the terminator.
\<close>

fun clean_name :: "u8 list \<Rightarrow> nat list \<Rightarrow> u8 list \<Rightarrow> u8 list" where
  "clean_name name [] filename = filename"
| "clean_name name (i # is) filename =
     (if cstr_at name i = 0 then filename
      else clean_name name is (filename[i := cstr_at name i]))"

definition fsFileSetName :: "partition \<Rightarrow> handle \<Rightarrow> u8 list \<Rightarrow> unit io" where
  "fsFileSetName part handle name =
     (let filename = clean_name name [0..<FILE_NAME_LENGTH]
                       (replicate FILE_NAME_LENGTH (ch CHR '' '')) in
      foreach (\<lambda>i. fs_write_byte (block_address part + handle + of_nat i + FILE_OFFSET_NAME)
                 (filename ! i)) [0..<FILE_NAME_LENGTH])"

fun read_name :: "partition \<Rightarrow> handle \<Rightarrow> nat list \<Rightarrow> u8 list \<Rightarrow> u8 list io" where
  "read_name part handle [] name = Ret name"
| "read_name part handle (i # is) name =
     bindio (fs_read_byte (block_address part + handle + of_nat i + FILE_OFFSET_NAME)) (\<lambda>b.
     if b = 0 then Ret (name[i := ch CHR '' ''])
     else read_name part handle is (name[i := b]))"

definition fsFileGetName :: "partition \<Rightarrow> handle \<Rightarrow> u8 list \<Rightarrow> u8 list io" where
  "fsFileGetName part handle name = read_name part handle [0..<FILE_NAME_LENGTH] name"


section \<open>Blocks of bytes in a memory\<close>

definition get_bytes :: "mem \<Rightarrow> u32 \<Rightarrow> nat \<Rightarrow> u8 list" where
  "get_bytes m a n = map (\<lambda>i. m (a + of_nat i)) [0..<n]"

definition put_bytes :: "mem \<Rightarrow> u32 \<Rightarrow> u8 list \<Rightarrow> mem" where
  "put_bytes m a bs = (\<lambda>x. if unat (x - a) < length bs then bs ! unat (x - a) else m x)"

definition get32 :: "mem \<Rightarrow> u32 \<Rightarrow> u32" where
  "get32 m a = le32 (get_bytes m a 4)"

definition put32 :: "mem \<Rightarrow> u32 \<Rightarrow> u32 \<Rightarrow> mem" where
  "put32 m a v = put_bytes m a (le32_bytes v)"

lemma length_get_bytes [simp]: "length (get_bytes m a n) = n"
  by (simp add: get_bytes_def)

lemma nth_get_bytes [simp]: "i < n \<Longrightarrow> get_bytes m a n ! i = m (a + of_nat i)"
  by (simp add: get_bytes_def)

lemma put_bytes_Nil [simp]: "put_bytes m a [] = m"
  by (simp add: put_bytes_def)

text \<open>Writing consecutive bytes one at a time is \<open>put_bytes\<close>.\<close>

lemma put_bytes_snoc:
  assumes "length bs < 2 ^ 32"
  shows "put_bytes m a (bs @ [b]) = (put_bytes m a bs)(a + of_nat (length bs) := b)"
proof
  fix x
  have u: "unat (of_nat (length bs) :: u32) = length bs"
    using assms by (simp add: unat_of_nat)
  have "x = a + of_nat (length bs) \<longleftrightarrow> unat (x - a) = length bs"
    using u by (metis add_diff_cancel_left' diff_add_cancel add.commute word_unat_eq_iff)
  then show "put_bytes m a (bs @ [b]) x = ((put_bytes m a bs)(a + of_nat (length bs) := b)) x"
    by (auto simp: put_bytes_def nth_append)
qed

lemma exec_write_fun:
  "n < 2 ^ 32 \<Longrightarrow> exec (foreach (\<lambda>i. fs_write_byte (a + of_nat i + k) (f i)) [0..<n]) m
    = ((), put_bytes m (a + k) (map f [0..<n]))"
proof (induction n)
  case 0
  then show ?case by simp
next
  case (Suc n)
  then show ?case
    using put_bytes_snoc [of "map f [0..<n]" m "a + k" "f n"]
    by (simp add: foreach_append io_simps add_ac fun_upd_def)
qed

lemma exec_read_bytes:
  "exec (mapio (\<lambda>i. fs_read_byte (a + of_nat i + k)) [0..<n]) m = (get_bytes m (a + k) n, m)"
  by (subst exec_mapio_read [where g = "\<lambda>m i. m (a + of_nat i + k)"])
    (auto simp: io_simps get_bytes_def add_ac)

lemma get_put_bytes:
  "length bs < 2 ^ 32 \<Longrightarrow> get_bytes (put_bytes m a bs) a (length bs) = bs"
  by (rule nth_equalityI) (auto simp: put_bytes_def unat_of_nat)

lemma get_put32 [simp]: "get32 (put32 m a v) a = v"
  using get_put_bytes [of "le32_bytes v" m a] by (simp add: get32_def put32_def)

text \<open>Two blocks that do not overlap. \<open>apart a n b k\<close>: \<open>n\<close> bytes at \<open>a\<close>, \<open>k\<close> bytes at \<open>b\<close>.\<close>

definition apart :: "u32 \<Rightarrow> nat \<Rightarrow> u32 \<Rightarrow> nat \<Rightarrow> bool" where
  "apart a n b k \<longleftrightarrow> (\<forall>i < n. \<forall>j < k. a + of_nat i \<noteq> b + of_nat j)"

lemma put_bytes_other:
  assumes "\<And>j. j < length bs \<Longrightarrow> x \<noteq> a + of_nat j"
  shows "put_bytes m a bs x = m x"
proof -
  have "\<not> unat (x - a) < length bs"
    using assms [of "unat (x - a)"] by auto
  then show ?thesis by (simp add: put_bytes_def)
qed

lemma get_put_bytes_apart:
  "apart b n a (length bs) \<Longrightarrow> get_bytes (put_bytes m a bs) b n = get_bytes m b n"
  by (rule nth_equalityI) (auto simp: apart_def intro!: put_bytes_other)

lemma get32_put_bytes_apart:
  "apart b 4 a (length bs) \<Longrightarrow> get32 (put_bytes m a bs) b = get32 m b"
  by (simp add: get32_def get_put_bytes_apart)

lemma apart_offsets:
  assumes "k + n \<le> l \<or> l + p \<le> k" "k + n \<le> 2 ^ 32" "l + p \<le> 2 ^ 32"
  shows "apart (a + of_nat k) n (a + of_nat l) p"
proof -
  have "a + of_nat k + of_nat i \<noteq> a + of_nat l + of_nat j" if "i < n" "j < p" for i j
  proof -
    have "(of_nat (k + i) :: u32) \<noteq> of_nat (l + j)"
      using assms that by (subst of_nat_u32_inj) auto
    then show ?thesis by (simp add: add.assoc)
  qed
  then show ?thesis by (simp add: apart_def)
qed


section \<open>The header as a record\<close>

record header =
  h_marker :: u8
  h_name :: "u8 list"
  h_size :: u32
  h_attributes :: "u8 list"
  h_refcount :: u32
  h_flag :: u8
  h_parent :: u32
  h_next :: u32

definition header_of :: "partition \<Rightarrow> handle \<Rightarrow> mem \<Rightarrow> header" where
  "header_of part h m = (let a = block_address part + h in
     \<lparr>h_marker = m a, h_name = get_bytes m (a + 1) 10, h_size = get32 m (a + 11),
      h_attributes = get_bytes m (a + 15) 4, h_refcount = get32 m (a + 19), h_flag = m (a + 23),
      h_parent = get32 m (a + 24), h_next = get32 m (a + 28)\<rparr>)"

text \<open>What a name becomes on the device: cut at ten bytes or the terminator, padded with blanks.\<close>

definition padded_name :: "u8 list \<Rightarrow> u8 list" where
  "padded_name s = (let p = takeWhile (\<lambda>b. b \<noteq> 0) (take 10 s) in
     p @ replicate (10 - length p) (ch CHR '' ''))"

lemma length_padded_name [simp]: "length (padded_name s) = 10"
  using length_takeWhile_le [of "\<lambda>b. b \<noteq> 0" "take 10 s"] by (simp add: padded_name_def Let_def)

section \<open>What the accessors do to a memory\<close>

lemma le32_bytes_nth_upt: "map ((!) (le32_bytes v)) [0..<4] = le32_bytes v"
  using map_nth [of "le32_bytes v"] by simp

lemma exec_fsFileGetSize [io_simps]:
  "exec (fsFileGetSize part h) m = (get32 m (block_address part + h + 11), m)"
  by (simp add: fsFileGetSize_def exec_read_bytes io_simps layout_simps get32_def)

lemma exec_fsFileGetParentAddress [io_simps]:
  "exec (fsFileGetParentAddress part h) m = (get32 m (block_address part + h + 24), m)"
  by (simp add: fsFileGetParentAddress_def exec_read_bytes io_simps layout_simps get32_def)

lemma exec_fsFileGetNextAddress [io_simps]:
  "exec (fsFileGetNextAddress part h) m = (get32 m (block_address part + h + 28), m)"
  by (simp add: fsFileGetNextAddress_def exec_read_bytes io_simps layout_simps get32_def)

lemma exec_fsDirectoryGetReferenceCount [io_simps]:
  "exec (fsDirectoryGetReferenceCount part h) m = (get32 m (block_address part + h + 19), m)"
  by (simp add: fsDirectoryGetReferenceCount_def exec_read_bytes io_simps layout_simps get32_def)

lemma exec_fsFileGetAttributes [io_simps]:
  "exec (fsFileGetAttributes part h) m = (get_bytes m (block_address part + h + 15) 4, m)"
  by (simp add: fsFileGetAttributes_def exec_read_bytes layout_simps)

lemma exec_fsFileGetFlag [io_simps]:
  "exec (fsFileGetFlag part h i) m
    = (drop_bit (unat i) (m (block_address part + h + 23)) AND 1, m)"
  by (simp add: fsFileGetFlag_def io_simps layout_simps)

lemma exec_fsFileSetParentAddress [io_simps]:
  "exec (fsFileSetParentAddress part h v) m = ((), put32 m (block_address part + h + 24) v)"
  by (simp add: fsFileSetParentAddress_def exec_write_fun layout_simps put32_def le32_bytes_nth_upt)

lemma exec_fsFileSetNextAddress [io_simps]:
  "exec (fsFileSetNextAddress part h v) m = ((), put32 m (block_address part + h + 28) v)"
  by (simp add: fsFileSetNextAddress_def exec_write_fun layout_simps put32_def le32_bytes_nth_upt)

lemma exec_fsDirectorySetReferenceCount [io_simps]:
  "exec (fsDirectorySetReferenceCount part h v) m = ((), put32 m (block_address part + h + 19) v)"
  by (simp add: fsDirectorySetReferenceCount_def exec_write_fun layout_simps put32_def
      le32_bytes_nth_upt)

lemma exec_fsFileSetAttributes [io_simps]:
  "exec (fsFileSetAttributes part h s) m
    = ((), put_bytes m (block_address part + h + 15) (map (cstr_at s) [0..<4]))"
  by (simp add: fsFileSetAttributes_def exec_write_fun layout_simps)

definition flag_with :: "u8 \<Rightarrow> u8 \<Rightarrow> u8 \<Rightarrow> u8" where
  "flag_with index state flag =
     (if state = 1 then flag OR push_bit (unat index) 1
      else flag AND NOT (push_bit (unat index) 1))"

lemma exec_fsFileSetFlag [io_simps]:
  "exec (fsFileSetFlag part h i v) m
    = ((), m(block_address part + h + 23 := flag_with i v (m (block_address part + h + 23))))"
  by (simp add: fsFileSetFlag_def io_simps layout_simps flag_with_def Let_def)

text \<open>Names.\<close>

lemma clean_name_padded:
  assumes "k \<le> n" "length p = k"
  shows "clean_name s [k..<n] (p @ replicate (n - k) x)
    = (let q = takeWhile (\<lambda>b. b \<noteq> 0) (take (n - k) (drop k s)) in
       p @ q @ replicate (n - k - length q) x)"
  using assms
proof (induction "n - k" arbitrary: k p)
  case 0
  then show ?case by simp
next
  case (Suc d)
  then have kn: "k < n" by simp
  show ?case
  proof (cases "cstr_at s k = 0")
    case True
    then have "takeWhile (\<lambda>b. b \<noteq> 0) (take (n - k) (drop k s)) = []"
      using kn by (auto simp: cstr_at_def Cons_nth_drop_Suc [symmetric] take_Cons' split: if_splits)
    then show ?thesis using True kn by (simp add: upt_rec)
  next
    case False
    then have k: "k < length s" and b: "s ! k \<noteq> 0" by (auto simp: cstr_at_def split: if_splits)
    have upd: "(p @ replicate (n - k) x)[k := s ! k]
        = (p @ [s ! k]) @ replicate (n - Suc k) x"
      using Suc.prems kn by (simp add: list_update_append Suc_diff_Suc [symmetric])
    have ih: "clean_name s [Suc k..<n] ((p @ [s ! k]) @ replicate (n - Suc k) x)
      = (let q = takeWhile (\<lambda>b. b \<noteq> 0) (take (n - Suc k) (drop (Suc k) s)) in
         (p @ [s ! k]) @ q @ replicate (n - Suc k - length q) x)"
      using Suc.hyps Suc.prems kn by (intro Suc.hyps(1)) auto
    have "takeWhile (\<lambda>b. b \<noteq> 0) (take (n - k) (drop k s))
        = s ! k # takeWhile (\<lambda>b. b \<noteq> 0) (take (n - Suc k) (drop (Suc k) s))"
      using k b kn by (simp add: Cons_nth_drop_Suc [symmetric] take_Cons')
    then show ?thesis
      using False kn upd ih k by (simp add: upt_rec [of k n] cstr_at_def Let_def)
  qed
qed

lemma exec_fsFileSetName [io_simps]:
  "exec (fsFileSetName part h s) m = ((), put_bytes m (block_address part + h + 1) (padded_name s))"
proof -
  have c: "clean_name s [0..<10] (replicate 10 (ch CHR '' '')) = padded_name s"
    using clean_name_padded [of 0 10 "[]" s "ch CHR '' ''"] by (simp add: padded_name_def Let_def)
  have m: "map ((!) (padded_name s)) [0..<10] = padded_name s"
    using map_nth [of "padded_name s"] by simp
  show ?thesis
    by (simp add: fsFileSetName_def layout_simps c exec_write_fun m)
qed

text \<open>Reading a field back from a memory in which another was written.\<close>

text \<open>Non-overlap of blocks at literal offsets, decided by the simplifier.\<close>

lemma apart_numeral [simp]:
  "numeral x + n \<le> (numeral y :: nat) \<or> numeral y + p \<le> (numeral x :: nat) \<Longrightarrow>
     numeral x + n \<le> (2 ^ 32 :: nat) \<Longrightarrow> numeral y + p \<le> (2 ^ 32 :: nat) \<Longrightarrow>
     apart (a + numeral x) n (a + numeral y) p"
  using apart_offsets [of "numeral x" n "numeral y" p a] by simp

lemma apart_one [simp]:
  assumes "1 + n \<le> (numeral y :: nat)" "numeral y + p \<le> (2 ^ 32 :: nat)"
  shows "apart (a + 1) n (a + numeral y) p" "apart (a + numeral y) p (a + 1) n"
proof -
  have b: "1 + n \<le> (2 ^ 32 :: nat)" using assms by linarith
  show "apart (a + 1) n (a + numeral y) p"
    using apart_offsets [of 1 n "numeral y" p a, OF disjI1 [OF assms(1)] b assms(2)] by simp
  show "apart (a + numeral y) p (a + 1) n"
    using apart_offsets [of "numeral y" p 1 n a, OF disjI2 [OF assms(1)] assms(2) b] by simp
qed

lemma unat_minus_one: "unat (-1 :: u32) = 4294967295"
  by (simp add: unsigned_minus_1_eq_mask mask_eq_exp_minus_1)

lemma put_bytes_offset:
  "put_bytes m (a + x) bs (a + y) =
     (if unat (y - x) < length bs then bs ! unat (y - x) else m (a + y))"
  "put_bytes m (a + x) bs a = (if unat (- x) < length bs then bs ! unat (- x) else m a)"
  by (simp_all add: put_bytes_def)

lemmas header_update_simps = io_simps header_of_def Let_def put32_def get32_put_bytes_apart
  get_put_bytes_apart put_bytes_offset get_put32 [unfolded put32_def] unat_minus_one

text \<open>Each setter writes exactly one field of the header record.\<close>

lemma header_set_parent:
  "header_of part h (snd (exec (fsFileSetParentAddress part h v) m))
     = (header_of part h m)\<lparr>h_parent := v\<rparr>"
  by (simp add: header_update_simps)

lemma header_set_next:
  "header_of part h (snd (exec (fsFileSetNextAddress part h v) m))
     = (header_of part h m)\<lparr>h_next := v\<rparr>"
  by (simp add: header_update_simps)

lemma header_set_refcount:
  "header_of part h (snd (exec (fsDirectorySetReferenceCount part h v) m))
     = (header_of part h m)\<lparr>h_refcount := v\<rparr>"
  by (simp add: header_update_simps)

lemma header_set_attributes:
  "header_of part h (snd (exec (fsFileSetAttributes part h s) m))
     = (header_of part h m)\<lparr>h_attributes := map (cstr_at s) [0..<4]\<rparr>"
  using get_put_bytes [of "map (cstr_at s) [0..<4]" m "block_address part + h + 15"]
  by (simp add: header_update_simps)

lemma header_set_name:
  "header_of part h (snd (exec (fsFileSetName part h s) m))
     = (header_of part h m)\<lparr>h_name := padded_name s\<rparr>"
  using get_put_bytes [of "padded_name s" m "block_address part + h + 1"]
  by (simp add: header_update_simps)

lemma get_bytes_upd_other:
  "x - a \<ge> of_nat n \<Longrightarrow> n < 2 ^ 32 \<Longrightarrow> get_bytes (m(x := b)) a n = get_bytes m a n"
  by (rule nth_equalityI) (auto simp: word_le_nat_alt unat_of_nat)

lemma header_set_flag:
  "header_of part h (snd (exec (fsFileSetFlag part h i v) m))
     = (header_of part h m)\<lparr>h_flag := flag_with i v (h_flag (header_of part h m))\<rparr>"
  by (simp add: header_update_simps get32_def get_bytes_upd_other del: fun_upd_apply)
    (simp add: fun_upd_def)

text \<open>
  The header of a file is a record of eight fields that do not interfere: every setter of
  the file system changes its own field to the value given and no other field (the name
  blank-padded or cut to ten bytes, the attributes to four), and every getter returns its own.
\<close>

theorem header_accessors_refine_record:
  "header_of part h (snd (exec (fsFileSetName part h s) m))
     = (header_of part h m)\<lparr>h_name := padded_name s\<rparr>
   \<and> header_of part h (snd (exec (fsFileSetAttributes part h s) m))
     = (header_of part h m)\<lparr>h_attributes := map (cstr_at s) [0..<4]\<rparr>
   \<and> header_of part h (snd (exec (fsDirectorySetReferenceCount part h v) m))
     = (header_of part h m)\<lparr>h_refcount := v\<rparr>
   \<and> header_of part h (snd (exec (fsFileSetFlag part h i b) m))
     = (header_of part h m)\<lparr>h_flag := flag_with i b (h_flag (header_of part h m))\<rparr>
   \<and> header_of part h (snd (exec (fsFileSetParentAddress part h v) m))
     = (header_of part h m)\<lparr>h_parent := v\<rparr>
   \<and> header_of part h (snd (exec (fsFileSetNextAddress part h v) m))
     = (header_of part h m)\<lparr>h_next := v\<rparr>
   \<and> exec (fsFileGetSize part h) m = (h_size (header_of part h m), m)
   \<and> exec (fsFileGetAttributes part h) m = (h_attributes (header_of part h m), m)
   \<and> exec (fsDirectoryGetReferenceCount part h) m = (h_refcount (header_of part h m), m)
   \<and> exec (fsFileGetParentAddress part h) m = (h_parent (header_of part h m), m)
   \<and> exec (fsFileGetNextAddress part h) m = (h_next (header_of part h m), m)
   \<and> exec (fsFileGetFlag part h i) m = (drop_bit (unat i) (h_flag (header_of part h m)) AND 1, m)"
  by (simp only: header_set_name header_set_attributes header_set_refcount header_set_flag
      header_set_parent header_set_next)
    (simp add: io_simps header_of_def Let_def)

end
