(* ===== verification/FsAlloc.thy ===== *)
theory FsAlloc
  imports FsLayout
begin

text \<open>
  The sector allocator (kernel/fs/basefs/fs.c). The first byte of every sector is its marker:
  free, header of an allocation, or used by the allocation in front of it. \<open>fsAllocate\<close> is a
  first-fit search over the markers, \<open>fsFree\<close> recomputes the extent from the size stored in
  the header. The abstract specification is a finite map from the first sector of each extent
  to its size; \<open>volume\<close> relates a memory to such a map.
\<close>

section \<open>The allocator\<close>

text \<open>
  The loops run over the list of their indices. \<open>fit_loop\<close> returns the value it leaves in the
  variable \<open>address\<close> of the code: 1 when a sector is taken, 0 otherwise.
\<close>

definition sectors_needed :: "partition \<Rightarrow> u32 \<Rightarrow> u32" where
  "sectors_needed part sz = sz div (sector_size part - 1) + 1"

fun fit_loop :: "partition \<Rightarrow> nat \<Rightarrow> nat list \<Rightarrow> u32 io" where
  "fit_loop part i [] = Ret 0"
| "fit_loop part i (a # as) =
     bindio (fs_read_byte (block_address part + (of_nat a + of_nat i) * sector_size part)) (\<lambda>b.
     if b \<noteq> SECTOR_FREE then Ret 1 else fit_loop part i as)"

fun search_loop :: "partition \<Rightarrow> u32 \<Rightarrow> nat list \<Rightarrow> u32 \<Rightarrow> u32 io" where
  "search_loop part numberOfSectors [] address = Ret address"
| "search_loop part numberOfSectors (i # is) address =
     bindio (fs_read_byte (block_address part + of_nat i * sector_size part)) (\<lambda>b.
     if b \<noteq> SECTOR_FREE then search_loop part numberOfSectors is 0
     else bindio (fit_loop part i [0..<Suc (unat numberOfSectors)]) (\<lambda>address.
       if address = 1 then search_loop part numberOfSectors is 1
       else Ret (of_nat i * sector_size part)))"

definition fsAllocate :: "partition \<Rightarrow> u32 \<Rightarrow> u32 io" where
  "fsAllocate part sz =
     (let numberOfSectors = sectors_needed part sz in
      bindio (search_loop part numberOfSectors [0..<unat (block_size part)] 0) (\<lambda>address.
      if address = 0 then Ret 0
      else
        bindio (fs_write_byte (block_address part + address) SECTOR_HEADER) (\<lambda>_.
        bindio (foreach (\<lambda>i. fs_write_byte
            (block_address part + address + of_nat i * sector_size part + sector_size part) SECTOR_USED)
            [0..<unat numberOfSectors]) (\<lambda>_.
        bindio (foreach (\<lambda>i. fs_write_byte (block_address part + address + of_nat i + FILE_OFFSET_SIZE)
            (le32_bytes sz ! i)) [0..<4]) (\<lambda>_.
        Ret address)))))"

definition fsFree :: "partition \<Rightarrow> u32 \<Rightarrow> unit io" where
  "fsFree part address =
     bindio (fsFileGetSize part address) (\<lambda>sizeTotal.
     let numberOfSectors = sizeTotal div (sector_size part - 1) + 2 in
     foreach (\<lambda>i. fs_write_byte (block_address part + address + of_nat i * sector_size part) SECTOR_FREE)
       [0..<unat numberOfSectors])"


section \<open>What they compute\<close>

definition sector_at :: "partition \<Rightarrow> nat \<Rightarrow> u32" where
  "sector_at part i = block_address part + of_nat i * sector_size part"

definition fits :: "partition \<Rightarrow> mem \<Rightarrow> u32 \<Rightarrow> nat \<Rightarrow> bool" where
  "fits part m nos i \<longleftrightarrow> (\<forall>a \<in> set [0..<Suc (unat nos)]. m (sector_at part (i + a)) = SECTOR_FREE)"

text \<open>
  The result of the search: the first fit, else what the last sector visited left in
  \<open>address\<close>.
\<close>

definition search_result :: "partition \<Rightarrow> mem \<Rightarrow> u32 \<Rightarrow> nat list \<Rightarrow> u32 \<Rightarrow> u32" where
  "search_result part m nos is address =
     (case find (fits part m nos) is of
        Some i \<Rightarrow> of_nat i * sector_size part
      | None \<Rightarrow> if is = [] then address
                else if m (sector_at part (last is)) = SECTOR_FREE then 1 else 0)"

definition mark :: "partition \<Rightarrow> nat \<Rightarrow> u8 \<Rightarrow> u32 \<Rightarrow> mem \<Rightarrow> mem" where
  "mark part n b start m =
     (\<lambda>x. if \<exists>i \<in> set [0..<n]. x = start + of_nat i * sector_size part then b else m x)"

lemma exec_fit_loop:
  "exec (fit_loop part i as) m
    = (if \<forall>a \<in> set as. m (sector_at part (i + a)) = SECTOR_FREE then 0 else 1, m)"
  by (induction as) (auto simp: io_simps sector_at_def add.commute)

lemma fits_free: "fits part m nos i \<Longrightarrow> a \<le> unat nos \<Longrightarrow> m (sector_at part (i + a)) = SECTOR_FREE"
  by (simp add: fits_def del: upt_Suc)

lemma exec_search_loop:
  "exec (search_loop part nos is address) m = (search_result part m nos is address, m)"
proof (induction "is" arbitrary: address)
  case Nil
  then show ?case by (simp add: search_result_def)
next
  case (Cons i "is")
  show ?case
  proof (cases "m (sector_at part i) = SECTOR_FREE")
    case False
    then have "\<not> fits part m nos i" using fits_free [of part m nos i 0] by auto
    then show ?thesis using False
      by (simp add: io_simps Cons.IH search_result_def sector_at_def [symmetric])
  next
    case True
    then show ?thesis
      by (auto simp add: io_simps exec_fit_loop Cons.IH search_result_def sector_at_def [symmetric]
          fits_def simp del: upt_Suc split: option.splits)
  qed
qed

lemma exec_mark_loop [io_simps]:
  "exec (foreach (\<lambda>i. fs_write_byte (start + of_nat i * sector_size part) b) [0..<n]) m
    = ((), mark part n b start m)"
proof (induction n)
  case 0
  then show ?case by (simp add: mark_def)
next
  case (Suc n)
  have "(mark part n b start m)(start + of_nat n * sector_size part := b)
      = mark part (Suc n) b start m"
    by (auto simp: mark_def fun_eq_iff less_Suc_eq)
  then show ?case by (simp add: foreach_append io_simps Suc.IH)
qed

lemma exec_mark_loop_after [io_simps]:
  "exec (foreach (\<lambda>i. fs_write_byte (start + of_nat i * sector_size part + sector_size part) b) [0..<n]) m
    = ((), mark part n b (start + sector_size part) m)"
  using exec_mark_loop [of "start + sector_size part" part b n m] by (simp add: add_ac)

text \<open>The memory after a successful allocation, and after a release.\<close>

definition allocated :: "partition \<Rightarrow> u32 \<Rightarrow> u32 \<Rightarrow> mem \<Rightarrow> mem" where
  "allocated part address sz m =
     put32 (mark part (unat (sectors_needed part sz)) SECTOR_USED
              (block_address part + address + sector_size part)
              (m(block_address part + address := SECTOR_HEADER)))
       (block_address part + address + 11) sz"

definition released :: "partition \<Rightarrow> u32 \<Rightarrow> mem \<Rightarrow> mem" where
  "released part address m =
     mark part (unat (get32 m (block_address part + address + 11) div (sector_size part - 1) + 2))
       SECTOR_FREE (block_address part + address) m"

lemma exec_fsAllocate:
  "exec (fsAllocate part sz) m =
     (let a = search_result part m (sectors_needed part sz) [0..<unat (block_size part)] 0 in
      if a = 0 then (0, m) else (a, allocated part a sz m))"
  by (simp add: fsAllocate_def Let_def io_simps exec_search_loop exec_write_fun layout_simps
      allocated_def put32_def le32_bytes_nth_upt)

lemma exec_fsFree [io_simps]: "exec (fsFree part a) m = ((), released part a m)"
  by (simp add: fsFree_def Let_def io_simps released_def)


section \<open>Geometry\<close>

text \<open>
  \<open>geometry part M\<close>: the first \<open>M\<close> sectors lie in the 32-bit address space, and a sector
  holds at least a header. The devices are formatted with sectors of 32 bytes.
\<close>

definition geometry :: "partition \<Rightarrow> nat \<Rightarrow> bool" where
  "geometry part M \<longleftrightarrow> 32 \<le> unat (sector_size part)
     \<and> unat (block_address part) + M * unat (sector_size part) \<le> 2 ^ 32"

definition extent_len :: "partition \<Rightarrow> u32 \<Rightarrow> nat" where
  "extent_len part sz = Suc (unat (sectors_needed part sz))"

lemma unat_sector_byte:
  assumes "geometry part M" "k < M" "b < unat (sector_size part)"
  shows "unat (sector_at part k + of_nat b)
    = unat (block_address part) + k * unat (sector_size part) + b"
proof -
  let ?s = "unat (sector_size part)"
  have "Suc k * ?s \<le> M * ?s" using assms(2) by (intro mult_le_mono1) simp
  then have bound: "unat (block_address part) + k * ?s + b < 2 ^ 32"
    using assms unfolding geometry_def mult_Suc by linarith
  have "sector_at part k + of_nat b
      = of_nat (unat (block_address part) + k * ?s + b)"
    by (simp add: sector_at_def)
  then show ?thesis using bound by (simp only: unat_of_nat_u32)
qed

lemma sector_byte_eq:
  assumes "geometry part M" "k < M" "l < M" "b < unat (sector_size part)" "c < unat (sector_size part)"
  shows "sector_at part k + of_nat b = sector_at part l + of_nat c \<longleftrightarrow> k = l \<and> b = c"
proof
  let ?s = "unat (sector_size part)"
  assume "sector_at part k + of_nat b = sector_at part l + of_nat c"
  then have e: "b + k * ?s = c + l * ?s"
    using unat_sector_byte [OF assms(1,2,4)] unat_sector_byte [OF assms(1,3,5)] by simp
  have "(b + k * ?s) div ?s = k" "(b + k * ?s) mod ?s = b"
    "(c + l * ?s) div ?s = l" "(c + l * ?s) mod ?s = c"
    using assms(4,5) by auto
  then show "k = l \<and> b = c" using e by metis
qed auto

lemma sector_at_eq:
  assumes "geometry part M" "k < M" "l < M"
  shows "sector_at part k = sector_at part l \<longleftrightarrow> k = l"
  using sector_byte_eq [OF assms, of 0 0] assms(1) by (simp add: geometry_def)

lemma sector_at_byte_neq:
  assumes "geometry part M" "k < M" "l < M" "0 < b" "b < unat (sector_size part)"
  shows "sector_at part k + of_nat b \<noteq> sector_at part l"
  using sector_byte_eq [OF assms(1-3,5), of 0] assms(4,5) by auto

lemma block_plus_sector: "block_address part + of_nat j * sector_size part = sector_at part j"
  by (simp add: sector_at_def)

lemma mark_sector_at:
  "mark part n b (sector_at part j) m =
     (\<lambda>x. if \<exists>k \<in> {j..<j + n}. x = sector_at part k then b else m x)"
proof
  fix x
  have "(\<exists>i \<in> set [0..<n]. x = sector_at part j + of_nat i * sector_size part)
      \<longleftrightarrow> (\<exists>k \<in> {j..<j + n}. x = sector_at part k)"
  proof
    assume "\<exists>i \<in> set [0..<n]. x = sector_at part j + of_nat i * sector_size part"
    then obtain i where "i < n" "x = sector_at part (j + i)"
      by (auto simp: sector_at_def algebra_simps)
    then show "\<exists>k \<in> {j..<j + n}. x = sector_at part k" by (intro bexI [of _ "j + i"]) auto
  next
    assume "\<exists>k \<in> {j..<j + n}. x = sector_at part k"
    then obtain k where "j \<le> k" "k < j + n" "x = sector_at part k" by auto
    then show "\<exists>i \<in> set [0..<n]. x = sector_at part j + of_nat i * sector_size part"
      by (intro bexI [of _ "k - j"]) (auto simp: sector_at_def algebra_simps of_nat_diff)
  qed
  then show "mark part n b (sector_at part j) m x
      = (if \<exists>k \<in> {j..<j + n}. x = sector_at part k then b else m x)"
    by (simp add: mark_def)
qed

lemma mark_marker:
  assumes "geometry part M" "k < M" "j + n \<le> M"
  shows "mark part n b (sector_at part j) m (sector_at part k)
    = (if j \<le> k \<and> k < j + n then b else m (sector_at part k))"
  using sector_at_eq [OF assms(1,2)] assms(3) unfolding mark_sector_at by fastforce

lemma mark_byte:
  assumes "geometry part M" "k < M" "j + n \<le> M" "0 < c" "c < unat (sector_size part)"
  shows "mark part n b (sector_at part j) m (sector_at part k + of_nat c) = m (sector_at part k + of_nat c)"
  using sector_at_byte_neq [OF assms(1,2) _ assms(4,5)] assms(3) unfolding mark_sector_at by fastforce

lemma put32_sector:
  assumes "geometry part M" "k < M" "j < M" "c < unat (sector_size part)" "\<not> (k = j \<and> 11 \<le> c \<and> c < 15)"
  shows "put32 m (sector_at part j + 11) v (sector_at part k + of_nat c) = m (sector_at part k + of_nat c)"
  unfolding put32_def
proof (rule put_bytes_other)
  fix i assume "i < length (le32_bytes v)"
  then have i: "11 + i < unat (sector_size part)" "i < 4"
    using assms(1) by (auto simp: geometry_def)
  have "sector_at part k + of_nat c \<noteq> sector_at part j + of_nat (11 + i)"
    using sector_byte_eq [OF assms(1-4) i(1)] assms(5) i(2) by auto
  then show "sector_at part k + of_nat c \<noteq> sector_at part j + 11 + of_nat i"
    by (simp add: add_ac)
qed

lemma put32_marker:
  assumes "geometry part M" "k < M" "j < M"
  shows "put32 m (sector_at part j + 11) v (sector_at part k) = m (sector_at part k)"
  using put32_sector [OF assms, of 0 m v] assms(1) by (simp add: geometry_def)


section \<open>The abstract allocator\<close>

text \<open>
  An allocation map takes the first sector of an extent to its size in bytes. Its extents are
  pairwise disjoint, lie in the first \<open>M\<close> sectors, and leave sector 0 alone, which holds the
  device header: its marker is the first byte of \<open>DeviceHeaderString\<close>.
\<close>

definition DEVICE_MARKER :: u8 where "DEVICE_MARKER = 0x13"

lemma device_marker_distinct [simp]:
  "DEVICE_MARKER \<noteq> SECTOR_FREE" "SECTOR_FREE \<noteq> DEVICE_MARKER"
  by (simp_all add: SECTOR_FREE_def DEVICE_MARKER_def ch_def)

type_synonym extents = "nat \<rightharpoonup> u32"

definition separated :: "partition \<Rightarrow> nat \<Rightarrow> extents \<Rightarrow> bool" where
  "separated part M A \<longleftrightarrow> A 0 = None \<and>
     (\<forall>j s. A j = Some s \<longrightarrow> j + extent_len part s \<le> M
        \<and> (\<forall>i \<in> dom A. j < i \<longrightarrow> j + extent_len part s \<le> i))"

definition marker_of :: "partition \<Rightarrow> extents \<Rightarrow> nat \<Rightarrow> u8" where
  "marker_of part A k =
     (if k = 0 then DEVICE_MARKER
      else if A k \<noteq> None then SECTOR_HEADER
      else if \<exists>j \<in> set [0..<k]. \<exists>s \<in> set_option (A j). k < j + extent_len part s then SECTOR_USED
      else SECTOR_FREE)"

text \<open>The memory holds the volume described by the map: markers and stored sizes.\<close>

definition volume :: "partition \<Rightarrow> nat \<Rightarrow> extents \<Rightarrow> mem \<Rightarrow> bool" where
  "volume part M A m \<longleftrightarrow> separated part M A
     \<and> (\<forall>k < M. m (sector_at part k) = marker_of part A k)
     \<and> (\<forall>j s. A j = Some s \<longrightarrow> get32 m (sector_at part j + 11) = s)"

lemma volumeI:
  assumes "separated part M A"
    and "\<And>k. k < M \<Longrightarrow> m (sector_at part k) = marker_of part A k"
    and "\<And>j s. A j = Some s \<Longrightarrow> get32 m (sector_at part j + 11) = s"
  shows "volume part M A m"
  using assms by (simp add: volume_def)

lemma inside_iff:
  "(\<exists>j \<in> set [0..<k]. \<exists>s \<in> set_option (A j). k < j + extent_len part s)
     \<longleftrightarrow> (\<exists>j s. j < k \<and> A j = Some s \<and> k < j + extent_len part s)"
  by auto

lemma marker_free_iff:
  "marker_of part A k = SECTOR_FREE \<longleftrightarrow> k \<noteq> 0 \<and>
     (\<forall>j s. A j = Some s \<longrightarrow> j \<le> k \<longrightarrow> j + extent_len part s \<le> k)"
proof
  assume *: "marker_of part A k = SECTOR_FREE"
  then have none: "A k = None" "k \<noteq> 0"
    and inside: "\<not> (\<exists>j s. j < k \<and> A j = Some s \<and> k < j + extent_len part s)"
    unfolding marker_of_def inside_iff by (auto split: if_splits)
  have "j + extent_len part s \<le> k" if "A j = Some s" "j \<le> k" for j s
  proof -
    have "j < k" using none that by (cases "j = k") auto
    then show ?thesis using that inside by (meson not_le)
  qed
  then show "k \<noteq> 0 \<and> (\<forall>j s. A j = Some s \<longrightarrow> j \<le> k \<longrightarrow> j + extent_len part s \<le> k)"
    using none by blast
next
  assume *: "k \<noteq> 0 \<and> (\<forall>j s. A j = Some s \<longrightarrow> j \<le> k \<longrightarrow> j + extent_len part s \<le> k)"
  then have "A k = None" by (cases "A k") (force simp: extent_len_def)+
  moreover have "\<not> (\<exists>j s. j < k \<and> A j = Some s \<and> k < j + extent_len part s)"
    using * by force
  ultimately show "marker_of part A k = SECTOR_FREE"
    using * unfolding marker_of_def inside_iff by simp
qed

lemma marker_of_insert:
  assumes "A j = None"
    and free: "\<And>k. j \<le> k \<Longrightarrow> k < j + extent_len part s \<Longrightarrow> marker_of part A k = SECTOR_FREE"
  shows "marker_of part (A(j \<mapsto> s)) k =
     (if k = j then SECTOR_HEADER else if j < k \<and> k < j + extent_len part s then SECTOR_USED
      else marker_of part A k)"
proof -
  have "marker_of part A j = SECTOR_FREE" by (rule free) (auto simp: extent_len_def)
  then have "j \<noteq> 0" by (simp add: marker_free_iff)
  moreover have "A k = None" if "j < k" "k < j + extent_len part s"
    using free [of k] that by (auto simp: marker_of_def split: if_splits)
  moreover have "(\<exists>i t. i < k \<and> (A(j \<mapsto> s)) i = Some t \<and> k < i + extent_len part t)
    \<longleftrightarrow> (j < k \<and> k < j + extent_len part s)
      \<or> (\<exists>i t. i < k \<and> A i = Some t \<and> k < i + extent_len part t)"
  proof -
    have upd: "(A(j \<mapsto> s)) i = Some t \<longleftrightarrow> i = j \<and> t = s \<or> A i = Some t" for i t
      using assms(1) by auto
    show ?thesis unfolding upd by blast
  qed
  ultimately show ?thesis unfolding marker_of_def inside_iff by auto
qed

lemma separated_insert:
  assumes "separated part M A" "A j = None" "j + extent_len part s \<le> M"
    and free: "\<And>k. j \<le> k \<Longrightarrow> k < j + extent_len part s \<Longrightarrow> marker_of part A k = SECTOR_FREE"
  shows "separated part M (A(j \<mapsto> s))"
proof -
  have after: "j + extent_len part s \<le> i" if i: "i \<in> dom A" "j < i" for i
  proof (rule ccontr)
    assume "\<not> j + extent_len part s \<le> i"
    then have "marker_of part A i = SECTOR_FREE" using i(2) by (intro free) auto
    then show False using i(1) by (auto simp: marker_of_def split: if_splits)
  qed
  have before: "i + extent_len part t \<le> j" if t: "A i = Some t" "i < j" for i t
  proof (rule ccontr)
    assume "\<not> i + extent_len part t \<le> j"
    moreover have "marker_of part A j = SECTOR_FREE" by (rule free) (auto simp: extent_len_def)
    ultimately show False using t unfolding marker_free_iff by force
  qed
  have "marker_of part A j = SECTOR_FREE" by (rule free) (auto simp: extent_len_def)
  then have "j \<noteq> 0" by (simp add: marker_free_iff)
  then show ?thesis
    using assms(1,3) after before by (auto simp: separated_def split: if_splits)
qed

text \<open>Releasing an extent of the map.\<close>

lemma separated_remove: "separated part M A \<Longrightarrow> separated part M (A(j := None))"
  by (auto simp: separated_def split: if_splits)

lemma marker_of_remove:
  assumes "separated part M A" "A j = Some s"
  shows "marker_of part (A(j := None)) k =
     (if j \<le> k \<and> k < j + extent_len part s then SECTOR_FREE else marker_of part A k)"
proof (cases "j \<le> k \<and> k < j + extent_len part s")
  case True
  have "i + extent_len part t \<le> k" if t: "A i = Some t" "i \<noteq> j" "i \<le> k" for i t
  proof (cases "i < j")
    case True
    then have "i + extent_len part t \<le> j"
      using assms t by (auto simp: separated_def)
    then show ?thesis using \<open>j \<le> k \<and> k < j + extent_len part s\<close> by simp
  next
    case False
    then have "j < i" using t by simp
    then have "j + extent_len part s \<le> i"
      using assms t unfolding separated_def by (metis domI)
    then show ?thesis using True t by simp
  qed
  moreover have "j \<noteq> 0" using assms by (cases "j = 0") (auto simp: separated_def)
  ultimately have "marker_of part (A(j := None)) k = SECTOR_FREE"
    using True by (auto simp: marker_free_iff)
  then show ?thesis using True by simp
next
  case False
  then have "j \<noteq> k" by (auto simp: extent_len_def)
  moreover have "(\<exists>i t. i < k \<and> (A(j := None)) i = Some t \<and> k < i + extent_len part t)
    \<longleftrightarrow> (\<exists>i t. i < k \<and> A i = Some t \<and> k < i + extent_len part t)"
  proof -
    have "(A(j := None)) i = Some t \<longleftrightarrow> i \<noteq> j \<and> A i = Some t" for i t
      by auto
    then show ?thesis using assms(2) False by (metis less_imp_le option.inject)
  qed
  ultimately show ?thesis using False unfolding marker_of_def inside_iff by simp
qed


section \<open>Refinement\<close>

lemma allocated_marker:
  assumes g: "geometry part M" and k: "k < M" and e: "j + extent_len part s \<le> M"
  shows "allocated part (of_nat j * sector_size part) s m (sector_at part k) =
     (if k = j then SECTOR_HEADER else if j < k \<and> k < j + extent_len part s then SECTOR_USED
      else m (sector_at part k))"
proof -
  have n: "Suc j + unat (sectors_needed part s) \<le> M" and j: "j < M"
    using e by (auto simp: extent_len_def)
  have s: "sector_at part j + sector_size part = sector_at part (Suc j)"
    by (simp add: sector_at_def algebra_simps)
  show ?thesis
    using mark_marker [OF g k n] sector_at_eq [OF g k j] put32_marker [OF g k j]
    by (auto simp: allocated_def block_plus_sector s extent_len_def)
qed

lemma allocated_byte:
  assumes g: "geometry part M" and k: "k < M" and e: "j + extent_len part s \<le> M"
    and c: "0 < c" "c < unat (sector_size part)" "\<not> (k = j \<and> 11 \<le> c \<and> c < 15)"
  shows "allocated part (of_nat j * sector_size part) s m (sector_at part k + of_nat c)
    = m (sector_at part k + of_nat c)"
proof -
  have n: "Suc j + unat (sectors_needed part s) \<le> M" and j: "j < M"
    using e by (auto simp: extent_len_def)
  have s: "sector_at part j + sector_size part = sector_at part (Suc j)"
    by (simp add: sector_at_def algebra_simps)
  show ?thesis
    using mark_byte [OF g k n c(1,2)] sector_at_byte_neq [OF g k j c(1,2)]
      put32_sector [OF g k j c(2,3)]
    by (auto simp: allocated_def block_plus_sector s)
qed

lemma separated_bound:
  assumes "separated part M A" "A i = Some t"
  shows "i < M"
proof -
  have "i + extent_len part t \<le> M" using assms by (simp add: separated_def)
  then show ?thesis by (simp add: extent_len_def)
qed

lemma geometry_bound: "geometry part M \<Longrightarrow> M \<le> 2 ^ 27"
proof -
  assume g: "geometry part M"
  then have "M * 32 \<le> M * unat (sector_size part)"
    by (intro mult_le_mono2) (simp add: geometry_def)
  moreover have "M * unat (sector_size part) \<le> 2 ^ 32"
    using g by (auto simp: geometry_def)
  ultimately have "M * 32 \<le> 2 ^ 32" by (rule order_trans)
  then show ?thesis by simp
qed

text \<open>The size field of another extent survives.\<close>

lemma get32_cong: "(\<And>i. i < 4 \<Longrightarrow> m (a + of_nat i) = m' (a + of_nat i)) \<Longrightarrow> get32 m a = get32 m' a"
  unfolding get32_def get_bytes_def by (rule arg_cong [where f = le32], rule map_cong) auto

lemma size_field_cong:
  assumes "geometry part M" "k < M"
    and "\<And>c. 11 \<le> c \<Longrightarrow> c < 15 \<Longrightarrow> m (sector_at part k + of_nat c) = m' (sector_at part k + of_nat c)"
  shows "get32 m (sector_at part k + 11) = get32 m' (sector_at part k + 11)"
proof (rule get32_cong)
  fix i :: nat assume "i < 4"
  then show "m (sector_at part k + 11 + of_nat i) = m' (sector_at part k + 11 + of_nat i)"
    using assms(3) [of "11 + i"] by (simp add: add_ac)
qed

lemma volume_allocated:
  assumes g: "geometry part M" and v: "volume part M A m" and e: "j + extent_len part s \<le> M"
    and free: "\<And>k. j \<le> k \<Longrightarrow> k < j + extent_len part s \<Longrightarrow> m (sector_at part k) = SECTOR_FREE"
  shows "A j = None" "volume part M (A(j \<mapsto> s)) (allocated part (of_nat j * sector_size part) s m)"
proof -
  have marks: "marker_of part A k = SECTOR_FREE" if "j \<le> k" "k < j + extent_len part s" for k
    using free [OF that] v that e by (simp add: volume_def)
  have "marker_of part A j = SECTOR_FREE" by (rule marks) (auto simp: extent_len_def)
  then show none: "A j = None" by (auto simp: marker_of_def split: if_splits)
  have sep: "separated part M A" using v by (simp add: volume_def)
  show "volume part M (A(j \<mapsto> s)) (allocated part (of_nat j * sector_size part) s m)"
  proof (rule volumeI)
    show "separated part M (A(j \<mapsto> s))"
      by (rule separated_insert [OF sep none e marks])
    show "allocated part (of_nat j * sector_size part) s m (sector_at part k)
        = marker_of part (A(j \<mapsto> s)) k" if "k < M" for k
      using allocated_marker [OF g that e] marker_of_insert [OF none marks] v that
      by (simp add: volume_def)
    fix i t assume t: "(A(j \<mapsto> s)) i = Some t"
    show "get32 (allocated part (of_nat j * sector_size part) s m) (sector_at part i + 11) = t"
    proof (cases "i = j")
      case True
      then show ?thesis using t by (simp add: allocated_def block_plus_sector)
    next
      case False
      then have i: "A i = Some t" "i < M"
        using t separated_bound [OF sep] by auto
      have ss: "32 \<le> unat (sector_size part)" using g by (simp add: geometry_def)
      have "get32 (allocated part (of_nat j * sector_size part) s m) (sector_at part i + 11)
          = get32 m (sector_at part i + 11)"
        by (rule size_field_cong [OF g i(2)], rule allocated_byte [OF g i(2) e])
          (use False ss in auto)
      then show ?thesis using v i by (simp add: volume_def)
    qed
  qed
qed

lemma unat_sectors_plus_2:
  assumes "j + extent_len part s \<le> M" "geometry part M"
  shows "unat (s div (sector_size part - 1) + 2) = extent_len part s"
proof -
  let ?q = "s div (sector_size part - 1)"
  note M = geometry_bound [OF assms(2)]
  have "unat (?q + 1) < 2 ^ 32 - 1"
    using assms(1) M by (simp add: extent_len_def sectors_needed_def)
  then have "unat ((?q + 1) + 1) = unat (?q + 1) + 1"
    using unat_add_no_wrap [of "?q + 1" 1] by simp
  then show ?thesis by (simp add: extent_len_def sectors_needed_def add.assoc)
qed

lemma released_volume:
  assumes "geometry part M" "volume part M A m" "A j = Some s"
  shows "released part (of_nat j * sector_size part) m
    = mark part (extent_len part s) SECTOR_FREE (sector_at part j) m"
proof -
  have "j + extent_len part s \<le> M" "get32 m (sector_at part j + 11) = s"
    using assms by (auto simp: volume_def separated_def)
  then show ?thesis
    using unat_sectors_plus_2 [OF _ assms(1)] by (simp add: released_def block_plus_sector)
qed

lemma volume_released:
  assumes g: "geometry part M" and v: "volume part M A m" and j: "A j = Some s"
  shows "volume part M (A(j := None)) (released part (of_nat j * sector_size part) m)"
proof -
  have sep: "separated part M A" and e: "j + extent_len part s \<le> M"
    using v j by (auto simp: volume_def separated_def)
  note r = released_volume [OF g v j]
  show ?thesis
  proof (rule volumeI)
    show "separated part M (A(j := None))" by (rule separated_remove [OF sep])
    show "released part (of_nat j * sector_size part) m (sector_at part k)
        = marker_of part (A(j := None)) k" if "k < M" for k
      using mark_marker [OF g that e] marker_of_remove [OF sep j] v that
      by (simp add: r volume_def)
    fix i t assume "(A(j := None)) i = Some t"
    then have i: "A i = Some t" "i < M"
      using separated_bound [OF sep] by (auto split: if_splits)
    have ss: "32 \<le> unat (sector_size part)" using g by (simp add: geometry_def)
    have "get32 (released part (of_nat j * sector_size part) m) (sector_at part i + 11)
        = get32 m (sector_at part i + 11)"
      unfolding r by (rule size_field_cong [OF g i(2)], rule mark_byte [OF g i(2) e]) (use ss in auto)
    then show "get32 (released part (of_nat j * sector_size part) m) (sector_at part i + 11) = t"
      using v i by (simp add: volume_def)
  qed
qed


text \<open>The abstract allocation: the first sector at which the extent fits.\<close>

definition first_fit :: "partition \<Rightarrow> extents \<Rightarrow> u32 \<Rightarrow> nat \<Rightarrow> nat option" where
  "first_fit part A sz n =
     find (\<lambda>j. \<forall>k \<in> set [j..<j + extent_len part sz]. marker_of part A k = SECTOR_FREE) [0..<n]"

lemma fits_marker:
  assumes "volume part M A m" "j + extent_len part s \<le> M"
  shows "fits part m (sectors_needed part s) j
    \<longleftrightarrow> (\<forall>k \<in> set [j..<j + extent_len part s]. marker_of part A k = SECTOR_FREE)"
proof -
  have "fits part m (sectors_needed part s) j
      \<longleftrightarrow> (\<forall>k. j \<le> k \<and> k < j + extent_len part s \<longrightarrow> m (sector_at part k) = SECTOR_FREE)"
    unfolding fits_def extent_len_def
    by (metis (no_types, lifting) add_less_cancel_left atLeastLessThan_iff atLeastLessThan_upt
        le_add1 le_iff_add zero_le)
  then show ?thesis using assms by (auto simp: volume_def)
qed

lemma find_fits_first_fit:
  assumes "volume part M A m" "n + extent_len part s \<le> M + 1"
  shows "find (fits part m (sectors_needed part s)) [0..<n] = first_fit part A s n"
  unfolding first_fit_def
  by (rule find_cong [OF refl], rule fits_marker [OF assms(1)]) (use assms(2) in auto)

lemma first_fit_Some:
  assumes "first_fit part A s n = Some j"
  shows "j < n" "j \<noteq> 0"
    "\<And>k. j \<le> k \<Longrightarrow> k < j + extent_len part s \<Longrightarrow> marker_of part A k = SECTOR_FREE"
proof -
  show f: "marker_of part A k = SECTOR_FREE" if "j \<le> k" "k < j + extent_len part s" for k
    using assms that by (auto simp: first_fit_def find_Some_iff)
  show "j < n" using assms by (auto simp: first_fit_def find_Some_iff)
  show "j \<noteq> 0" using f [of j] by (auto simp: extent_len_def marker_free_iff)
qed

lemma sector_offset_nonzero:
  assumes "geometry part M" "j < M" "j \<noteq> 0"
  shows "of_nat j * sector_size part \<noteq> 0"
  using sector_at_eq [OF assms(1,2), of 0] assms by (simp add: sector_at_def)

lemma find_prefix: "n \<le> k \<Longrightarrow> find P [0..<n] = Some j \<Longrightarrow> find P [0..<k] = Some j"
proof -
  assume nk: "n \<le> k" and f: "find P [0..<n] = Some j"
  have "find P (xs @ ys) = Some j" if "find P xs = Some j" for xs ys
    using that by (induction xs) (auto split: if_splits)
  then show "find P [0..<k] = Some j"
    using upt_add_eq_append [of 0 n "k - n"] nk f by simp
qed

text \<open>
  The search visits \<open>block_size\<close> sectors (the size of the partition in bytes). \<open>n\<close> is the number
  of sectors at which an extent of the given size still lies inside the volume.
\<close>

lemma exec_fsAllocate_Some:
  assumes g: "geometry part M" and v: "volume part M A m"
    and b: "n \<le> unat (block_size part)" "n + extent_len part s \<le> M + 1"
    and j: "first_fit part A s n = Some j"
  shows "exec (fsAllocate part s) m
      = (of_nat j * sector_size part, allocated part (of_nat j * sector_size part) s m)"
    and "of_nat j * sector_size part \<noteq> 0" and "j + extent_len part s \<le> M"
    and "j \<le> k \<Longrightarrow> k < j + extent_len part s \<Longrightarrow> m (sector_at part k) = SECTOR_FREE"
proof -
  show e: "j + extent_len part s \<le> M" using first_fit_Some(1) [OF j(1)] b by simp
  then have "j < M" by (simp add: extent_len_def)
  then show "of_nat j * sector_size part \<noteq> 0"
    by (rule sector_offset_nonzero [OF g _ first_fit_Some(2) [OF j]])
  moreover have "find (fits part m (sectors_needed part s)) [0..<unat (block_size part)] = Some j"
    using j find_fits_first_fit [OF v b(2)] by (intro find_prefix [OF b(1)]) simp
  ultimately show "exec (fsAllocate part s) m
      = (of_nat j * sector_size part, allocated part (of_nat j * sector_size part) s m)"
    by (simp add: exec_fsAllocate search_result_def Let_def)
  show "m (sector_at part k) = SECTOR_FREE" if "j \<le> k" "k < j + extent_len part s"
    using first_fit_Some(3) [OF j(1) that] that v e by (simp add: volume_def)
qed

text \<open>
  C2. \<open>fsAllocate\<close> refines first-fit allocation on the map of extents. When the volume has a
  first fit, the call returns the offset of that sector and never 0, the memory then holds the
  volume with the new extent (disjoint from every other, its size stored, its sectors marked),
  and no byte other than the markers and the size field of the new extent has changed.
\<close>

theorem fsAllocate_refines_first_fit:
  assumes g: "geometry part M" and v: "volume part M A m"
    and b: "n \<le> unat (block_size part)" "n + extent_len part s \<le> M + 1"
    and j: "first_fit part A s n = Some j"
  shows "fst (exec (fsAllocate part s) m) = of_nat j * sector_size part
    \<and> fst (exec (fsAllocate part s) m) \<noteq> 0
    \<and> A j = None
    \<and> volume part M (A(j \<mapsto> s)) (snd (exec (fsAllocate part s) m))
    \<and> (\<forall>k c. k < M \<and> 0 < c \<and> c < unat (sector_size part) \<and> \<not> (k = j \<and> 11 \<le> c \<and> c < 15) \<longrightarrow>
         snd (exec (fsAllocate part s) m) (sector_at part k + of_nat c)
           = m (sector_at part k + of_nat c))"
proof -
  note alloc = exec_fsAllocate_Some [OF g v b j]
  show ?thesis
    using volume_allocated [OF g v alloc(3,4)] allocated_byte [OF g _ alloc(3), of _ _ m] alloc(1,2)
    by simp
qed

lemma get32_eval: "get32 m a = le32 [m a, m (a + 1), m (a + 2), m (a + 3)]"
proof -
  have "[0..<4] = [0, 1, 2, 3 :: nat]" by (simp add: upt_rec)
  then show ?thesis by (simp add: get32_def get_bytes_def)
qed

text \<open>A volume for the witnesses: a device of eight sectors with one extent of four bytes.\<close>

definition demo_part :: partition where
  "demo_part = \<lparr>block_address = 0, block_size = 256, sector_count = 8, sector_size = 32\<rparr>"

definition demo_mem :: mem where
  "demo_mem = (\<lambda>x. if x = 0 then DEVICE_MARKER else if x = 32 then SECTOR_HEADER
     else if x = 64 then SECTOR_USED
     else if x = 43 then 4 else if x = 44 \<or> x = 45 \<or> x = 46 then 0 else SECTOR_FREE)"

lemma demo_part_simps [simp]:
  "block_address demo_part = 0" "block_size demo_part = 256" "sector_size demo_part = 32"
  by (simp_all add: demo_part_def)

lemma demo_geometry: "geometry demo_part 8"
  by (simp add: geometry_def)

lemma demo_extent_len: "extent_len demo_part 4 = 2"
  by (simp add: extent_len_def sectors_needed_def)

lemma demo_volume: "volume demo_part 8 [1 \<mapsto> 4] demo_mem"
proof (rule volumeI)
  show "separated demo_part 8 [1 \<mapsto> 4]"
    by (auto simp: separated_def demo_extent_len split: if_splits)
  show "demo_mem (sector_at demo_part k) = marker_of demo_part [1 \<mapsto> 4] k" if "k < 8" for k
  proof -
    have "k \<in> {0, 1, 2, 3, 4, 5, 6, 7}" using that by auto
    then show ?thesis
      by (auto simp: marker_of_def inside_iff demo_extent_len demo_mem_def sector_at_def
          split: if_splits)
  qed
  have d: "demo_mem 43 = 4" "demo_mem 44 = 0" "demo_mem 45 = 0" "demo_mem 46 = 0"
    by (simp_all add: demo_mem_def)
  have "get32 demo_mem 43 = 4" by (simp add: get32_eval d)
  then show "get32 demo_mem (sector_at demo_part j + 11) = s" if "[1 \<mapsto> 4] j = Some s" for j s
    using that by (simp add: sector_at_def split: if_splits)
qed

lemma demo_first_fit: "first_fit demo_part [1 \<mapsto> 4] 4 7 = Some 3"
proof -
  have l: "[0..<7] = [0, 1, 2, 3, 4, 5, 6 :: nat]" "[0..<2] = [0, 1 :: nat]"
    "[Suc 0..<3] = [1, 2 :: nat]" "[2..<4] = [2, 3 :: nat]" "[3..<5] = [3, 4 :: nat]"
    "[0..<3] = [0, 1, 2 :: nat]" "[0..<4] = [0, 1, 2, 3 :: nat]"
    by (simp_all add: upt_rec)
  have m: "marker_of demo_part [1 \<mapsto> 4] 0 = DEVICE_MARKER"
    "marker_of demo_part [1 \<mapsto> 4] 1 = SECTOR_HEADER"
    "marker_of demo_part [1 \<mapsto> 4] (Suc 0) = SECTOR_HEADER"
    "marker_of demo_part [1 \<mapsto> 4] 2 = SECTOR_USED"
    "marker_of demo_part [1 \<mapsto> 4] 3 = SECTOR_FREE" "marker_of demo_part [1 \<mapsto> 4] 4 = SECTOR_FREE"
    by (simp_all add: marker_of_def demo_extent_len l)
  show ?thesis using m by (simp add: first_fit_def demo_extent_len l)
qed

theorem fsAllocate_refines_first_fit_witness:
  "fst (exec (fsAllocate demo_part 4) demo_mem) = 96
   \<and> volume demo_part 8 [1 \<mapsto> 4, 3 \<mapsto> 4] (snd (exec (fsAllocate demo_part 4) demo_mem))"
  using fsAllocate_refines_first_fit [OF demo_geometry demo_volume _ _ demo_first_fit] demo_extent_len
  by simp

text \<open>
  C23. \<open>fsFree\<close> refines removal from the map: it recomputes the length of the extent from the
  size its header stores and frees exactly the sectors of that extent, so that every other
  extent survives and the released sectors can be allocated again. No byte other than the
  markers of the extent changes.
\<close>

theorem fsFree_refines_removal:
  assumes g: "geometry part M" and v: "volume part M A m" and j: "A j = Some s"
  shows "volume part M (A(j := None)) (snd (exec (fsFree part (of_nat j * sector_size part)) m))
    \<and> (\<forall>k. j \<le> k \<and> k < j + extent_len part s \<longrightarrow>
         snd (exec (fsFree part (of_nat j * sector_size part)) m) (sector_at part k) = SECTOR_FREE)
    \<and> (\<forall>k c. k < M \<and> 0 < c \<and> c < unat (sector_size part) \<longrightarrow>
         snd (exec (fsFree part (of_nat j * sector_size part)) m) (sector_at part k + of_nat c)
           = m (sector_at part k + of_nat c))"
proof -
  have e: "j + extent_len part s \<le> M" using v j by (auto simp: volume_def separated_def)
  have r: "released part (of_nat j * sector_size part) m
      = mark part (extent_len part s) SECTOR_FREE (sector_at part j) m"
    by (rule released_volume [OF g v j])
  have "mark part (extent_len part s) SECTOR_FREE (sector_at part j) m (sector_at part k) = SECTOR_FREE"
    if "j \<le> k" "k < j + extent_len part s" for k
    using mark_marker [OF g _ e, of k] that e by simp
  then show ?thesis
    using volume_released [OF g v j] mark_byte [OF g _ e] by (simp add: exec_fsFree r)
qed

theorem fsFree_refines_removal_witness:
  "volume demo_part 8 Map.empty (snd (exec (fsFree demo_part 32) demo_mem))"
  using fsFree_refines_removal [OF demo_geometry demo_volume fun_upd_same] by (simp del: fun_upd_apply)

text \<open>
  Allocating and releasing again is the identity on the whole memory, up to the four bytes
  of the size field in the sector that was the header: no other byte, marker or content, of
  this or any other partition differs from before.
\<close>

theorem fsAllocate_fsFree_inverse:
  assumes g: "geometry part M" and v: "volume part M A m"
    and b: "n \<le> unat (block_size part)" "n + extent_len part s \<le> M + 1"
    and j: "first_fit part A s n = Some j"
  shows "exec (bindio (fsAllocate part s) (fsFree part)) m = ((), put32 m (sector_at part j + 11) s)"
proof -
  note alloc = exec_fsAllocate_Some [OF g v b j]
  let ?m = "allocated part (of_nat j * sector_size part) s m"
  have vol: "volume part M (A(j \<mapsto> s)) ?m" by (rule volume_allocated(2) [OF g v alloc(3,4)])
  have "released part (of_nat j * sector_size part) ?m
      = mark part (extent_len part s) SECTOR_FREE (sector_at part j) ?m"
    by (rule released_volume [OF g vol]) simp
  moreover have "mark part (extent_len part s) SECTOR_FREE (sector_at part j) ?m x
      = put32 m (sector_at part j + 11) s x" for x
  proof (cases "\<exists>k \<in> {j..<j + extent_len part s}. x = sector_at part k")
    case True
    then obtain k where k: "j \<le> k" "k < j + extent_len part s" "x = sector_at part k" by auto
    then have "k < M" "j < M" using alloc(3) by auto
    then show ?thesis
      using True k alloc(4) [OF k(1,2)] put32_marker [OF g] by (simp add: mark_sector_at)
  next
    case False
    then have "x \<noteq> sector_at part j" "\<not> (\<exists>k \<in> {Suc j..<Suc j + unat (sectors_needed part s)}. x = sector_at part k)"
      by (auto simp: extent_len_def)
    moreover have "sector_at part j + sector_size part = sector_at part (Suc j)"
      by (simp add: sector_at_def algebra_simps)
    ultimately have "?m x = put32 m (sector_at part j + 11) s x"
      by (simp add: allocated_def block_plus_sector mark_sector_at put32_def put_bytes_def)
    then show ?thesis using False by (simp add: mark_sector_at)
  qed
  ultimately show ?thesis using alloc(1) by (simp add: io_simps fun_eq_iff)
qed

theorem fsAllocate_fsFree_inverse_witness:
  "exec (bindio (fsAllocate demo_part 4) (fsFree demo_part)) demo_mem = ((), put32 demo_mem 107 4)"
  using fsAllocate_fsFree_inverse [OF demo_geometry demo_volume _ _ demo_first_fit] demo_extent_len
  by (simp add: sector_at_def)


text \<open>Three sectors, of which the last is free but needs a neighbour that is not.\<close>

definition full_part :: partition where
  "full_part = \<lparr>block_address = 0, block_size = 3, sector_count = 4, sector_size = 32\<rparr>"

definition full_mem :: mem where
  "full_mem = (\<lambda>x. if x = 64 then SECTOR_FREE else 0)"


end
