(* ===== verification/FsFile.thy ===== *)
theory FsFile
  imports FsAlloc
begin

text \<open>
  Files (kernel/fs/basefs/fsFile.c): creating and deleting a file, the table of open files, and
  reading and writing its contents. The contents lie in the sectors behind the header sector,
  one byte less than a sector in each because the first byte is the marker. The abstract
  specification is a list of bytes per file; reading and writing never touch a marker, and what
  was written is what is read.
\<close>

section \<open>Creating and deleting\<close>

definition fsFileCreate :: "partition \<Rightarrow> u8 list \<Rightarrow> u32 \<Rightarrow> handle io" where
  "fsFileCreate part filename sz =
     bindio (fsAllocate part sz) (\<lambda>handle.
     if handle = 0 then Ret 0
     else
       bindio (fsFileSetName part handle filename) (\<lambda>_.
       bindio (fsFileSetAttributes part handle (str '' rw '')) (\<lambda>_.
       bindio (fsFileSetNextAddress part handle 0) (\<lambda>_.
       bindio (fsFileSetParentAddress part handle 0) (\<lambda>_.
       bindio (fs_write_byte (block_address part + handle + FILE_OFFSET_FLAG) 0x00) (\<lambda>_.
       Ret handle))))))"

definition fsFileDelete :: "partition \<Rightarrow> handle \<Rightarrow> handle io" where
  "fsFileDelete part handle = bindio (fsFree part handle) (\<lambda>_. Ret handle)"

definition fsFileExtentCreate :: "partition \<Rightarrow> u32 \<Rightarrow> u32 \<Rightarrow> u32 \<Rightarrow> handle io" where
  "fsFileExtentCreate part sz parentPtr nextPtr =
     bindio (fsFileCreate part (str ''EXTENT'') sz) (\<lambda>handle.
     bindio (fsDirectorySetReferenceCount part handle 0) (\<lambda>_.
     bindio (fsFileSetAttributes part handle (str '' rwE'')) (\<lambda>_.
     bindio (fsFileSetNextAddress part handle nextPtr) (\<lambda>_.
     bindio (fsFileSetParentAddress part handle parentPtr) (\<lambda>_.
     Ret handle)))))"


section \<open>The table of open files\<close>

text \<open>
  \<open>File\<close> is a signed index. The two arrays have \<open>MAX_OPEN_FILES\<close> elements; the functions also
  have a value behind the end, because the code reads and writes index 16.
\<close>

definition MAX_OPEN_FILES :: nat where "MAX_OPEN_FILES = 16"

type_synonym file_index = int

record ftable =
  fileList :: "nat \<Rightarrow> u32"
  fileSize :: "nat \<Rightarrow> u32"

text \<open>The search loop of \<open>fsFileOpen\<close>: None is its early return of -1.\<close>

fun open_slot :: "ftable \<Rightarrow> nat list \<Rightarrow> nat \<Rightarrow> nat option" where
  "open_slot ft [] index = Some index"
| "open_slot ft (i # is) index =
     (if index = MAX_OPEN_FILES then None
      else if fileList ft i \<noteq> 0 then open_slot ft is index
      else Some i)"

definition fsFileOpen :: "ftable \<Rightarrow> partition \<Rightarrow> handle \<Rightarrow> (file_index \<times> ftable) io" where
  "fsFileOpen ft part handle =
     (case open_slot ft [0..<Suc MAX_OPEN_FILES] 0 of
        None \<Rightarrow> Ret (- 1, ft)
      | Some index \<Rightarrow>
          bindio (fs_read_byte (block_address part + handle)) (\<lambda>headerByte.
          if headerByte = SECTOR_FREE then Ret (- 1, ft)
          else
            bindio (fsFileGetSize part handle) (\<lambda>sz.
            Ret (int index, ft\<lparr>fileList := (fileList ft)(index := block_address part + handle),
                               fileSize := (fileSize ft)(index := sz)\<rparr>))))"

definition fsFileClose :: "ftable \<Rightarrow> file_index \<Rightarrow> u8 \<times> ftable" where
  "fsFileClose ft index =
     (if index < 0 \<or> index > int MAX_OPEN_FILES then (0, ft)
      else if fileList ft (nat index) = 0 then (0, ft)
      else (1, ft\<lparr>fileList := (fileList ft)(nat index := 0),
                  fileSize := (fileSize ft)(nat index := 0)\<rparr>))"


section \<open>Contents\<close>

fun write_loop :: "partition \<Rightarrow> u32 \<Rightarrow> buffer \<Rightarrow> nat list \<Rightarrow> u32 \<Rightarrow> u32 \<Rightarrow> unit io" where
  "write_loop part base buffer [] sector sectorCounter = Ret ()"
| "write_loop part base buffer (i # is) sector sectorCounter =
     (let (sector, sectorCounter) =
        (if sectorCounter = sector_size part - 1 then (sector + 1, 0) else (sector, sectorCounter));
        positionOffset = sector_size part + sector + 1
      in bindio (fs_write_byte (base + positionOffset) (buffer i)) (\<lambda>_.
         write_loop part base buffer is (sector + 1) (sectorCounter + 1)))"

fun read_loop :: "partition \<Rightarrow> u32 \<Rightarrow> buffer \<Rightarrow> nat list \<Rightarrow> u32 \<Rightarrow> u32 \<Rightarrow> buffer io" where
  "read_loop part base buffer [] sector sectorCounter = Ret buffer"
| "read_loop part base buffer (i # is) sector sectorCounter =
     (let (sector, sectorCounter) =
        (if sectorCounter = sector_size part - 1 then (sector + 1, 0) else (sector, sectorCounter));
        positionOffset = sector_size part + sector + 1
      in bindio (fs_read_byte (base + positionOffset)) (\<lambda>b.
         read_loop part base (buffer(i := b)) is (sector + 1) (sectorCounter + 1)))"

definition fsFileWrite :: "ftable \<Rightarrow> partition \<Rightarrow> file_index \<Rightarrow> buffer \<Rightarrow> u32 \<Rightarrow> u8 io" where
  "fsFileWrite ft part index buffer sz =
     (if index < 0 \<or> index > int MAX_OPEN_FILES then Ret 0
      else if fileList ft (nat index) = 0 then Ret 0
      else if sz - 1 \<ge> fileSize ft (nat index) + 2 then Ret 0
      else bindio (write_loop part (fileList ft (nat index)) buffer [0..<unat (sz - 1)] 0 0)
             (\<lambda>_. Ret 1))"

definition fsFileRead :: "ftable \<Rightarrow> partition \<Rightarrow> file_index \<Rightarrow> buffer \<Rightarrow> u32 \<Rightarrow> (u8 \<times> buffer) io" where
  "fsFileRead ft part index buffer sz =
     (if index < 0 \<or> index > int MAX_OPEN_FILES then Ret (0, buffer)
      else if fileList ft (nat index) = 0 then Ret (0, buffer)
      else if sz - 1 \<ge> fileSize ft (nat index) + 2 then Ret (0, buffer)
      else bindio (read_loop part (fileList ft (nat index)) buffer [0..<unat (sz - 1)] 0 0)
             (\<lambda>buffer. Ret (1, buffer)))"


section \<open>Where the contents lie\<close>

text \<open>The bytes of contents in a sector, and byte \<open>i\<close> of the file whose header is in sector \<open>j\<close>.\<close>

definition payload :: "partition \<Rightarrow> nat" where
  "payload part = unat (sector_size part) - 1"

definition content_addr :: "partition \<Rightarrow> nat \<Rightarrow> nat \<Rightarrow> u32" where
  "content_addr part j i =
     sector_at part (j + 1 + i div payload part) + of_nat (1 + i mod payload part)"

text \<open>The values of the two counters at the top of iteration \<open>i\<close>.\<close>

definition sector_inv :: "nat \<Rightarrow> nat \<Rightarrow> nat" where
  "sector_inv n i = i + (i - 1) div n"

definition counter_inv :: "nat \<Rightarrow> nat \<Rightarrow> nat" where
  "counter_inv n i = (if i = 0 then 0 else (i - 1) mod n + 1)"

lemma counters_step:
  assumes "0 < n"
  shows "counter_inv n i = n \<Longrightarrow> sector_inv n i + 1 = i + i div n \<and> counter_inv n (Suc i) = 1"
    and "counter_inv n i \<noteq> n \<Longrightarrow> sector_inv n i = i + i div n
           \<and> counter_inv n (Suc i) = counter_inv n i + 1"
proof -
  have step: "Suc k mod n = (if k mod n = n - 1 then 0 else Suc (k mod n))"
    "Suc k div n = (if k mod n = n - 1 then Suc (k div n) else k div n)" for k
    using assms mod_Suc [of k n] div_Suc [of k n] by auto
  show "sector_inv n i + 1 = i + i div n \<and> counter_inv n (Suc i) = 1" if "counter_inv n i = n"
    using that step [of "i - 1"] assms
    by (cases i) (auto simp: counter_inv_def sector_inv_def split: if_splits)
  show "sector_inv n i = i + i div n \<and> counter_inv n (Suc i) = counter_inv n i + 1"
    if "counter_inv n i \<noteq> n"
    using that step [of "i - 1"] assms
    by (cases i) (auto simp: counter_inv_def sector_inv_def split: if_splits)
qed

lemma counter_inv_le: "0 < n \<Longrightarrow> counter_inv n i \<le> n"
  using mod_less_divisor [of n "i - 1"] by (auto simp: counter_inv_def Suc_leI)

lemma sector_inv_Suc: "sector_inv n (Suc i) = i + i div n + 1"
  by (simp add: sector_inv_def)

lemma content_addr_eq:
  assumes "1 < unat (sector_size part)"
  shows "sector_at part j + (sector_size part + of_nat (i + i div payload part) + 1)
    = content_addr part j i"
proof -
  let ?n = "payload part"
  have w: "i + i div ?n = (i div ?n) * (?n + 1) + i mod ?n"
    using div_mult_mod_eq [of i ?n] by (simp add: algebra_simps)
  have n: "?n + 1 = unat (sector_size part)" using assms by (simp add: payload_def)
  have e: "i + i div ?n = (i div ?n) * unat (sector_size part) + i mod ?n"
    unfolding n [symmetric] by (rule w)
  have "(of_nat (i + i div ?n) :: u32) = of_nat (i div ?n) * sector_size part + of_nat (i mod ?n)"
    unfolding e by simp
  then show ?thesis
    by (simp add: content_addr_def sector_at_def algebra_simps)
qed

lemma loop_counters:
  assumes ss: "1 < unat (sector_size part)"
  shows "(if of_nat (counter_inv (payload part) i) = sector_size part - 1
      then (of_nat (sector_inv (payload part) i) + 1, 0)
      else (of_nat (sector_inv (payload part) i),
            of_nat (counter_inv (payload part) i)))
    = (of_nat (i + i div payload part) :: u32,
       of_nat (counter_inv (payload part) (Suc i)) - 1 :: u32)"
proof -
  let ?n = "payload part"
  have n: "0 < ?n" using ss by (simp add: payload_def)
  have le: "1 \<le> sector_size part" using ss by (simp add: word_le_nat_alt)
  have u: "unat (sector_size part - 1) = ?n" using unat_sub_le [OF le] by (simp add: payload_def)
  have "unat (sector_size part) < 2 ^ 32"
    using unsigned_less [where 'a = nat and w = "sector_size part"] by simp
  then have "?n < 2 ^ 32" by (simp add: payload_def)
  then have c: "unat (of_nat (counter_inv ?n i) :: u32) = counter_inv ?n i"
    using counter_inv_le [OF n, of i] by (intro unat_of_nat_u32) linarith
  have eq: "(of_nat (counter_inv ?n i) :: u32) = sector_size part - 1 \<longleftrightarrow> counter_inv ?n i = ?n"
    unfolding u32_eq_iff_unat u c ..
  show ?thesis
  proof (cases "counter_inv ?n i = ?n")
    case True
    from counters_step(1) [OF n True] have "(of_nat (sector_inv ?n i + 1) :: u32) = of_nat (i + i div ?n)"
      "counter_inv ?n (Suc i) = 1" by simp_all
    then show ?thesis using True eq by (simp add: add.commute)
  next
    case False
    from counters_step(2) [OF n False] show ?thesis using False eq by simp
  qed
qed

lemma exec_write_loop:
  assumes ss: "1 < unat (sector_size part)" and kn: "k \<le> n"
  shows "exec (write_loop part (sector_at part j) buffer [k..<n]
      (of_nat (sector_inv (payload part) k))
      (of_nat (counter_inv (payload part) k))) m
    = ((), fold (\<lambda>i m. m(content_addr part j i := buffer i)) [k..<n] m)"
  using kn
proof (induction "n - k" arbitrary: k m)
  case 0
  then show ?case by simp
next
  case (Suc d)
  then have kn: "k < n" by simp
  have s: "of_nat (k + k div payload part) + 1
      = (of_nat (sector_inv (payload part) (Suc k)) :: u32)"
    by (simp add: sector_inv_Suc)
  have "exec (write_loop part (sector_at part j) buffer [Suc k..<n]
      (of_nat (sector_inv (payload part) (Suc k)))
      (of_nat (counter_inv (payload part) (Suc k)))) (m(content_addr part j k := buffer k))
    = ((), fold (\<lambda>i m. m(content_addr part j i := buffer i)) [Suc k..<n] (m(content_addr part j k := buffer k)))"
    using Suc.hyps(2) kn by (intro Suc.hyps(1)) auto
  then show ?case
    unfolding upt_conv_Cons [OF kn] write_loop.simps loop_counters [OF ss] Let_def split
    by (simp add: io_simps content_addr_eq [OF ss] s del: of_nat_add fun_upd_apply)
qed

lemma exec_read_loop:
  assumes ss: "1 < unat (sector_size part)" and kn: "k \<le> n"
  shows "exec (read_loop part (sector_at part j) buffer [k..<n]
      (of_nat (sector_inv (payload part) k))
      (of_nat (counter_inv (payload part) k))) m
    = (\<lambda>i. if k \<le> i \<and> i < n then m (content_addr part j i) else buffer i, m)"
  using kn
proof (induction "n - k" arbitrary: k buffer)
  case 0
  then show ?case by (auto simp: fun_eq_iff)
next
  case (Suc d)
  then have kn: "k < n" by simp
  have s: "of_nat (k + k div payload part) + 1
      = (of_nat (sector_inv (payload part) (Suc k)) :: u32)"
    by (simp add: sector_inv_Suc)
  let ?buf = "buffer(k := m (content_addr part j k))"
  have "exec (read_loop part (sector_at part j) ?buf [Suc k..<n]
      (of_nat (sector_inv (payload part) (Suc k)))
      (of_nat (counter_inv (payload part) (Suc k)))) m
    = (\<lambda>i. if Suc k \<le> i \<and> i < n then m (content_addr part j i) else ?buf i, m)"
    using Suc.hyps(2) kn by (intro Suc.hyps(1)) auto
  moreover have "(\<lambda>i. if Suc k \<le> i \<and> i < n then m (content_addr part j i) else ?buf i)
      = (\<lambda>i. if k \<le> i \<and> i < n then m (content_addr part j i) else buffer i)"
    using kn by (auto simp: fun_eq_iff)
  ultimately show ?case
    unfolding upt_conv_Cons [OF kn] read_loop.simps loop_counters [OF ss] Let_def split
    by (simp add: io_simps content_addr_eq [OF ss] s del: of_nat_add fun_upd_apply)
qed


section \<open>The contents as a list of bytes\<close>

definition contents :: "partition \<Rightarrow> nat \<Rightarrow> nat \<Rightarrow> mem \<Rightarrow> u8 list" where
  "contents part j n m = map (\<lambda>i. m (content_addr part j i)) [0..<n]"

text \<open>What \<open>fsFileOpen\<close> leaves in the table for the file in sector \<open>j\<close>.\<close>

definition opened :: "ftable \<Rightarrow> partition \<Rightarrow> file_index \<Rightarrow> nat \<Rightarrow> u32 \<Rightarrow> bool" where
  "opened ft part f j s \<longleftrightarrow> 0 \<le> f \<and> f \<le> int MAX_OPEN_FILES
     \<and> fileList ft (nat f) = sector_at part j \<and> fileList ft (nat f) \<noteq> 0
     \<and> fileSize ft (nat f) = s"

text \<open>
  A request of \<open>sz\<close> bytes moves \<open>sz - 1\<close>. The check of the code lets through at most one byte
  more than the size of the file, and that is just what the sectors of the extent hold.
\<close>

definition accepted :: "u32 \<Rightarrow> u32 \<Rightarrow> bool" where
  "accepted s sz \<longleftrightarrow> sz \<noteq> 0 \<and> unat sz - 1 \<le> unat s + 1"

lemma extent_size:
  assumes "geometry part M" "j + extent_len part s \<le> M"
  shows "unat s + 1 \<le> unat (sectors_needed part s) * payload part"
    and "unat s + 2 < 2 ^ 32" and "0 < payload part"
proof -
  let ?n = "payload part"
  show n: "0 < ?n" using assms(1) by (simp add: geometry_def payload_def)
  have le: "1 \<le> sector_size part" using assms(1) by (simp add: geometry_def word_le_nat_alt)
  have u: "unat (sector_size part - 1) = ?n" using unat_sub_le [OF le] by (simp add: payload_def)
  have q: "unat (s div (sector_size part - 1)) = unat s div ?n" by (simp add: unat_div u)
  have "extent_len part s = unat (s div (sector_size part - 1) + 2)"
    by (rule unat_sectors_plus_2 [OF assms(2,1), symmetric])
  have "unat s div ?n < 2 ^ 32 - 1"
  proof -
    have "31 \<le> ?n" using assms(1) unfolding geometry_def payload_def by linarith
    then have "unat s div ?n \<le> unat s div 31" by (intro div_le_mono2) auto
    moreover have "unat s < 2 ^ 32" using unsigned_less [where 'a = nat and w = s] by simp
    moreover have "unat s div 31 < 2 ^ 32 - 1"
      using calculation(2) by (intro less_mult_imp_div_less) simp
    ultimately show ?thesis by linarith
  qed
  then have nos: "unat (sectors_needed part s) = unat s div ?n + 1"
    unfolding sectors_needed_def using q by (subst unat_add_no_wrap) auto
  show cap: "unat s + 1 \<le> unat (sectors_needed part s) * ?n"
  proof -
    have "unat s = unat s div ?n * ?n + unat s mod ?n" by simp
    then show ?thesis
      unfolding nos add_mult_distrib using mod_less_divisor [OF n, of "unat s"] by linarith
  qed
  have "extent_len part s * unat (sector_size part) \<le> M * unat (sector_size part)"
    using assms(2) by (intro mult_le_mono1) simp
  also have "\<dots> \<le> 2 ^ 32" using assms(1) by (simp add: geometry_def)
  finally have "(unat (sectors_needed part s) + 1) * unat (sector_size part) \<le> 2 ^ 32"
    by (simp add: extent_len_def)
  moreover have "unat (sectors_needed part s) * ?n \<le> unat (sectors_needed part s) * unat (sector_size part)"
    by (intro mult_le_mono2) (simp add: payload_def)
  moreover have "32 \<le> unat (sector_size part)" using assms(1) by (simp add: geometry_def)
  ultimately show "unat s + 2 < 2 ^ 32" using cap unfolding add_mult_distrib by linarith
qed

lemma content_addr_bounds:
  assumes "geometry part M" "j + extent_len part s \<le> M" "i \<le> unat s"
  shows "j + 1 + i div payload part < j + extent_len part s"
    and "1 + i mod payload part < unat (sector_size part)"
proof -
  note n = extent_size [OF assms(1,2)]
  have "i < unat (sectors_needed part s) * payload part" using n(1) assms(3) by linarith
  then have "i div payload part < unat (sectors_needed part s)"
    using n(3) by (simp add: div_less_iff_less_mult)
  then show "j + 1 + i div payload part < j + extent_len part s" by (simp add: extent_len_def)
  have "i mod payload part < payload part" using n(3) by simp
  then show "1 + i mod payload part < unat (sector_size part)" by (simp add: payload_def)
qed

lemma content_addr_inj:
  assumes g: "geometry part M" and e: "j + extent_len part s \<le> M" "j' + extent_len part s' \<le> M"
    and i: "i \<le> unat s" "i' \<le> unat s'"
  shows "content_addr part j i = content_addr part j' i' \<longleftrightarrow>
    j + i div payload part = j' + i' div payload part \<and> i mod payload part = i' mod payload part"
proof -
  note b = content_addr_bounds [OF g e(1) i(1)] and b' = content_addr_bounds [OF g e(2) i(2)]
  show ?thesis
    unfolding content_addr_def
    by (subst sector_byte_eq [OF g _ _ b(2) b'(2)]) (use b(1) b'(1) e in auto)
qed

lemma content_addr_inj_same:
  assumes "geometry part M" "j + extent_len part s \<le> M" "i \<le> unat s" "i' \<le> unat s"
  shows "content_addr part j i = content_addr part j i' \<longleftrightarrow> i = i'"
  using content_addr_inj [OF assms(1) assms(2,2,3,4)] by (metis add_left_cancel div_mult_mod_eq)

lemma content_addr_not_header:
  assumes g: "geometry part M" and e: "j + extent_len part s \<le> M" and i: "i \<le> unat s"
    and k: "k < M" "c < unat (sector_size part)" "c = 0 \<or> k \<le> j"
  shows "content_addr part j i \<noteq> sector_at part k + of_nat c"
proof -
  note b = content_addr_bounds [OF g e i]
  show ?thesis
    unfolding content_addr_def
    by (subst sector_byte_eq [OF g _ k(1) b(2) k(2)]) (use b(1) e k(3) in auto)
qed

text \<open>The effect of the write loop on a memory, byte by byte.\<close>

definition write_contents :: "partition \<Rightarrow> nat \<Rightarrow> buffer \<Rightarrow> nat \<Rightarrow> mem \<Rightarrow> mem" where
  "write_contents part j buffer n m = fold (\<lambda>i m. m(content_addr part j i := buffer i)) [0..<n] m"

lemma write_contents_other:
  "(\<And>i. i < n \<Longrightarrow> x \<noteq> content_addr part j i) \<Longrightarrow> write_contents part j buffer n m x = m x"
  by (induction n) (auto simp: write_contents_def)

lemma write_contents_at:
  assumes "geometry part M" "j + extent_len part s \<le> M" "n \<le> unat s + 1" "i < n"
  shows "write_contents part j buffer n m (content_addr part j i) = buffer i"
  using assms(3,4)
proof (induction n)
  case 0
  then show ?case by simp
next
  case (Suc n)
  have "content_addr part j i = content_addr part j n \<longleftrightarrow> i = n"
    using Suc.prems by (intro content_addr_inj_same [OF assms(1,2)]) auto
  then show ?case using Suc by (auto simp: write_contents_def)
qed

lemma write_contents_sector:
  assumes "geometry part M" "j + extent_len part s \<le> M" "n \<le> unat s + 1"
    and "k < M" "c < unat (sector_size part)" "c = 0 \<or> k \<le> j"
  shows "write_contents part j buffer n m (sector_at part k + of_nat c) = m (sector_at part k + of_nat c)"
proof (rule write_contents_other)
  fix i assume "i < n"
  then show "sector_at part k + of_nat c \<noteq> content_addr part j i"
    using content_addr_not_header [OF assms(1,2) _ assms(4-6), of i] assms(3) by auto
qed

text \<open>Contents of different extents are apart, and so are contents and headers.\<close>

lemma separated_sectors:
  assumes "separated part M A" "A j = Some s" "A k = Some t" "j \<noteq> k"
    and "j \<le> a" "a < j + extent_len part s" "k \<le> b" "b < k + extent_len part t"
  shows "a \<noteq> b"
proof -
  have "j + extent_len part s \<le> k \<or> k + extent_len part t \<le> j"
    using assms(1-4) unfolding separated_def by (metis domI linorder_neqE_nat)
  then show ?thesis using assms(5-8) by auto
qed

lemma write_contents_header:
  assumes g: "geometry part M" and sep: "separated part M A" and j: "A j = Some s"
    and n: "n \<le> unat s + 1" and k: "A k = Some t" and c: "c < unat (sector_size part)"
  shows "write_contents part j buffer n m (sector_at part k + of_nat c) = m (sector_at part k + of_nat c)"
proof (rule write_contents_other)
  fix i assume i: "i < n"
  have e: "j + extent_len part s \<le> M" and kM: "k < M"
    using sep j separated_bound [OF sep k] by (auto simp: separated_def)
  note b = content_addr_bounds [OF g e, of i]
  show "sector_at part k + of_nat c \<noteq> content_addr part j i"
  proof (cases "k = j")
    case True
    then show ?thesis using content_addr_not_header [OF g e _ kM c, of i] i n by auto
  next
    case False
    have "j + 1 + i div payload part \<noteq> k"
      using b(1) i n by (intro separated_sectors [OF sep j k False [symmetric]]) (auto simp: extent_len_def)
    then show ?thesis
      unfolding content_addr_def
      using sector_byte_eq [OF g kM _ c b(2), of "j + 1 + i div payload part"] b(1) e i n by auto
  qed
qed

lemma volume_write_contents:
  assumes g: "geometry part M" and v: "volume part M A m" and j: "A j = Some s"
    and n: "n \<le> unat s + 1"
  shows "volume part M A (write_contents part j buffer n m)"
proof (rule volumeI)
  show sep: "separated part M A" using v by (simp add: volume_def)
  then have e: "j + extent_len part s \<le> M" using j by (auto simp: separated_def)
  have ss: "32 \<le> unat (sector_size part)" using g by (simp add: geometry_def)
  show "write_contents part j buffer n m (sector_at part k) = marker_of part A k" if "k < M" for k
    using write_contents_sector [OF g e n that, of 0 buffer m] ss v that by (simp add: volume_def)
  fix k t assume k: "A k = Some t"
  have "get32 (write_contents part j buffer n m) (sector_at part k + 11) = get32 m (sector_at part k + 11)"
    by (rule size_field_cong [OF g separated_bound [OF sep k]], rule write_contents_header [OF g sep j n k])
      (use ss in auto)
  then show "get32 (write_contents part j buffer n m) (sector_at part k + 11) = t"
    using v k by (simp add: volume_def)
qed

lemma write_contents_foreign:
  assumes g: "geometry part M" and sep: "separated part M A" and j: "A j = Some s"
    and n: "n \<le> unat s + 1" and k: "A k = Some t" "k \<noteq> j"
  shows "contents part k (unat t + 1) (write_contents part j buffer n m) = contents part k (unat t + 1) m"
  unfolding contents_def
proof (rule map_cong [OF refl], rule write_contents_other)
  fix l i assume l: "l \<in> set [0..<unat t + 1]" and i: "i < n"
  have e: "j + extent_len part s \<le> M" "k + extent_len part t \<le> M"
    using sep j k by (auto simp: separated_def)
  have b: "j + 1 + i div payload part < j + extent_len part s"
    "k + 1 + l div payload part < k + extent_len part t"
    using content_addr_bounds(1) [OF g e(1), of i] content_addr_bounds(1) [OF g e(2), of l] i l n by auto
  have "k + 1 + l div payload part \<noteq> j + 1 + i div payload part"
    using b by (intro separated_sectors [OF sep k(1) j k(2)]) auto
  then show "content_addr part k l \<noteq> content_addr part j i"
    using content_addr_inj [OF g e(2,1), of l i] l i n by auto
qed


section \<open>Reading and writing an open file\<close>

lemma accepted_guard:
  assumes "unat s + 2 < 2 ^ 32"
  shows "sz - 1 \<ge> s + 2 \<longleftrightarrow> \<not> accepted s sz"
    and "accepted s sz \<Longrightarrow> unat (sz - 1) = unat sz - 1"
proof -
  have s2: "unat (s + 2) = unat s + 2" using assms by (subst unat_add_no_wrap) auto
  have z: "unat (sz - 1) = unat sz - 1" if "sz \<noteq> 0"
    using that unat_sub_le [of 1 sz] by (simp add: word_le_nat_alt Suc_leI unat_gt_0)
  show "accepted s sz \<Longrightarrow> unat (sz - 1) = unat sz - 1" using z by (simp add: accepted_def)
  show "sz - 1 \<ge> s + 2 \<longleftrightarrow> \<not> accepted s sz"
  proof (cases "sz = 0")
    case True
    then show ?thesis using s2 assms
      by (simp add: accepted_def word_le_nat_alt unat_minus_one)
  next
    case False
    then show ?thesis using s2 z by (auto simp: accepted_def word_le_nat_alt)
  qed
qed

lemma own_extent: "separated part M A \<Longrightarrow> A j = Some s \<Longrightarrow> j + extent_len part s \<le> M"
  by (auto simp: separated_def)

lemma sector_gt_1: "geometry part M \<Longrightarrow> 1 < unat (sector_size part)"
  by (simp add: geometry_def)

lemma exec_fsFileWrite_opened:
  assumes g: "geometry part M" and sep: "separated part M A" and j: "A j = Some s"
    and f: "opened ft part f j s"
  shows "exec (fsFileWrite ft part f buffer sz) m =
    (if accepted s sz then (1, write_contents part j buffer (unat sz - 1) m) else (0, m))"
  using f accepted_guard [OF extent_size(2) [OF g own_extent [OF sep j]], of sz]
    exec_write_loop [OF sector_gt_1 [OF g], of 0 "unat sz - 1" j buffer m]
  by (auto simp: fsFileWrite_def opened_def io_simps write_contents_def sector_inv_def counter_inv_def)

lemma exec_fsFileRead_opened:
  assumes g: "geometry part M" and sep: "separated part M A" and j: "A j = Some s"
    and f: "opened ft part f j s"
  shows "exec (fsFileRead ft part f buffer sz) m =
    (if accepted s sz
     then ((1, \<lambda>i. if i < unat sz - 1 then m (content_addr part j i) else buffer i), m)
     else ((0, buffer), m))"
  using f accepted_guard [OF extent_size(2) [OF g own_extent [OF sep j]], of sz]
    exec_read_loop [OF sector_gt_1 [OF g], of 0 "unat sz - 1" j buffer m]
  by (auto simp: fsFileRead_def opened_def io_simps sector_inv_def counter_inv_def)

text \<open>
  C4. Writing to an open file. A request is accepted exactly when its size is not 0 and at most
  two bytes larger than the file; it then stores the first \<open>sz - 1\<close> bytes of the buffer as the
  file's contents. The volume (every marker, every stored size) stays intact, so do the header
  sectors and the contents of all other files, and no byte outside the file's own contents
  changes. A request that is not accepted returns 0 and changes nothing.
\<close>

theorem fsFileWrite_updates_contents:
  assumes g: "geometry part M" and v: "volume part M A m" and j: "A j = Some s"
    and f: "opened ft part f j s"
  shows "if accepted s sz then
      fst (exec (fsFileWrite ft part f buffer sz) m) = 1
    \<and> contents part j (unat sz - 1) (snd (exec (fsFileWrite ft part f buffer sz) m))
        = map buffer [0..<unat sz - 1]
    \<and> volume part M A (snd (exec (fsFileWrite ft part f buffer sz) m))
    \<and> (\<forall>k t. A k = Some t \<and> k \<noteq> j \<longrightarrow>
         contents part k (unat t + 1) (snd (exec (fsFileWrite ft part f buffer sz) m))
           = contents part k (unat t + 1) m)
    \<and> (\<forall>k t c. A k = Some t \<and> c < unat (sector_size part) \<longrightarrow>
         snd (exec (fsFileWrite ft part f buffer sz) m) (sector_at part k + of_nat c)
           = m (sector_at part k + of_nat c))
    \<and> (\<forall>x. (\<forall>i < unat sz - 1. x \<noteq> content_addr part j i) \<longrightarrow>
         snd (exec (fsFileWrite ft part f buffer sz) m) x = m x)
    else exec (fsFileWrite ft part f buffer sz) m = (0, m)"
proof (cases "accepted s sz")
  case True
  then have n: "unat sz - 1 \<le> unat s + 1" by (simp add: accepted_def)
  have sep: "separated part M A" using v by (simp add: volume_def)
  note e = own_extent [OF sep j]
  have r: "exec (fsFileWrite ft part f buffer sz) m = (1, write_contents part j buffer (unat sz - 1) m)"
    using exec_fsFileWrite_opened [OF g sep j f] True by simp
  have "contents part j (unat sz - 1) (write_contents part j buffer (unat sz - 1) m)
      = map buffer [0..<unat sz - 1]"
    unfolding contents_def by (rule map_cong [OF refl], rule write_contents_at [OF g e n]) simp
  then show ?thesis
    using True volume_write_contents [OF g v j n] write_contents_foreign [OF g sep j n]
      write_contents_header [OF g sep j n] write_contents_other
    by (simp add: r)
next
  case False
  have sep: "separated part M A" using v by (simp add: volume_def)
  show ?thesis using exec_fsFileWrite_opened [OF g sep j f] False by simp
qed

text \<open>
  Round trip: reading an accepted size from an open file right after writing it gives back
  the bytes written, leaves the rest of the reader's buffer alone and does not change the device.
\<close>

theorem fsFileWrite_fsFileRead_roundtrip:
  assumes g: "geometry part M" and v: "volume part M A m" and j: "A j = Some s"
    and f: "opened ft part f j s" and sz: "accepted s sz"
  shows "exec (bindio (fsFileWrite ft part f buffer sz) (\<lambda>_. fsFileRead ft part f buffer' sz)) m
    = ((1, \<lambda>i. if i < unat sz - 1 then buffer i else buffer' i),
       snd (exec (fsFileWrite ft part f buffer sz) m))"
proof -
  have sep: "separated part M A" using v by (simp add: volume_def)
  have n: "unat sz - 1 \<le> unat s + 1" using sz by (simp add: accepted_def)
  show ?thesis
    using exec_fsFileWrite_opened [OF g sep j f] exec_fsFileRead_opened [OF g sep j f] sz
      write_contents_at [OF g own_extent [OF sep j] n]
    by (auto simp: io_simps fun_eq_iff)
qed


text \<open>The open file of the witnesses.\<close>

definition demo_table :: ftable where
  "demo_table = \<lparr>fileList = (\<lambda>i. if i = 0 then 32 else 0), fileSize = (\<lambda>i. if i = 0 then 4 else 0)\<rparr>"

lemma demo_opened: "opened demo_table demo_part 0 1 4"
  by (simp add: opened_def demo_table_def sector_at_def MAX_OPEN_FILES_def)

lemma demo_accepted: "accepted 4 4"
  by (simp add: accepted_def)

theorem fsFileWrite_updates_contents_witness:
  "fst (exec (fsFileWrite demo_table demo_part 0 (\<lambda>i. 7) 4) demo_mem) = 1
   \<and> contents demo_part 1 3 (snd (exec (fsFileWrite demo_table demo_part 0 (\<lambda>i. 7) 4) demo_mem))
       = [7, 7, 7]"
proof -
  have "[0..<3] = [0, 1, 2 :: nat]" by (simp add: upt_rec)
  then show ?thesis
    using fsFileWrite_updates_contents [OF demo_geometry demo_volume fun_upd_same demo_opened,
        where buffer = "\<lambda>i. 7" and sz = 4] demo_accepted
    by simp
qed

theorem fsFileWrite_fsFileRead_roundtrip_witness:
  "fst (fst (exec (bindio (fsFileWrite demo_table demo_part 0 (\<lambda>i. 7) 4)
     (\<lambda>_. fsFileRead demo_table demo_part 0 (\<lambda>i. 0) 4)) demo_mem)) = 1"
  using fsFileWrite_fsFileRead_roundtrip
    [OF demo_geometry demo_volume fun_upd_same demo_opened demo_accepted, where buffer = "\<lambda>i. 7" and buffer' = "\<lambda>i. 0"]
  by simp


section \<open>Opening and closing\<close>

text \<open>
  The first free slot; the slot behind the end of the array if only that word is 0; slot 0 when
  there is none.
\<close>

definition chosen_slot :: "ftable \<Rightarrow> nat" where
  "chosen_slot ft =
     (case find (\<lambda>i. fileList ft i = 0) [0..<Suc MAX_OPEN_FILES] of Some i \<Rightarrow> i | None \<Rightarrow> 0)"

lemma open_slot_find:
  "open_slot ft is 0 = Some (case find (\<lambda>i. fileList ft i = 0) is of Some i \<Rightarrow> i | None \<Rightarrow> 0)"
  by (induction "is") (auto simp: MAX_OPEN_FILES_def)

lemma exec_fsFileOpen:
  "exec (fsFileOpen ft part h) m =
     (if m (block_address part + h) = SECTOR_FREE then ((- 1, ft), m)
      else ((int (chosen_slot ft),
             ft\<lparr>fileList := (fileList ft)(chosen_slot ft := block_address part + h),
                fileSize := (fileSize ft)(chosen_slot ft := get32 m (block_address part + h + 11))\<rparr>), m))"
  by (simp add: fsFileOpen_def open_slot_find chosen_slot_def io_simps)

lemma find_SomeD: "find P xs = Some x \<Longrightarrow> P x \<and> x \<in> set xs"
  by (induction xs) (auto split: if_splits)

lemma find_SomeI: "x \<in> set xs \<Longrightarrow> P x \<Longrightarrow> \<exists>y. find P xs = Some y"
  by (induction xs) auto

lemma chosen_slot_le: "chosen_slot ft \<le> MAX_OPEN_FILES"
  using find_SomeD [of "\<lambda>i. fileList ft i = 0" "[0..<Suc MAX_OPEN_FILES]"]
  by (auto simp: chosen_slot_def simp del: upt_Suc split: option.splits)

lemma chosen_slot_free:
  assumes "\<exists>i < MAX_OPEN_FILES. fileList ft i = 0"
  shows "chosen_slot ft < MAX_OPEN_FILES" "fileList ft (chosen_slot ft) = 0"
proof -
  from assms obtain i where i: "i \<in> set [0..<MAX_OPEN_FILES]" "fileList ft i = 0" by auto
  from find_SomeI [of i _ "\<lambda>i. fileList ft i = 0", OF i]
  obtain c where c: "find (\<lambda>i. fileList ft i = 0) [0..<MAX_OPEN_FILES] = Some c" by auto
  have "chosen_slot ft = c"
    using find_prefix [OF _ c, of "Suc MAX_OPEN_FILES"] by (simp add: chosen_slot_def del: upt_Suc)
  then show "chosen_slot ft < MAX_OPEN_FILES" "fileList ft (chosen_slot ft) = 0"
    using find_SomeD [OF c] by auto
qed

lemma separated_nonzero: "separated part M A \<Longrightarrow> A j = Some s \<Longrightarrow> j \<noteq> 0"
  by (cases "j = 0") (auto simp: separated_def)

lemma exec_fsFileOpen_volume:
  assumes v: "volume part M A m" and j: "A j = Some s"
  shows "exec (fsFileOpen ft part (of_nat j * sector_size part)) m =
    ((int (chosen_slot ft),
      ft\<lparr>fileList := (fileList ft)(chosen_slot ft := sector_at part j),
         fileSize := (fileSize ft)(chosen_slot ft := s)\<rparr>), m)"
proof -
  have "separated part M A" using v by (simp add: volume_def)
  then have "j < M" "j \<noteq> 0" using j separated_bound separated_nonzero by auto
  then have "m (sector_at part j) = SECTOR_HEADER" using v j by (simp add: volume_def marker_of_def)
  moreover have "get32 m (sector_at part j + 11) = s" using v j by (simp add: volume_def)
  ultimately show ?thesis by (simp add: exec_fsFileOpen block_plus_sector)
qed

text \<open>
  Opening a file. When a slot of the table is free, opening the file whose header is in
  sector \<open>j\<close> returns the index of a slot that was free, the table then gives access to that
  file, every other open file keeps its slot, and closing the returned index restores the table.
  The handle of a free sector is refused with -1.
\<close>

theorem fsFileOpen_opens:
  assumes v: "volume part M A m" and j: "A j = Some s" and nz: "sector_at part j \<noteq> 0"
    and slot: "\<exists>i < MAX_OPEN_FILES. fileList ft i = 0"
  shows "\<exists>f ft'. exec (fsFileOpen ft part (of_nat j * sector_size part)) m = ((f, ft'), m)
    \<and> opened ft' part f j s
    \<and> f < int MAX_OPEN_FILES \<and> fileList ft (nat f) = 0
    \<and> (\<forall>f' j' s'. opened ft part f' j' s' \<longrightarrow> opened ft' part f' j' s' \<and> f' \<noteq> f)
    \<and> fst (fsFileClose ft' f) = 1
    \<and> (fileSize ft (nat f) = 0 \<longrightarrow> snd (fsFileClose ft' f) = ft)
    \<and> (\<forall>h. m (block_address part + h) = SECTOR_FREE \<longrightarrow>
         exec (fsFileOpen ft part h) m = ((- 1, ft), m))"
proof -
  let ?c = "chosen_slot ft"
  let ?ft = "ft\<lparr>fileList := (fileList ft)(?c := sector_at part j), fileSize := (fileSize ft)(?c := s)\<rparr>"
  have r: "exec (fsFileOpen ft part (of_nat j * sector_size part)) m = ((int ?c, ?ft), m)"
    by (rule exec_fsFileOpen_volume [OF v j])
  note c = chosen_slot_free [OF slot]
  have "opened ft part f' j' s' \<longrightarrow> opened ?ft part f' j' s' \<and> f' \<noteq> int ?c" for f' j' s'
    using c by (auto simp: opened_def)
  moreover have "opened ?ft part (int ?c) j s" using c nz by (simp add: opened_def)
  moreover have "fst (fsFileClose ?ft (int ?c)) = 1"
    using c nz by (simp add: fsFileClose_def)
  moreover have "snd (fsFileClose ?ft (int ?c)) = ft" if "fileSize ft ?c = 0"
    using c nz that by (simp add: fsFileClose_def fun_upd_idem)
  moreover have "\<forall>h. m (block_address part + h) = SECTOR_FREE \<longrightarrow>
      exec (fsFileOpen ft part h) m = ((- 1, ft), m)"
    by (simp add: exec_fsFileOpen)
  ultimately show ?thesis
    using r c by (intro exI [of _ "int ?c"] exI [of _ ?ft]) auto
qed

theorem fsFileOpen_opens_witness:
  "\<exists>f ft'. exec (fsFileOpen demo_table demo_part 32) demo_mem = ((f, ft'), demo_mem)
    \<and> opened ft' demo_part f 1 4 \<and> opened ft' demo_part 0 1 4 \<and> f \<noteq> 0"
proof -
  have slot: "\<exists>i < MAX_OPEN_FILES. fileList demo_table i = 0"
    by (rule exI [of _ 1]) (simp add: demo_table_def MAX_OPEN_FILES_def)
  have nz: "sector_at demo_part 1 \<noteq> 0" by (simp add: sector_at_def)
  have "exec (fsFileOpen demo_table demo_part (of_nat 1 * sector_size demo_part)) demo_mem
      = exec (fsFileOpen demo_table demo_part 32) demo_mem" by simp
  then show ?thesis
    using fsFileOpen_opens [OF demo_volume fun_upd_same nz slot] demo_opened by metis
qed

text \<open>
  The table has no full state: \<open>fsFileOpen\<close> never returns -1 for want of a slot. When all
  seventeen words it looks at are in use, opening another file returns index 0 and takes the
  slot away from the file that had it.
\<close>

theorem fsFileOpen_table_full:
  assumes full: "\<forall>i \<le> MAX_OPEN_FILES. fileList ft i \<noteq> 0"
    and h: "m (block_address part + h) \<noteq> SECTOR_FREE"
  shows "\<exists>ft'. exec (fsFileOpen ft part h) m = ((0, ft'), m)
    \<and> fileList ft' 0 = block_address part + h
    \<and> fileSize ft' 0 = get32 m (block_address part + h + 11)"
proof -
  have "find (\<lambda>i. fileList ft i = 0) [0..<Suc MAX_OPEN_FILES] = None"
    using full by (auto simp: find_None_iff less_Suc_eq_le simp del: upt_Suc)
  then have "chosen_slot ft = 0" by (simp add: chosen_slot_def)
  then show ?thesis using h by (simp add: exec_fsFileOpen)
qed

theorem fsFileOpen_table_full_witness:
  "\<exists>ft'. exec (fsFileOpen \<lparr>fileList = (\<lambda>i. 96), fileSize = (\<lambda>i. 0)\<rparr> demo_part 32) demo_mem
      = ((0, ft'), demo_mem) \<and> fileList ft' 0 = 32"
  using fsFileOpen_table_full [of "\<lparr>fileList = (\<lambda>i. 96), fileSize = (\<lambda>i. 0)\<rparr>" demo_mem demo_part 32]
  by (auto simp: demo_mem_def)


section \<open>Creating a file\<close>

text \<open>Two memories that differ at most at the offsets \<open>S\<close> of sector \<open>j\<close>.\<close>

definition same_outside :: "partition \<Rightarrow> nat \<Rightarrow> nat set \<Rightarrow> mem \<Rightarrow> mem \<Rightarrow> bool" where
  "same_outside part j S m m' \<longleftrightarrow> (\<forall>x. (\<forall>c \<in> S. x \<noteq> sector_at part j + of_nat c) \<longrightarrow> m' x = m x)"

lemma same_outside_refl [simp]: "same_outside part j S m m"
  by (simp add: same_outside_def)

lemma same_outside_trans:
  "same_outside part j S m m' \<Longrightarrow> same_outside part j S m' m'' \<Longrightarrow> same_outside part j S m m''"
  by (simp add: same_outside_def)

lemma same_outside_put:
  assumes "{k..<k + length bs} \<subseteq> S" "same_outside part j S m m'"
  shows "same_outside part j S m (put_bytes m' (sector_at part j + of_nat k) bs)"
  unfolding same_outside_def
proof (intro allI impI)
  fix x assume x: "\<forall>c \<in> S. x \<noteq> sector_at part j + of_nat c"
  have "x \<noteq> sector_at part j + of_nat k + of_nat i" if "i < length bs" for i
    using x assms(1) that by (auto dest!: bspec [of _ _ "k + i"] simp: add.assoc)
  then show "put_bytes m' (sector_at part j + of_nat k) bs x = m x"
    using assms(2) x by (simp add: put_bytes_other same_outside_def)
qed

lemma same_outside_upd:
  assumes "k \<in> S" "same_outside part j S m m'"
  shows "same_outside part j S m (m'(sector_at part j + of_nat k := b))"
  using assms by (auto simp: same_outside_def)

text \<open>The bytes of a header other than its marker and its size.\<close>

definition header_fields :: "nat set" where "header_fields = {1..<11} \<union> {15..<32}"

lemma volume_same_outside:
  assumes g: "geometry part M" and v: "volume part M A m" and j: "j < M"
    and s: "same_outside part j header_fields m m'"
  shows "volume part M A m'"
proof (rule volumeI)
  show sep: "separated part M A" using v by (simp add: volume_def)
  have same: "m' (sector_at part k + of_nat c) = m (sector_at part k + of_nat c)"
    if "k < M" "c < unat (sector_size part)" "c = 0 \<or> 11 \<le> c \<and> c < 15" for k c
  proof -
    have "\<forall>d \<in> header_fields. sector_at part k + of_nat c \<noteq> sector_at part j + of_nat d"
    proof
      fix d assume d: "d \<in> header_fields"
      then have "d < unat (sector_size part)" using g by (auto simp: header_fields_def geometry_def)
      then show "sector_at part k + of_nat c \<noteq> sector_at part j + of_nat d"
        using sector_byte_eq [OF g that(1) j that(2)] that(3) d by (auto simp: header_fields_def)
    qed
    then show ?thesis using s by (simp add: same_outside_def)
  qed
  have ss: "32 \<le> unat (sector_size part)" using g by (simp add: geometry_def)
  show "m' (sector_at part k) = marker_of part A k" if "k < M" for k
    using same [OF that, of 0] ss v that by (simp add: volume_def)
  fix k t assume k: "A k = Some t"
  have "get32 m' (sector_at part k + 11) = get32 m (sector_at part k + 11)"
    by (rule size_field_cong [OF g separated_bound [OF sep k]], rule same [OF separated_bound [OF sep k]])
      (use ss in auto)
  then show "get32 m' (sector_at part k + 11) = t" using v k by (simp add: volume_def)
qed

lemma content_not_in_header:
  assumes g: "geometry part M" and sep: "separated part M A" and j: "A j = Some s" and k: "A k = Some t"
    and i: "i \<le> unat s" and c: "c < unat (sector_size part)"
  shows "content_addr part j i \<noteq> sector_at part k + of_nat c"
proof -
  note e = own_extent [OF sep j] and kM = separated_bound [OF sep k]
  note b = content_addr_bounds [OF g e i]
  have "j + 1 + i div payload part \<noteq> k"
  proof (cases "k = j")
    case False
    then show ?thesis
      using b(1) by (intro separated_sectors [OF sep j k False [symmetric]]) (auto simp: extent_len_def)
  qed simp
  moreover have "j + 1 + i div payload part < M" using b(1) e by simp
  ultimately show ?thesis
    unfolding content_addr_def using sector_byte_eq [OF g _ kM b(2) c] by simp
qed

lemma contents_same_outside:
  assumes g: "geometry part M" and sep: "separated part M A" and j: "A j = Some s" and k: "A k = Some t"
    and s: "same_outside part j S m m'" "S \<subseteq> {0..<unat (sector_size part)}"
  shows "contents part k (unat t + 1) m' = contents part k (unat t + 1) m"
  unfolding contents_def
proof (rule map_cong [OF refl])
  fix i assume "i \<in> set [0..<unat t + 1]"
  then have i: "i \<le> unat t" by auto
  have "\<forall>c \<in> S. content_addr part k i \<noteq> sector_at part j + of_nat c"
  proof
    fix c assume "c \<in> S"
    then have "c < unat (sector_size part)" using s(2) by auto
    then show "content_addr part k i \<noteq> sector_at part j + of_nat c"
      by (rule content_not_in_header [OF g sep k j i])
  qed
  then show "m' (content_addr part k i) = m (content_addr part k i)"
    using s(1) by (simp add: same_outside_def)
qed

text \<open>The header writes of \<open>fsFileCreate\<close>, one field after the other.\<close>

definition init_header :: "partition \<Rightarrow> handle \<Rightarrow> u8 list \<Rightarrow> mem \<Rightarrow> mem" where
  "init_header part h name m =
    (let m = snd (exec (fsFileSetName part h name) m);
         m = snd (exec (fsFileSetAttributes part h (str '' rw '')) m);
         m = snd (exec (fsFileSetNextAddress part h 0) m);
         m = snd (exec (fsFileSetParentAddress part h 0) m)
     in m(block_address part + h + 23 := 0))"

lemma exec_fsFileCreate:
  "exec (fsFileCreate part name s) m =
     (let (h, m') = exec (fsAllocate part s) m in
      if h = 0 then (0, m') else (h, init_header part h name m'))"
  by (simp add: fsFileCreate_def io_simps init_header_def Let_def layout_simps split: prod.splits)

lemma header_fields_ranges:
  "{1..<11} \<subseteq> header_fields" "{Suc 0..<11} \<subseteq> header_fields" "{15..<19} \<subseteq> header_fields"
  "{28..<32} \<subseteq> header_fields" "{24..<28} \<subseteq> header_fields" "{19..<23} \<subseteq> header_fields"
  "23 \<in> header_fields"
  by (auto simp: header_fields_def)

lemma same_outside_setters:
  assumes "same_outside part j header_fields m m'"
  shows "same_outside part j header_fields m
      (snd (exec (fsFileSetName part (of_nat j * sector_size part) name) m'))"
    and "same_outside part j header_fields m
      (snd (exec (fsFileSetAttributes part (of_nat j * sector_size part) attr) m'))"
    and "same_outside part j header_fields m
      (snd (exec (fsFileSetNextAddress part (of_nat j * sector_size part) v) m'))"
    and "same_outside part j header_fields m
      (snd (exec (fsFileSetParentAddress part (of_nat j * sector_size part) v) m'))"
    and "same_outside part j header_fields m
      (snd (exec (fsDirectorySetReferenceCount part (of_nat j * sector_size part) v) m'))"
    and "same_outside part j header_fields m (m'(sector_at part j + 23 := b))"
  using same_outside_put [OF _ assms, of 1 "padded_name name"]
    same_outside_put [OF _ assms, of 15 "map (cstr_at attr) [0..<4]"]
    same_outside_put [OF _ assms, of 28 "le32_bytes v"]
    same_outside_put [OF _ assms, of 24 "le32_bytes v"]
    same_outside_put [OF _ assms, of 19 "le32_bytes v"]
    same_outside_upd [OF _ assms, of 23 b]
  by (simp_all add: io_simps block_plus_sector put32_def header_fields_ranges)

lemma same_outside_init_header:
  "same_outside part j header_fields m (init_header part (of_nat j * sector_size part) name m)"
  unfolding init_header_def Let_def block_plus_sector
  by (intro same_outside_setters same_outside_refl)

lemma header_set_flag_byte:
  "header_of part h (m(block_address part + h + 23 := b)) = (header_of part h m)\<lparr>h_flag := b\<rparr>"
  by (simp add: header_update_simps get32_def get_bytes_upd_other del: fun_upd_apply)
    (simp add: fun_upd_def)

lemma header_init_header:
  "header_of part h (init_header part h name m) =
     (header_of part h m)\<lparr>h_name := padded_name name, h_attributes := str '' rw '',
        h_flag := 0, h_parent := 0, h_next := 0\<rparr>"
proof -
  have "map (cstr_at (str '' rw '')) [0..<4] = str '' rw ''"
    by (simp add: cstr_at_def upt_rec str_def)
  then show ?thesis
    by (simp add: init_header_def Let_def header_set_flag_byte header_set_parent header_set_next
        header_set_attributes header_set_name)
qed

text \<open>An allocation leaves the contents and headers of the files there are alone.\<close>

lemma allocated_foreign:
  assumes g: "geometry part M" and sep: "separated part M (A(j \<mapsto> s))" and k: "A k = Some t" "k \<noteq> j"
  shows "contents part k (unat t + 1) (allocated part (of_nat j * sector_size part) s m)
      = contents part k (unat t + 1) m"
    and "c < unat (sector_size part) \<Longrightarrow>
      allocated part (of_nat j * sector_size part) s m (sector_at part k + of_nat c)
        = m (sector_at part k + of_nat c)"
proof -
  have j: "(A(j \<mapsto> s)) j = Some s" and k': "(A(j \<mapsto> s)) k = Some t" using k by simp_all
  note e = own_extent [OF sep j] and e' = own_extent [OF sep k'] and kM = separated_bound [OF sep k']
  show "contents part k (unat t + 1) (allocated part (of_nat j * sector_size part) s m)
      = contents part k (unat t + 1) m"
    unfolding contents_def
  proof (rule map_cong [OF refl])
    fix i assume "i \<in> set [0..<unat t + 1]"
    then have i: "i \<le> unat t" by auto
    note b = content_addr_bounds [OF g e' i]
    have "k + 1 + i div payload part \<noteq> j"
      using b(1) by (intro separated_sectors [OF sep k' j k(2)]) (auto simp: extent_len_def)
    then show "allocated part (of_nat j * sector_size part) s m (content_addr part k i)
        = m (content_addr part k i)"
      unfolding content_addr_def using allocated_byte [OF g _ e _ b(2)] b(1) e' by simp
  qed
  show "allocated part (of_nat j * sector_size part) s m (sector_at part k + of_nat c)
      = m (sector_at part k + of_nat c)" if c: "c < unat (sector_size part)"
  proof (cases "c = 0")
    case True
    have "\<not> (j < k \<and> k < j + extent_len part s)"
      using separated_sectors [OF sep j k' k(2) [symmetric], of k k] by (auto simp: extent_len_def)
    then show ?thesis using allocated_marker [OF g kM e] k(2) True by auto
  next
    case False
    then show ?thesis using allocated_byte [OF g kM e _ c] k(2) by simp
  qed
qed

lemma header_of_cong:
  assumes "\<And>c. c < 32 \<Longrightarrow> m (block_address part + h + of_nat c) = m' (block_address part + h + of_nat c)"
  shows "header_of part h m = header_of part h m'"
proof -
  have "get_bytes m (block_address part + h + of_nat k) n = get_bytes m' (block_address part + h + of_nat k) n"
    if "k + n \<le> 32" for k n
    using assms [of "k + i" for i] that by (auto simp: get_bytes_def add_ac)
  from this [of 1 10] this [of 11 4] this [of 15 4] this [of 19 4] this [of 24 4] this [of 28 4]
  show ?thesis
    using assms [of 0] assms [of 23] by (simp add: header_of_def Let_def get32_def)
qed

lemma header_same_outside:
  assumes g: "geometry part M" and j: "j < M" and k: "k < M" "k \<noteq> j"
    and s: "same_outside part j header_fields m m'"
  shows "header_of part (of_nat k * sector_size part) m' = header_of part (of_nat k * sector_size part) m"
proof (rule header_of_cong)
  fix c :: nat assume "c < 32"
  then have c: "c < unat (sector_size part)" using g by (simp add: geometry_def)
  have "\<forall>d \<in> header_fields. sector_at part k + of_nat c \<noteq> sector_at part j + of_nat d"
  proof
    fix d assume "d \<in> header_fields"
    then have "d < unat (sector_size part)" using g by (auto simp: header_fields_def geometry_def)
    then show "sector_at part k + of_nat c \<noteq> sector_at part j + of_nat d"
      using sector_byte_eq [OF g k(1) j c] k(2) by simp
  qed
  then show "m' (block_address part + of_nat k * sector_size part + of_nat c)
      = m (block_address part + of_nat k * sector_size part + of_nat c)"
    using s by (simp add: same_outside_def block_plus_sector)
qed

lemma header_allocated:
  assumes g: "geometry part M" and e: "j + extent_len part s \<le> M"
  shows "header_of part (of_nat j * sector_size part) (allocated part (of_nat j * sector_size part) s m)
    = (header_of part (of_nat j * sector_size part) m)\<lparr>h_marker := SECTOR_HEADER, h_size := s\<rparr>"
proof -
  let ?m = "allocated part (of_nat j * sector_size part) s m"
  have jM: "j < M" using e by (simp add: extent_len_def)
  have b: "?m (sector_at part j + of_nat c) = m (sector_at part j + of_nat c)"
    if "0 < c" "c < 32" "\<not> (11 \<le> c \<and> c < 15)" for c
    using allocated_byte [OF g jM e, of c] that g by (auto simp: geometry_def)
  have get: "get_bytes ?m (sector_at part j + of_nat k) n = get_bytes m (sector_at part j + of_nat k) n"
    if "0 < k" "k + n \<le> 32" "k + n \<le> 11 \<or> 15 \<le> k" for k n
    using b [of "k + i" for i] that by (auto simp: get_bytes_def add_ac)
  have "?m (sector_at part j) = SECTOR_HEADER" using allocated_marker [OF g jM e] by simp
  moreover have "get32 ?m (sector_at part j + 11) = s"
    by (simp add: allocated_def block_plus_sector)
  ultimately show ?thesis
    using get [of 1 10] get [of 15 4] get [of 19 4] get [of 24 4] get [of 28 4] b [of 23]
    by (simp add: header_of_def Let_def block_plus_sector get32_def)
qed

lemma fsFileCreate_volume:
  assumes g: "geometry part M" and v: "volume part M A m"
    and b: "n \<le> unat (block_size part)" "n + extent_len part s \<le> M + 1"
    and j: "first_fit part A s n = Some j"
  shows "exec (fsFileCreate part name s) m = (of_nat j * sector_size part,
      init_header part (of_nat j * sector_size part) name
        (allocated part (of_nat j * sector_size part) s m))"
    and "A j = None" and "j < M"
    and "volume part M (A(j \<mapsto> s)) (init_header part (of_nat j * sector_size part) name
          (allocated part (of_nat j * sector_size part) s m))"
proof -
  note alloc = exec_fsAllocate_Some [OF g v b j]
  note vol = volume_allocated [OF g v alloc(3,4)]
  show "A j = None" by (rule vol(1))
  have "separated part M (A(j \<mapsto> s))" using vol(2) by (simp add: volume_def)
  then show jM: "j < M" using separated_bound [of part M _ j s] by simp
  show "volume part M (A(j \<mapsto> s)) (init_header part (of_nat j * sector_size part) name
      (allocated part (of_nat j * sector_size part) s m))"
    by (rule volume_same_outside [OF g vol(2) jM same_outside_init_header])
  show "exec (fsFileCreate part name s) m = (of_nat j * sector_size part,
      init_header part (of_nat j * sector_size part) name
        (allocated part (of_nat j * sector_size part) s m))"
    using alloc(1,2) by (simp add: exec_fsFileCreate)
qed

lemma same_outside_byte:
  assumes "geometry part M" "j < M" "k < M" "c < unat (sector_size part)"
    and "same_outside part j S m m'" "S \<subseteq> {0..<unat (sector_size part)}" "k \<noteq> j \<or> c \<notin> S"
  shows "m' (sector_at part k + of_nat c) = m (sector_at part k + of_nat c)"
proof -
  have "\<forall>d \<in> S. sector_at part k + of_nat c \<noteq> sector_at part j + of_nat d"
  proof
    fix d assume d: "d \<in> S"
    then have "d < unat (sector_size part)" using assms(6) by auto
    then show "sector_at part k + of_nat c \<noteq> sector_at part j + of_nat d"
      using sector_byte_eq [OF assms(1,3,2,4)] assms(7) d by auto
  qed
  then show ?thesis using assms(5) by (simp add: same_outside_def)
qed

text \<open>Only bytes in the sectors from \<open>l\<close> on are changed.\<close>

definition sectors_only :: "partition \<Rightarrow> nat \<Rightarrow> nat \<Rightarrow> mem \<Rightarrow> mem \<Rightarrow> bool" where
  "sectors_only part l M m m' \<longleftrightarrow> (\<forall>a. (\<forall>k c. l \<le> k \<and> k < M \<and> c < unat (sector_size part) \<longrightarrow>
     a \<noteq> sector_at part k + of_nat c) \<longrightarrow> m' a = m a)"

lemma sectors_only_trans: "sectors_only part l M m m' \<Longrightarrow> sectors_only part l M m' m'' \<Longrightarrow> sectors_only part l M m m''"
  by (simp add: sectors_only_def)

lemma sectors_only_less: "sectors_only part l M m m' \<Longrightarrow> l' \<le> l \<Longrightarrow> sectors_only part l' M m m'"
  unfolding sectors_only_def by (meson order_trans)

lemma sectors_only_outside:
  assumes "same_outside part j S m m'" and "S \<subseteq> {0..<unat (sector_size part)}" and "l \<le> j" "j < M"
  shows "sectors_only part l M m m'"
  using assms unfolding sectors_only_def same_outside_def by (meson atLeastLessThan_iff subset_iff)

lemma sectors_only_mark:
  assumes "geometry part M" and "l \<le> j" "j + n \<le> M"
  shows "sectors_only part l M m (mark part n b (sector_at part j) m)"
  unfolding sectors_only_def
proof (intro allI impI)
  fix a assume a: "\<forall>k c. l \<le> k \<and> k < M \<and> c < unat (sector_size part) \<longrightarrow> a \<noteq> sector_at part k + of_nat c"
  have "a \<noteq> sector_at part j + of_nat i * sector_size part" if "i < n" for i
    using a [rule_format, of "j + i" 0] that assms by (simp add: sector_at_def geometry_def algebra_simps)
  then show "mark part n b (sector_at part j) m a = m a" by (auto simp: mark_def)
qed

lemma sectors_only_allocated:
  assumes g: "geometry part M" and e: "j + extent_len part s \<le> M" and l: "l \<le> j"
  shows "sectors_only part l M m (allocated part (of_nat j * sector_size part) s m)"
proof -
  have n: "Suc j + unat (sectors_needed part s) \<le> M" "j < M" using e by (auto simp: extent_len_def)
  have s: "sector_at part j + sector_size part = sector_at part (Suc j)"
    by (simp add: sector_at_def algebra_simps)
  let ?S = "{0..<unat (sector_size part)}"
  have ss: "15 \<le> unat (sector_size part)" using g by (simp add: geometry_def)
  let ?m1 = "m(sector_at part j := SECTOR_HEADER)"
  let ?m2 = "mark part (unat (sectors_needed part s)) SECTOR_USED (sector_at part (Suc j)) ?m1"
  have "same_outside part j ?S m ?m1"
    using same_outside_upd [of 0 ?S part j m m SECTOR_HEADER] ss by simp
  then have 1: "sectors_only part l M m ?m1" by (rule sectors_only_outside) (use l n in simp_all)
  have 2: "sectors_only part l M ?m1 ?m2" by (rule sectors_only_mark [OF g]) (use l n in simp_all)
  have "same_outside part j ?S ?m2 (put32 ?m2 (sector_at part j + 11) s)"
    using same_outside_put [of 11 "le32_bytes s" ?S part j ?m2 ?m2] ss by (simp add: put32_def)
  then have 3: "sectors_only part l M ?m2 (put32 ?m2 (sector_at part j + 11) s)"
    by (rule sectors_only_outside) (use l n in simp_all)
  show ?thesis
    using sectors_only_trans [OF sectors_only_trans [OF 1 2] 3] by (simp add: allocated_def block_plus_sector s)
qed

lemma sectors_only_write_contents:
  assumes g: "geometry part M" and e: "j + extent_len part s \<le> M" and n: "n \<le> unat s + 1" and l: "l \<le> j"
  shows "sectors_only part l M m (write_contents part j buffer n m)"
  unfolding sectors_only_def
proof (intro allI impI)
  fix a assume a: "\<forall>k c. l \<le> k \<and> k < M \<and> c < unat (sector_size part) \<longrightarrow> a \<noteq> sector_at part k + of_nat c"
  show "write_contents part j buffer n m a = m a"
  proof (rule write_contents_other)
    fix i assume "i < n"
    then have "j + 1 + i div payload part < M" "1 + i mod payload part < unat (sector_size part)"
      using content_addr_bounds [OF g e, of i] n e by auto
    then show "a \<noteq> content_addr part j i"
      unfolding content_addr_def by (intro a [rule_format]) (use l in auto)
  qed
qed

text \<open>The header of the device is in sector 0.\<close>

lemma sectors_only_device:
  assumes g: "geometry part M" and "sectors_only part 1 M m m'" and "0 < M" "c < 32"
  shows "m' (block_address part + of_nat c) = m (block_address part + of_nat c)"
proof -
  have c: "c < unat (sector_size part)" using assms(4) g by (simp add: geometry_def)
  have "\<forall>k d. 1 \<le> k \<and> k < M \<and> d < unat (sector_size part) \<longrightarrow>
      sector_at part 0 + of_nat c \<noteq> sector_at part k + of_nat d"
    using sector_byte_eq [OF g assms(3) _ c] by auto
  then show ?thesis using assms(2) unfolding sectors_only_def by (simp add: sector_at_def)
qed

lemma separated_positive: "separated part M A \<Longrightarrow> A j = Some s \<Longrightarrow> 1 \<le> j"
  unfolding separated_def by (metis One_nat_def Suc_leI gr0I option.discI)

lemma fsFileCreate_builds:
  assumes g: "geometry part M" and v: "volume part M A m"
    and b: "n \<le> unat (block_size part)" "n + extent_len part s \<le> M + 1"
    and j: "first_fit part A s n = Some j"
  shows "\<exists>h m'. exec (fsFileCreate part name s) m = (h, m')
    \<and> h = of_nat j * sector_size part \<and> h \<noteq> 0 \<and> A j = None
    \<and> volume part M (A(j \<mapsto> s)) m'
    \<and> header_of part h m' = \<lparr>h_marker = SECTOR_HEADER, h_name = padded_name name, h_size = s,
        h_attributes = str '' rw '', h_refcount = h_refcount (header_of part h m), h_flag = 0,
        h_parent = 0, h_next = 0\<rparr>
    \<and> (\<forall>k t. A k = Some t \<longrightarrow>
         contents part k (unat t + 1) m' = contents part k (unat t + 1) m
         \<and> header_of part (of_nat k * sector_size part) m' = header_of part (of_nat k * sector_size part) m)
    \<and> sectors_only part 1 M m m'"
proof -
  let ?h = "of_nat j * sector_size part"
  note alloc = exec_fsAllocate_Some [OF g v b j]
  let ?m1 = "allocated part ?h s m"
  let ?m = "init_header part ?h name ?m1"
  note vol = volume_allocated [OF g v alloc(3,4)] and create = fsFileCreate_volume [OF g v b j]
  note jM = create(3)
  have sep: "separated part M (A(j \<mapsto> s))" using vol(2) by (simp add: volume_def)
  note out = same_outside_init_header [of part j ?m1 name]
  have hf: "header_fields \<subseteq> {0..<unat (sector_size part)}"
    using g by (auto simp: header_fields_def geometry_def)
  have other: "contents part k (unat t + 1) ?m = contents part k (unat t + 1) m
      \<and> header_of part (of_nat k * sector_size part) ?m = header_of part (of_nat k * sector_size part) m"
    if k: "A k = Some t" for k t
  proof -
    have kj: "k \<noteq> j" using k vol(1) by auto
    then have k': "(A(j \<mapsto> s)) k = Some t" using k by simp
    note kM = separated_bound [OF sep k']
    have "header_of part (of_nat k * sector_size part) ?m1 = header_of part (of_nat k * sector_size part) m"
      by (rule header_of_cong, unfold block_plus_sector, rule allocated_foreign(2) [OF g sep k kj])
        (use g in \<open>simp add: geometry_def\<close>)
    then show ?thesis
      using contents_same_outside [OF g sep _ k' out hf] allocated_foreign(1) [OF g sep k kj, of m]
        header_same_outside [OF g jM kM kj out] by simp
  qed
  have e: "j + extent_len part s \<le> M" using own_extent [OF sep, of j s] by simp
  have j1: "1 \<le> j" using separated_positive [OF sep, of j] by simp
  have only: "sectors_only part 1 M m ?m"
    by (rule sectors_only_trans [OF sectors_only_allocated [OF g e j1] sectors_only_outside [OF out hf j1 jM]])
  show ?thesis
    using create alloc(2) other only
    by (intro exI [of _ ?h] exI [of _ ?m])
      (simp add: header_init_header header_allocated [OF g alloc(3)])
qed

text \<open>
  Creating a file. When the volume has a first fit \<open>j\<close>, \<open>fsFileCreate\<close> returns its offset;
  the header there then has the size and the padded name given, the attributes \<open>" rw "\<close>, a
  cleared flag and no place in an extent chain; the volume has gained exactly that extent, and
  headers and contents of every other file are unchanged.
\<close>

theorem fsFileCreate_creates:
  assumes g: "geometry part M" and v: "volume part M A m"
    and b: "n \<le> unat (block_size part)" "n + extent_len part s \<le> M + 1"
    and j: "first_fit part A s n = Some j"
  shows "\<exists>h m'. exec (fsFileCreate part name s) m = (h, m')
    \<and> h = of_nat j * sector_size part \<and> h \<noteq> 0 \<and> A j = None
    \<and> volume part M (A(j \<mapsto> s)) m'
    \<and> header_of part h m' = \<lparr>h_marker = SECTOR_HEADER, h_name = padded_name name, h_size = s,
        h_attributes = str '' rw '', h_refcount = h_refcount (header_of part h m), h_flag = 0,
        h_parent = 0, h_next = 0\<rparr>
    \<and> (\<forall>k t. A k = Some t \<longrightarrow>
         contents part k (unat t + 1) m' = contents part k (unat t + 1) m
         \<and> header_of part (of_nat k * sector_size part) m' = header_of part (of_nat k * sector_size part) m)"
  using fsFileCreate_builds [OF assms] by blast

theorem fsFileCreate_creates_witness:
  "\<exists>m'. exec (fsFileCreate demo_part (str ''log'') 4) demo_mem = (96, m')
    \<and> volume demo_part 8 [1 \<mapsto> 4, 3 \<mapsto> 4] m' \<and> h_size (header_of demo_part 96 m') = 4"
  using fsFileCreate_creates [OF demo_geometry demo_volume _ _ demo_first_fit, of "str ''log''"]
    demo_extent_len by auto



end
