(* ===== verification/FsDirectory.thy ===== *)
theory FsDirectory
  imports FsFile "HOL-Library.Multiset"
begin

text \<open>
  Directories (kernel/fs/basefs/fsDirectory.c). A directory is a file whose contents are the
  handles of its members, four bytes each; a full directory continues in a chain of extents
  linked through the header's next pointer. The walks along a chain are \<open>while\<close> loops that end
  only when the chain does, so they carry a fuel argument and None stands for not ending; the
  theorems show that a chain of \<open>n\<close> directories needs fuel \<open>n\<close>. Local buffers are arguments,
  because the code reads them before it has initialised them when a file cannot be opened.
\<close>

section \<open>Operations\<close>

definition fsDirectoryCreate :: "partition \<Rightarrow> u8 list \<Rightarrow> handle io" where
  "fsDirectoryCreate part filename =
     bindio (fsFileCreate part filename 30) (\<lambda>handle.
     bindio (fsDirectorySetReferenceCount part handle 0) (\<lambda>_.
     bindio (fsFileSetAttributes part handle (str '' rwd'')) (\<lambda>_.
     Ret handle)))"

definition fsDirectoryDelete :: "partition \<Rightarrow> handle \<Rightarrow> handle io" where
  "fsDirectoryDelete part handle = bindio (fsFileDelete part handle) (\<lambda>_. Ret handle)"

definition fsDirectoryExtentCreate :: "partition \<Rightarrow> u32 \<Rightarrow> u32 \<Rightarrow> handle io" where
  "fsDirectoryExtentCreate part parentPtr nextPtr =
     bindio (fsFileCreate part (str ''EXTENT'') 30) (\<lambda>handle.
     bindio (fsDirectorySetReferenceCount part handle 0) (\<lambda>_.
     bindio (fsFileSetAttributes part handle (str '' rwE'')) (\<lambda>_.
     bindio (fsFileSetNextAddress part handle nextPtr) (\<lambda>_.
     bindio (fsFileSetParentAddress part handle parentPtr) (\<lambda>_.
     Ret handle)))))"

text \<open>The \<open>while (extent != 0)\<close> loop of \<open>fsDirectoryAddFile\<close>: the extent it stops at.\<close>

fun extent_loop :: "nat \<Rightarrow> partition \<Rightarrow> u32 \<Rightarrow> u32 option io" where
  "extent_loop 0 part extent = Ret None"
| "extent_loop (Suc fuel) part extent =
     (if extent = 0 then Ret (Some 0)
      else
        bindio (fsDirectoryGetReferenceCount part extent) (\<lambda>extentRefCount.
        if (extentRefCount + 2) * 4 \<ge> sector_size part then
          bindio (fsFileGetNextAddress part extent) (\<lambda>nextExtent.
          if nextExtent = 0 then
            bindio (fsDirectoryExtentCreate part extent 0) (\<lambda>newExtent.
            bindio (fsFileSetNextAddress part extent newExtent) (\<lambda>_.
            Ret (Some extent)))
          else
            bindio (fsFileGetNextAddress part extent) (\<lambda>extent.
            extent_loop fuel part extent))
        else Ret (Some extent)))"

text \<open>Where the new entry goes: the first part of \<open>fsDirectoryAddFile\<close>.\<close>

definition target_extent :: "nat \<Rightarrow> partition \<Rightarrow> handle \<Rightarrow> u32 \<Rightarrow> (handle \<times> u32) option io" where
  "target_extent fuel part handle refCount =
     (if (refCount + 1) * 4 \<ge> sector_size part then
        bindio (fsFileGetNextAddress part handle) (\<lambda>extent.
        bindio
          (if extent = 0 then
             bindio (fsDirectoryExtentCreate part handle extent) (\<lambda>extent.
             bindio (fsFileSetNextAddress part handle extent) (\<lambda>_.
             Ret (Some extent)))
           else extent_loop fuel part extent) (\<lambda>extent.
        case extent of
          None \<Rightarrow> Ret None
        | Some handle \<Rightarrow>
            bindio (fsDirectoryGetReferenceCount part handle) (\<lambda>refCount.
            Ret (Some (handle, refCount)))))
      else Ret (Some (handle, refCount)))"

text \<open>The four bytes of a reference in the buffer.\<close>

definition ref_index :: "u32 \<Rightarrow> nat \<Rightarrow> nat" where
  "ref_index i a = unat (i * 4 + of_nat a)"

definition get_ref :: "buffer \<Rightarrow> u32 \<Rightarrow> u32" where
  "get_ref buffer i = le32 (map (\<lambda>a. buffer (ref_index i a)) [0..<4])"

definition put_ref :: "buffer \<Rightarrow> u32 \<Rightarrow> u32 \<Rightarrow> buffer" where
  "put_ref buffer i v = fold (\<lambda>a buffer. buffer(ref_index i a := le32_bytes v ! a)) [0..<4] buffer"

definition fsDirectoryAddFile ::
  "nat \<Rightarrow> ftable \<Rightarrow> buffer \<Rightarrow> partition \<Rightarrow> handle \<Rightarrow> u32 \<Rightarrow> (u8 \<times> ftable) option io" where
  "fsDirectoryAddFile fuel ft stack part handle file =
     bindio (fsDirectoryGetReferenceCount part handle) (\<lambda>refCount.
     bindio (target_extent fuel part handle refCount) (\<lambda>target.
     case target of
       None \<Rightarrow> Ret None
     | Some (handle, refCount) \<Rightarrow>
         bindio (fsDirectorySetReferenceCount part handle (refCount + 1)) (\<lambda>_.
         bindio (fsFileOpen ft part handle) (\<lambda>(index, ft).
         bindio (fsFileGetSize part handle) (\<lambda>size.
         bindio (fsFileRead ft part index stack size) (\<lambda>(_, buffer).
         bindio (fsFileWrite ft part index (put_ref buffer refCount file) size) (\<lambda>_.
         Ret (Some (1, snd (fsFileClose ft index))))))))))"

fun fsDirectoryGetTotalSize_loop :: "nat \<Rightarrow> partition \<Rightarrow> handle \<Rightarrow> u32 \<Rightarrow> u32 option io" where
  "fsDirectoryGetTotalSize_loop 0 part handle tot = Ret None"
| "fsDirectoryGetTotalSize_loop (Suc fuel) part handle tot =
     bindio (fsDirectoryGetReferenceCount part handle) (\<lambda>count.
     bindio (fsFileGetNextAddress part handle) (\<lambda>handle.
     if handle = 0 then Ret (Some (tot + count))
     else fsDirectoryGetTotalSize_loop fuel part handle (tot + count)))"

definition fsDirectoryGetTotalSize :: "nat \<Rightarrow> partition \<Rightarrow> handle \<Rightarrow> u32 option io" where
  "fsDirectoryGetTotalSize fuel part handle = fsDirectoryGetTotalSize_loop fuel part handle 0"

text \<open>
  The scan of one extent in \<open>fsDirectoryFindByIndex\<close>: \<open>Inl\<close> is the handle found, \<open>Inr\<close> the
  counter at the end of the extent.
\<close>

fun index_scan :: "buffer \<Rightarrow> u32 \<Rightarrow> nat list \<Rightarrow> u32 \<Rightarrow> u32 + u32" where
  "index_scan buffer index [] counter = Inr counter"
| "index_scan buffer index (i # is) counter =
     (if counter = index then Inl (get_ref buffer (of_nat i))
      else index_scan buffer index is (counter + 1))"

fun fsDirectoryFindByIndex_loop ::
  "nat \<Rightarrow> ftable \<Rightarrow> buffer \<Rightarrow> partition \<Rightarrow> handle \<Rightarrow> u32 \<Rightarrow> u32 \<Rightarrow> (u32 \<times> ftable) option io" where
  "fsDirectoryFindByIndex_loop 0 ft buffer part handle index counter = Ret None"
| "fsDirectoryFindByIndex_loop (Suc fuel) ft buffer part handle index counter =
     bindio (fsDirectoryGetReferenceCount part handle) (\<lambda>refCount.
     bindio (fsFileOpen ft part handle) (\<lambda>(fileIndex, ft).
     bindio (fsFileGetSize part handle) (\<lambda>directorySize.
     bindio (fsFileRead ft part fileIndex buffer directorySize) (\<lambda>(_, buffer).
     case index_scan buffer index [0..<unat refCount] counter of
       Inl fileHandle \<Rightarrow> Ret (Some (fileHandle, snd (fsFileClose ft fileIndex)))
     | Inr counter \<Rightarrow>
         let ft = snd (fsFileClose ft fileIndex) in
         bindio (fsFileGetNextAddress part handle) (\<lambda>handle.
         if handle = 0 then Ret (Some (0, ft))
         else fsDirectoryFindByIndex_loop fuel ft buffer part handle index counter)))))"

definition fsDirectoryFindByIndex ::
  "nat \<Rightarrow> ftable \<Rightarrow> buffer \<Rightarrow> partition \<Rightarrow> handle \<Rightarrow> u32 \<Rightarrow> (u32 \<times> ftable) option io" where
  "fsDirectoryFindByIndex fuel ft stack part handle index =
     fsDirectoryFindByIndex_loop fuel ft stack part handle index 0"

text \<open>\<open>strcmp\<close> of the C library, as far as the code uses it: equality of two strings.\<close>

definition strcmp_eq :: "u8 list \<Rightarrow> u8 list \<Rightarrow> bool" where
  "strcmp_eq a b \<longleftrightarrow> takeWhile (\<lambda>x. x \<noteq> 0) a = takeWhile (\<lambda>x. x \<noteq> 0) b"

fun name_scan :: "partition \<Rightarrow> buffer \<Rightarrow> u8 list \<Rightarrow> nat list \<Rightarrow> u32 option io" where
  "name_scan part buffer source [] = Ret None"
| "name_scan part buffer source (i # is) =
     (let fileHandle = get_ref buffer (of_nat i) in
      bindio (fsFileGetName part fileHandle (replicate 10 (ch CHR '' ''))) (\<lambda>name.
      if \<not> strcmp_eq name source then name_scan part buffer source is
      else Ret (Some fileHandle)))"

fun fsDirectoryFindByName_loop ::
  "nat \<Rightarrow> ftable \<Rightarrow> buffer \<Rightarrow> partition \<Rightarrow> handle \<Rightarrow> u8 list \<Rightarrow> (u32 \<times> ftable) option io" where
  "fsDirectoryFindByName_loop 0 ft buffer part handle source = Ret None"
| "fsDirectoryFindByName_loop (Suc fuel) ft buffer part handle source =
     bindio (fsDirectoryGetReferenceCount part handle) (\<lambda>refCount.
     bindio (fsFileOpen ft part handle) (\<lambda>(index, ft).
     bindio (fsFileGetSize part handle) (\<lambda>directorySize.
     bindio (fsFileRead ft part index buffer directorySize) (\<lambda>(_, buffer).
     bindio (name_scan part buffer source [0..<unat refCount]) (\<lambda>found.
     let ft = snd (fsFileClose ft index) in
     case found of
       Some fileHandle \<Rightarrow> Ret (Some (fileHandle, ft))
     | None \<Rightarrow>
         bindio (fsFileGetNextAddress part handle) (\<lambda>handle.
         if handle = 0 then Ret (Some (0, ft))
         else fsDirectoryFindByName_loop fuel ft buffer part handle source))))))"

definition fsDirectoryFindByName ::
  "nat \<Rightarrow> ftable \<Rightarrow> buffer \<Rightarrow> partition \<Rightarrow> handle \<Rightarrow> u8 list \<Rightarrow> (u32 \<times> ftable) option io" where
  "fsDirectoryFindByName fuel ft stack part handle filename =
     (let sourceFilename = clean_name filename [0..<10] (replicate 10 (ch CHR '' '')) in
      fsDirectoryFindByName_loop fuel ft stack part handle sourceFilename)"

text \<open>Removing: the last entry takes the place of the one removed, and blanks take its own.\<close>

definition drop_ref :: "buffer \<Rightarrow> u32 \<Rightarrow> u32 \<Rightarrow> buffer" where
  "drop_ref buffer i refCount =
     fold (\<lambda>a buffer.
       let buffer = buffer(ref_index i a := buffer (ref_index (refCount - 1) a))
       in buffer(ref_index (refCount - 1) a := ch CHR '' '')) [0..<4] buffer"

definition unlink_extent :: "partition \<Rightarrow> handle \<Rightarrow> unit io" where
  "unlink_extent part handle =
     bindio (fsFileGetNextAddress part handle) (\<lambda>nxt.
     bindio (fsFileGetParentAddress part handle) (\<lambda>parent.
     bindio (fsFileSetNextAddress part parent nxt) (\<lambda>_.
     bindio (fsFileSetParentAddress part nxt parent) (\<lambda>_.
     bindio (fsFileDelete part handle) (\<lambda>_. Ret ())))))"

fun remove_scan :: "buffer \<Rightarrow> u32 \<Rightarrow> nat list \<Rightarrow> nat option" where
  "remove_scan buffer file [] = None"
| "remove_scan buffer file (i # is) =
     (if file \<noteq> get_ref buffer (of_nat i) then remove_scan buffer file is else Some i)"

fun fsDirectoryRemoveFile_loop ::
  "nat \<Rightarrow> ftable \<Rightarrow> buffer \<Rightarrow> partition \<Rightarrow> handle \<Rightarrow> u32 \<Rightarrow> u8 \<Rightarrow> (u8 \<times> ftable) option io" where
  "fsDirectoryRemoveFile_loop 0 ft buffer part handle file extentCount = Ret None"
| "fsDirectoryRemoveFile_loop (Suc fuel) ft buffer part handle file extentCount =
     bindio (fsDirectoryGetReferenceCount part handle) (\<lambda>refCount.
     bindio (fsFileOpen ft part handle) (\<lambda>(index, ft).
     bindio (fsFileGetSize part handle) (\<lambda>directorySize.
     bindio (fsFileRead ft part index buffer directorySize) (\<lambda>(_, buffer).
     case remove_scan buffer file [0..<unat refCount] of
       Some i \<Rightarrow>
         bindio (fsFileDelete part file) (\<lambda>_.
         bindio (fsFileWrite ft part index (drop_ref buffer (of_nat i) refCount) directorySize) (\<lambda>_.
         bindio (fsDirectorySetReferenceCount part handle (refCount - 1)) (\<lambda>_.
         let ft = snd (fsFileClose ft index) in
         bindio (if refCount \<le> 1 \<and> extentCount > 0 then unlink_extent part handle else Ret ()) (\<lambda>_.
         Ret (Some (1, ft))))))
     | None \<Rightarrow>
         let ft = snd (fsFileClose ft index) in
         bindio (fsFileGetNextAddress part handle) (\<lambda>handle.
         if handle = 0 then Ret (Some (0, ft))
         else fsDirectoryRemoveFile_loop fuel ft buffer part handle file (extentCount + 1))))))"

definition fsDirectoryRemoveFile ::
  "nat \<Rightarrow> ftable \<Rightarrow> buffer \<Rightarrow> partition \<Rightarrow> handle \<Rightarrow> u32 \<Rightarrow> (u8 \<times> ftable) option io" where
  "fsDirectoryRemoveFile fuel ft stack part handle file =
     fsDirectoryRemoveFile_loop fuel ft stack part handle file 0"


section \<open>A directory as a list of handles\<close>

definition refcount :: "partition \<Rightarrow> mem \<Rightarrow> nat \<Rightarrow> u32" where
  "refcount part m j = get32 m (sector_at part j + 19)"

definition next_of :: "partition \<Rightarrow> mem \<Rightarrow> nat \<Rightarrow> u32" where
  "next_of part m j = get32 m (sector_at part j + 28)"

definition content_ref :: "partition \<Rightarrow> mem \<Rightarrow> nat \<Rightarrow> nat \<Rightarrow> u32" where
  "content_ref part m j i = le32 (map (\<lambda>a. m (content_addr part j (i * 4 + a))) [0..<4])"

definition entries :: "partition \<Rightarrow> mem \<Rightarrow> nat \<Rightarrow> u32 list" where
  "entries part m j = map (content_ref part m j) [0..<unat (refcount part m j)]"

text \<open>
  The chain of extents of a directory, by their header sectors. \<open>directory\<close> is the invariant
  of one link: an allocation of 30 bytes with at most the seven references that fit into the 29
  bytes moved by a read or write of its size.
\<close>

fun chain :: "partition \<Rightarrow> mem \<Rightarrow> nat list \<Rightarrow> bool" where
  "chain part m [] = False"
| "chain part m [j] = (next_of part m j = 0)"
| "chain part m (j # k # js) =
     (next_of part m j = of_nat k * sector_size part \<and> chain part m (k # js))"

definition directory :: "partition \<Rightarrow> extents \<Rightarrow> mem \<Rightarrow> nat \<Rightarrow> bool" where
  "directory part A m j \<longleftrightarrow> A j = Some 30 \<and> unat (refcount part m j) \<le> 7 \<and> sector_at part j \<noteq> 0"

definition dir_chain :: "partition \<Rightarrow> extents \<Rightarrow> mem \<Rightarrow> nat list \<Rightarrow> bool" where
  "dir_chain part A m js \<longleftrightarrow> chain part m js \<and> (\<forall>j \<in> set js. directory part A m j)"

definition all_entries :: "partition \<Rightarrow> mem \<Rightarrow> nat list \<Rightarrow> u32 list" where
  "all_entries part m js = concat (map (entries part m) js)"

text \<open>A table in which some slot is free and free slots have size 0, as \<open>fsFileClose\<close> leaves them.\<close>

definition table_ok :: "ftable \<Rightarrow> bool" where
  "table_ok ft \<longleftrightarrow> (\<exists>i < MAX_OPEN_FILES. fileList ft i = 0)
     \<and> (\<forall>i < MAX_OPEN_FILES. fileList ft i = 0 \<longrightarrow> fileSize ft i = 0)"

lemma ref_index_small: "i < 7 \<Longrightarrow> a < 4 \<Longrightarrow> ref_index (of_nat i) a = i * 4 + a"
proof -
  assume "i < 7" "a < 4"
  then have "unat (of_nat (i * 4 + a) :: u32) = i * 4 + a" by (intro unat_of_nat_u32) simp
  then show ?thesis by (simp add: ref_index_def mult.commute)
qed

lemma get_ref_contents:
  assumes "i < 7" "\<And>k. k < 29 \<Longrightarrow> buffer k = m (content_addr part j k)"
  shows "get_ref buffer (of_nat i) = content_ref part m j i"
  unfolding get_ref_def content_ref_def
  by (rule arg_cong [where f = le32], rule map_cong [OF refl])
    (use assms in \<open>simp add: ref_index_small\<close>)

text \<open>
  Every walk opens a link, reads its size and contents and closes it again: the read gives the
  contents, and the table is as before.
\<close>

definition visited :: "ftable \<Rightarrow> partition \<Rightarrow> nat \<Rightarrow> ftable" where
  "visited ft part j = ft\<lparr>fileList := (fileList ft)(chosen_slot ft := sector_at part j),
     fileSize := (fileSize ft)(chosen_slot ft := 30)\<rparr>"

definition filled :: "partition \<Rightarrow> mem \<Rightarrow> nat \<Rightarrow> buffer \<Rightarrow> buffer" where
  "filled part m j buffer = (\<lambda>i. if i < 29 then m (content_addr part j i) else buffer i)"

lemma accepted_30: "accepted 30 30"
  by (simp add: accepted_def)

lemma visit:
  assumes g: "geometry part M" and v: "volume part M A m" and d: "directory part A m j"
    and t: "table_ok ft"
  shows "exec (fsFileOpen ft part (of_nat j * sector_size part)) m
      = ((int (chosen_slot ft), visited ft part j), m)"
    and "exec (fsFileGetSize part (of_nat j * sector_size part)) m = (30, m)"
    and "exec (fsFileRead (visited ft part j) part (int (chosen_slot ft)) buffer 30) m
      = ((1, filled part m j buffer), m)"
    and "snd (fsFileClose (visited ft part j) (int (chosen_slot ft))) = ft"
    and "opened (visited ft part j) part (int (chosen_slot ft)) j 30"
proof -
  have j: "A j = Some 30" and nz: "sector_at part j \<noteq> 0" using d by (simp_all add: directory_def)
  have sep: "separated part M A" using v by (simp add: volume_def)
  have slot: "chosen_slot ft < MAX_OPEN_FILES" "fileList ft (chosen_slot ft) = 0"
    using chosen_slot_free [of ft] t by (auto simp: table_ok_def)
  then have sz: "fileSize ft (chosen_slot ft) = 0" using t by (simp add: table_ok_def)
  show "exec (fsFileOpen ft part (of_nat j * sector_size part)) m
      = ((int (chosen_slot ft), visited ft part j), m)"
    unfolding visited_def by (rule exec_fsFileOpen_volume [OF v j])
  show "exec (fsFileGetSize part (of_nat j * sector_size part)) m = (30, m)"
    using v j by (simp add: io_simps block_plus_sector volume_def)
  show op: "opened (visited ft part j) part (int (chosen_slot ft)) j 30"
    using slot nz by (simp add: opened_def visited_def)
  show "exec (fsFileRead (visited ft part j) part (int (chosen_slot ft)) buffer 30) m
      = ((1, filled part m j buffer), m)"
    using exec_fsFileRead_opened [OF g sep j op, of buffer 30 m] accepted_30
    by (simp add: filled_def)
  show "snd (fsFileClose (visited ft part j) (int (chosen_slot ft))) = ft"
    using slot sz nz by (simp add: fsFileClose_def visited_def fun_upd_idem)
qed

lemma exec_dir_fields:
  "exec (fsDirectoryGetReferenceCount part (of_nat j * sector_size part)) m = (refcount part m j, m)"
  "exec (fsFileGetNextAddress part (of_nat j * sector_size part)) m = (next_of part m j, m)"
  by (simp_all add: io_simps block_plus_sector refcount_def next_of_def)

lemma chain_next:
  assumes g: "geometry part M" and sep: "separated part M A" and c: "dir_chain part A m (j # k # js)"
  shows "next_of part m j = of_nat k * sector_size part" "next_of part m j \<noteq> 0"
    "dir_chain part A m (k # js)"
proof -
  show n: "next_of part m j = of_nat k * sector_size part" and "dir_chain part A m (k # js)"
    using c by (simp_all add: dir_chain_def)
  have "A k = Some 30" using c by (simp add: dir_chain_def directory_def)
  then show "next_of part m j \<noteq> 0"
    using sector_offset_nonzero [OF g] separated_bound [OF sep] separated_nonzero [OF sep] n by metis
qed

lemma length_entries [simp]: "length (entries part m j) = unat (refcount part m j)"
  by (simp add: entries_def)

lemma total_size_loop:
  assumes g: "geometry part M" and v: "volume part M A m"
  shows "dir_chain part A m js \<Longrightarrow> length js \<le> fuel \<Longrightarrow>
    exec (fsDirectoryGetTotalSize_loop fuel part (of_nat (hd js) * sector_size part) tot) m
      = (Some (tot + of_nat (length (all_entries part m js))), m)"
proof (induction js arbitrary: fuel tot)
  case Nil
  then show ?case by (simp add: dir_chain_def)
next
  case (Cons j js)
  then obtain fuel' where f: "fuel = Suc fuel'" by (cases fuel) auto
  have sep: "separated part M A" using v by (simp add: volume_def)
  show ?case
  proof (cases js)
    case Nil
    then have "next_of part m j = 0" using Cons.prems by (simp add: dir_chain_def)
    then show ?thesis using Nil f
      by (simp add: run_io_bind exec_dir_fields all_entries_def)
  next
    case (Cons k ks)
    note n = chain_next [OF g sep Cons.prems(1) [unfolded Cons]]
    have "exec (fsDirectoryGetTotalSize_loop fuel' part (of_nat (hd js) * sector_size part)
        (tot + refcount part m j)) m
        = (Some (tot + refcount part m j + of_nat (length (all_entries part m js))), m)"
      using n(3) Cons.prems(2) f Cons by (intro Cons.IH) auto
    then show ?thesis using n Cons f
      by (simp add: run_io_bind exec_dir_fields all_entries_def add.assoc)
  qed
qed

lemma index_scan_upt:
  assumes "k \<le> r" "c \<le> unat index"
  shows "index_scan buffer index [k..<r] (of_nat c) =
    (if unat index - c < r - k then Inl (get_ref buffer (of_nat (k + (unat index - c))))
     else Inr (of_nat (c + (r - k))))"
  using assms
proof (induction "r - k" arbitrary: k c)
  case 0
  then show ?case by simp
next
  case (Suc d)
  then have kr: "k < r" by simp
  have c32: "(of_nat c :: u32) = index \<longleftrightarrow> c = unat index"
  proof
    assume "(of_nat c :: u32) = index"
    moreover have "c < 2 ^ 32"
      using Suc.prems(2) unsigned_less [where 'a = nat and w = index] by simp
    ultimately show "c = unat index" using unat_of_nat_u32 [of c] by auto
  qed simp
  show ?case
  proof (cases "c = unat index")
    case True
    then show ?thesis using kr by (simp add: upt_conv_Cons c32)
  next
    case False
    then have ih: "index_scan buffer index [Suc k..<r] (of_nat (Suc c)) =
        (if unat index - Suc c < r - Suc k
         then Inl (get_ref buffer (of_nat (Suc k + (unat index - Suc c))))
         else Inr (of_nat (Suc c + (r - Suc k))))"
      using Suc.prems Suc.hyps(2) kr by (intro Suc.hyps(1)) auto
    have "unat index - c = Suc (unat index - Suc c)" "r - k = Suc (r - Suc k)"
      using False Suc.prems kr by auto
    then show ?thesis using False kr ih c32 by (simp add: upt_conv_Cons add.commute)
  qed
qed

lemma entries_nth:
  assumes "unat (refcount part m j) \<le> 7" "i < unat (refcount part m j)"
  shows "get_ref (filled part m j buffer) (of_nat i) = entries part m j ! i"
  using assms get_ref_contents [of i "filled part m j buffer" m part j]
  by (simp add: entries_def filled_def)

lemma find_by_index_loop:
  assumes g: "geometry part M" and v: "volume part M A m" and t: "table_ok ft"
  shows "dir_chain part A m js \<Longrightarrow> length js \<le> fuel \<Longrightarrow> c \<le> unat index \<Longrightarrow>
    exec (fsDirectoryFindByIndex_loop fuel ft buffer part (of_nat (hd js) * sector_size part) index (of_nat c)) m
      = (Some (if unat index - c < length (all_entries part m js)
               then all_entries part m js ! (unat index - c) else 0, ft), m)"
proof (induction js arbitrary: fuel c buffer)
  case Nil
  then show ?case by (simp add: dir_chain_def)
next
  case (Cons j js)
  then obtain fuel' where f: "fuel = Suc fuel'" by (cases fuel) auto
  have sep: "separated part M A" using v by (simp add: volume_def)
  have d: "directory part A m j" using Cons.prems(1) by (simp add: dir_chain_def)
  then have r7: "unat (refcount part m j) \<le> 7" by (simp add: directory_def)
  note vis = visit [OF g v d t]
  let ?r = "unat (refcount part m j)"
  let ?buf = "filled part m j buffer"
  show ?case
  proof (cases "unat index - c < ?r")
    case True
    then have "get_ref ?buf (of_nat (unat index - c)) = all_entries part m (j # js) ! (unat index - c)"
      using entries_nth [OF r7 True] by (simp add: all_entries_def nth_append)
    then show ?thesis
      using True index_scan_upt [of 0 ?r c index ?buf] Cons.prems(3) f
      by (simp add: run_io_bind exec_dir_fields vis all_entries_def)
  next
    case False
    then have scan: "index_scan ?buf index [0..<?r] (of_nat c) = Inr (of_nat (c + ?r))"
      using index_scan_upt [of 0 ?r c index ?buf] Cons.prems(3) by simp
    show ?thesis
    proof (cases js)
      case Nil
      then have "next_of part m j = 0" using Cons.prems by (simp add: dir_chain_def)
      then show ?thesis using Nil f False scan
        by (simp add: run_io_bind exec_dir_fields vis all_entries_def del: of_nat_add)
    next
      case (Cons k ks)
      note n = chain_next [OF g sep Cons.prems(1) [unfolded Cons]]
      have ih: "exec (fsDirectoryFindByIndex_loop fuel' ft ?buf part
          (of_nat (hd js) * sector_size part) index (of_nat (c + ?r))) m
        = (Some (if unat index - (c + ?r) < length (all_entries part m js)
               then all_entries part m js ! (unat index - (c + ?r)) else 0, ft), m)"
        using n(3) Cons.prems f Cons False by (intro Cons.IH) auto
      have e: "all_entries part m (j # js) = entries part m j @ all_entries part m js"
        by (simp add: all_entries_def)
      have "(if unat index - (c + ?r) < length (all_entries part m js)
               then all_entries part m js ! (unat index - (c + ?r)) else 0)
          = (if unat index - c < length (all_entries part m (j # js))
             then all_entries part m (j # js) ! (unat index - c) else 0)"
        using False unfolding e by (auto simp: nth_append)
      then show ?thesis using n Cons f scan ih
        by (simp add: run_io_bind exec_dir_fields vis del: of_nat_add)
    qed
  qed
qed

text \<open>The name of a file as the code reads it back: blanks from the first NUL on.\<close>

definition name_of :: "partition \<Rightarrow> mem \<Rightarrow> handle \<Rightarrow> u8 list" where
  "name_of part m h = padded_name (get_bytes m (block_address part + h + 1) 10)"

lemma exec_read_name:
  assumes "k \<le> n" "length p = k"
  shows "exec (read_name part h [k..<n] (p @ replicate (n - k) (ch CHR '' ''))) m =
    (let q = takeWhile (\<lambda>b. b \<noteq> 0) (map (\<lambda>i. m (block_address part + h + of_nat i + 1)) [k..<n]) in
     p @ q @ replicate (n - k - length q) (ch CHR '' ''), m)"
  using assms
proof (induction "n - k" arbitrary: k p)
  case 0
  then show ?case by simp
next
  case (Suc d)
  then have kn: "k < n" by simp
  let ?b = "m (block_address part + h + of_nat k + 1)"
  have rep: "replicate (n - k) (ch CHR '' '') = ch CHR '' '' # replicate (n - Suc k) (ch CHR '' '')"
    using kn by (simp add: Suc_diff_Suc [symmetric])
  show ?case
  proof (cases "?b = 0")
    case True
    then show ?thesis using kn Suc.prems
      by (simp add: upt_conv_Cons io_simps layout_simps rep list_update_append)
  next
    case False
    have "exec (read_name part h [Suc k..<n] ((p @ [?b]) @ replicate (n - Suc k) (ch CHR '' ''))) m =
      (let q = takeWhile (\<lambda>b. b \<noteq> 0) (map (\<lambda>i. m (block_address part + h + of_nat i + 1)) [Suc k..<n]) in
       (p @ [?b]) @ q @ replicate (n - Suc k - length q) (ch CHR '' ''), m)"
      using Suc.prems Suc.hyps(2) kn by (intro Suc.hyps(1)) auto
    then show ?thesis using kn Suc.prems False
      by (simp add: upt_conv_Cons io_simps layout_simps rep list_update_append Let_def)
  qed
qed

lemma exec_fsFileGetName:
  "exec (fsFileGetName part h (replicate 10 (ch CHR '' ''))) m = (name_of part m h, m)"
  using exec_read_name [of 0 10 "[]" part h m]
  by (simp add: fsFileGetName_def layout_simps name_of_def padded_name_def get_bytes_def Let_def add_ac)

lemma padded_name_no_zero: "0 \<notin> set (padded_name s)"
proof -
  have "ch CHR '' '' \<noteq> 0" by (simp add: ch_def)
  then show ?thesis by (auto simp: padded_name_def Let_def dest: set_takeWhileD)
qed

lemma strcmp_eq_padded: "strcmp_eq (padded_name a) (padded_name b) \<longleftrightarrow> padded_name a = padded_name b"
proof -
  have tw: "takeWhile (\<lambda>x. x \<noteq> 0) (padded_name s) = padded_name s" for s
    using padded_name_no_zero [of s] by (intro takeWhile_eq_all_conv [THEN iffD2]) auto
  show ?thesis unfolding strcmp_eq_def tw ..
qed

lemma exec_name_scan:
  "exec (name_scan part buffer (padded_name s) is) m =
    (find (\<lambda>h. name_of part m h = padded_name s) (map (\<lambda>i. get_ref buffer (of_nat i)) is), m)"
  by (induction "is")
    (auto simp: io_simps exec_fsFileGetName Let_def strcmp_eq_padded name_of_def)

lemma find_append_some:
  "find P (xs @ ys) = (case find P xs of Some x \<Rightarrow> Some x | None \<Rightarrow> find P ys)"
  by (induction xs) auto

lemma map_refs_entries:
  assumes "unat (refcount part m j) \<le> 7"
  shows "map (\<lambda>i. get_ref (filled part m j buffer) (of_nat i)) [0..<unat (refcount part m j)]
    = entries part m j"
  using entries_nth [OF assms] by (intro nth_equalityI) simp_all

lemma find_by_name_loop:
  assumes g: "geometry part M" and v: "volume part M A m" and t: "table_ok ft"
  shows "dir_chain part A m js \<Longrightarrow> length js \<le> fuel \<Longrightarrow>
    exec (fsDirectoryFindByName_loop fuel ft buffer part (of_nat (hd js) * sector_size part) (padded_name s)) m
      = (Some (case find (\<lambda>h. name_of part m h = padded_name s) (all_entries part m js) of
                 Some h \<Rightarrow> h | None \<Rightarrow> 0, ft), m)"
proof (induction js arbitrary: fuel buffer)
  case Nil
  then show ?case by (simp add: dir_chain_def)
next
  case (Cons j js)
  then obtain fuel' where f: "fuel = Suc fuel'" by (cases fuel) auto
  have sep: "separated part M A" using v by (simp add: volume_def)
  have d: "directory part A m j" using Cons.prems(1) by (simp add: dir_chain_def)
  then have r7: "unat (refcount part m j) \<le> 7" by (simp add: directory_def)
  note vis = visit [OF g v d t]
  let ?buf = "filled part m j buffer"
  have e: "all_entries part m (j # js) = entries part m j @ all_entries part m js" for js
    by (simp add: all_entries_def)
  show ?case
  proof (cases js)
    case Nil
    then have "next_of part m j = 0" using Cons.prems by (simp add: dir_chain_def)
    then show ?thesis using Nil f
      by (simp add: run_io_bind exec_dir_fields vis exec_name_scan map_refs_entries [OF r7] e
          all_entries_def Let_def split: option.splits)
  next
    case (Cons k ks)
    note n = chain_next [OF g sep Cons.prems(1) [unfolded Cons]]
    have "exec (fsDirectoryFindByName_loop fuel' ft ?buf part
        (of_nat (hd js) * sector_size part) (padded_name s)) m
      = (Some (case find (\<lambda>h. name_of part m h = padded_name s) (all_entries part m js) of
                 Some h \<Rightarrow> h | None \<Rightarrow> 0, ft), m)"
      using n(3) Cons.prems f Cons by (intro Cons.IH) auto
    then show ?thesis using n Cons f
      by (simp add: run_io_bind exec_dir_fields vis exec_name_scan map_refs_entries [OF r7] e
          find_append_some Let_def split: option.splits)
  qed
qed

lemma walks_run:
  assumes g: "geometry part M" and v: "volume part M A m" and t: "table_ok ft"
    and c: "dir_chain part A m js" and f: "length js \<le> fuel"
  shows "exec (fsDirectoryGetTotalSize fuel part (of_nat (hd js) * sector_size part)) m
      = (Some (of_nat (length (all_entries part m js))), m)
    \<and> exec (fsDirectoryFindByIndex fuel ft stack part (of_nat (hd js) * sector_size part) index) m
      = (Some (if unat index < length (all_entries part m js)
               then all_entries part m js ! unat index else 0, ft), m)
    \<and> exec (fsDirectoryFindByName fuel ft stack part (of_nat (hd js) * sector_size part) name) m
      = (Some (case find (\<lambda>h. name_of part m h = padded_name name) (all_entries part m js) of
                 Some h \<Rightarrow> h | None \<Rightarrow> 0, ft), m)"
proof -
  have n: "clean_name name [0..<10] (replicate 10 (ch CHR '' '')) = padded_name name"
    using clean_name_padded [of 0 10 "[]" name "ch CHR '' ''"] by (simp add: padded_name_def Let_def)
  show ?thesis
    using total_size_loop [OF g v c f, of 0] find_by_index_loop [OF g v t c f, of 0 index stack]
      find_by_name_loop [OF g v t c f, of stack name]
    by (simp add: fsDirectoryGetTotalSize_def fsDirectoryFindByIndex_def fsDirectoryFindByName_def n)
qed

text \<open>
  Listing a directory. On a chain of links that satisfies the directory invariant, a fuel
  of the chain's length is enough, and the three walks compute on the list of all references
  in chain order: \<open>fsDirectoryGetTotalSize\<close> its length, \<open>fsDirectoryFindByIndex\<close> the element at
  an index (0 behind the end), \<open>fsDirectoryFindByName\<close> the first reference whose name equals the
  blank-padded name given (0 if there is none). They change neither the device nor the table of
  open files.
\<close>

theorem directory_walks:
  assumes g: "geometry part M" and v: "volume part M A m" and t: "table_ok ft"
    and c: "dir_chain part A m js" and f: "length js \<le> fuel"
  shows "exec (fsDirectoryGetTotalSize fuel part (of_nat (hd js) * sector_size part)) m
      = (Some (of_nat (length (all_entries part m js))), m)
    \<and> exec (fsDirectoryFindByIndex fuel ft stack part (of_nat (hd js) * sector_size part) index) m
      = (Some (if unat index < length (all_entries part m js)
               then all_entries part m js ! unat index else 0, ft), m)
    \<and> exec (fsDirectoryFindByName fuel ft stack part (of_nat (hd js) * sector_size part) name) m
      = (Some (case find (\<lambda>h. name_of part m h = padded_name name) (all_entries part m js) of
                 Some h \<Rightarrow> h | None \<Rightarrow> 0, ft), m)"
  by (rule walks_run [OF assms])

text \<open>A directory with one entry, for the witnesses.\<close>

definition dir_mem :: mem where
  "dir_mem = (\<lambda>x. if x = 0 then DEVICE_MARKER else if x = 32 then SECTOR_HEADER
     else if x = 64 \<or> x = 192 then SECTOR_USED else if x = 160 then SECTOR_HEADER
     else if x = 96 \<or> x = 128 \<or> x = 224 then SECTOR_FREE
     else if x = 171 then 4 else if x = 43 then 30 else if x = 51 then 1 else if x = 65 then 160 else 0)"

definition empty_table :: ftable where
  "empty_table = \<lparr>fileList = (\<lambda>i. 0), fileSize = (\<lambda>i. 0)\<rparr>"

lemma empty_table_ok: "table_ok empty_table"
  by (auto simp: table_ok_def empty_table_def MAX_OPEN_FILES_def intro: exI [of _ 0])

lemma dir_volume: "volume demo_part 8 [1 \<mapsto> 30, 5 \<mapsto> 4] dir_mem"
proof (rule volumeI)
  have l: "extent_len demo_part 30 = 2" "extent_len demo_part 4 = 2"
    by (simp_all add: extent_len_def sectors_needed_def)
  show "separated demo_part 8 [1 \<mapsto> 30, 5 \<mapsto> 4]"
    by (auto simp: separated_def l split: if_splits)
  show "dir_mem (sector_at demo_part k) = marker_of demo_part [1 \<mapsto> 30, 5 \<mapsto> 4] k" if "k < 8" for k
  proof -
    have u: "[0..<2] = [0, 1 :: nat]" "[0..<3] = [0, 1, 2 :: nat]" "[0..<4] = [0, 1, 2, 3 :: nat]"
      "[0..<6] = [0, 1, 2, 3, 4, 5 :: nat]" "[0..<7] = [0, 1, 2, 3, 4, 5, 6 :: nat]"
      by (simp_all add: upt_rec)
    have "k \<in> {0, 1, 2, 3, 4, 5, 6, 7}" using that by auto
    then show ?thesis
      by (elim insertE emptyE; hypsubst)
        (simp_all add: marker_of_def l u dir_mem_def sector_at_def)
  qed
  have d: "dir_mem 43 = 30" "dir_mem 44 = 0" "dir_mem 45 = 0" "dir_mem 46 = 0"
    "dir_mem 171 = 4" "dir_mem 172 = 0" "dir_mem 173 = 0" "dir_mem 174 = 0"
    by (simp_all add: dir_mem_def)
  have "get32 dir_mem 43 = 30" "get32 dir_mem 171 = 4" by (simp_all add: get32_eval d)
  then show "get32 dir_mem (sector_at demo_part j + 11) = s" if "[1 \<mapsto> 30, 5 \<mapsto> 4] j = Some s" for j s
    using that by (auto simp: sector_at_def split: if_splits)
qed

lemma dir_fields: "refcount demo_part dir_mem 1 = 1" "next_of demo_part dir_mem 1 = 0"
proof -
  have d: "dir_mem 51 = 1" "dir_mem 52 = 0" "dir_mem 53 = 0" "dir_mem 54 = 0"
    "dir_mem 60 = 0" "dir_mem 61 = 0" "dir_mem 62 = 0" "dir_mem 63 = 0"
    by (simp_all add: dir_mem_def)
  show "refcount demo_part dir_mem 1 = 1" "next_of demo_part dir_mem 1 = 0"
    by (simp_all add: refcount_def next_of_def sector_at_def get32_eval d)
qed

lemma map_upt4: "map f [0..<4] = [f (0::nat), f 1, f 2, f 3]"
proof -
  have "[0..<4] = [0, 1, 2, 3 :: nat]" by (simp add: upt_rec)
  then show ?thesis by simp
qed

lemma dir_entries: "entries demo_part dir_mem 1 = [160]"
proof -
  have c: "content_addr demo_part 1 0 = 65" "content_addr demo_part 1 1 = 66"
    "content_addr demo_part 1 (Suc 0) = 66"
    "content_addr demo_part 1 2 = 67" "content_addr demo_part 1 3 = 68"
    by (simp_all add: content_addr_def payload_def sector_at_def)
  have d: "dir_mem 65 = 160" "dir_mem 66 = 0" "dir_mem 67 = 0" "dir_mem 68 = 0"
    by (simp_all add: dir_mem_def)
  have "le32 [160, 0, 0, 0] = 160" by simp
  moreover have "content_ref demo_part dir_mem 1 0 = le32 [160, 0, 0, 0]"
    by (simp add: content_ref_def map_upt4 c d del: One_nat_def le32.simps)
  ultimately have "content_ref demo_part dir_mem 1 0 = 160" by simp
  moreover have "[0..<1] = [0 :: nat]" by simp
  ultimately show ?thesis by (simp add: entries_def dir_fields del: One_nat_def)
qed

lemma dir_dir_chain: "dir_chain demo_part [1 \<mapsto> 30, 5 \<mapsto> 4] dir_mem [1]"
  by (simp add: dir_chain_def directory_def dir_fields sector_at_def del: One_nat_def)

theorem directory_walks_witness:
  "exec (fsDirectoryGetTotalSize 1 demo_part 32) dir_mem = (Some 1, dir_mem)
   \<and> exec (fsDirectoryFindByIndex 1 empty_table (\<lambda>_. 0) demo_part 32 0) dir_mem
       = (Some (160, empty_table), dir_mem)"
  using directory_walks [OF demo_geometry dir_volume empty_table_ok dir_dir_chain, of 1 "\<lambda>_. 0" 0 "[]"]
  by (simp add: all_entries_def dir_entries del: One_nat_def)


section \<open>Adding and removing a reference\<close>

lemma quad_index: "a < 4 \<Longrightarrow> a' < 4 \<Longrightarrow> i * 4 + a = r * 4 + a' \<longleftrightarrow> i = r \<and> a = (a' :: nat)"
  by presburger

lemma put_ref_at:
  assumes "r < 7" "i < 7" "a < 4" "n \<le> 4"
  shows "fold (\<lambda>a buffer. buffer(ref_index (of_nat r) a := f a)) [0..<n] b (ref_index (of_nat i) a)
    = (if i = r \<and> a < n then f a else b (ref_index (of_nat i) a))"
  using assms(4)
proof (induction n)
  case (Suc n)
  then have n: "n < 4" by simp
  show ?case
    using Suc assms by (auto simp: ref_index_small [OF assms(1) n] ref_index_small quad_index [OF assms(3) n])
qed simp

lemma get_put_ref:
  assumes "r < 7" "i < 7"
  shows "get_ref (put_ref b (of_nat r) v) (of_nat i) = (if i = r then v else get_ref b (of_nat i))"
  using put_ref_at [OF assms, of _ 4 "(!) (le32_bytes v)" b] le32_bytes_nth_upt [of v]
  by (cases "i = r") (simp_all add: get_ref_def put_ref_def map_upt4)

lemma drop_ref_at:
  assumes "i < 7" "l < 7" "k < 7" "a < 4" "n \<le> 4"
  shows "fold (\<lambda>a buffer.
       let buffer = buffer(ref_index (of_nat i) a := buffer (ref_index (of_nat l) a))
       in buffer(ref_index (of_nat l) a := x)) [0..<n] b (ref_index (of_nat k) a)
    = (if a < n \<and> k = l then x else if a < n \<and> k = i then b (ref_index (of_nat l) a)
       else b (ref_index (of_nat k) a))"
  using assms(3,4,5)
proof (induction n arbitrary: k a)
  case (Suc n)
  then have n: "n < 4" by simp
  show ?case
    using Suc.IH [OF Suc.prems(1,2)] Suc.IH [OF assms(2) n] Suc.prems assms n
    by (auto simp: Let_def ref_index_small quad_index)
qed simp

lemma get_drop_ref:
  assumes "i < r" "r \<le> 7" "k < r - 1"
  shows "get_ref (drop_ref b (of_nat i) (of_nat r)) (of_nat k)
    = (if k = i then get_ref b (of_nat (r - 1)) else get_ref b (of_nat k))"
proof -
  have r1: "(of_nat r :: u32) - 1 = of_nat (r - 1)" using assms by simp
  have k: "i < 7" "r - 1 < 7" "k < 7" using assms by auto
  show ?thesis
    using drop_ref_at [OF k, of _ 4 "ch CHR '' ''" b] assms
    by (cases "k = i") (simp_all add: get_ref_def drop_ref_def r1 map_upt4 del: of_nat_diff)
qed

text \<open>Rewriting the references of an open directory.\<close>

lemma put32_header_field:
  "same_outside part j header_fields m (put32 m (sector_at part j + 19) v)"
  using same_outside_put [of 19 "le32_bytes v" header_fields part j m m]
  by (simp add: put32_def header_fields_ranges)

lemma field_write_contents:
  assumes g: "geometry part M" and sep: "separated part M A" and j: "A j = Some s"
    and n: "n \<le> unat s + 1" and k: "A k = Some t" and o: "f + 4 \<le> 32"
  shows "get32 (write_contents part j buffer n m) (sector_at part k + of_nat f)
    = get32 m (sector_at part k + of_nat f)"
proof (rule get32_cong)
  fix i :: nat assume "i < 4"
  then have "f + i < unat (sector_size part)" using o g by (simp add: geometry_def)
  then show "write_contents part j buffer n m (sector_at part k + of_nat f + of_nat i)
      = m (sector_at part k + of_nat f + of_nat i)"
    using write_contents_header [OF g sep j n k, of "f + i"] by (simp add: add.assoc)
qed

lemma get32_same_outside:
  assumes g: "geometry part M" and j: "j < M" and k: "k < M"
    and s: "same_outside part j S m m'" "S \<subseteq> {0..<unat (sector_size part)}"
    and o: "f + 4 \<le> 32" "k \<noteq> j \<or> S \<inter> {f..<f + 4} = {}"
  shows "get32 m' (sector_at part k + of_nat f) = get32 m (sector_at part k + of_nat f)"
proof (rule get32_cong)
  fix i :: nat assume i: "i < 4"
  then have c: "f + i < unat (sector_size part)" using o g by (simp add: geometry_def)
  have "\<forall>d \<in> S. sector_at part k + of_nat (f + i) \<noteq> sector_at part j + of_nat d"
  proof
    fix d assume d: "d \<in> S"
    then have "d < unat (sector_size part)" using s(2) by auto
    moreover have "\<not> (k = j \<and> f + i = d)" using o(2) d i by auto
    ultimately show "sector_at part k + of_nat (f + i) \<noteq> sector_at part j + of_nat d"
      using sector_byte_eq [OF g k j c] by simp
  qed
  then show "m' (sector_at part k + of_nat f + of_nat i) = m (sector_at part k + of_nat f + of_nat i)"
    using s(1) by (simp add: same_outside_def add.assoc)
qed

lemma content_same_outside:
  assumes g: "geometry part M" and sep: "separated part M A" and j: "A j = Some s" and k: "A k = Some 30"
    and s: "same_outside part j header_fields m m'"
  shows "i \<le> 30 \<Longrightarrow> m' (content_addr part k i) = m (content_addr part k i)"
proof -
  assume "i \<le> 30"
  moreover have "header_fields \<subseteq> {0..<unat (sector_size part)}"
    using g by (auto simp: header_fields_def geometry_def)
  ultimately show ?thesis
    using contents_same_outside [OF g sep j k s] by (auto simp: contents_def)
qed

lemma content_ref_cong:
  assumes "\<And>k. k < 29 \<Longrightarrow> m (content_addr part j k) = m' (content_addr part j k)" "i < 7"
  shows "content_ref part m j i = content_ref part m' j i"
proof -
  have "m (content_addr part j (i * 4 + a)) = m' (content_addr part j (i * 4 + a))" if "a < 4" for a
    using assms that by simp
  then show ?thesis
    unfolding content_ref_def by (intro arg_cong [where f = le32] map_cong [OF refl]) simp
qed

text \<open>The references after the contents have been rewritten from a buffer.\<close>

lemma content_ref_written:
  assumes g: "geometry part M" and e: "j + extent_len part 30 \<le> M" and i: "i < 7"
  shows "content_ref part (write_contents part j buffer 29 m) j i = get_ref buffer (of_nat i)"
  by (rule get_ref_contents [symmetric, OF i]) (simp add: write_contents_at [OF g e])

text \<open>
  Two memories in which the directories are the same except for the references and the count
  of the one in sector \<open>j\<close>.
\<close>

definition dirs_updated :: "partition \<Rightarrow> extents \<Rightarrow> nat \<Rightarrow> u32 list \<Rightarrow> mem \<Rightarrow> mem \<Rightarrow> bool" where
  "dirs_updated part A j es m m' \<longleftrightarrow> entries part m' j = es
     \<and> (\<forall>k. A k = Some 30 \<longrightarrow> next_of part m' k = next_of part m k)
     \<and> (\<forall>k. A k = Some 30 \<and> k \<noteq> j \<and> unat (refcount part m k) \<le> 7 \<longrightarrow> entries part m' k = entries part m k)"

lemma entries_cong:
  assumes "refcount part m' j = refcount part m j" "unat (refcount part m j) \<le> 7"
    and "\<And>i. i < 29 \<Longrightarrow> m' (content_addr part j i) = m (content_addr part j i)"
  shows "entries part m' j = entries part m j"
  unfolding entries_def assms(1)
  by (rule map_cong [OF refl], rule content_ref_cong) (use assms(2,3) in auto)

lemma rewrite_contents_entries:
  assumes g: "geometry part M" and sep: "separated part M A" and j: "A j = Some 30"
    and r: "unat (refcount part m j) \<le> 7"
  shows "dirs_updated part A j
    (map (\<lambda>i. get_ref buffer (of_nat i)) [0..<unat (refcount part m j)])
    m (write_contents part j buffer 29 m)"
proof -
  note e = own_extent [OF sep j]
  have field: "get32 (write_contents part j buffer 29 m) (sector_at part k + of_nat f)
      = get32 m (sector_at part k + of_nat f)" if "A k = Some 30" "f + 4 \<le> 32" for k f
    by (rule field_write_contents [OF g sep j _ that]) simp
  have "refcount part (write_contents part j buffer 29 m) k = refcount part m k"
    "next_of part (write_contents part j buffer 29 m) k = next_of part m k" if "A k = Some 30" for k
    using field [OF that, of 19] field [OF that, of 28] by (simp_all add: refcount_def next_of_def)
  moreover have "write_contents part j buffer 29 m (content_addr part k i) = m (content_addr part k i)"
    if "A k = Some 30" "k \<noteq> j" "i < 29" for k i
    using write_contents_foreign [OF g sep j _ that(1,2), of 29 buffer m] that(3)
    by (simp add: contents_def)
  ultimately show ?thesis
    using j r unfolding dirs_updated_def
    by (auto simp: entries_def content_ref_written [OF g e]
        intro!: content_ref_cong entries_cong [unfolded entries_def])
qed

lemma set_refcount_entries:
  assumes g: "geometry part M" and sep: "separated part M A" and j: "A j = Some 30"
    and r: "unat r \<le> 7"
  shows "dirs_updated part A j (map (content_ref part m j) [0..<unat r])
      m (put32 m (sector_at part j + 19) r)"
    and "refcount part (put32 m (sector_at part j + 19) r) j = r"
proof -
  let ?m = "put32 m (sector_at part j + 19) r"
  note out = put32_header_field [of part j m r]
  note jM = separated_bound [OF sep j]
  have ss: "32 \<le> unat (sector_size part)" using g by (simp add: geometry_def)
  have out': "same_outside part j {19..<23} m ?m"
    using same_outside_put [of 19 "le32_bytes r" "{19..<23}" part j m m] by (simp add: put32_def)
  have field: "get32 ?m (sector_at part k + of_nat f) = get32 m (sector_at part k + of_nat f)"
    if "A k = Some 30" "f + 4 \<le> 32" "k \<noteq> j \<or> {19..<23} \<inter> {f..<f + 4} = {}" for k f
    by (rule get32_same_outside [OF g jM separated_bound [OF sep that(1)] out' _ that(2,3)])
      (use ss in auto)
  show rj: "refcount part ?m j = r" by (simp add: refcount_def)
  have "refcount part ?m k = refcount part m k" if "A k = Some 30" "k \<noteq> j" for k
    using field [OF that(1), of 19] that(2) by (simp add: refcount_def)
  moreover have "next_of part ?m k = next_of part m k" if "A k = Some 30" for k
    using field [OF that, of 28] by (simp add: next_of_def)
  moreover have "?m (content_addr part k i) = m (content_addr part k i)"
    if "A k = Some 30" "i < 29" for k i
    by (rule content_same_outside [OF g sep j that(1) out]) (use that in simp)
  ultimately show "dirs_updated part A j (map (content_ref part m j) [0..<unat r]) m ?m"
    using j rj r unfolding dirs_updated_def
    by (auto simp: entries_def intro!: content_ref_cong entries_cong [unfolded entries_def])
qed

lemma dirs_updated_trans:
  assumes "dirs_updated part A j es m m'" "dirs_updated part A j es' m' m''"
  shows "dirs_updated part A j es' m m''"
proof -
  have "unat (refcount part m' k) = unat (refcount part m k)"
    if "A k = Some 30" "k \<noteq> j" "unat (refcount part m k) \<le> 7" for k
    using assms(1) that length_entries [of part m k] length_entries [of part m' k]
    by (simp add: dirs_updated_def del: length_entries)
  then show ?thesis using assms by (simp add: dirs_updated_def)
qed

text \<open>Writing a buffer to the open directory of the walk.\<close>

lemma visit_write:
  assumes g: "geometry part M" and v: "volume part M A m" and d: "directory part A m j"
    and t: "table_ok ft"
  shows "exec (fsFileWrite (visited ft part j) part (int (chosen_slot ft)) buffer 30) m
    = (1, write_contents part j buffer 29 m)"
proof -
  have "separated part M A" "A j = Some 30" using v d by (simp_all add: volume_def directory_def)
  then show ?thesis
    using exec_fsFileWrite_opened [OF g _ _ visit(5) [OF g v d t]] accepted_30 by simp
qed

definition names_kept :: "partition \<Rightarrow> extents \<Rightarrow> mem \<Rightarrow> mem \<Rightarrow> bool" where
  "names_kept part A m m' \<longleftrightarrow> (\<forall>k s. A k = Some s \<longrightarrow>
     name_of part m' (of_nat k * sector_size part) = name_of part m (of_nat k * sector_size part))"

lemma names_keptI:
  assumes "\<And>k s c. A k = Some s \<Longrightarrow> 0 < c \<Longrightarrow> c < 11 \<Longrightarrow> m' (sector_at part k + of_nat c) = m (sector_at part k + of_nat c)"
  shows "names_kept part A m m'"
  unfolding names_kept_def
proof (intro allI impI)
  fix k s assume k: "A k = Some s"
  have "get_bytes m' (sector_at part k + 1) 10 = get_bytes m (sector_at part k + 1) 10"
    using assms [OF k, of "Suc i" for i] by (auto simp: get_bytes_def add.assoc)
  then show "name_of part m' (of_nat k * sector_size part) = name_of part m (of_nat k * sector_size part)"
    by (simp add: name_of_def block_plus_sector)
qed

lemma AddFile_appends:
  assumes g: "geometry part M" and v: "volume part M A m" and t: "table_ok ft"
    and d: "directory part A m j" and room: "unat (refcount part m j) < 7"
  shows "\<exists>m'. exec (fsDirectoryAddFile fuel ft stack part (of_nat j * sector_size part) file) m
        = (Some (1, ft), m')
    \<and> volume part M A m'
    \<and> dirs_updated part A j (entries part m j @ [file]) m m'
    \<and> names_kept part A m m' \<and> sectors_only part 1 M m m'"
proof -
  let ?r = "refcount part m j"
  have j: "A j = Some 30" and r7: "unat ?r \<le> 7" and nz: "sector_at part j \<noteq> 0"
    using d by (simp_all add: directory_def)
  have sep: "separated part M A" using v by (simp add: volume_def)
  have r1: "unat (?r + 1) = Suc (unat ?r)" using room by (subst unat_add_no_wrap) auto
  let ?m1 = "put32 m (sector_at part j + 19) (?r + 1)"
  have u1: "dirs_updated part A j (map (content_ref part m j) [0..<Suc (unat ?r)]) m ?m1"
    and c1: "refcount part ?m1 j = ?r + 1"
    using set_refcount_entries [OF g sep j, of "?r + 1" m] r1 room by simp_all
  have v1: "volume part M A ?m1"
    by (rule volume_same_outside [OF g v separated_bound [OF sep j] put32_header_field])
  have d1: "directory part A ?m1 j" using j nz c1 r1 room by (simp add: directory_def)
  note vis = visit [OF g v1 d1 t]
  let ?buf = "put_ref (filled part ?m1 j stack) ?r file"
  let ?m2 = "write_contents part j ?buf 29 ?m1"
  have G: "get_ref ?buf (of_nat i) = (if i < unat ?r then content_ref part m j i else file)"
    if "i < Suc (unat ?r)" for i
  proof -
    have "get_ref (filled part ?m1 j stack) (of_nat i) = content_ref part ?m1 j i"
      using that room by (intro get_ref_contents) (simp_all add: filled_def)
    moreover have "content_ref part ?m1 j i = content_ref part m j i"
      using content_same_outside [OF g sep j j put32_header_field] that room
      by (intro content_ref_cong) auto
    ultimately show ?thesis
      using get_put_ref [of "unat ?r" i "filled part ?m1 j stack" "file"] that room by auto
  qed
  have "map (\<lambda>i. get_ref ?buf (of_nat i)) [0..<unat (refcount part ?m1 j)] = entries part m j @ [file]"
    unfolding c1 r1 using G [of "unat ?r"] by (simp add: entries_def G)
  then have u: "dirs_updated part A j (entries part m j @ [file]) m ?m2"
    using dirs_updated_trans [OF u1 rewrite_contents_entries [OF g sep j, of ?m1 ?buf]] c1 r1 room by simp
  have full: "\<not> (?r + 1) * 4 \<ge> sector_size part"
  proof -
    have "unat ((?r + 1) * 4) = Suc (unat ?r) * 4"
      using r1 room by (subst unat_mult_no_wrap) auto
    then show ?thesis using g room by (simp add: word_le_nat_alt geometry_def)
  qed
  have "exec (fsDirectoryAddFile fuel ft stack part (of_nat j * sector_size part) file) m
      = (Some (1, ft), ?m2)"
    using full vis visit_write [OF g v1 d1 t]
    by (simp add: fsDirectoryAddFile_def target_extent_def run_io_bind exec_dir_fields
        exec_fsDirectorySetReferenceCount block_plus_sector)
  moreover have "names_kept part A m ?m2"
  proof (rule names_keptI)
    fix k s and c :: nat assume k: "A k = Some s" and c: "0 < c" "c < 11"
    have e: "29 \<le> unat (30 :: u32)" by simp
    have "?m2 (sector_at part k + of_nat c) = ?m1 (sector_at part k + of_nat c)"
      by (rule write_contents_header [OF g sep j _ k]) (use c g in \<open>simp_all add: geometry_def\<close>)
    also have "\<dots> = m (sector_at part k + of_nat c)"
    proof (rule same_outside_byte [OF g separated_bound [OF sep j] separated_bound [OF sep k]])
      show "same_outside part j {19..<23} m ?m1"
        using same_outside_put [of 19 "le32_bytes (?r + 1)" "{19..<23}" part j m m] by (simp add: put32_def)
    qed (use c g in \<open>auto simp: geometry_def\<close>)
    finally show "?m2 (sector_at part k + of_nat c) = m (sector_at part k + of_nat c)" .
  qed
  moreover have "sectors_only part 1 M m ?m2"
  proof (rule sectors_only_trans)
    show "sectors_only part 1 M m ?m1"
      using same_outside_put [of 19 "le32_bytes (?r + 1)" "{19..<23}" part j m m] g
      by (intro sectors_only_outside [of _ j "{19..<23}"] separated_positive [OF sep j] separated_bound [OF sep j])
        (auto simp: put32_def geometry_def)
    show "sectors_only part 1 M ?m1 ?m2"
      by (rule sectors_only_write_contents [OF g own_extent [OF sep j] _ separated_positive [OF sep j]]) simp
  qed
  ultimately show ?thesis
    using u volume_write_contents [OF g v1 j, of 29 ?buf] by auto
qed



lemma remove_scan_find:
  "remove_scan buffer file is = find (\<lambda>i. get_ref buffer (of_nat i) = file) is"
  by (induction "is") auto

text \<open>What the list of entries becomes: the last entry takes the place of the one removed.\<close>

definition swap_remove :: "nat \<Rightarrow> 'a list \<Rightarrow> 'a list" where
  "swap_remove i xs = butlast (xs[i := last xs])"

lemma mset_swap_remove: "i < length xs \<Longrightarrow> mset (swap_remove i xs) = mset xs - {#xs ! i#}"
proof -
  assume i: "i < length xs"
  then obtain ys l where xs: "xs = ys @ [l]" by (cases xs rule: rev_cases) auto
  show ?thesis
  proof (cases "i < length ys")
    case True
    then show ?thesis
      by (simp add: swap_remove_def xs list_update_append butlast_append nth_append mset_update)
  next
    case False
    then have "i = length ys" using i xs by simp
    then show ?thesis by (simp add: swap_remove_def xs)
  qed
qed

lemma swap_remove_nth:
  assumes "i < length xs"
  shows "swap_remove i xs = map (\<lambda>k. if k = i then xs ! (length xs - 1) else xs ! k) [0..<length xs - 1]"
proof -
  have "xs \<noteq> []" using assms by auto
  then show ?thesis
    by (intro nth_equalityI) (auto simp: swap_remove_def nth_butlast nth_list_update last_conv_nth)
qed

text \<open>Releasing an extent does not touch the directories of the others.\<close>

lemma released_dirs:
  assumes g: "geometry part M" and v: "volume part M A m" and f: "A jf = Some s"
    and j: "A j = Some 30" "j \<noteq> jf" "unat (refcount part m j) \<le> 7"
  defines "m' \<equiv> released part (of_nat jf * sector_size part) m"
  shows "dirs_updated part (A(jf := None)) j (entries part m j) m m'"
    and "refcount part m' j = refcount part m j"
    and "\<And>i. i \<le> 30 \<Longrightarrow> m' (content_addr part j i) = m (content_addr part j i)"
proof -
  have sep: "separated part M A" using v by (simp add: volume_def)
  note e = own_extent [OF sep f]
  have r: "m' = mark part (extent_len part s) SECTOR_FREE (sector_at part jf) m"
    unfolding m'_def by (rule released_volume [OF g v f])
  have ss: "32 \<le> unat (sector_size part)" using g by (simp add: geometry_def)
  have field: "get32 m' (sector_at part k + of_nat p) = get32 m (sector_at part k + of_nat p)"
    if "A k = Some 30" "0 < p" "p + 4 \<le> 32" for k p
  proof (rule get32_cong)
    fix i :: nat assume "i < 4"
    then show "m' (sector_at part k + of_nat p + of_nat i) = m (sector_at part k + of_nat p + of_nat i)"
      using mark_byte [OF g separated_bound [OF sep that(1)] e, of "p + i"] that ss
      by (simp add: r add.assoc)
  qed
  have rc: "refcount part m' k = refcount part m k" "next_of part m' k = next_of part m k"
    if "A k = Some 30" for k
    using field [OF that, of 19] field [OF that, of 28] by (simp_all add: refcount_def next_of_def)
  have co: "m' (content_addr part k i) = m (content_addr part k i)" if k: "A k = Some 30" "i \<le> 30" for k i
  proof -
    have i: "i \<le> unat (30 :: u32)" using k(2) by simp
    note b = content_addr_bounds [OF g own_extent [OF sep k(1)] i]
    show ?thesis
      unfolding content_addr_def r
      by (rule mark_byte [OF g _ e _ b(2)]) (use b(1) own_extent [OF sep k(1)] in auto)
  qed
  show "refcount part m' j = refcount part m j" by (rule rc(1) [OF j(1)])
  show "m' (content_addr part j i) = m (content_addr part j i)" if "i \<le> 30" for i
    by (rule co [OF j(1) that])
  have en: "entries part m' k = entries part m k" if "A k = Some 30" "unat (refcount part m k) \<le> 7" for k
    using rc(1) [OF that(1)] that co [OF that(1)] by (intro entries_cong) auto
  show "dirs_updated part (A(jf := None)) j (entries part m j) m m'"
    using en j rc(2) by (auto simp: dirs_updated_def)
qed



end
