(* ===== verification/FsDevice.thy ===== *)
theory FsDevice
  imports FsDirectory
begin

text \<open>
  Devices (kernel/fs/basefs/fsDevice.c): reading the device header into a partition record, and
  formatting. The specification of formatting is the empty volume: one directory, the root, and
  every other sector free; a formatted device can be opened again and gives the same partition.
\<close>

definition DEVICE_OFFSET_TYPE :: u32 where "DEVICE_OFFSET_TYPE = 11"
definition DEVICE_OFFSET_CAPACITY :: u32 where "DEVICE_OFFSET_CAPACITY = 12"
definition DEVICE_OFFSET_ROOT :: u32 where "DEVICE_OFFSET_ROOT = 16"
definition DEVICE_OFFSET_SECT_SZ :: u32 where "DEVICE_OFFSET_SECT_SZ = 20"

declare DEVICE_OFFSET_TYPE_def [layout_simps] DEVICE_OFFSET_CAPACITY_def [layout_simps]
  DEVICE_OFFSET_ROOT_def [layout_simps] DEVICE_OFFSET_SECT_SZ_def [layout_simps]

definition DeviceHeaderString :: "u8 list" where
  "DeviceHeaderString = 0x13 # str ''fs        ''"

record wait_bus =
  bus_type :: u8
  read_waitstate :: u16
  write_waitstate :: u16

definition fsInit :: "wait_bus \<Rightarrow> wait_bus" where
  "fsInit fs_bus = fs_bus\<lparr>bus_type := 0, read_waitstate := 2, write_waitstate := 2\<rparr>"

definition fsDeviceGetSize :: "partition \<Rightarrow> u32 io" where
  "fsDeviceGetSize part =
     bindio (mapio (\<lambda>i. fs_read_byte (block_address part + of_nat i + DEVICE_OFFSET_CAPACITY)) [0..<4])
       (\<lambda>sizeBytes. Ret (le32 sizeBytes))"

definition fsDeviceGetSectorSize :: "partition \<Rightarrow> u32 io" where
  "fsDeviceGetSectorSize part =
     bindio (mapio (\<lambda>i. fs_read_byte (block_address part + of_nat i + DEVICE_OFFSET_SECT_SZ)) [0..<4])
       (\<lambda>sizeBytes. Ret (le32 sizeBytes))"

definition fsDeviceGetRootDirectory :: "partition \<Rightarrow> handle io" where
  "fsDeviceGetRootDirectory part =
     bindio (mapio (\<lambda>i. fs_read_byte (block_address part + of_nat i + DEVICE_OFFSET_SECT_SZ)) [0..<4])
       (\<lambda>ptrBytes. Ret (le32 ptrBytes))"

definition fsDeviceOpen :: "u32 \<Rightarrow> partition io" where
  "fsDeviceOpen deviceAddress =
     (let part = \<lparr>block_address = deviceAddress, block_size = 0, sector_count = 0, sector_size = 0\<rparr> in
      bindio (mapio (\<lambda>i. fs_read_byte (block_address part + of_nat i)) [0..<10]) (\<lambda>headerID.
      bindio (fsDeviceGetSize part) (\<lambda>size.
      bindio (fsDeviceGetSectorSize part) (\<lambda>ssize.
      if headerID ! 0 \<noteq> 0x13 \<or> headerID ! 1 \<noteq> ch CHR ''f'' \<or> headerID ! 2 \<noteq> ch CHR ''s''
         \<or> size = 0 \<or> ssize = 0
      then Ret part
      else Ret (part\<lparr>block_size := size, sector_size := ssize, sector_count := size div ssize\<rparr>)))))"

definition fsDeviceFormat :: "partition \<Rightarrow> u32 \<Rightarrow> u32 \<Rightarrow> u32 \<Rightarrow> partition io" where
  "fsDeviceFormat part begin_addr end_addr sectorSize =
     (let part = part\<lparr>block_size := end_addr - begin_addr, sector_size := sectorSize,
                      sector_count := (end_addr - begin_addr) div sectorSize\<rparr> in
      bindio (foreach (\<lambda>i. fs_write_byte (block_address part + of_nat i * sector_size part) SECTOR_FREE)
                [0..<unat (sector_count part)]) (\<lambda>_.
      bindio (foreach (\<lambda>i. fs_write_byte (block_address part + of_nat i) (DeviceHeaderString ! i))
                [0..<length DeviceHeaderString]) (\<lambda>_.
      bindio (foreach (\<lambda>i. fs_write_byte (block_address part + of_nat i + DEVICE_OFFSET_CAPACITY)
                (le32_bytes (block_size part) ! i)) [0..<4]) (\<lambda>_.
      bindio (fs_write_byte (block_address part + DEVICE_OFFSET_TYPE) (ch CHR ''T'')) (\<lambda>_.
      bindio (fsDirectoryCreate part (str ''root'')) (\<lambda>handle.
      bindio (foreach (\<lambda>i. fs_write_byte (block_address part + of_nat i + DEVICE_OFFSET_ROOT)
                (le32_bytes handle ! i)) [0..<4]) (\<lambda>_.
      bindio (foreach (\<lambda>i. fs_write_byte (block_address part + of_nat i + DEVICE_OFFSET_SECT_SZ)
                (le32_bytes (sector_size part) ! i)) [0..<4]) (\<lambda>_.
      Ret part))))))))"


section \<open>Reading the device header\<close>

lemma exec_fsDeviceGetSize: "exec (fsDeviceGetSize part) m = (get32 m (block_address part + 12), m)"
  by (simp add: fsDeviceGetSize_def exec_read_bytes io_simps layout_simps get32_def)

lemma exec_fsDeviceGetSectorSize:
  "exec (fsDeviceGetSectorSize part) m = (get32 m (block_address part + 20), m)"
  by (simp add: fsDeviceGetSectorSize_def exec_read_bytes io_simps layout_simps get32_def)

lemma exec_fsDeviceGetRootDirectory:
  "exec (fsDeviceGetRootDirectory part) m = (get32 m (block_address part + 20), m)"
  by (simp add: fsDeviceGetRootDirectory_def exec_read_bytes io_simps layout_simps get32_def)

lemma exec_fsDeviceOpen:
  "exec (fsDeviceOpen a) m =
     (let size = get32 m (a + 12); ssize = get32 m (a + 20) in
      if m a = 0x13 \<and> m (a + 1) = ch CHR ''f'' \<and> m (a + 2) = ch CHR ''s'' \<and> size \<noteq> 0 \<and> ssize \<noteq> 0
      then \<lparr>block_address = a, block_size = size, sector_count = size div ssize, sector_size = ssize\<rparr>
      else \<lparr>block_address = a, block_size = 0, sector_count = 0, sector_size = 0\<rparr>, m)"
  using exec_read_bytes [of a 0 10 m]
  by (auto simp: fsDeviceOpen_def io_simps Let_def exec_fsDeviceGetSize exec_fsDeviceGetSectorSize)


section \<open>Formatting\<close>

definition formatted :: "partition \<Rightarrow> mem \<Rightarrow> mem" where
  "formatted part m =
    (let m = mark part (unat (sector_count part)) SECTOR_FREE (block_address part) m;
         m = put_bytes m (block_address part) DeviceHeaderString;
         m = put32 m (block_address part + 12) (block_size part)
     in m(block_address part + 11 := ch CHR ''T''))"

definition init_directory :: "partition \<Rightarrow> handle \<Rightarrow> mem \<Rightarrow> mem" where
  "init_directory part h m =
    snd (exec (fsFileSetAttributes part h (str '' rwd''))
      (snd (exec (fsDirectorySetReferenceCount part h 0) m)))"

lemma exec_fsDirectoryCreate:
  "exec (fsDirectoryCreate part name) m =
    (let (h, m) = exec (fsFileCreate part name 30) m in (h, init_directory part h m))"
  by (simp add: fsDirectoryCreate_def io_simps init_directory_def split: prod.splits)

lemma map_nth_all: "map ((!) xs) [0..<length xs] = xs"
  by (rule map_nth)

lemma length_DeviceHeaderString: "length DeviceHeaderString = 11"
  by (simp add: DeviceHeaderString_def)

lemma exec_fsDeviceFormat:
  fixes part e b ss
  defines "part' \<equiv> part\<lparr>block_size := e - b, sector_size := ss, sector_count := (e - b) div ss\<rparr>"
  shows "exec (fsDeviceFormat part b e ss) m =
    (let (h, m) = exec (fsDirectoryCreate part' (str ''root'')) (formatted part' m)
     in (part', put32 (put32 m (block_address part + 16) h) (block_address part + 20) ss))"
proof -
  have hs: "exec (foreach (\<lambda>i. fs_write_byte (block_address part + of_nat i) (DeviceHeaderString ! i))
      [0..<length DeviceHeaderString]) m = ((), put_bytes m (block_address part) DeviceHeaderString)" for m
    using exec_write_fun [of "length DeviceHeaderString" "block_address part" 0 "(!) DeviceHeaderString" m]
      map_nth_all [of DeviceHeaderString] length_DeviceHeaderString by simp
  have w: "exec (foreach (\<lambda>i. fs_write_byte (block_address part + of_nat i + k) (le32_bytes v ! i)) [0..<4]) m
      = ((), put32 m (block_address part + k) v)" for k v m
    by (simp add: exec_write_fun put32_def le32_bytes_nth_upt)
  have mk: "exec (foreach (\<lambda>i. fs_write_byte (block_address part + of_nat i * ss) c) [0..<n]) m
      = ((), mark part' n c (block_address part) m)" for n c m
    using exec_mark_loop [of "block_address part" part' c n m] by (simp add: part'_def)
  show ?thesis
    by (simp add: fsDeviceFormat_def Let_def part'_def [symmetric] io_simps hs w mk layout_simps
        formatted_def split: prod.splits) (simp add: part'_def w mk hs io_simps)
qed


text \<open>The formatted device holds the empty volume.\<close>

lemma same_outside_mono: "same_outside part j S m m' \<Longrightarrow> S \<subseteq> T \<Longrightarrow> same_outside part j T m m'"
  by (auto simp: same_outside_def)

lemma sector_at_0: "sector_at part 0 = block_address part"
  by (simp add: sector_at_def)

lemma device_header_nth:
  "DeviceHeaderString ! 0 = DEVICE_MARKER" "DeviceHeaderString ! 1 = ch CHR ''f''"
  "DeviceHeaderString ! Suc 0 = ch CHR ''f''"
  "DeviceHeaderString ! 2 = ch CHR ''s''"
  by (simp_all add: DeviceHeaderString_def DEVICE_MARKER_def)

definition device_bytes :: "partition \<Rightarrow> mem \<Rightarrow> bool" where
  "device_bytes part m \<longleftrightarrow> m (block_address part) = DEVICE_MARKER
     \<and> m (block_address part + 1) = ch CHR ''f'' \<and> m (block_address part + 2) = ch CHR ''s''
     \<and> get32 m (block_address part + 12) = block_size part"

lemma formatted_bytes: "device_bytes part (formatted part m)"
proof -
  have "get32 (f(a + 11 := x)) (a + 12) = get32 f (a + 12)" for f a x
    unfolding get32_def by (subst get_bytes_upd_other) (simp_all add: unat_minus_one word_le_nat_alt)
  then show ?thesis
    by (simp add: device_bytes_def formatted_def Let_def put32_def put_bytes_offset
        length_DeviceHeaderString unat_minus_one device_header_nth get_put32 [unfolded put32_def])
      (simp add: put_bytes_def length_DeviceHeaderString device_header_nth unat_minus_one)
qed

lemma volume_formatted:
  assumes g: "geometry part M" and M: "0 < M" "M \<le> unat (sector_count part)"
    and b: "unat (block_address part) + unat (sector_count part) * unat (sector_size part) \<le> 2 ^ 32"
  shows "volume part M Map.empty (formatted part m)"
proof (rule volumeI)
  show "separated part M Map.empty" by (simp add: separated_def)
  have g': "geometry part (unat (sector_count part))" using g b by (simp add: geometry_def)
  let ?m0 = "mark part (unat (sector_count part)) SECTOR_FREE (sector_at part 0) m"
  have out: "same_outside part 0 {0..<16} ?m0 (formatted part m)"
    using same_outside_put [of 0 DeviceHeaderString "{0..<16}" part 0 ?m0 ?m0]
      same_outside_put [of 12 "le32_bytes (block_size part)" "{0..<16}" part 0 ?m0]
      same_outside_upd [of 11 "{0..<16}" part 0 ?m0]
    by (simp add: formatted_def Let_def put32_def sector_at_0 length_DeviceHeaderString)
  have ss: "32 \<le> unat (sector_size part)" using g by (simp add: geometry_def)
  show "formatted part m (sector_at part k) = marker_of part Map.empty k" if "k < M" for k
  proof (cases "k = 0")
    case True
    then show ?thesis using formatted_bytes [of part m] by (simp add: device_bytes_def marker_of_def sector_at_0)
  next
    case False
    have "formatted part m (sector_at part k + of_nat 0) = ?m0 (sector_at part k + of_nat 0)"
      by (rule same_outside_byte [OF g M(1) that _ out]) (use False ss in auto)
    then show ?thesis
      using mark_marker [OF g', of k 0 "unat (sector_count part)"] False that M
      by (simp add: marker_of_def)
  qed
qed simp

text \<open>The root directory of a fresh volume is in sector 1.\<close>

lemma first_fit_empty: "extent_len part s = 2 \<Longrightarrow> first_fit part Map.empty s 2 = Some 1"
proof -
  assume l: "extent_len part s = 2"
  have u: "[0..<2] = [0, 1 :: nat]" "[Suc 0..<3] = [1, 2 :: nat]" by (simp_all add: upt_rec)
  show ?thesis by (simp add: first_fit_def marker_of_def l u)
qed

lemma same_outside_init_directory:
  "same_outside part j header_fields m m' \<Longrightarrow>
     same_outside part j header_fields m (init_directory part (of_nat j * sector_size part) m')"
  unfolding init_directory_def by (intro same_outside_setters)

lemma header_init_directory:
  "header_of part h (init_directory part h m) =
     (header_of part h m)\<lparr>h_refcount := 0, h_attributes := str '' rwd''\<rparr>"
proof -
  have "map (cstr_at (str '' rwd'')) [0..<4] = str '' rwd''"
    by (simp add: cstr_at_def upt_rec str_def)
  then show ?thesis
    by (simp add: init_directory_def header_set_attributes header_set_refcount)
qed

lemma extent_len_30:
  assumes "32 \<le> unat (sector_size part)"
  shows "extent_len part 30 = 2"
proof -
  have "unat (sector_size part - 1) = unat (sector_size part) - 1"
    using assms by (intro unat_sub_le [THEN trans]) (simp_all add: word_le_nat_alt)
  then have "unat ((30 :: u32) div (sector_size part - 1)) = 0"
    using assms by (simp add: unat_div)
  then have "(30 :: u32) div (sector_size part - 1) = 0" by (simp add: unat_eq_0)
  then show ?thesis by (simp add: extent_len_def sectors_needed_def)
qed

text \<open>Creating the root directory in an empty volume.\<close>

definition with_root :: "partition \<Rightarrow> mem \<Rightarrow> mem" where
  "with_root part m = init_directory part (sector_size part)
     (init_header part (sector_size part) (str ''root'') (allocated part (sector_size part) 30 m))"

lemma root_created:
  assumes g: "geometry part M" and v: "volume part M Map.empty m" and M: "3 \<le> M"
    and b: "2 \<le> unat (block_size part)"
  shows "exec (fsDirectoryCreate part (str ''root'')) m = (sector_size part, with_root part m)"
    and "volume part M [1 \<mapsto> 30] (with_root part m)"
    and "header_of part (sector_size part) (with_root part m) =
      \<lparr>h_marker = SECTOR_HEADER, h_name = padded_name (str ''root''), h_size = 30,
       h_attributes = str '' rwd'', h_refcount = 0, h_flag = 0, h_parent = 0, h_next = 0\<rparr>"
    and "c < unat (sector_size part) \<Longrightarrow> with_root part m (block_address part + of_nat c) = m (block_address part + of_nat c)"
proof -
  have ss: "32 \<le> unat (sector_size part)" using g by (simp add: geometry_def)
  note l = extent_len_30 [OF ss]
  have n: "2 + extent_len part 30 \<le> M + 1" using l M by simp
  note ff = first_fit_empty [OF l]
  note create = fsFileCreate_volume [OF g v b n ff, unfolded of_nat_1 mult_1]
  have e: "1 + extent_len part 30 \<le> M" using l M by simp
  let ?m1 = "allocated part (sector_size part) 30 m"
  let ?m2 = "init_header part (sector_size part) (str ''root'') ?m1"
  show "exec (fsDirectoryCreate part (str ''root'')) m = (sector_size part, with_root part m)"
    by (simp add: exec_fsDirectoryCreate create(1) with_root_def)
  have out2: "same_outside part 1 header_fields ?m1 ?m2"
    using same_outside_init_header [of part 1 ?m1] by simp
  have out: "same_outside part 1 header_fields ?m1 (with_root part m)"
    using same_outside_init_directory [OF out2] by (simp add: with_root_def)
  have out3: "same_outside part 1 header_fields ?m2 (with_root part m)"
    using same_outside_init_directory [of part 1 ?m2 ?m2] by (simp add: with_root_def)
  have M1: "1 < M" and M0: "0 < M" using M by simp_all
  show "volume part M [1 \<mapsto> 30] (with_root part m)"
    by (rule volume_same_outside [OF g create(4) M1 out3])
  show "header_of part (sector_size part) (with_root part m) =
      \<lparr>h_marker = SECTOR_HEADER, h_name = padded_name (str ''root''), h_size = 30,
       h_attributes = str '' rwd'', h_refcount = 0, h_flag = 0, h_parent = 0, h_next = 0\<rparr>"
    using header_allocated [OF g e, of m]
    by (simp add: with_root_def header_init_directory header_init_header)
  show "with_root part m (block_address part + of_nat c) = m (block_address part + of_nat c)"
    if c: "c < unat (sector_size part)"
  proof -
    have hf: "header_fields \<subseteq> {0..<unat (sector_size part)}" using ss by (auto simp: header_fields_def)
    have "with_root part m (sector_at part 0 + of_nat c) = ?m1 (sector_at part 0 + of_nat c)"
      by (rule same_outside_byte [OF g M1 M0 c out hf]) simp
    also have "\<dots> = m (sector_at part 0 + of_nat c)"
      using allocated_marker [OF g M0 e, of m] allocated_byte [OF g M0 e, of c m] c
      by (cases "c = 0") simp_all
    finally show ?thesis by (simp add: sector_at_0)
  qed
qed

text \<open>The last two fields of the device header.\<close>

definition with_pointers :: "partition \<Rightarrow> u32 \<Rightarrow> u32 \<Rightarrow> mem \<Rightarrow> mem" where
  "with_pointers part h s m = put32 (put32 m (block_address part + 16) h) (block_address part + 20) s"

lemma same_outside_with_pointers: "same_outside part 0 {16..<24} m (with_pointers part h s m)"
  using same_outside_put [of 16 "le32_bytes h" "{16..<24}" part 0 m m]
    same_outside_put [of 20 "le32_bytes s" "{16..<24}" part 0 m "put32 m (block_address part + 16) h"]
  by (simp add: with_pointers_def put32_def sector_at_0)

lemma with_pointers_fields:
  "get32 (with_pointers part h s m) (block_address part + 16) = h"
  "get32 (with_pointers part h s m) (block_address part + 20) = s"
  "get32 (with_pointers part h s m) (block_address part + 12) = get32 m (block_address part + 12)"
  by (simp_all add: with_pointers_def put32_def get32_put_bytes_apart get_put32 [unfolded put32_def])

lemma device_bytes_kept:
  assumes "\<And>c. c < 16 \<Longrightarrow> m' (block_address part + of_nat c) = m (block_address part + of_nat c)"
    and "device_bytes part m"
  shows "device_bytes part m'"
proof -
  have "get32 m' (block_address part + 12) = get32 m (block_address part + 12)"
  proof (rule get32_cong)
    fix i :: nat assume "i < 4"
    then show "m' (block_address part + 12 + of_nat i) = m (block_address part + 12 + of_nat i)"
      using assms(1) [of "12 + i"] by (simp add: add_ac)
  qed
  then show ?thesis using assms(2) assms(1) [of 0] assms(1) [of 1] assms(1) [of 2]
    by (simp add: device_bytes_def)
qed

text \<open>Formatting changes the sectors of the device only.\<close>

lemma formatted_only:
  assumes g: "geometry part (unat (sector_count part))" and M: "0 < unat (sector_count part)"
  shows "sectors_only part 0 (unat (sector_count part)) m (formatted part m)"
proof -
  let ?M = "unat (sector_count part)"
  let ?m0 = "mark part ?M SECTOR_FREE (sector_at part 0) m"
  have out: "same_outside part 0 {0..<16} ?m0 (formatted part m)"
    using same_outside_put [of 0 DeviceHeaderString "{0..<16}" part 0 ?m0 ?m0]
      same_outside_put [of 12 "le32_bytes (block_size part)" "{0..<16}" part 0 ?m0]
      same_outside_upd [of 11 "{0..<16}" part 0 ?m0]
    by (simp add: formatted_def Let_def put32_def sector_at_0 length_DeviceHeaderString)
  have "sectors_only part 0 ?M m ?m0" by (rule sectors_only_mark [OF g]) simp_all
  moreover have "sectors_only part 0 ?M ?m0 (formatted part m)"
    by (rule sectors_only_outside [OF out]) (use g M in \<open>auto simp: geometry_def\<close>)
  ultimately show ?thesis by (rule sectors_only_trans)
qed

lemma with_root_only:
  assumes g: "geometry part M" and M: "3 \<le> M" and l: "extent_len part 30 = 2"
  shows "sectors_only part 0 M m (with_root part m)"
proof -
  let ?m1 = "allocated part (sector_size part) 30 m"
  have "same_outside part 1 header_fields ?m1 (with_root part m)"
    using same_outside_init_directory [OF same_outside_init_header [of part 1 ?m1]] by (simp add: with_root_def)
  then have "sectors_only part 0 M ?m1 (with_root part m)"
    by (rule sectors_only_outside) (use g M in \<open>auto simp: geometry_def header_fields_def\<close>)
  moreover have "sectors_only part 0 M m ?m1"
    using sectors_only_allocated [OF g, of 1 30 0 m] M l by simp
  ultimately show ?thesis by (rule sectors_only_trans [rotated])
qed

lemma fsDeviceFormat_builds:
  fixes part begin_addr end_addr ss
  defines "part' \<equiv> part\<lparr>block_size := end_addr - begin_addr, sector_size := ss,
                     sector_count := (end_addr - begin_addr) div ss\<rparr>"
  assumes ss: "32 \<le> unat ss" and M: "3 \<le> unat (sector_count part')"
    and b: "unat (block_address part) + unat (end_addr - begin_addr) \<le> 2 ^ 32"
  shows "\<exists>m'. exec (fsDeviceFormat part begin_addr end_addr ss) m = (part', m')
    \<and> volume part' (unat (sector_count part')) [1 \<mapsto> 30] m'
    \<and> dir_chain part' [1 \<mapsto> 30] m' [1] \<and> entries part' m' 1 = []
    \<and> h_name (header_of part' ss m') = padded_name (str ''root'')
    \<and> h_attributes (header_of part' ss m') = str '' rwd''
    \<and> exec (fsDeviceOpen (block_address part)) m' = (part', m')
    \<and> exec (fsDeviceGetRootDirectory part') m' = (ss, m')
    \<and> get32 m' (block_address part + 16) = ss
    \<and> sectors_only part' 0 (unat (sector_count part')) m m'"
proof -
  let ?M = "unat (sector_count part')"
  have p: "block_address part' = block_address part" "sector_size part' = ss"
    "block_size part' = end_addr - begin_addr" "sector_count part' = block_size part' div ss"
    by (simp_all add: part'_def)
  have cnt: "?M * unat ss \<le> unat (block_size part')"
    unfolding p(4) unat_div by (rule div_times_less_eq_dividend)
  have g: "geometry part' ?M" using ss b cnt p by (simp add: geometry_def)
  have v0: "volume part' ?M Map.empty (formatted part' m)"
    using M b cnt p by (intro volume_formatted [OF g]) auto
  have l: "extent_len part' 30 = 2" by (rule extent_len_30) (simp add: p ss)
  have n: "2 \<le> unat (block_size part')" "2 + extent_len part' 30 \<le> ?M + 1"
  proof -
    have "3 * 32 \<le> ?M * unat ss" using M ss by (rule mult_le_mono)
    then show "2 \<le> unat (block_size part')" using cnt by linarith
    show "2 + extent_len part' 30 \<le> ?M + 1" using l M by simp
  qed
  let ?m = "formatted part' m"
  let ?m4 = "with_pointers part' ss ss (with_root part' ?m)"
  note root = root_created [OF g v0 M n(1), unfolded p(2)]
  have M01: "0 < ?M" "1 < ?M" using M by simp_all
  note out = same_outside_with_pointers [of part' "with_root part' ?m" ss ss]
  have s16: "{16..<24} \<subseteq> {0..<unat (sector_size part')}" "{16..<24} \<subseteq> header_fields"
    using ss p by (auto simp: header_fields_def)
  have byte: "?m4 (sector_at part' k + of_nat c) = with_root part' ?m (sector_at part' k + of_nat c)"
    if "k < ?M" "c < 32" "k \<noteq> 0 \<or> c < 16" for k c
    by (rule same_outside_byte [OF g M01(1) that(1) _ out s16(1)]) (use that ss p in auto)
  have v4: "volume part' ?M [1 \<mapsto> 30] ?m4"
    by (rule volume_same_outside [OF g root(2) M01(1) same_outside_mono [OF out s16(2)]])
  have h: "header_of part' ss ?m4 = header_of part' ss (with_root part' ?m)"
  proof (rule header_of_cong)
    fix c :: nat assume "c < 32"
    then show "?m4 (block_address part' + ss + of_nat c) = with_root part' ?m (block_address part' + ss + of_nat c)"
      using byte [OF M01(2), of c] by (simp add: sector_at_def p)
  qed
  have d: "device_bytes part' ?m4"
  proof (rule device_bytes_kept [OF _ formatted_bytes])
    fix c :: nat assume "c < 16"
    then show "?m4 (block_address part' + of_nat c) = ?m (block_address part' + of_nat c)"
      using byte [OF M01(1), of c] root(4) [of c] ss by (simp add: sector_at_0)
  qed
  have fields: "refcount part' ?m4 1 = 0" "next_of part' ?m4 1 = 0"
    using arg_cong [OF trans [OF h root(3)], of h_refcount] arg_cong [OF trans [OF h root(3)], of h_next]
    by (simp_all add: header_of_def Let_def refcount_def next_of_def sector_at_def p)
  have "unat (sector_at part' 1 + of_nat 0) = unat (block_address part') + unat ss"
    using unat_sector_byte [OF g M01(2), of 0] ss p by simp
  then have "sector_at part' 1 \<noteq> 0" using ss by (auto simp: u32_eq_iff_unat)
  then have chain: "dir_chain part' [1 \<mapsto> 30] ?m4 [1]"
    using fields by (simp add: dir_chain_def directory_def)
  have ex: "exec (fsDeviceFormat part begin_addr end_addr ss) m = (part', ?m4)"
    unfolding exec_fsDeviceFormat part'_def [symmetric]
    using root(1) by (simp add: with_pointers_def p)
  have nz: "block_size part' \<noteq> 0" "ss \<noteq> 0" using n(1) ss by auto
  have pe: "part' = \<lparr>block_address = block_address part, block_size = block_size part',
      sector_count = block_size part' div ss, sector_size = ss\<rparr>"
    by (simp add: part'_def)
  have op: "exec (fsDeviceOpen (block_address part)) ?m4 = (part', ?m4)"
    using d nz pe with_pointers_fields(2) [of part' ss ss] unfolding exec_fsDeviceOpen
    by (simp add: device_bytes_def p Let_def DEVICE_MARKER_def)
  have only: "sectors_only part' 0 ?M m ?m4"
    using sectors_only_trans [OF sectors_only_trans [OF formatted_only [OF g] with_root_only [OF g _ l]]
      sectors_only_outside [OF out s16(1)]] M p by simp
  show ?thesis
    using ex v4 chain fields(1) op root(3) h only with_pointers_fields(1,2) [of part' ss ss "with_root part' ?m"]
    by (intro exI [of _ ?m4]) (simp add: entries_def exec_fsDeviceGetRootDirectory p)
qed

text \<open>
  C26. Formatting. On a device of at least three sectors of at least 32 bytes, \<open>fsDeviceFormat\<close>
  leaves the volume whose only extent is the root directory in sector 1, which is empty and has
  the name \<open>root\<close> and the attributes \<open>" rwd"\<close>. Opening the device again gives the very
  partition that was formatted, and asking it for the root directory gives the root's handle. Bytes outside
  the sectors of the device are as before.
\<close>

theorem fsDeviceFormat_volume:
  fixes part begin_addr end_addr ss
  defines "part' \<equiv> part\<lparr>block_size := end_addr - begin_addr, sector_size := ss,
                     sector_count := (end_addr - begin_addr) div ss\<rparr>"
  assumes ss: "32 \<le> unat ss" and M: "3 \<le> unat (sector_count part')"
    and b: "unat (block_address part) + unat (end_addr - begin_addr) \<le> 2 ^ 32"
  shows "\<exists>m'. exec (fsDeviceFormat part begin_addr end_addr ss) m = (part', m')
    \<and> volume part' (unat (sector_count part')) [1 \<mapsto> 30] m'
    \<and> dir_chain part' [1 \<mapsto> 30] m' [1] \<and> entries part' m' 1 = []
    \<and> h_name (header_of part' ss m') = padded_name (str ''root'')
    \<and> h_attributes (header_of part' ss m') = str '' rwd''
    \<and> exec (fsDeviceOpen (block_address part)) m' = (part', m')
    \<and> exec (fsDeviceGetRootDirectory part') m' = (ss, m')
    \<and> get32 m' (block_address part + 16) = ss
    \<and> sectors_only part' 0 (unat (sector_count part')) m m'"
  unfolding part'_def by (rule fsDeviceFormat_builds [OF ss M [unfolded part'_def] b])

theorem fsDeviceFormat_volume_witness:
  "\<exists>m'. exec (fsDeviceFormat \<lparr>block_address = 0, block_size = 0, sector_count = 0, sector_size = 0\<rparr>
        0 256 32) (\<lambda>_. 0) = (demo_part, m')
    \<and> volume demo_part 8 [1 \<mapsto> 30] m' \<and> exec (fsDeviceOpen 0) m' = (demo_part, m')"
  using fsDeviceFormat_volume [of 32 256 0
      "\<lparr>block_address = 0, block_size = 0, sector_count = 0, sector_size = 0\<rparr>" "\<lambda>_. 0"]
  by (auto simp: demo_part_def)

text \<open>
  The root directory comes out right because the code reads the sector size, not the pointer the
  format routine stores at \<open>DEVICE_OFFSET_ROOT\<close>: the first allocation of a fresh volume is at
  the offset of one sector. On any device the two calls give the same word.
\<close>

lemma root_directory_is_sector_size:
  "exec (fsDeviceGetRootDirectory part) m = exec (fsDeviceGetSectorSize part) m"
  by (simp add: exec_fsDeviceGetRootDirectory exec_fsDeviceGetSectorSize)


section \<open>A new directory on a volume\<close>

text \<open>What creating something leaves alone: headers and contents of what was there.\<close>

definition files_kept :: "partition \<Rightarrow> extents \<Rightarrow> mem \<Rightarrow> mem \<Rightarrow> bool" where
  "files_kept part A m m' \<longleftrightarrow> (\<forall>k t. A k = Some t \<longrightarrow>
     contents part k (unat t + 1) m' = contents part k (unat t + 1) m
     \<and> header_of part (of_nat k * sector_size part) m' = header_of part (of_nat k * sector_size part) m)"

lemma files_kept_trans: "files_kept part A m m' \<Longrightarrow> files_kept part A m' m'' \<Longrightarrow> files_kept part A m m''"
  by (simp add: files_kept_def)

lemma refcount_header: "refcount part m k = h_refcount (header_of part (of_nat k * sector_size part) m)"
  by (simp add: refcount_def header_of_def Let_def block_plus_sector)

lemma next_header: "next_of part m k = h_next (header_of part (of_nat k * sector_size part) m)"
  by (simp add: next_of_def header_of_def Let_def block_plus_sector)

lemma name_header: "name_of part m h = padded_name (h_name (header_of part h m))"
  by (simp add: name_of_def header_of_def Let_def)

lemma files_kept_directory:
  assumes "files_kept part A m m'" and "directory part A m k"
  shows "directory part A m' k" and "entries part m' k = entries part m k" and "next_of part m' k = next_of part m k"
proof -
  have k: "A k = Some 30" "unat (refcount part m k) \<le> 7" using assms(2) by (simp_all add: directory_def)
  have h: "header_of part (of_nat k * sector_size part) m' = header_of part (of_nat k * sector_size part) m"
    and c: "contents part k (unat (30::u32) + 1) m' = contents part k (unat (30::u32) + 1) m"
    using assms(1) k(1) unfolding files_kept_def by blast+
  have r: "refcount part m' k = refcount part m k" by (simp add: refcount_header h)
  show "directory part A m' k" using assms(2) r by (simp add: directory_def)
  show "next_of part m' k = next_of part m k" by (simp add: next_header h)
  show "entries part m' k = entries part m k"
    by (rule entries_cong [OF r k(2)]) (use c in \<open>simp add: contents_def\<close>)
qed

lemma files_kept_name:
  assumes "files_kept part A m m'" and "A k = Some s"
  shows "name_of part m' (of_nat k * sector_size part) = name_of part m (of_nat k * sector_size part)"
proof -
  have "header_of part (of_nat k * sector_size part) m' = header_of part (of_nat k * sector_size part) m"
    using assms unfolding files_kept_def by blast
  then show ?thesis by (simp add: name_header)
qed

lemma fsDirectoryCreate_builds:
  assumes g: "geometry part M" and v: "volume part M A m"
    and b: "n \<le> unat (block_size part)" "n + extent_len part 30 \<le> M + 1"
    and j: "first_fit part A 30 n = Some j"
  shows "\<exists>m'. exec (fsDirectoryCreate part name) m = (of_nat j * sector_size part, m')
    \<and> volume part M (A(j \<mapsto> 30)) m' \<and> A j = None
    \<and> directory part (A(j \<mapsto> 30)) m' j \<and> entries part m' j = [] \<and> next_of part m' j = 0
    \<and> name_of part m' (of_nat j * sector_size part) = padded_name (padded_name name)
    \<and> files_kept part A m m' \<and> sectors_only part 1 M m m'"
proof -
  let ?h = "of_nat j * sector_size part"
  obtain m1 where m1: "exec (fsFileCreate part name 30) m = (?h, m1)" "?h \<noteq> 0" "A j = None"
    "volume part M (A(j \<mapsto> 30)) m1"
    "header_of part ?h m1 = \<lparr>h_marker = SECTOR_HEADER, h_name = padded_name name, h_size = 30,
        h_attributes = str '' rw '', h_refcount = h_refcount (header_of part ?h m), h_flag = 0,
        h_parent = 0, h_next = 0\<rparr>" "files_kept part A m m1" "sectors_only part 1 M m m1"
    using fsFileCreate_builds [OF g v b j, of name] unfolding files_kept_def by auto
  let ?m2 = "init_directory part ?h m1"
  have sep: "separated part M (A(j \<mapsto> 30))" using m1(4) by (simp add: volume_def)
  have jM: "j < M" using separated_bound [OF sep, of j 30] by simp
  have out: "same_outside part j header_fields m1 ?m2"
    using same_outside_init_directory [of part j m1 m1] by simp
  have hf: "header_fields \<subseteq> {0..<unat (sector_size part)}"
    using g by (auto simp: header_fields_def geometry_def)
  have kept: "files_kept part A m1 ?m2"
    unfolding files_kept_def
  proof (intro allI impI)
    fix k t assume k: "A k = Some t"
    then have kj: "k \<noteq> j" "(A(j \<mapsto> 30)) k = Some t" using m1(3) by auto
    show "contents part k (unat t + 1) ?m2 = contents part k (unat t + 1) m1
        \<and> header_of part (of_nat k * sector_size part) ?m2 = header_of part (of_nat k * sector_size part) m1"
      using contents_same_outside [OF g sep _ kj(2) out hf] header_same_outside [OF g jM separated_bound [OF sep kj(2)] kj(1) out]
      by simp
  qed
  have h2: "header_of part ?h ?m2 = (header_of part ?h m1)\<lparr>h_refcount := 0, h_attributes := str '' rwd''\<rparr>"
    by (rule header_init_directory)
  have f: "refcount part ?m2 j = 0" "next_of part ?m2 j = 0" "name_of part ?m2 ?h = padded_name (padded_name name)"
    unfolding refcount_header next_header name_header h2 m1(5) by simp_all
  have "j \<noteq> 0" using sep by (auto simp: separated_def split: if_splits)
  moreover have "32 \<le> unat (sector_size part)" using g by (simp add: geometry_def)
  moreover have "unat (sector_at part j + of_nat 0) = unat (block_address part) + j * unat (sector_size part)"
    using unat_sector_byte [OF g jM, of 0] calculation(2) by simp
  ultimately have "sector_at part j \<noteq> 0" by (auto simp: u32_eq_iff_unat)
  then have "directory part (A(j \<mapsto> 30)) ?m2 j" using f(1) by (simp add: directory_def)
  moreover have "exec (fsDirectoryCreate part name) m = (?h, ?m2)"
    by (simp add: exec_fsDirectoryCreate m1(1))
  moreover have "volume part M (A(j \<mapsto> 30)) ?m2" by (rule volume_same_outside [OF g m1(4) jM out])
  moreover have "entries part ?m2 j = []" using f(1) by (simp add: entries_def)
  moreover have "sectors_only part 1 M m ?m2"
    by (rule sectors_only_trans [OF m1(7) sectors_only_outside [OF out hf _ jM]]) (use \<open>j \<noteq> 0\<close> in simp)
  ultimately show ?thesis
    using f m1(3) files_kept_trans [OF m1(6) kept] by blast
qed

end
