(* ===== verification/CString.thy ===== *)
theory CString
  imports FsLayout
begin

text \<open>
  Character and string routines (kernel/cstring.c). Functions that write through a pointer
  return the new value; a destination array is a function that is updated. The specifications
  are the number a decimal or hexadecimal numeral denotes, equality of blank-padded strings,
  and the bits of a byte.
\<close>

section \<open>Characters\<close>

definition is_number :: "u8 \<Rightarrow> u8" where
  "is_number c = (if c \<ge> 0x30 \<and> c \<le> 0x39 then 1 else 0)"

definition is_uppercase :: "u8 \<Rightarrow> u8" where
  "is_uppercase c = (if c \<ge> 0x41 \<and> c \<le> 0x5a then 1 else 0)"

definition is_lowercase :: "u8 \<Rightarrow> u8" where
  "is_lowercase c = (if c \<ge> 0x61 \<and> c \<le> 0x7a then 1 else 0)"

definition is_letter :: "u8 \<Rightarrow> u8" where
  "is_letter c = (if is_uppercase c \<noteq> 0 then 1 else if is_lowercase c \<noteq> 0 then 1 else 0)"

definition is_symbol :: "u8 \<Rightarrow> u8" where
  "is_symbol c =
     (if c \<ge> 0x21 \<and> c \<le> 0x2f then 1
      else if c \<ge> 0x3a \<and> c \<le> 0x40 then 1
      else if c \<ge> 0x5b \<and> c \<le> 0x60 then 1
      else if c \<ge> 0x7b \<and> c \<le> 0x7e then 1
      else 0)"

definition uppercase :: "u8 \<Rightarrow> u8" where
  "uppercase c = (if is_lowercase c = 1 then c - 0x20 else c)"

definition lowercase :: "u8 \<Rightarrow> u8" where
  "lowercase c = (if is_uppercase c = 1 then c + 0x20 else c)"

text \<open>\<open>is_hex\<close> also lowers the letter it tests: the result and the new character.\<close>

definition is_hex :: "u8 \<Rightarrow> u8 \<times> u8" where
  "is_hex c =
     (let c = (if is_letter c = 1 then lowercase c else c) in
      (if (c \<ge> ch CHR ''a'' \<and> c \<le> ch CHR ''f'') \<or> (c \<ge> ch CHR ''0'' \<and> c \<le> ch CHR ''9'') then 1 else 0, c))"


section \<open>Numbers to strings\<close>

text \<open>The digits of \<open>revbuf\<close>, least significant first.\<close>

function revbuf :: "u32 \<Rightarrow> u8 list" where
  "revbuf number =
     (if number > 0 then (ch CHR ''0'' + ucast (number mod 10)) # revbuf (number div 10) else [])"
  by auto

termination revbuf
proof (relation "measure unat")
  fix number :: u32 assume "0 < number"
  then have "0 < unat number" by (simp add: word_less_nat_alt)
  then show "(number div 10, number) \<in> measure unat"
    by (simp add: unat_div)
qed simp

declare revbuf.simps [simp del]

definition copy_in :: "buffer \<Rightarrow> u8 list \<Rightarrow> buffer" where
  "copy_in dest bs = (\<lambda>i. if i < length bs then bs ! i else dest i)"

definition int_to_string :: "u32 \<Rightarrow> buffer \<Rightarrow> u8 \<times> buffer" where
  "int_to_string number dest =
     (if number = 0 then (1, copy_in dest [ch CHR ''0''])
      else let digits = revbuf number in (of_nat (length digits), copy_in dest (rev digits)))"

fun hex_digits :: "nat list \<Rightarrow> u32 \<Rightarrow> u8 list" where
  "hex_digits [] integer = []"
| "hex_digits (i # is) integer =
     (let nibble = ucast (drop_bit 28 integer) AND 0x0F;
          c = (if nibble < 10 then ch CHR ''0'' + nibble else ch CHR ''a'' + (nibble - 10))
      in c # hex_digits is (push_bit 4 integer))"

definition int_to_hex_string :: "u32 \<Rightarrow> buffer \<Rightarrow> buffer" where
  "int_to_hex_string integer dest = copy_in dest (hex_digits [0..<8] integer)"


section \<open>Strings to numbers\<close>

definition string_get_int :: "buffer \<Rightarrow> u8 \<times> buffer" where
  "string_get_int s =
     (let s = (if s 1 = ch CHR '' '' \<and> s 2 = ch CHR '' ''
               then s(2 := s 0, 1 := ch CHR '' '', 0 := ch CHR '' '') else s);
          s = (if s 2 = ch CHR '' ''
               then s(2 := s 1, 1 := s 0, 0 := ch CHR '' '') else s);
          n = (if is_number (s 2) \<noteq> 0 then s 2 - ch CHR ''0'' else 0);
          n = n + (if is_number (s 1) \<noteq> 0 then (s 1 - ch CHR ''0'') * 10 else 0);
          n = n + (if is_number (s 0) \<noteq> 0 then (s 0 - ch CHR ''0'') * 100 else 0)
      in (n, s))"

definition string_get_int_long :: "buffer \<Rightarrow> u32" where
  "string_get_int_long s =
     (if is_number (s 3) \<noteq> 0 then ucast (s 3 - ch CHR ''0'') else 0)
     + (if is_number (s 2) \<noteq> 0 then ucast (s 2 - ch CHR ''0'') * 10 else 0)
     + (if is_number (s 1) \<noteq> 0 then ucast (s 1 - ch CHR ''0'') * 100 else 0)
     + (if is_number (s 0) \<noteq> 0 then ucast (s 0 - ch CHR ''0'') * 1000 else 0)"

definition hex_value :: "u8 \<Rightarrow> u32" where
  "hex_value hex =
     (if hex \<ge> 0x30 \<and> hex \<le> 0x40 then ucast hex - 0x30 else 0)
     + (if hex \<ge> 0x60 \<and> hex \<le> 0x67 then 9 + (ucast hex - 0x60) else 0)"

definition string_get_hex_char :: "buffer \<Rightarrow> u8" where
  "string_get_hex_char s = ucast (hex_value (s 0) + hex_value (s 1) * 16)"


section \<open>Comparing and splitting\<close>

text \<open>
  \<open>StringCompare\<close> copies both strings into local arrays of ten bytes. For lengths above ten the C
  code writes behind them, so the model is faithful for lengths up to ten.
\<close>

definition StringCompare :: "buffer \<Rightarrow> u8 \<Rightarrow> buffer \<Rightarrow> u8 \<Rightarrow> u8" where
  "StringCompare stringA lengthA stringB lengthB =
     (let strA = (\<lambda>i. if i < unat lengthA then stringA i else ch CHR '' '');
          strB = (\<lambda>i. if i < unat lengthB then stringB i else ch CHR '' '')
      in if \<exists>i \<in> set [0..<10]. strA i \<noteq> strB i then 0 else 1)"

record split_state =
  splitA :: buffer
  splitALen :: u8
  splitB :: buffer
  splitBLen :: u8

fun split_loop :: "buffer \<Rightarrow> u8 \<Rightarrow> nat list \<Rightarrow> u8 \<Rightarrow> u8 \<Rightarrow> split_state \<Rightarrow> split_state" where
  "split_loop source delimiter [] split index st = st"
| "split_loop source delimiter (i # is) split index st =
     (if split = 0 then
        let st = st\<lparr>splitA := (splitA st)(i := source i)\<rparr> in
        if source i = delimiter
        then split_loop source delimiter is 1 index (st\<lparr>splitALen := of_nat i + 1\<rparr>)
        else split_loop source delimiter is split index st
      else
        let st = st\<lparr>splitB := (splitB st)(unat index := source i), splitBLen := index + 2\<rparr> in
        if source i = delimiter then st
        else split_loop source delimiter is split (index + 1) st)"

definition StringSplit :: "buffer \<Rightarrow> u8 \<Rightarrow> split_state \<Rightarrow> u8 \<Rightarrow> u8 \<times> split_state" where
  "StringSplit source sourceLen st delimiter =
     (1, split_loop source delimiter [0..<unat sourceLen] 0 0 st)"

definition StringFindChar :: "buffer \<Rightarrow> u8 \<Rightarrow> u8 \<Rightarrow> u8" where
  "StringFindChar s len character =
     (case find (\<lambda>i. s i = character) [0..<unat len] of Some i \<Rightarrow> of_nat i | None \<Rightarrow> 1)"


section \<open>Bits\<close>

definition bit_set :: "u8 \<Rightarrow> u8 \<Rightarrow> u8" where
  "bit_set byte index = byte OR push_bit (unat index) 1"

definition bit_clear :: "u8 \<Rightarrow> u8 \<Rightarrow> u8" where
  "bit_clear byte index = byte AND NOT (push_bit (unat index) 1)"

definition BitSet :: "u8 \<Rightarrow> u8 \<Rightarrow> u8 \<Rightarrow> u8" where
  "BitSet byte index value =
     (if value \<noteq> 0 then byte OR push_bit (unat index) 1
      else byte AND NOT (push_bit (unat index) 1))"

definition bit_get :: "u8 \<Rightarrow> u8 \<Rightarrow> u8" where
  "bit_get byte bit_index = drop_bit (unat bit_index) byte AND 1"


section \<open>Decimal numerals\<close>

definition digit_value :: "u8 \<Rightarrow> nat" where
  "digit_value c = unat (c - ch CHR ''0'')"

text \<open>The number a string of decimal digits denotes, most significant digit first.\<close>

definition dec_value :: "u8 list \<Rightarrow> nat" where
  "dec_value cs = foldl (\<lambda>n c. 10 * n + digit_value c) 0 cs"

lemma dec_value_snoc: "dec_value (cs @ [c]) = 10 * dec_value cs + digit_value c"
  by (simp add: dec_value_def)

lemma digit_char:
  assumes "n < 10"
  shows "digit_value (ch CHR ''0'' + of_nat n) = n" "is_number (ch CHR ''0'' + of_nat n) = 1"
proof -
  have "n \<in> {0, 1, 2, 3, 4, 5, 6, 7, 8, 9}" using assms by auto
  then show "digit_value (ch CHR ''0'' + of_nat n) = n" "is_number (ch CHR ''0'' + of_nat n) = 1"
    by (elim insertE emptyE; simp add: digit_value_def is_number_def ch_def)+
qed

lemma ucast_mod_10: "(ucast ((n :: u32) mod 10) :: u8) = of_nat (unat n mod 10)"
proof -
  have "(ucast (n mod 10) :: u8) = of_nat (unat (n mod 10))" by simp
  then show ?thesis by (simp only: unat_mod) simp
qed

lemma revbuf_step:
  "0 < n \<Longrightarrow> revbuf n = (ch CHR ''0'' + of_nat (unat n mod 10)) # revbuf (n div 10)"
  by (subst revbuf.simps) (simp add: ucast_mod_10)

lemma revbuf_zero [simp]: "revbuf 0 = []"
  by (simp add: revbuf.simps)

lemma revbuf_value: "dec_value (rev (revbuf n)) = unat n"
proof (induction n rule: revbuf.induct)
  case (1 n)
  show ?case
  proof (cases "n = 0")
    case True
    then show ?thesis by (simp add: dec_value_def)
  next
    case False
    then have "0 < n" by (simp add: word_gt_0)
    then show ?thesis
      using 1 by (simp add: revbuf_step dec_value_snoc digit_char unat_div)
  qed
qed

lemma revbuf_digits: "c \<in> set (revbuf n) \<Longrightarrow> is_number c = 1"
proof (induction n rule: revbuf.induct)
  case (1 n)
  then show ?case by (cases "n = 0") (auto simp: revbuf_step digit_char word_gt_0)
qed

lemma revbuf_length: "unat n < 10 ^ k \<Longrightarrow> length (revbuf n) \<le> k"
proof (induction k arbitrary: n)
  case 0
  then have "n = 0" by (simp add: unat_eq_0)
  then show ?case by simp
next
  case (Suc k)
  show ?case
  proof (cases "n = 0")
    case False
    have "unat (n div 10) < 10 ^ k"
      using Suc.prems by (simp add: unat_div less_mult_imp_div_less mult.commute)
    then show ?thesis using Suc.IH False by (simp add: revbuf_step word_gt_0)
  qed simp
qed

lemma revbuf_last: "0 < n \<Longrightarrow> revbuf n \<noteq> [] \<and> digit_value (last (revbuf n)) \<noteq> 0"
proof (induction n rule: revbuf.induct)
  case (1 n)
  show ?case
  proof (cases "n div 10 = 0")
    case False
    then show ?thesis using 1 by (simp add: revbuf_step word_gt_0)
  next
    case z: True
    then have "unat (n div 10) = 0" by simp
    then have "unat n div 10 = 0" by (simp only: unat_div) simp
    then have "unat n < 10" by simp
    moreover have "0 < unat n" using 1(2) by (simp add: unat_gt_0)
    ultimately show ?thesis using 1(2) z digit_char(1) [of "unat n"] by (simp add: revbuf_step)
  qed
qed

text \<open>
  Printing a number. \<open>int_to_string\<close> writes the decimal numeral of its argument: at most ten
  digits (so the local buffer of ten is enough for every 32-bit number), the count of which it
  returns, denoting the number, without a leading zero unless the number is 0, and nothing
  behind them.
\<close>

theorem int_to_string_numeral:
  "let (len, d) = int_to_string n dest; cs = map d [0..<unat len] in
     0 < unat len \<and> unat len \<le> 10
   \<and> (\<forall>c \<in> set cs. is_number c = 1)
   \<and> dec_value cs = unat n
   \<and> (n \<noteq> 0 \<longrightarrow> digit_value (hd cs) \<noteq> 0)
   \<and> (\<forall>i. unat len \<le> i \<longrightarrow> d i = dest i)"
proof (cases "n = 0")
  case True
  then show ?thesis
    using digit_char [of 0] by (simp add: int_to_string_def copy_in_def dec_value_def)
next
  case False
  then have n: "0 < n" by (simp add: word_gt_0)
  have "unat n < 10 ^ 10" using unsigned_less [where 'a = nat and w = n] by simp
  then have l: "length (revbuf n) \<le> 10" by (rule revbuf_length)
  then have u: "unat (of_nat (length (revbuf n)) :: u8) = length (revbuf n)"
    by (simp add: unat_of_nat)
  have cs: "map (copy_in dest (rev (revbuf n))) [0..<length (revbuf n)] = rev (revbuf n)"
    by (rule nth_equalityI) (simp_all add: copy_in_def)
  have "\<forall>c \<in> set (rev (revbuf n)). is_number c = 1" using revbuf_digits by simp
  moreover have "int_to_string n dest = (of_nat (length (revbuf n)), copy_in dest (rev (revbuf n)))"
    using False by (simp add: int_to_string_def Let_def)
  ultimately show ?thesis
    using l revbuf_last [OF n] revbuf_value [of n] unfolding Let_def
    by (simp only: split_conv u cs) (simp add: hd_rev copy_in_def)
qed



section \<open>Hexadecimal numerals\<close>

definition nibble_char :: "u8 \<Rightarrow> u8" where
  "nibble_char n = (if n < 10 then ch CHR ''0'' + n else ch CHR ''a'' + (n - 10))"

text \<open>The number a string of hexadecimal digits denotes, most significant digit first.\<close>

definition hex_number :: "u8 list \<Rightarrow> u32" where
  "hex_number cs = foldl (\<lambda>n c. push_bit 4 n OR hex_value c) 0 cs"

lemma hex_value_nibble:
  assumes "n < 16"
  shows "hex_value (nibble_char (of_nat n)) = of_nat n"
proof -
  have "\<forall>k \<in> set [0..<16]. hex_value (nibble_char (of_nat k)) = of_nat k"
    by (simp add: upt_rec hex_value_def nibble_char_def ch_def)
  then show ?thesis using assms by simp
qed

lemma hex_value_top_nibble:
  "hex_value (nibble_char (ucast (drop_bit 28 (n :: u32)) AND 0x0F)) = drop_bit 28 n"
proof -
  have lt: "unat (drop_bit 28 n) < 16"
    using unsigned_less [where 'a = nat and w = n]
    by (simp add: drop_bit_eq_div unat_div less_mult_imp_div_less)
  have top: "k < 4" if "bit n (28 + k)" for k
    using bit_imp_le_length [OF that] by simp
  have "(ucast (drop_bit 28 n) AND 0x0F :: u8) = ucast (drop_bit 28 n)"
    unfolding f_mask_u8 by (auto simp: bit_simps intro!: bit_word_eqI dest: top)
  also have "\<dots> = of_nat (unat (drop_bit 28 n))" by simp
  finally show ?thesis using hex_value_nibble [OF lt] by simp
qed

lemma hex_digits_Cons: "hex_digits (i # is) n =
    nibble_char (ucast (drop_bit 28 n) AND 0x0F) # hex_digits is (push_bit 4 n)"
  by (simp add: Let_def nibble_char_def)

lemma length_hex_digits [simp]: "length (hex_digits is n) = length is"
  by (induction "is" arbitrary: n) (simp_all add: Let_def)

lemma hex_digits_fold:
  assumes "length is \<le> 8"
  shows "foldl (\<lambda>n c. push_bit 4 n OR hex_value c) acc (hex_digits is n)
    = push_bit (4 * length is) acc OR drop_bit (32 - 4 * length is) n"
  using assms
proof (induction "is" arbitrary: acc n)
  case Nil
  then show ?case by (simp add: bit_simps bit_word_eqI)
next
  case (Cons i "is")
  let ?k = "length is"
  have "bit (push_bit (4 * ?k) (push_bit 4 acc OR drop_bit 28 n) OR drop_bit (32 - 4 * ?k) (push_bit 4 n)) b
      = bit (push_bit (4 * Suc ?k) acc OR drop_bit (32 - 4 * Suc ?k) n) b" if "b < 32" for b
    using Cons.prems that
    by (cases "4 * ?k \<le> b"; cases "4 * Suc ?k \<le> b")
      (auto simp: bit_simps add.commute dest: bit_imp_le_length)
  then have "push_bit (4 * ?k) (push_bit 4 acc OR drop_bit 28 n) OR drop_bit (32 - 4 * ?k) (push_bit 4 n)
      = push_bit (4 * Suc ?k) acc OR drop_bit (32 - 4 * Suc ?k) n"
    by (intro bit_word_eqI) simp
  then show ?case
    using Cons by (simp add: hex_digits_Cons hex_value_top_nibble del: hex_digits.simps)
qed

theorem int_to_string_numeral_witness:
  "let (len, d) = int_to_string 42 (\<lambda>_. 0); cs = map d [0..<unat len] in
     dec_value cs = 42 \<and> digit_value (hd cs) \<noteq> 0 \<and> d 100 = 0"
  using int_to_string_numeral [of 42 "\<lambda>_. 0"] by (auto simp: Let_def case_prod_beta)

text \<open>
  \<open>int_to_hex_string\<close> writes the eight hexadecimal digits of its argument, most significant
  first, and nothing behind them. Reading two such digits with \<open>string_get_hex_char\<close>, however,
  takes the first for the low nibble: the byte comes back with its nibbles exchanged.
\<close>

theorem int_to_hex_string_numeral:
  "map (int_to_hex_string n dest) [0..<8] = hex_digits [0..<8] n
   \<and> hex_number (hex_digits [0..<8] n) = n
   \<and> (\<forall>i \<ge> 8. int_to_hex_string n dest i = dest i)
   \<and> string_get_hex_char (\<lambda>i. int_to_hex_string n dest (i + 6))
       = ucast (drop_bit 4 n) AND 0x0F OR push_bit 4 (ucast n)"
proof (intro conjI)
  have l: "[0..<8] = [0, 1, 2, 3, 4, 5, 6, 7 :: nat]" by (simp add: upt_rec)
  show "map (int_to_hex_string n dest) [0..<8] = hex_digits [0..<8] n"
    by (rule nth_equalityI) (simp_all add: int_to_hex_string_def copy_in_def)
  show "hex_number (hex_digits [0..<8] n) = n"
    unfolding hex_number_def by (subst hex_digits_fold) simp_all
  show "\<forall>i \<ge> 8. int_to_hex_string n dest i = dest i"
    by (simp add: int_to_hex_string_def copy_in_def)
  have d: "int_to_hex_string n dest 6 = nibble_char (ucast (drop_bit 28 (push_bit 24 n)) AND 0x0F)"
    "int_to_hex_string n dest 7 = nibble_char (ucast (drop_bit 28 (push_bit 28 n)) AND 0x0F)"
    by (simp_all add: int_to_hex_string_def copy_in_def l hex_digits_Cons del: hex_digits.simps)
  let ?a = "drop_bit 28 (push_bit 24 n)" and ?b = "drop_bit 28 (push_bit 28 n)"
  have "?b * 16 = push_bit 4 ?b" by (simp add: push_bit_eq_mult)
  moreover have "?a + push_bit 4 ?b = ?a OR push_bit 4 ?b"
    by (rule disjunctive_add) (auto simp: bit_simps)
  moreover have "(ucast (?a OR push_bit 4 ?b) :: u8) = ucast (drop_bit 4 n) AND 0x0F OR push_bit 4 (ucast n)"
    unfolding f_mask_u8 by (intro bit_word_eqI) (auto simp: bit_simps)
  ultimately show "string_get_hex_char (\<lambda>i. int_to_hex_string n dest (i + 6))
      = ucast (drop_bit 4 n) AND 0x0F OR push_bit 4 (ucast n)"
    by (simp add: string_get_hex_char_def d hex_value_top_nibble)
qed

theorem int_to_hex_string_numeral_witness:
  "string_get_hex_char (\<lambda>i. int_to_hex_string 0x1f (\<lambda>_. 0) (i + 6)) = 0xf1
   \<and> int_to_hex_string 0x1f (\<lambda>_. 0) 8 = 0"
  using int_to_hex_string_numeral [of "0x1f" "\<lambda>_. 0"] by simp


section \<open>Bits of a byte\<close>

lemma bit_get_bit:
  assumes "unat i < 8"
  shows "bit_get b i = (if bit b (unat i) then 1 else 0)"
proof (rule bit_word_eqI)
  fix n assume "n < LENGTH(8)"
  then show "bit (bit_get b i) n = bit (if bit b (unat i) then 1 else 0 :: u8) n"
    using assms by (cases "n = 0") (auto simp: bit_get_def bit_simps)
qed

text \<open>
  The bit routines are an array of eight bits in a byte: for indices below eight, reading a
  bit after setting, clearing or assigning one gives the new value at that index and the old one
  at every other, and \<open>BitSet\<close> is \<open>bit_set\<close> or \<open>bit_clear\<close>. Indices from 8 to 15 change nothing.
\<close>

theorem bits_array:
  assumes i: "unat i < 8" and j: "unat j < 8"
  shows "bit_get (bit_set b i) j = (if j = i then 1 else bit_get b j)
    \<and> bit_get (bit_clear b i) j = (if j = i then 0 else bit_get b j)
    \<and> BitSet b i v = (if v \<noteq> 0 then bit_set b i else bit_clear b i)
    \<and> (8 \<le> unat k \<longrightarrow> bit_set b k = b \<and> bit_clear b k = b \<and> bit_get b k = 0)"
proof -
  have eq: "unat i = unat j \<longleftrightarrow> j = i" by (auto simp: word_unat_eq_iff)
  have "bit_set b k = b \<and> bit_clear b k = b \<and> bit_get b k = 0" if "8 \<le> unat k"
    using that by (auto simp: bit_set_def bit_clear_def bit_get_def bit_simps intro!: bit_word_eqI)
  then show ?thesis
    using i j eq by (auto simp: bit_get_bit bit_set_def bit_clear_def BitSet_def bit_simps)
qed

theorem bits_array_witness: "bit_get (bit_set 0 3) 3 = 1 \<and> bit_get (bit_set 8 2) 3 = 1"
  using bits_array [of 3 3 0] bits_array [of 2 3 8 0 9] by (simp add: bit_get_def)


section \<open>Comparing names\<close>

definition padded :: "buffer \<Rightarrow> nat \<Rightarrow> u8 list" where
  "padded s n = map s [0..<n] @ replicate (10 - n) (ch CHR '' '')"

lemma StringCompare_is_padded:
  assumes "unat la \<le> 10" "unat lb \<le> 10"
  shows "StringCompare a la b lb = (if padded a (unat la) = padded b (unat lb) then 1 else 0)"
proof -
  have p: "padded s n = map (\<lambda>i. if i < n then s i else ch CHR '' '') [0..<10]" if "n \<le> 10" for s n
    by (rule nth_equalityI) (use that in \<open>auto simp: padded_def nth_append\<close>)
  show ?thesis
    unfolding p [OF assms(1)] p [OF assms(2)] StringCompare_def Let_def
    by (simp only: map_eq_conv) auto
qed

text \<open>
  \<open>StringCompare\<close> decides equality of two strings of at most ten characters up to trailing
  blanks: it returns 1 exactly when the strings, padded with blanks to ten, are the same.
\<close>

theorem StringCompare_padded:
  assumes "unat la \<le> 10" "unat lb \<le> 10"
  shows "StringCompare a la b lb = (if padded a (unat la) = padded b (unat lb) then 1 else 0)"
  using assms by (rule StringCompare_is_padded)

theorem StringCompare_padded_witness:
  "StringCompare (cstr_at (str ''rm'')) 2 (cstr_at (str ''rm '')) 3 = 1"
proof -
  have "padded (cstr_at (str ''rm'')) 2 = padded (cstr_at (str ''rm '')) 3"
  proof -
    have u: "[0..<2] = [0, 1 :: nat]" "[0..<3] = [0, 1, 2 :: nat]" by (simp_all add: upt_rec)
    have r: "replicate 8 c = c # replicate 7 c" for c :: u8 by (simp add: numeral_eq_Suc)
    show ?thesis by (simp add: padded_def cstr_at_def u r)
  qed
  then show ?thesis
    using StringCompare_padded [of 2 3 "cstr_at (str ''rm'')" "cstr_at (str ''rm '')"] by simp
qed

end
