(* ===== verification/KList.thy ===== *)
theory KList
  imports KPrelude "HOL-Library.Monad_Syntax"
begin

text \<open>
  Singly linked lists (kernel/list.c) over an explicit heap. A pointer is a number, 0 is NULL;
  dereferencing anything that is not a node gives None, and so does a loop over a list that does
  not end. The specification is the list of data pointers; \<open>holds\<close> relates a head pointer to it.
  The contract of a table of pointers, which the driver and device tables use, is the locale
  \<open>pointer_table\<close>; it is interpreted on these lists.
\<close>

section \<open>Nodes and operations\<close>

type_synonym ptr = nat

record node =
  next_node :: ptr
  node_data :: ptr

type_synonym heap = "ptr \<rightharpoonup> node"

text \<open>\<open>malloc\<close> is an argument: it looks at the heap and returns NULL or a new address.\<close>

definition ListCreateNode :: "(heap \<Rightarrow> ptr) \<Rightarrow> heap \<Rightarrow> ptr \<Rightarrow> ptr \<times> heap" where
  "ListCreateNode malloc h d =
     (let newNode = malloc h in
      if newNode = 0 then (0, h)
      else (newNode, h(newNode \<mapsto> \<lparr>next_node = 0, node_data = d\<rparr>)))"

partial_function (option) last_node :: "heap \<Rightarrow> ptr \<Rightarrow> ptr option" where
  "last_node h temp =
     (case h temp of
        None \<Rightarrow> None
      | Some n \<Rightarrow> if next_node n \<noteq> 0 then last_node h (next_node n) else Some temp)"

definition ListAddNode :: "(heap \<Rightarrow> ptr) \<Rightarrow> heap \<Rightarrow> ptr \<Rightarrow> ptr \<Rightarrow> (ptr \<times> heap) option" where
  "ListAddNode malloc h head d =
     (let (newNode, h) = ListCreateNode malloc h d in
      if head = 0 then Some (newNode, h)
      else
        do {
          temp \<leftarrow> last_node h head;
          n \<leftarrow> h temp;
          Some (head, h(temp \<mapsto> n\<lparr>next_node := newNode\<rparr>))
        })"

text \<open>The search loop of \<open>ListRemoveNode\<close>: the pair \<open>(prev, temp)\<close> it ends with.\<close>

partial_function (option) find_prev :: "heap \<Rightarrow> ptr \<Rightarrow> ptr \<Rightarrow> ptr \<Rightarrow> (ptr \<times> ptr) option" where
  "find_prev h d prev temp =
     (if temp = 0 then Some (prev, temp)
      else case h temp of
        None \<Rightarrow> None
      | Some n \<Rightarrow> if node_data n \<noteq> d then find_prev h d temp (next_node n) else Some (prev, temp))"

definition ListRemoveNode :: "heap \<Rightarrow> ptr \<Rightarrow> ptr \<Rightarrow> (ptr \<times> heap) option" where
  "ListRemoveNode h head d =
     (if head = 0 then Some (head, h)
      else
        do {
          n \<leftarrow> h head;
          if node_data n = d then Some (next_node n, h(head := None))
          else
            do {
              (prev, temp) \<leftarrow> find_prev h d 0 head;
              if temp = 0 then Some (head, h)
              else
                do {
                  p \<leftarrow> h prev;
                  t \<leftarrow> h temp;
                  Some (head, (h(prev \<mapsto> p\<lparr>next_node := next_node t\<rparr>))(temp := None))
                }
            }
        })"

partial_function (option) ListDelete :: "heap \<Rightarrow> ptr \<Rightarrow> heap option" where
  "ListDelete h head =
     (if head = 0 then Some h
      else case h head of
        None \<Rightarrow> None
      | Some n \<Rightarrow> ListDelete (h(head := None)) (next_node n))"

text \<open>\<open>size\<close> and \<open>currentIndex\<close> are C \<open>int\<close>s, of 16 bits on the AVR; the count is returned as 32 bits.\<close>

partial_function (option) count_nodes :: "heap \<Rightarrow> ptr \<Rightarrow> 16 word \<Rightarrow> 16 word option" where
  "count_nodes h temp sz =
     (if temp = 0 then Some sz
      else case h temp of
        None \<Rightarrow> None
      | Some n \<Rightarrow> count_nodes h (next_node n) (sz + 1))"

definition ListGetSize :: "heap \<Rightarrow> ptr \<Rightarrow> u32 option" where
  "ListGetSize h head = do { sz \<leftarrow> count_nodes h head 0; Some (scast sz) }"

partial_function (option) get_node :: "heap \<Rightarrow> ptr \<Rightarrow> 16 word \<Rightarrow> 16 word \<Rightarrow> ptr option" where
  "get_node h temp currentIndex index =
     (if temp = 0 then Some 0
      else if currentIndex = index then Some temp
      else case h temp of
        None \<Rightarrow> None
      | Some n \<Rightarrow> get_node h (next_node n) (currentIndex + 1) index)"

definition ListGetNode :: "heap \<Rightarrow> ptr \<Rightarrow> 16 word \<Rightarrow> ptr option" where
  "ListGetNode h head index = get_node h head 0 index"


section \<open>Lists in the heap\<close>

text \<open>\<open>path h p ps q\<close>: the nodes from \<open>p\<close> up to, not including, \<open>q\<close> are \<open>ps\<close>.\<close>

fun path :: "heap \<Rightarrow> ptr \<Rightarrow> ptr list \<Rightarrow> ptr \<Rightarrow> bool" where
  "path h p [] q = (p = q)"
| "path h p (x # xs) q = (p = x \<and> x \<noteq> 0 \<and> (\<exists>n. h x = Some n \<and> path h (next_node n) xs q))"

definition data_at :: "heap \<Rightarrow> ptr \<Rightarrow> ptr" where
  "data_at h p = node_data (the (h p))"

definition holds :: "heap \<Rightarrow> ptr \<Rightarrow> ptr list \<Rightarrow> bool" where
  "holds h head ds \<longleftrightarrow> (\<exists>ps. distinct ps \<and> path h head ps 0 \<and> ds = map (data_at h) ps)"

lemma path_append: "path h p (xs @ ys) q \<longleftrightarrow> (\<exists>r. path h p xs r \<and> path h r ys q)"
  by (induction xs arbitrary: p) auto

lemma path_frame: "path h p xs q \<Longrightarrow> y \<notin> set xs \<Longrightarrow> path (h(y := v)) p xs q"
  by (induction xs arbitrary: p) auto

lemma data_frame: "y \<notin> set xs \<Longrightarrow> map (data_at (h(y := v))) xs = map (data_at h) xs"
  by (auto simp: data_at_def)

lemma path_dom: "path h p xs q \<Longrightarrow> x \<in> set xs \<Longrightarrow> x \<noteq> 0 \<and> (\<exists>n. h x = Some n)"
  by (induction xs arbitrary: p) auto

lemma path_null: "path h 0 xs q \<Longrightarrow> xs = []"
  by (cases xs) auto

lemma last_node_path: "path h p (xs @ [x]) 0 \<Longrightarrow> last_node h p = Some x"
proof (induction xs arbitrary: p)
  case Nil
  then show ?case by (subst last_node.simps) (auto dest: path_null)
next
  case (Cons y ys)
  then obtain n where n: "h p = Some n" "path h (next_node n) (ys @ [x]) 0" by auto
  then have "next_node n \<noteq> 0" by (metis path_null append_is_Nil_conv list.distinct(1))
  then show ?case using Cons.IH n by (subst last_node.simps) simp
qed

lemma count_nodes_path: "path h p xs 0 \<Longrightarrow> count_nodes h p c = Some (c + of_nat (length xs))"
proof (induction xs arbitrary: p c)
  case Nil
  then show ?case by (subst count_nodes.simps) simp
next
  case (Cons y ys)
  then show ?case by (subst count_nodes.simps) (auto simp: add.assoc)
qed

lemma get_node_path:
  "path h p xs 0 \<Longrightarrow> k + length xs \<le> 2 ^ 16 \<Longrightarrow> i < 2 ^ 16 \<Longrightarrow> k \<le> i \<Longrightarrow>
     get_node h p (of_nat k) (of_nat i) = Some (if i - k < length xs then xs ! (i - k) else 0)"
proof (induction xs arbitrary: p k)
  case Nil
  then show ?case by (subst get_node.simps) simp
next
  case (Cons y ys)
  then obtain n where p: "p = y" "p \<noteq> 0" and n: "h p = Some n" "path h (next_node n) ys 0" by auto
  have k: "(of_nat k :: 16 word) = of_nat i \<longleftrightarrow> k = i"
    using Cons.prems(2-4) by (simp add: word_unat_eq_iff unat_of_nat)
  show ?case
  proof (cases "k = i")
    case True
    then show ?thesis using p by (subst get_node.simps) simp
  next
    case False
    have "get_node h (next_node n) (of_nat (Suc k)) (of_nat i)
        = Some (if i - Suc k < length ys then ys ! (i - Suc k) else 0)"
      using n Cons.prems False by (intro Cons.IH) auto
    moreover have "i - k = Suc (i - Suc k)" using Cons.prems(4) False by simp
    ultimately show ?thesis using p n k False by (subst get_node.simps) (simp add: add.commute)
  qed
qed

lemma find_prev_path:
  assumes "path h p xs 0"
  shows "find_prev h d prev p =
    (case dropWhile (\<lambda>x. data_at h x \<noteq> d) xs of
       [] \<Rightarrow> Some (last (prev # xs), 0)
     | x # _ \<Rightarrow> Some (last (prev # takeWhile (\<lambda>x. data_at h x \<noteq> d) xs), x))"
  using assms
proof (induction xs arbitrary: p prev)
  case Nil
  then show ?case by (subst find_prev.simps) simp
next
  case (Cons y ys)
  then obtain n where p: "p = y" "p \<noteq> 0" and n: "h p = Some n" "path h (next_node n) ys 0" by auto
  have d: "data_at h y = node_data n" using p n by (simp add: data_at_def)
  show ?case
  proof (cases "node_data n = d")
    case True
    then show ?thesis using p n(1) d by (subst find_prev.simps) simp
  next
    case False
    then have "find_prev h d prev p = find_prev h d p (next_node n)"
      using p n(1) by (subst find_prev.simps) simp
    then show ?thesis
      using False d Cons.IH [OF n(2), of p] p(1)
      by (cases "dropWhile (\<lambda>x. data_at h x \<noteq> d) ys") (simp_all del: dropWhile_eq_Nil_conv)
  qed
qed


lemma ListDelete_path:
  "path h p xs 0 \<Longrightarrow> distinct xs \<Longrightarrow> ListDelete h p = Some (\<lambda>a. if a \<in> set xs then None else h a)"
proof (induction xs arbitrary: p h)
  case Nil
  then show ?case by (subst ListDelete.simps) simp
next
  case (Cons y ys)
  then obtain n where n: "p = y" "p \<noteq> 0" "h p = Some n" "path h (next_node n) ys 0" by auto
  have "path (h(p := None)) (next_node n) ys 0"
    using Cons.prems n by (intro path_frame) auto
  then have "ListDelete (h(p := None)) (next_node n)
      = Some (\<lambda>a. if a \<in> set ys then None else (h(p := None)) a)"
    by (rule Cons.IH) (use Cons.prems in simp)
  then show ?case using n by (subst ListDelete.simps) (auto simp: fun_eq_iff)
qed


section \<open>The operations on the list of data pointers\<close>

definition fresh_malloc :: "(heap \<Rightarrow> ptr) \<Rightarrow> bool" where
  "fresh_malloc malloc \<longleftrightarrow> (\<forall>h. malloc h \<noteq> 0 \<longrightarrow> h (malloc h) = None)"

lemma holds_null: "holds h 0 ds \<longleftrightarrow> ds = []"
  by (auto simp: holds_def dest: path_null intro: exI [of _ "[]"])

lemma holds_head: "holds h p (d # ds) \<Longrightarrow> p \<noteq> 0 \<and> (\<exists>n. h p = Some n \<and> node_data n = d)"
  by (auto simp: holds_def Cons_eq_map_conv data_at_def)

lemma path_end_upd:
  assumes "path h p (xs @ [x]) 0" "distinct (xs @ [x])" "h x = Some n"
  shows "path (h(x \<mapsto> n\<lparr>next_node := q\<rparr>)) p (xs @ [x]) q"
proof -
  from assms(1) obtain r where r: "path h p xs r" "r = x" "x \<noteq> 0"
    by (auto simp: path_append)
  then have "path (h(x \<mapsto> n\<lparr>next_node := q\<rparr>)) p xs x"
    using assms(2) by (auto intro!: path_frame)
  then show ?thesis using r by (auto simp: path_append)
qed

text \<open>The nodes of the list that \<open>ListAddNode\<close> leaves; no other node changes.\<close>

lemma ListAddNode_path:
  fixes d :: ptr
  assumes m: "fresh_malloc malloc" and ps: "distinct ps" "path h head ps 0"
  defines "qs \<equiv> if malloc h = 0 then ps else ps @ [malloc h]"
    and "es \<equiv> if malloc h = 0 then map (data_at h) ps else map (data_at h) ps @ [d]"
  shows "\<exists>head' h'. ListAddNode malloc h head d = Some (head', h') \<and> distinct qs \<and> path h' head' qs 0
    \<and> map (data_at h') qs = es \<and> (\<forall>y. y \<notin> set qs \<longrightarrow> h' y = h y)"
proof (cases "head = 0")
  case True
  then have "ps = []" using ps(2) by (auto dest: path_null)
  then show ?thesis
    using True by (auto simp: ListAddNode_def ListCreateNode_def Let_def data_at_def qs_def es_def)
next
  case False
  then have "ps \<noteq> []" using ps(2) by auto
  then obtain xs x where xs: "ps = xs @ [x]" by (metis append_butlast_last_id)
  obtain n where n: "h x = Some n" and x0: "x \<noteq> 0" using path_dom [OF ps(2)] xs by auto
  have last0: "last_node h head = Some x" using last_node_path ps(2) xs by simp
  show ?thesis
  proof (cases "malloc h = 0")
    case True
    have "path (h(x \<mapsto> n\<lparr>next_node := 0\<rparr>)) head ps 0"
      unfolding xs by (rule path_end_upd) (use ps xs n in auto)
    moreover have "map (data_at (h(x \<mapsto> n\<lparr>next_node := 0\<rparr>))) ps = map (data_at h) ps"
      using n by (auto simp: data_at_def)
    ultimately show ?thesis
      using True False last0 n ps(1) xs by (auto simp: ListAddNode_def ListCreateNode_def qs_def es_def)
  next
    case nz: False
    let ?a = "malloc h" and ?n = "\<lparr>next_node = 0, node_data = d\<rparr>"
    have "h ?a = None" using m nz unfolding fresh_malloc_def by blast
    then have fr: "?a \<notin> set ps" using path_dom [OF ps(2), of ?a] by auto
    let ?h = "h(?a \<mapsto> ?n)" let ?h' = "?h(x \<mapsto> n\<lparr>next_node := ?a\<rparr>)"
    have p: "path ?h head ps 0" using path_frame [OF ps(2) fr] .
    have hx: "?h x = Some n" using n fr xs by auto
    have "last_node ?h head = Some x" using last_node_path p xs by simp
    then have run: "ListAddNode malloc h head d = Some (head, ?h')"
      using nz False hx by (simp add: ListAddNode_def ListCreateNode_def Let_def)
    have "path ?h' head ps ?a"
      unfolding xs by (rule path_end_upd) (use p ps(1) xs hx in auto)
    then have "path ?h' head (ps @ [?a]) 0"
      using nz fr xs by (auto simp: path_append)
    moreover have "map (data_at ?h') (ps @ [?a]) = map (data_at h) ps @ [d]"
      using n fr xs by (auto simp: data_at_def)
    moreover have "\<forall>y. y \<notin> set (ps @ [?a]) \<longrightarrow> ?h' y = h y" using xs by simp
    ultimately show ?thesis using run nz ps(1) fr by (auto simp: qs_def es_def)
  qed
qed

lemma ListAddNode_holds:
  assumes m: "fresh_malloc malloc" and l: "holds h head ds"
  shows "\<exists>head' h'. ListAddNode malloc h head d = Some (head', h') \<and>
    holds h' head' (if malloc h = 0 then ds else ds @ [d])"
proof -
  from l obtain ps where ps: "distinct ps" "path h head ps 0" "ds = map (data_at h) ps"
    by (auto simp: holds_def)
  from ListAddNode_path [OF m ps(1,2), of d] show ?thesis
    unfolding holds_def ps(3) by (smt (verit, best))
qed


text \<open>
  Two lists that share no node; adding to the second leaves the first alone. \<open>malloc\<close> has room for
  \<open>n\<close> nodes if it does not fail before there are so many.
\<close>

definition hold :: "heap \<Rightarrow> ptr \<Rightarrow> ptr list \<Rightarrow> ptr \<Rightarrow> ptr list \<Rightarrow> bool" where
  "hold h head1 ds head2 es \<longleftrightarrow> (\<exists>ps qs. distinct (ps @ qs) \<and> path h head1 ps 0 \<and> ds = map (data_at h) ps
     \<and> path h head2 qs 0 \<and> es = map (data_at h) qs \<and> dom h = set (ps @ qs))"

definition malloc_room :: "(heap \<Rightarrow> ptr) \<Rightarrow> nat \<Rightarrow> bool" where
  "malloc_room malloc n \<longleftrightarrow> fresh_malloc malloc
     \<and> (\<forall>h. finite (dom h) \<and> card (dom h) < n \<longrightarrow> malloc h \<noteq> 0)"

lemma hold_holds: "hold h head1 ds head2 es \<Longrightarrow> holds h head1 ds \<and> holds h head2 es"
  by (auto simp: hold_def holds_def)

lemma hold_swap: "hold h head1 ds head2 es \<Longrightarrow> hold h head2 es head1 ds"
  unfolding hold_def
proof (elim exE)
  fix ps qs
  assume "distinct (ps @ qs) \<and> path h head1 ps 0 \<and> ds = map (data_at h) ps
     \<and> path h head2 qs 0 \<and> es = map (data_at h) qs \<and> dom h = set (ps @ qs)"
  then show "\<exists>ps qs. distinct (ps @ qs) \<and> path h head2 ps 0 \<and> es = map (data_at h) ps
     \<and> path h head1 qs 0 \<and> ds = map (data_at h) qs \<and> dom h = set (ps @ qs)"
    by (intro exI [of _ qs] exI [of _ ps]) (simp add: Un_commute Int_commute)
qed

lemma path_cong: "path h p xs q \<Longrightarrow> (\<And>x. x \<in> set xs \<Longrightarrow> h' x = h x) \<Longrightarrow> path h' p xs q"
  by (induction xs arbitrary: p) auto

lemma hold_ListAddNode:
  assumes m: "malloc_room malloc n" and l: "hold h head1 ds head2 es" and n: "length ds + length es < n"
  shows "\<exists>head' h'. ListAddNode malloc h head2 d = Some (head', h') \<and> hold h' head1 ds head' (es @ [d])"
proof -
  from l obtain ps qs where ps: "distinct (ps @ qs)" "path h head1 ps 0" "ds = map (data_at h) ps"
    "path h head2 qs 0" "es = map (data_at h) qs" "dom h = set (ps @ qs)"
    unfolding hold_def by blast
  have "card (dom h) = length ds + length es"
    unfolding ps(6) using distinct_card [OF ps(1)] ps(3,5) by simp
  then have nz: "malloc h \<noteq> 0" using m n ps(6) unfolding malloc_room_def by simp
  have fm: "fresh_malloc malloc" using m by (simp add: malloc_room_def)
  then have fr: "malloc h \<notin> dom h" using nz by (simp add: fresh_malloc_def domIff)
  have "distinct qs" using ps(1) by simp
  obtain head' h' where
    a: "ListAddNode malloc h head2 d = Some (head', h')" "path h' head' (qs @ [malloc h]) 0"
      "map (data_at h') (qs @ [malloc h]) = map (data_at h) qs @ [d]" "\<forall>y. y \<notin> set (qs @ [malloc h]) \<longrightarrow> h' y = h y"
    using ListAddNode_path [OF fm \<open>distinct qs\<close> ps(4), of d, unfolded if_not_P [OF nz]]
    by (elim exE conjE) (rule that)
  have same: "h' x = h x" if "x \<in> set ps" for x
    using that ps(1,6) fr by (intro a(4) [rule_format]) auto
  have "path h' head1 ps 0" by (rule path_cong [OF ps(2) same])
  moreover have "ds = map (data_at h') ps" using ps(3) same by (simp add: data_at_def)
  moreover have "dom h' = set (ps @ qs @ [malloc h])"
  proof -
    have "x \<in> dom h'" if "x \<in> set (qs @ [malloc h])" for x using path_dom [OF a(2) that] by blast
    moreover have "x \<in> dom h' \<longleftrightarrow> x \<in> set ps" if "x \<notin> set (qs @ [malloc h])" for x
      using a(4) that ps(6) by (auto simp: dom_def)
    ultimately show ?thesis by auto
  qed
  moreover have "distinct (ps @ qs @ [malloc h])" using ps(1,6) fr by auto
  ultimately have "hold h' head1 ds head' (es @ [d])"
    unfolding hold_def ps(5) using a(2) a(3) [symmetric]
    by (intro exI [of _ ps] exI [of _ "qs @ [malloc h]"] conjI) (simp_all only: append_assoc)
  then show ?thesis using a(1) by blast
qed

lemma unlink_path:
  assumes p1: "path h head (zs @ [z]) x" and p2: "path h x (x # post) 0"
    and dist: "distinct (zs @ [z] @ x # post)" and p: "h z = Some p" and t: "h x = Some t"
  defines "h' \<equiv> (h(z \<mapsto> p\<lparr>next_node := next_node t\<rparr>))(x := None)"
  shows "path h' head (zs @ [z] @ post) 0
    \<and> map (data_at h') (zs @ [z] @ post) = map (data_at h) (zs @ [z] @ post)"
proof -
  from p1 have z: "path h head zs z" "z \<noteq> 0" by (auto simp: path_append)
  have "path h' head zs z"
    unfolding h'_def using z(1) dist by (intro path_frame) auto
  then have "path h' head (zs @ [z]) (next_node t)"
    using z(2) dist by (auto simp: path_append h'_def)
  moreover have "path h' (next_node t) post 0"
    unfolding h'_def using p2 t dist by (intro path_frame) auto
  ultimately have "path h' head (zs @ [z] @ post) 0"
    by (auto simp: path_append simp del: append.simps)
  moreover have "map (data_at h') (zs @ [z] @ post) = map (data_at h) (zs @ [z] @ post)"
    using dist p by (auto simp: data_at_def h'_def)
  ultimately show ?thesis by blast
qed

lemma ListRemoveNode_holds:
  assumes l: "holds h head ds"
  shows "\<exists>head' h'. ListRemoveNode h head d = Some (head', h') \<and> holds h' head' (remove1 d ds)"
proof -
  from l obtain ps where ps: "distinct ps" "path h head ps 0" "ds = map (data_at h) ps"
    by (auto simp: holds_def)
  show ?thesis
  proof (cases ps)
    case Nil
    then show ?thesis using ps by (auto simp: ListRemoveNode_def holds_null)
  next
    case (Cons y ys)
    then obtain n where n: "head = y" "y \<noteq> 0" "h y = Some n" "path h (next_node n) ys 0"
      using ps(2) by auto
    have dy: "data_at h y = node_data n" using n(3) by (simp add: data_at_def)
    let ?P = "\<lambda>x. data_at h x \<noteq> d"
    show ?thesis
    proof (cases "node_data n = d")
      case True
      have "holds (h(y := None)) (next_node n) (map (data_at h) ys)"
        unfolding holds_def
        using ps(1) Cons n path_frame [OF n(4), of y None] data_frame [of y ys h None]
        by (intro exI [of _ ys]) simp
      then show ?thesis using True n ps(3) Cons dy by (simp add: ListRemoveNode_def)
    next
      case ne: False
      show ?thesis
      proof (cases "dropWhile ?P ps")
        case Nil
        then have "find_prev h d 0 head = Some (last (0 # ps), 0)"
          using find_prev_path [OF ps(2), of d 0] by (simp del: dropWhile_eq_Nil_conv)
        moreover have "d \<notin> set ds"
          using Nil unfolding ps(3) dropWhile_eq_Nil_conv by auto
        ultimately show ?thesis
          using n ne l by (simp add: ListRemoveNode_def remove1_idem)
      next
        case d: (Cons x post)
        let ?pre = "takeWhile ?P ps"
        have split: "ps = ?pre @ x # post" using takeWhile_dropWhile_id [of ?P ps] d by simp
        have xd: "data_at h x = d" using d by (metis (mono_tags) hd_dropWhile list.distinct(1) list.sel(1))
        have "?pre = y # takeWhile ?P ys" using Cons ne dy by simp
        then obtain zs z where zs: "?pre = zs @ [z]" by (metis append_butlast_last_id list.distinct(1))
        have parts: "ps = zs @ [z] @ x # post" using split zs by simp
        have fp: "find_prev h d 0 head = Some (z, x)"
          using find_prev_path [OF ps(2), of d 0] d zs by (simp del: takeWhile_eq_Nil_iff)
        have p1: "path h head (zs @ [z]) x" and p2: "path h x (x # post) 0"
          using ps(2) unfolding parts
          by (auto simp: path_append simp del: append.simps)
        obtain t where t: "h x = Some t" using p2 by auto
        obtain p where p: "h z = Some p" using p1 by (auto simp: path_append)
        let ?h' = "(h(z \<mapsto> p\<lparr>next_node := next_node t\<rparr>))(x := None)"
        have run: "ListRemoveNode h head d = Some (head, ?h')"
          using n ne fp t p2 p by (simp add: ListRemoveNode_def)
        have dist: "distinct (zs @ [z] @ x # post)" using ps(1) parts by simp
        have "\<forall>v \<in> set ?pre. data_at h v \<noteq> d" by (auto dest: set_takeWhileD)
        then have "d \<notin> set (map (data_at h) (zs @ [z]))" unfolding zs by auto
        then have "remove1 d ds = map (data_at h) (zs @ [z] @ post)"
          using xd unfolding ps(3) parts by (simp add: remove1_append)
        then have "holds ?h' head (remove1 d ds)"
          using unlink_path [OF p1 p2 dist p t] dist unfolding holds_def
          by (intro exI [of _ "zs @ [z] @ post"]) simp
        then show ?thesis using run by metis
      qed
    qed
  qed
qed

lemma ListGetSize_holds:
  assumes "holds h head ds" "length ds < 2 ^ 15"
  shows "ListGetSize h head = Some (of_nat (length ds))"
proof -
  have "(scast (of_nat n :: 16 word) :: u32) = of_nat n" if n: "n < 2 ^ 15" for n
  proof -
    have "sint (of_nat n :: 16 word) = int n"
      using n by (simp add: sint_uint uint_nat unat_of_nat signed_take_bit_int_eq_self)
    then show ?thesis by (simp add: scast_eq)
  qed
  then show ?thesis
    using assms by (auto simp: holds_def ListGetSize_def count_nodes_path)
qed

lemma ListGetNode_holds:
  assumes "holds h head ds" "length ds \<le> 2 ^ 16" "i < 2 ^ 16"
  shows "\<exists>p. ListGetNode h head (of_nat i) = Some p \<and>
    (if i < length ds then p \<noteq> 0 \<and> (\<exists>n. h p = Some n \<and> node_data n = ds ! i) else p = 0)"
proof -
  from assms(1) obtain ps where ps: "path h head ps 0" "ds = map (data_at h) ps"
    by (auto simp: holds_def)
  then have "ListGetNode h head (of_nat i) = Some (if i < length ps then ps ! i else 0)"
    using get_node_path [of h head ps 0 i] assms(2,3) by (simp add: ListGetNode_def)
  then show ?thesis
    using ps path_dom [OF ps(1) nth_mem] by (fastforce simp: data_at_def)
qed



section \<open>The list as a sequence\<close>

text \<open>
  C29. The linked list implements a sequence: from a well formed list of \<open>ds\<close>, adding leads to
  \<open>ds\<close> with the pointer at its end, or to \<open>ds\<close> unchanged when \<open>malloc\<close> returns NULL (the caller is
  not told); removing leads to \<open>ds\<close> without the first occurrence; the size and the entry at an
  index are those of \<open>ds\<close>, NULL beyond the end; deleting frees exactly the nodes of the list.
  No operation dereferences NULL or a freed node.
\<close>

theorem list_implements_sequence:
  assumes "fresh_malloc malloc" and "holds h head ds" and "length ds < 2 ^ 15" and "i < 2 ^ 15"
  shows "(\<exists>head' h'. ListAddNode malloc h head d = Some (head', h')
            \<and> holds h' head' (if malloc h = 0 then ds else ds @ [d]))
    \<and> (\<exists>head' h'. ListRemoveNode h head d = Some (head', h') \<and> holds h' head' (remove1 d ds))
    \<and> ListGetSize h head = Some (of_nat (length ds))
    \<and> (\<exists>p. ListGetNode h head (of_nat i) = Some p
            \<and> (if i < length ds then p \<noteq> 0 \<and> data_at h p = ds ! i else p = 0))
    \<and> (\<exists>h'. ListDelete h head = Some h' \<and> dom h' \<subseteq> dom h \<and> card (dom h - dom h') = length ds)"
proof (intro conjI)
  show "ListGetSize h head = Some (of_nat (length ds))"
    using assms(2,3) by (rule ListGetSize_holds)
  show "\<exists>p. ListGetNode h head (of_nat i) = Some p
      \<and> (if i < length ds then p \<noteq> 0 \<and> data_at h p = ds ! i else p = 0)"
    using ListGetNode_holds [OF assms(2), of i] assms(3,4) by (auto simp: data_at_def split: if_splits)
  obtain ps where ps: "distinct ps" "path h head ps 0" "ds = map (data_at h) ps"
    using assms(2) by (auto simp: holds_def)
  let ?h' = "\<lambda>a. if a \<in> set ps then None else h a"
  have "dom h - dom ?h' = set ps" using path_dom [OF ps(2)] by (auto simp: dom_def)
  then have "card (dom h - dom ?h') = length ds" using ps by (simp add: distinct_card)
  then show "\<exists>h'. ListDelete h head = Some h' \<and> dom h' \<subseteq> dom h \<and> card (dom h - dom h') = length ds"
    using ListDelete_path [OF ps(2,1)] by (intro exI [of _ ?h']) (auto split: if_splits)
qed (fact ListAddNode_holds [OF assms(1,2)] ListRemoveNode_holds [OF assms(2)])+

text \<open>An allocator that bumps an address, and a list of two pointers.\<close>

definition two_nodes :: heap where
  "two_nodes = [1 \<mapsto> \<lparr>next_node = 2, node_data = 7\<rparr>, 2 \<mapsto> \<lparr>next_node = 0, node_data = 9\<rparr>]"

definition third_node :: "heap \<Rightarrow> ptr" where
  "third_node h = (if h 3 = None then 3 else 0)"

lemma two_nodes_holds: "holds two_nodes 1 [7, 9]"
  unfolding holds_def by (intro exI [of _ "[1, 2]"]) (auto simp: two_nodes_def data_at_def)

lemma list_implements_sequence_witness:
  "\<exists>head' h'. ListAddNode third_node two_nodes 1 5 = Some (head', h') \<and> holds h' head' [7, 9, 5]"
proof -
  have "fresh_malloc third_node" by (auto simp: fresh_malloc_def third_node_def)
  from list_implements_sequence [OF this two_nodes_holds, of 0 5] show ?thesis
    by (auto simp: third_node_def two_nodes_def)
qed

end
