(* ===== verification/PortIO.thy ===== *)
theory PortIO
  imports BusProgram
begin

text \<open>
  Kernel code with state. A function of the kernel that keeps variables and drives a peripheral is
  a value of \<open>('s, 'a) prog\<close>: from the state it goes to a bus program whose result is the returned
  value with the new state, or None when a polling loop used up the bound it is given
  (the code would go on polling). The combinators below are the statements of C: sequence,
  assignment, loop, register access, and the busy wait of kernel/device/device.c.

  The locale \<open>bus_log\<close> is what can be said of any device: reading it has no effect on the log of
  what was written to it. The locale \<open>ready_device\<close> is the contract of a peripheral that accepts commands: it becomes
  ready within a bounded number of polls. The kernel's code is written to this contract alone; the log of writes is what it promises.
\<close>

section \<open>Statements\<close>

type_synonym ('s, 'a) prog = "'s \<Rightarrow> ('a \<times> 's) option io"

definition preturn :: "'a \<Rightarrow> ('s, 'a) prog" where
  "preturn x = (\<lambda>s. Ret (Some (x, s)))"

definition pbind :: "('s, 'a) prog \<Rightarrow> ('a \<Rightarrow> ('s, 'b) prog) \<Rightarrow> ('s, 'b) prog" where
  "pbind m f = (\<lambda>s. bindio (m s) (\<lambda>r. case r of None \<Rightarrow> Ret None | Some (x, s') \<Rightarrow> f x s'))"

definition pget :: "('s \<Rightarrow> 'a) \<Rightarrow> ('s, 'a) prog" where
  "pget f = (\<lambda>s. Ret (Some (f s, s)))"

definition pmod :: "('s \<Rightarrow> 's) \<Rightarrow> ('s, unit) prog" where
  "pmod f = (\<lambda>s. Ret (Some ((), f s)))"

text \<open>A statement whose text depends on the values of variables.\<close>

definition pwith :: "('s \<Rightarrow> ('s, 'a) prog) \<Rightarrow> ('s, 'a) prog" where
  "pwith f = (\<lambda>s. f s s)"

primrec pseq :: "('s, unit) prog list \<Rightarrow> ('s, unit) prog" where
  "pseq [] = preturn ()"
| "pseq (m # ms) = pbind m (\<lambda>_. pseq ms)"

text \<open>A function body: statements, then \<open>return\<close> of an expression.\<close>

definition pbody :: "('s, unit) prog list \<Rightarrow> ('s \<Rightarrow> 'a) \<Rightarrow> ('s, 'a) prog" where
  "pbody ms f = pbind (pseq ms) (\<lambda>_. pget f)"

primrec pfor :: "'i list \<Rightarrow> ('i \<Rightarrow> ('s, unit) prog) \<Rightarrow> ('s, unit) prog" where
  "pfor [] f = preturn ()"
| "pfor (i # is) f = pbind (f i) (\<lambda>_. pfor is f)"

text \<open>\<open>bus_read_byte\<close> and \<open>bus_write_byte\<close> as statements.\<close>

definition pread :: "u32 \<Rightarrow> ('s, u8) prog" where
  "pread a = (\<lambda>s. Rd a (\<lambda>b. Ret (Some (b, s))))"

definition pwrite :: "u32 \<Rightarrow> u8 \<Rightarrow> ('s, unit) prog" where
  "pwrite a b = (\<lambda>s. Wr a b (Ret (Some ((), s))))"

lemmas pdefs = preturn_def pget_def pmod_def pwith_def pbody_def pread_def pwrite_def


section \<open>The busy wait\<close>

text \<open>
  \<open>DeviceBusyWait\<close>: read the first register of the device until it holds the identifier of the
  device. The first argument bounds the number of reads.
\<close>

primrec DeviceBusyWait :: "nat \<Rightarrow> u32 \<Rightarrow> u8 \<Rightarrow> ('s, unit) prog" where
  "DeviceBusyWait 0 hardware_address deviceID = (\<lambda>s. Ret None)"
| "DeviceBusyWait (Suc n) hardware_address deviceID =
     (\<lambda>s. Rd hardware_address (\<lambda>checkByte.
        if checkByte \<noteq> deviceID then DeviceBusyWait n hardware_address deviceID s
        else Ret (Some ((), s))))"


section \<open>Running statements\<close>

named_theorems run_simps \<open>running statements against a device\<close>

definition run :: "('d \<Rightarrow> u32 \<Rightarrow> u8 \<times> 'd) \<Rightarrow> ('d \<Rightarrow> u32 \<Rightarrow> u8 \<Rightarrow> 'd) \<Rightarrow>
    ('s, 'a) prog \<Rightarrow> 's \<Rightarrow> 'd \<Rightarrow> ('a \<times> 's) option \<times> 'd" where
  "run rd wr m c s = run_io rd wr (m c) s"

lemma run_pbind [run_simps]:
  "run rd wr (pbind m f) c s =
     (case run rd wr m c s of (None, s') \<Rightarrow> (None, s') | (Some (x, c'), s') \<Rightarrow> run rd wr (f x) c' s')"
  by (auto simp: run_def pbind_def run_io_bind split: prod.splits option.splits)

lemma run_preturn [run_simps]: "run rd wr (preturn x) c s = (Some (x, c), s)"
  by (simp add: run_def preturn_def)

lemma run_pget [run_simps]: "run rd wr (pget f) c s = (Some (f c, c), s)"
  by (simp add: run_def pget_def)

lemma run_pmod [run_simps]: "run rd wr (pmod f) c s = (Some ((), f c), s)"
  by (simp add: run_def pmod_def)

lemma run_pwith [run_simps]: "run rd wr (pwith f) c s = run rd wr (f c) c s"
  by (simp add: run_def pwith_def)

lemma run_pwrite [run_simps]: "run rd wr (pwrite a b) c s = (Some ((), c), wr s a b)"
  by (simp add: run_def pwrite_def run_io_Wr)

lemma run_pread [run_simps]: "run rd wr (pread a) c s = (case rd s a of (b, s') \<Rightarrow> (Some (b, c), s'))"
  by (simp add: run_def pread_def run_io_Rd split: prod.splits)

lemma run_pbody [run_simps]:
  "run rd wr (pbody ms f) c s =
     (case run rd wr (pseq ms) c s of (None, s') \<Rightarrow> (None, s') | (Some (_, c'), s') \<Rightarrow> (Some (f c', c'), s'))"
  by (simp add: pbody_def run_simps split: prod.splits option.splits)

lemma run_pseq_Nil [run_simps]: "run rd wr (pseq []) c s = (Some ((), c), s)"
  by (simp add: run_simps)

lemma run_pseq_Cons [run_simps]:
  "run rd wr (pseq (m # ms)) c s =
     (case run rd wr m c s of (None, s') \<Rightarrow> (None, s') | (Some (x, c'), s') \<Rightarrow> run rd wr (pseq ms) c' s')"
  by (simp add: run_pbind)

lemma run_if [run_simps]:
  "run rd wr (if b then m else m') c s = (if b then run rd wr m c s else run rd wr m' c s)"
  by simp

declare pseq.simps [simp del]

lemma pseq_append_run:
  "run rd wr (pseq (ms @ ms')) c s =
     (case run rd wr (pseq ms) c s of (None, s') \<Rightarrow> (None, s') | (Some (x, c'), s') \<Rightarrow> run rd wr (pseq ms') c' s')"
  by (induction ms arbitrary: c s) (auto simp: run_simps split: prod.splits option.splits)

text \<open>A loop whose body succeeds: the folds of its effect on the variables and on the device.\<close>

lemma run_pfor_fold:
  assumes "\<And>i c s. i \<in> set is \<Longrightarrow> run rd wr (f i) c s = (Some ((), g i c), h i c s)"
  shows "run rd wr (pfor is f) c s
    = (Some ((), fold g is c), snd (fold (\<lambda>i (c, s). (g i c, h i c s)) is (c, s)))"
  using assms by (induction "is" arbitrary: c s) (simp_all add: run_simps)

lemma run_pfor_writes:
  assumes "\<And>i c s. i \<in> set is \<Longrightarrow> run rd wr (f i) c s = (Some ((), c), wr s (a i) (b i))"
  shows "run rd wr (pfor is f) c s = (Some ((), c), fold (\<lambda>i s. wr s (a i) (b i)) is s)"
  using assms by (induction "is" arbitrary: c s) (simp_all add: run_simps)

lemma run_pfor_const:
  assumes "\<And>i s. run rd wr (f i) c s = (Some ((), c), h i s)"
  shows "run rd wr (pfor is f) c s = (Some ((), c), fold h is s)"
  using assms by (induction "is" arbitrary: s) (simp_all add: run_simps)


text \<open>A call whose result is not used, and a call on a component of the state.\<close>

definition pdo :: "('s, 'a) prog \<Rightarrow> ('s, unit) prog" where
  "pdo m = pbind m (\<lambda>_. preturn ())"

definition pskip :: "('s, unit) prog" where
  "pskip = preturn ()"

definition pzoom :: "('s \<Rightarrow> 'c) \<Rightarrow> ('c \<Rightarrow> 's \<Rightarrow> 's) \<Rightarrow> ('c, 'a) prog \<Rightarrow> ('s, 'a) prog" where
  "pzoom get put m = (\<lambda>s. bindio (m (get s)) (\<lambda>r. case r of None \<Rightarrow> Ret None | Some (x, c) \<Rightarrow> Ret (Some (x, put c s))))"

lemma run_pdo [run_simps]:
  "run rd wr (pdo m) c s =
     (case run rd wr m c s of (None, s') \<Rightarrow> (None, s') | (Some (_, c'), s') \<Rightarrow> (Some ((), c'), s'))"
  by (simp add: pdo_def run_simps split: prod.splits option.splits)

lemma run_pskip [run_simps]: "run rd wr pskip c s = (Some ((), c), s)"
  by (simp add: pskip_def run_simps)

lemma run_pzoom [run_simps]:
  "run rd wr (pzoom get put m) c s =
     (case run rd wr m (get c) s of (None, s') \<Rightarrow> (None, s') | (Some (x, k), s') \<Rightarrow> (Some (x, put k c), s'))"
  by (auto simp: run_def pzoom_def run_io_bind split: prod.splits option.splits)


section \<open>Programs that end and keep an invariant\<close>

text \<open>
  Whatever is behind the bus, the program returns, and the invariant of its variables holds
  when it does.
\<close>

definition preserves :: "('s \<Rightarrow> bool) \<Rightarrow> ('d \<Rightarrow> u32 \<Rightarrow> u8 \<times> 'd) \<Rightarrow> ('d \<Rightarrow> u32 \<Rightarrow> u8 \<Rightarrow> 'd) \<Rightarrow> ('s, 'a) prog \<Rightarrow> bool" where
  "preserves P rd wr m \<longleftrightarrow> (\<forall>c s. P c \<longrightarrow> (\<exists>x c' s'. run rd wr m c s = (Some (x, c'), s') \<and> P c'))"

named_theorems preserving \<open>statements that keep an invariant\<close>

lemma preserves_pbind [preserving]:
  assumes "preserves P rd wr m" and "\<And>x. preserves P rd wr (f x)"
  shows "preserves P rd wr (pbind m f)"
  unfolding preserves_def
proof (intro allI impI)
  fix c s assume "P c"
  then obtain x c1 s1 where 1: "run rd wr m c s = (Some (x, c1), s1)" "P c1"
    using assms(1) unfolding preserves_def by blast
  then obtain y c' s' where "run rd wr (f x) c1 s1 = (Some (y, c'), s')" "P c'"
    using assms(2) unfolding preserves_def by blast
  then show "\<exists>x c' s'. run rd wr (pbind m f) c s = (Some (x, c'), s') \<and> P c'"
    using 1 by (simp add: run_pbind)
qed

lemma preserves_preturn [preserving]: "preserves P rd wr (preturn x)"
  by (simp add: preserves_def run_simps)

lemma preserves_pskip [preserving]: "preserves P rd wr pskip"
  by (simp add: preserves_def run_simps)

lemma preserves_pget [preserving]: "preserves P rd wr (pget f)"
  by (simp add: preserves_def run_simps)

lemma preserves_pmod: "(\<And>c. P c \<Longrightarrow> P (f c)) \<Longrightarrow> preserves P rd wr (pmod f)"
  by (simp add: preserves_def run_simps)

lemma preserves_pread [preserving]: "preserves P rd wr (pread a)"
  by (simp add: preserves_def run_simps split: prod.splits)

lemma preserves_pwrite [preserving]: "preserves P rd wr (pwrite a b)"
  by (simp add: preserves_def run_simps)

lemma preserves_pwith: "(\<And>c. P c \<Longrightarrow> preserves P rd wr (f c)) \<Longrightarrow> preserves P rd wr (pwith f)"
  unfolding preserves_def by (simp add: run_simps)

lemma preserves_pseq_Nil [preserving]: "preserves P rd wr (pseq [])"
  by (simp add: preserves_def run_simps)

lemma preserves_pseq_Cons [preserving]:
  "preserves P rd wr m \<Longrightarrow> preserves P rd wr (pseq ms) \<Longrightarrow> preserves P rd wr (pseq (m # ms))"
  unfolding pseq.simps by (rule preserves_pbind)

lemma preserves_pbody [preserving]: "preserves P rd wr (pseq ms) \<Longrightarrow> preserves P rd wr (pbody ms f)"
  unfolding pbody_def by (intro preserving)

lemma preserves_pdo [preserving]: "preserves P rd wr m \<Longrightarrow> preserves P rd wr (pdo m)"
  unfolding pdo_def by (intro preserving)

lemma preserves_pfor [preserving]:
  "(\<And>i. i \<in> set is \<Longrightarrow> preserves P rd wr (f i)) \<Longrightarrow> preserves P rd wr (pfor is f)"
proof (induction "is")
  case Nil
  then show ?case by (simp add: preserves_preturn)
next
  case (Cons i "is")
  then show ?case unfolding pfor.simps by (intro preserves_pbind) auto
qed

lemma preserves_if [preserving]:
  "(b \<Longrightarrow> preserves P rd wr m) \<Longrightarrow> (\<not> b \<Longrightarrow> preserves P rd wr m') \<Longrightarrow> preserves P rd wr (if b then m else m')"
  by simp

lemma preserves_pzoom:
  assumes "preserves Q rd wr m" and "\<And>c. P c \<Longrightarrow> Q (get c)" and "\<And>k c. Q k \<Longrightarrow> P c \<Longrightarrow> P (put k c)"
  shows "preserves P rd wr (pzoom get put m)"
  unfolding preserves_def
proof (intro allI impI)
  fix c s assume c: "P c"
  then obtain x k s' where "run rd wr m (get c) s = (Some (x, k), s')" "Q k"
    using assms(1,2) unfolding preserves_def by blast
  then show "\<exists>x c' s'. run rd wr (pzoom get put m) c s = (Some (x, c'), s') \<and> P c'"
    using c assms(3) by (simp add: run_simps)
qed


section \<open>The contract of a peripheral\<close>

text \<open>A program that returns from every state of the device, having written \<open>ws\<close>.\<close>

definition emits_on :: "('d \<Rightarrow> u32 \<Rightarrow> u8 \<times> 'd) \<Rightarrow> ('d \<Rightarrow> u32 \<Rightarrow> u8 \<Rightarrow> 'd) \<Rightarrow> ('d \<Rightarrow> (u32 \<times> u8) list) \<Rightarrow>
    ('s, 'a) prog \<Rightarrow> 's \<Rightarrow> 'a \<Rightarrow> 's \<Rightarrow> (u32 \<times> u8) list \<Rightarrow> bool" where
  "emits_on rd wr log p c x c' ws \<longleftrightarrow>
     (\<forall>s. \<exists>s'. run rd wr p c s = (Some (x, c'), s') \<and> log s' = log s @ ws)"

text \<open>State of the device after \<open>k\<close> polls of register \<open>a\<close>.\<close>

definition polled :: "('d \<Rightarrow> u32 \<Rightarrow> u8 \<times> 'd) \<Rightarrow> u32 \<Rightarrow> nat \<Rightarrow> 'd \<Rightarrow> 'd" where
  "polled rd a k s = ((\<lambda>s. snd (rd s a)) ^^ k) s"

locale bus_log =
  fixes rd :: "'d \<Rightarrow> u32 \<Rightarrow> u8 \<times> 'd"
    and wr :: "'d \<Rightarrow> u32 \<Rightarrow> u8 \<Rightarrow> 'd"
    and log :: "'d \<Rightarrow> (u32 \<times> u8) list"
  assumes log_rd: "log (snd (rd s a)) = log s"
    and log_wr: "log (wr s a b) = log s @ [(a, b)]"
begin

lemma log_writes: "log (fold (\<lambda>i s. wr s (a i) (b i)) is s) = log s @ map (\<lambda>i. (a i, b i)) is"
  by (induction "is" arbitrary: s) (simp_all add: log_wr)

abbreviation emits :: "('s, 'a) prog \<Rightarrow> 's \<Rightarrow> 'a \<Rightarrow> 's \<Rightarrow> (u32 \<times> u8) list \<Rightarrow> bool" where
  "emits \<equiv> emits_on rd wr log"

lemma emits_pbind:
  assumes "emits m c x c1 ws1" and "emits (f x) c1 y c' ws2"
  shows "emits (pbind m f) c y c' (ws1 @ ws2)"
  unfolding emits_on_def
proof
  fix s
  obtain s1 where s1: "run rd wr m c s = (Some (x, c1), s1)" "log s1 = log s @ ws1"
    using assms(1) unfolding emits_on_def by blast
  obtain s2 where s2: "run rd wr (f x) c1 s1 = (Some (y, c'), s2)" "log s2 = log s1 @ ws2"
    using assms(2) unfolding emits_on_def by blast
  show "\<exists>s'. run rd wr (pbind m f) c s = (Some (y, c'), s') \<and> log s' = log s @ ws1 @ ws2"
    using s1 s2 by (simp add: run_pbind)
qed

lemma emits_pseq_Nil: "emits (pseq []) c () c []"
  by (simp add: emits_on_def run_simps)

lemma emits_pseq_Cons:
  assumes "emits m c x c1 ws1" and "emits (pseq ms) c1 () c' ws2"
  shows "emits (pseq (m # ms)) c () c' (ws1 @ ws2)"
  unfolding pseq.simps by (rule emits_pbind [OF assms])

lemma emits_preturn: "emits (preturn x) c x c []"
  by (simp add: emits_on_def run_simps)

lemma emits_pmod: "emits (pmod f) c () (f c) []"
  by (simp add: emits_on_def run_simps)

lemma emits_pwith: "emits (f c) c x c' ws \<Longrightarrow> emits (pwith f) c x c' ws"
  by (simp add: emits_on_def run_simps)

lemma emits_pwrite: "emits (pwrite a b) c () c [(a, b)]"
  by (simp add: emits_on_def run_simps log_wr)

lemma emits_pbody: "emits (pseq ms) c () c' ws \<Longrightarrow> emits (pbody ms f) c (f c') c' ws"
  unfolding emits_on_def by (metis (no_types, lifting) run_pbody case_prod_conv option.simps(5))

lemma emits_pfor:
  assumes "\<And>i. i \<in> set is \<Longrightarrow> emits (f i) c () c (w i)"
  shows "emits (pfor is f) c () c (concat (map w is))"
  using assms
proof (induction "is")
  case Nil
  then show ?case by (simp add: emits_preturn)
next
  case (Cons i "is")
  have "emits (f i) c () c (w i)" "emits (pfor is f) c () c (concat (map w is))"
    using Cons by simp_all
  then show ?case using emits_pbind [of "f i" c "()" c "w i" "\<lambda>_. pfor is f"] by simp
qed

lemma emits_eq: "emits p c x c' ws \<Longrightarrow> c' = c'' \<Longrightarrow> ws = ws' \<Longrightarrow> emits p c x c'' ws'"
  by simp

lemma emits_pskip: "emits pskip c () c []"
  by (simp add: emits_on_def run_simps)

lemma emits_pdo: "emits m c x c' ws \<Longrightarrow> emits (pdo m) c () c' ws"
  unfolding emits_on_def by (metis (no_types, lifting) run_pdo case_prod_conv option.simps(5))

lemma emits_pzoom:
  "emits m (get c) x k ws \<Longrightarrow> emits (pzoom get put m) c x (put k c) ws"
  unfolding emits_on_def by (metis (no_types, lifting) run_pzoom case_prod_conv option.simps(5))

text \<open>Reading a register: the rest must do for every byte.\<close>

lemma emits_pread:
  assumes "\<And>b. emits (f b) c x c' ws"
  shows "emits (pbind (pread a) f) c x c' ws"
  unfolding emits_on_def
proof
  fix s
  obtain b s1 where r: "rd s a = (b, s1)" by force
  then have "log s1 = log s" using log_rd [of s a] by simp
  moreover obtain s' where "run rd wr (f b) c s1 = (Some (x, c'), s')" "log s' = log s1 @ ws"
    using assms unfolding emits_on_def by blast
  ultimately show "\<exists>s'. run rd wr (pbind (pread a) f) c s = (Some (x, c'), s') \<and> log s' = log s @ ws"
    using r by (simp add: run_simps)
qed

end

text \<open>A device that can make the kernel wait, but not longer than \<open>limit\<close> polls.\<close>

locale ready_device = bus_log rd wr log
  for rd :: "'d \<Rightarrow> u32 \<Rightarrow> u8 \<times> 'd"
    and wr :: "'d \<Rightarrow> u32 \<Rightarrow> u8 \<Rightarrow> 'd"
    and log :: "'d \<Rightarrow> (u32 \<times> u8) list" +
  fixes base :: u32
    and ident :: u8
    and limit :: nat
  assumes becomes_ready: "\<exists>k < limit. fst (rd (polled rd base k s) base) = ident"
begin

definition settled :: "'d \<Rightarrow> 'd" where
  "settled s = snd (run rd wr (DeviceBusyWait limit base ident :: (unit, unit) prog) () s)"

lemma wait_step:
  "run rd wr (DeviceBusyWait (Suc n) base ident) c s =
     (if fst (rd s base) \<noteq> ident then run rd wr (DeviceBusyWait n base ident) c (snd (rd s base))
      else (Some ((), c), snd (rd s base)))"
  by (simp add: run_def run_io_Rd split: prod.splits)

lemma wait_ends:
  assumes "fst (rd (polled rd base k s) base) = ident" and "k < n" and "k < n'"
  shows "\<exists>s'. run rd wr (DeviceBusyWait n base ident :: ('s, unit) prog) c s = (Some ((), c), s')
    \<and> run rd wr (DeviceBusyWait n' base ident :: ('t, unit) prog) c' s = (Some ((), c'), s')
    \<and> log s' = log s"
  using assms
proof (induction k arbitrary: n n' s)
  case 0
  then obtain m m' where "n = Suc m" "n' = Suc m'" by (metis not_less0 not0_implies_Suc)
  with 0 show ?case by (simp only: wait_step) (simp add: polled_def log_rd)
next
  case (Suc k)
  then obtain m m' where n: "n = Suc m" "n' = Suc m'" by (metis not_less0 not0_implies_Suc)
  show ?case
  proof (cases "fst (rd s base) = ident")
    case True
    then show ?thesis unfolding n by (simp only: wait_step) (simp add: log_rd)
  next
    case False
    have "fst (rd (polled rd base k (snd (rd s base))) base) = ident"
      using Suc.prems(1) by (simp add: polled_def funpow_Suc_right del: funpow.simps)
    then obtain s' where
      "run rd wr (DeviceBusyWait m base ident) c (snd (rd s base)) = (Some ((), c), s')"
      "run rd wr (DeviceBusyWait m' base ident) c' (snd (rd s base)) = (Some ((), c'), s')"
      "log s' = log (snd (rd s base))"
      using Suc.IH [of "snd (rd s base)" m m'] Suc.prems(2,3) n by blast
    then show ?thesis using False unfolding n by (simp only: wait_step) (simp add: log_rd)
  qed
qed

text \<open>A bound that covers the device's delay is as good as waiting for ever.\<close>

lemma run_wait:
  assumes "limit \<le> n"
  shows "run rd wr (DeviceBusyWait n base ident) c s = (Some ((), c), settled s)"
proof -
  obtain k where "k < limit" "fst (rd (polled rd base k s) base) = ident"
    using becomes_ready by blast
  then show ?thesis
    using wait_ends [of k s n limit c "()"] assms by (auto simp: settled_def)
qed

lemma log_settled: "log (settled s) = log s"
proof -
  obtain k where "k < limit" "fst (rd (polled rd base k s) base) = ident"
    using becomes_ready by blast
  then show ?thesis
    using wait_ends [of k s limit limit "()" "()"] by (auto simp: settled_def)
qed

lemmas log_simps = log_rd log_wr log_settled log_writes

end

text \<open>
  A concrete peripheral: it keeps the writes made to it, and reads as busy for \<open>delay\<close> reads
  after each of them.
\<close>

record history_device =
  history :: "(u32 \<times> u8) list"
  reads_since :: nat

definition history_rd :: "nat \<Rightarrow> u8 \<Rightarrow> history_device \<Rightarrow> u32 \<Rightarrow> u8 \<times> history_device" where
  "history_rd delay ident d a =
     (if delay \<le> reads_since d then ident else 0, d\<lparr>reads_since := Suc (reads_since d)\<rparr>)"

definition history_wr :: "history_device \<Rightarrow> u32 \<Rightarrow> u8 \<Rightarrow> history_device" where
  "history_wr d a b = \<lparr>history = history d @ [(a, b)], reads_since = 0\<rparr>"

lemma history_polled:
  "polled (history_rd delay ident) a k d = d\<lparr>reads_since := reads_since d + k\<rparr>"
  by (induction k) (simp_all add: polled_def history_rd_def)

lemma history_ready: "ready_device (history_rd delay ident) history_wr history base ident (Suc delay)"
proof unfold_locales
  show "\<exists>k < Suc delay. fst (history_rd delay ident (polled (history_rd delay ident) base k d) base) = ident" for d
    by (intro exI [of _ delay]) (simp add: history_polled history_rd_def)
qed (simp_all add: history_rd_def history_wr_def)

interpretation hist: ready_device "history_rd delay ident" history_wr history base ident "Suc delay"
  for delay ident base
  by (rule history_ready)

definition idle_device :: history_device where
  "idle_device = \<lparr>history = [], reads_since = 0\<rparr>"

end
