(* ===== verification/Keyboard.thy ===== *)
theory Keyboard
  imports PortIO
begin

text \<open>
  The PS/2 keyboard driver of the Retroboard REV2 (drivers/keyboard/PS2/main.c): the decoder of
  the two scan-code bytes that the controller holds, and the polling of it. The decoder
  knows each key under one scan code; the shift keys are the exception, and are decoded to
  a code for pressed and one for released.
\<close>

section \<open>The decoder\<close>

definition left_shift_down :: "u8 \<Rightarrow> u8 \<Rightarrow> bool" where
  "left_shift_down scancode_low scancode_high \<longleftrightarrow>
     scancode_low \<in> {0x98, 0x99, 0x92, 0x91, 0x90, 0x9a, 0x9b} \<and> scancode_high = 0xc4"

definition right_shift_down :: "u8 \<Rightarrow> u8 \<Rightarrow> bool" where
  "right_shift_down scancode_low scancode_high \<longleftrightarrow>
     scancode_low \<in> {0x58, 0x59, 0x52, 0x51, 0x50, 0x5a, 0x5b} \<and> scancode_high = 0xd6"

definition decode_df :: "u8 \<Rightarrow> u8" where
  "decode_df scancode_high =
     (if scancode_high = 0x9a then 0x05
      else if scancode_high = 0x96 then ch CHR '']''
      else if scancode_high = 0x90 then ch CHR ''i''
      else if scancode_high = 0xc6 then ch CHR ''s''
      else if scancode_high = 0x88 then ch CHR ''d''
      else if scancode_high = 0xca then ch CHR ''f''
      else if scancode_high = 0xcc then ch CHR ''h''
      else if scancode_high = 0x8e then ch CHR ''j''
      else if scancode_high = 0xd2 then ch CHR ''l''
      else 0x00)"

definition decode_9f :: "u8 \<Rightarrow> u8" where
  "decode_9f scancode_high =
     (if scancode_high = 0xc4 then 0x12
      else if scancode_high = 0xd9 then 0x01
      else if scancode_high = 0xd6 then 0x02
      else if scancode_high = 0xdc then 0x04
      else if scancode_high = 0xd3 then ch CHR ''-''
      else if scancode_high = 0x83 then ch CHR ''`''
      else if scancode_high = 0x9d then 0x07
      else if scancode_high = 0x92 then ch CHR ''/''
      else if scancode_high = 0x94 then 0x27
      else if scancode_high = 0x91 then ch CHR ''9''
      else if scancode_high = 0x8f then ch CHR ''8''
      else if scancode_high = 0xcd then ch CHR ''6''
      else if scancode_high = 0xcb then ch CHR ''5''
      else if scancode_high = 0x89 then ch CHR ''3''
      else if scancode_high = 0xc7 then ch CHR ''2''
      else if scancode_high = 0x85 then ch CHR ''1''
      else if scancode_high = 0x86 then ch CHR ''z''
      else if scancode_high = 0xc8 then ch CHR ''x''
      else if scancode_high = 0x8a then ch CHR ''v''
      else if scancode_high = 0x8c then ch CHR ''b''
      else if scancode_high = 0xce then ch CHR ''m''
      else if scancode_high = 0xd0 then ch CHR ''k''
      else 0x00)"

definition decode_5f :: "u8 \<Rightarrow> u8" where
  "decode_5f scancode_high =
     (if scancode_high = 0xd6 then 0x12
      else if scancode_high = 0x9d then 0x03
      else if scancode_high = 0x8a then 0x20
      else if scancode_high = 0xc4 then 0x09
      else if scancode_high = 0xd5 then ch CHR ''=''
      else if scancode_high = 0xdc then 0x10
      else if scancode_high = 0xd0 then ch CHR '',''
      else if scancode_high = 0x92 then ch CHR ''.''
      else if scancode_high = 0x97 then 0x5c
      else if scancode_high = 0x91 then ch CHR ''0''
      else if scancode_high = 0x8f then ch CHR ''7''
      else if scancode_high = 0x89 then ch CHR ''4''
      else if scancode_high = 0xc8 then ch CHR ''c''
      else if scancode_high = 0x8c then ch CHR ''n''
      else if scancode_high = 0x85 then ch CHR ''q''
      else if scancode_high = 0xc7 then ch CHR ''w''
      else if scancode_high = 0xcb then ch CHR ''r''
      else if scancode_high = 0xcd then ch CHR ''y''
      else if scancode_high = 0xd3 then ch CHR ''p''
      else 0x00)"

definition decode_1f :: "u8 \<Rightarrow> u8" where
  "decode_1f scancode_high =
     (if scancode_high = 0xdd then 0x06
      else if scancode_high = 0xc5 then 0x08
      else if scancode_high = 0x93 then ch CHR '';''
      else if scancode_high = 0x95 then ch CHR ''[''
      else if scancode_high = 0xc9 then ch CHR ''e''
      else if scancode_high = 0x8b then ch CHR ''t''
      else if scancode_high = 0xcf then ch CHR ''u''
      else if scancode_high = 0xd1 then ch CHR ''o''
      else if scancode_high = 0x87 then ch CHR ''a''
      else if scancode_high = 0x8d then ch CHR ''g''
      else 0x00)"

definition kbDecodeScanCode :: "u8 \<Rightarrow> u8 \<Rightarrow> u8" where
  "kbDecodeScanCode scancode_low scancode_high =
     (if left_shift_down scancode_low scancode_high then 0x11
      else if right_shift_down scancode_low scancode_high then 0x11
      else if scancode_low = 0xdf then decode_df scancode_high
      else if scancode_low = 0x9f then decode_9f scancode_high
      else if scancode_low = 0x5f then decode_5f scancode_high
      else if scancode_low = 0x1f then decode_1f scancode_high
      else 0x00)"

text \<open>
  The two bytes are read one after the other, the low one first; \<open>keyboard\<close> is the driver's
  \<open>hardware_address\<close>.
\<close>

definition read_scan_code :: "u32 \<Rightarrow> ('s, u8 \<times> u8) prog" where
  "read_scan_code keyboard =
     pbind (pread (keyboard + 0x00000)) (\<lambda>low. pbind (pread (keyboard + 0x00001)) (\<lambda>high.
       preturn (low, high)))"


section \<open>The keys\<close>

text \<open>Every key the decoder knows, shift keys left out, with what it decodes to.\<close>

definition key_table :: "((u8 \<times> u8) \<times> u8) list" where
  "key_table =
     [((0xdf, 0x9a), 0x05), ((0xdf, 0x96), ch CHR '']''), ((0xdf, 0x90), ch CHR ''i''),
      ((0xdf, 0xc6), ch CHR ''s''), ((0xdf, 0x88), ch CHR ''d''), ((0xdf, 0xca), ch CHR ''f''),
      ((0xdf, 0xcc), ch CHR ''h''), ((0xdf, 0x8e), ch CHR ''j''), ((0xdf, 0xd2), ch CHR ''l''),
      ((0x9f, 0xd9), 0x01), ((0x9f, 0xd6), 0x02),
      ((0x9f, 0xdc), 0x04), ((0x9f, 0xd3), ch CHR ''-''), ((0x9f, 0x83), ch CHR ''`''),
      ((0x9f, 0x9d), 0x07), ((0x9f, 0x92), ch CHR ''/''), ((0x9f, 0x94), 0x27),
      ((0x9f, 0x91), ch CHR ''9''), ((0x9f, 0x8f), ch CHR ''8''), ((0x9f, 0xcd), ch CHR ''6''),
      ((0x9f, 0xcb), ch CHR ''5''), ((0x9f, 0x89), ch CHR ''3''), ((0x9f, 0xc7), ch CHR ''2''),
      ((0x9f, 0x85), ch CHR ''1''), ((0x9f, 0x86), ch CHR ''z''), ((0x9f, 0xc8), ch CHR ''x''),
      ((0x9f, 0x8a), ch CHR ''v''), ((0x9f, 0x8c), ch CHR ''b''), ((0x9f, 0xce), ch CHR ''m''),
      ((0x9f, 0xd0), ch CHR ''k''), ((0x5f, 0x9d), 0x03),
      ((0x5f, 0x8a), 0x20), ((0x5f, 0xc4), 0x09), ((0x5f, 0xd5), ch CHR ''=''),
      ((0x5f, 0xdc), 0x10), ((0x5f, 0xd0), ch CHR '',''), ((0x5f, 0x92), ch CHR ''.''),
      ((0x5f, 0x97), 0x5c), ((0x5f, 0x91), ch CHR ''0''), ((0x5f, 0x8f), ch CHR ''7''),
      ((0x5f, 0x89), ch CHR ''4''), ((0x5f, 0xc8), ch CHR ''c''), ((0x5f, 0x8c), ch CHR ''n''),
      ((0x5f, 0x85), ch CHR ''q''), ((0x5f, 0xc7), ch CHR ''w''), ((0x5f, 0xcb), ch CHR ''r''),
      ((0x5f, 0xcd), ch CHR ''y''), ((0x5f, 0xd3), ch CHR ''p''), ((0x1f, 0xdd), 0x06),
      ((0x1f, 0xc5), 0x08), ((0x1f, 0x93), ch CHR '';''), ((0x1f, 0x95), ch CHR ''[''),
      ((0x1f, 0xc9), ch CHR ''e''), ((0x1f, 0x8b), ch CHR ''t''), ((0x1f, 0xcf), ch CHR ''u''),
      ((0x1f, 0xd1), ch CHR ''o''), ((0x1f, 0x87), ch CHR ''a''), ((0x1f, 0x8d), ch CHR ''g'')]"

definition key_of :: "u8 \<Rightarrow> (u8 \<times> u8) option" where
  "key_of c = map_of (map (\<lambda>(k, c). (c, k)) key_table) c"

definition shift_code :: "u8 \<Rightarrow> bool" where
  "shift_code c \<longleftrightarrow> c = 0x11 \<or> c = 0x12"

lemmas decode_defs = decode_df_def decode_9f_def decode_5f_def decode_1f_def

lemma decode_groups:
  "decode_df h = 0 \<or> key_of (decode_df h) = Some (0xdf, h)"
  "decode_9f h = 0 \<or> shift_code (decode_9f h) \<or> key_of (decode_9f h) = Some (0x9f, h)"
  "decode_5f h = 0 \<or> shift_code (decode_5f h) \<or> key_of (decode_5f h) = Some (0x5f, h)"
  "decode_1f h = 0 \<or> key_of (decode_1f h) = Some (0x1f, h)"
  by (simp_all add: decode_defs key_of_def key_table_def shift_code_def ch_def)

lemma decode_key:
  "kbDecodeScanCode l h = 0 \<or> shift_code (kbDecodeScanCode l h) \<or> key_of (kbDecodeScanCode l h) = Some (l, h)"
proof -
  have "shift_code 0x11" by (simp add: shift_code_def)
  then show ?thesis
    using decode_groups [of h] by (auto simp: kbDecodeScanCode_def)
qed

lemma key_table_decodes:
  "list_all (\<lambda>((l, h), c). kbDecodeScanCode l h = c \<and> c \<noteq> 0 \<and> \<not> shift_code c) key_table"
  by (simp add: key_table_def kbDecodeScanCode_def decode_defs left_shift_down_def
      right_shift_down_def shift_code_def ch_def)

lemma key_decodes:
  "((l, h), c) \<in> set key_table \<Longrightarrow> kbDecodeScanCode l h = c \<and> c \<noteq> 0 \<and> \<not> shift_code c"
  using key_table_decodes by (auto simp: list_all_iff)

lemma shift_codes:
  "kbDecodeScanCode l h = 0x11 \<longleftrightarrow> left_shift_down l h \<or> right_shift_down l h"
  "kbDecodeScanCode l h = 0x12 \<longleftrightarrow> (l, h) \<in> {(0x9f, 0xc4), (0x5f, 0xd6)}"
proof -
  have "decode_df h \<noteq> 0x11" "decode_df h \<noteq> 0x12" "decode_9f h \<noteq> 0x11" "decode_5f h \<noteq> 0x11"
    "decode_1f h \<noteq> 0x11" "decode_1f h \<noteq> 0x12"
    "decode_9f h = 0x12 \<longleftrightarrow> h = 0xc4" "decode_5f h = 0x12 \<longleftrightarrow> h = 0xd6"
    by (simp_all add: decode_defs ch_def)
  then show "kbDecodeScanCode l h = 0x11 \<longleftrightarrow> left_shift_down l h \<or> right_shift_down l h"
    "kbDecodeScanCode l h = 0x12 \<longleftrightarrow> (l, h) \<in> {(0x9f, 0xc4), (0x5f, 0xd6)}"
    by (auto simp: kbDecodeScanCode_def left_shift_down_def right_shift_down_def)
qed

lemma reachable_codes:
  "list_all (\<lambda>c. key_of c \<noteq> None)
     (str ''abcdefghijklmnopqrstuvwxyz0123456789 ,./;'' @ map word_of_nat [1, 2, 3, 4, 5, 6, 7, 8, 9])"
  by code_simp

text \<open>
  The scan-code decoder tells keys apart: a code other than 0 (no key) and the two shift
  codes belongs to exactly one pair of bytes, every key of the table is decoded, the shift codes
  belong to the shift keys, and all lower-case letters, digits and the control keys are reachable.
\<close>

theorem kbDecodeScanCode_keys:
  "((kbDecodeScanCode l h = c \<and> c \<notin> {0, 0x11, 0x12}) \<longleftrightarrow> key_of c = Some (l, h))
   \<and> (kbDecodeScanCode l h = 0x11 \<longleftrightarrow> left_shift_down l h \<or> right_shift_down l h)
   \<and> (kbDecodeScanCode l h = 0x12 \<longleftrightarrow> (l, h) \<in> {(0x9f, 0xc4), (0x5f, 0xd6)})
   \<and> list_all (\<lambda>c. key_of c \<noteq> None)
       (str ''abcdefghijklmnopqrstuvwxyz0123456789 ,./;'' @ map word_of_nat [1, 2, 3, 4, 5, 6, 7, 8, 9])"
proof (intro conjI)
  show "(kbDecodeScanCode l h = c \<and> c \<notin> {0, 0x11, 0x12}) \<longleftrightarrow> key_of c = Some (l, h)"
  proof
    assume "kbDecodeScanCode l h = c \<and> c \<notin> {0, 0x11, 0x12}"
    then show "key_of c = Some (l, h)" using decode_key [of l h] by (auto simp: shift_code_def)
  next
    assume "key_of c = Some (l, h)"
    then have "((l, h), c) \<in> set key_table" unfolding key_of_def by (auto dest!: map_of_SomeD)
    then show "kbDecodeScanCode l h = c \<and> c \<notin> {0, 0x11, 0x12}"
      using key_decodes by (auto simp: shift_code_def)
  qed
qed (rule shift_codes reachable_codes)+

end
