(* ===== verification/Console.thy ===== *)
theory Console
  imports PortIO CString
begin

text \<open>
  The console: its variables (kernel/command/cli.c), the print functions
  (kernel/syscalls/print/print.c), the cursor functions of cli.c and the display commands of
  kernel/syscalls/graphics/graphics.c. The display is a peripheral whose registers are written
  one byte at a time; before a command the code waits until it is ready
  (\<open>__glBusyWait\<close>). What each function leaves on the display is its sequence of register writes.
\<close>

section \<open>State\<close>

record command =
  command_name :: buffer
  command_function :: nat   \<comment> \<open>0 is nullptr; what a function does is an argument of the interpreter\<close>

record console =
  poll_limit :: nat         \<comment> \<open>bound on the reads of one polling loop\<close>
  display :: u32            \<comment> \<open>\<open>displayDevice->device.hardware_address\<close>\<close>
  keyboard :: u32           \<comment> \<open>\<open>keyboadDevice->device.hardware_address\<close>\<close>
  console_string :: buffer
  console_string_old :: buffer
  console_string_length :: u8
  console_string_length_old :: u8
  parameters_begin :: u8
  console_position :: u8
  console_line :: u8
  console_width :: u8
  console_height :: u8
  oldScanCodeLow :: u8
  oldScanCodeHigh :: u8
  lastChar :: u8
  shiftState :: u8
  console_prompt :: buffer
  console_prompt_length :: u8
  cursor_blink_rate :: u8
  displayRows :: u16
  displayColumbs :: u16
  CommandRegistry :: "nat \<Rightarrow> command"

definition CONSOLE_STRING_LENGTH :: nat where "CONSOLE_STRING_LENGTH = 40"
definition CONSOLE_FUNCTION_NAME_LENGTH :: nat where "CONSOLE_FUNCTION_NAME_LENGTH = 10"
definition CONSOLE_FUNCTION_TABLE_SIZE :: nat where "CONSOLE_FUNCTION_TABLE_SIZE = 8"
definition CURSOR_BLINK_RATE :: u8 where "CURSOR_BLINK_RATE = 60"

text \<open>The values that the C initialisers give; the arrays without one are zero.\<close>

definition console_initial :: "nat \<Rightarrow> console" where
  "console_initial limit =
     \<lparr>poll_limit = limit, display = 0, keyboard = 0,
      console_string = (\<lambda>_. 0), console_string_old = (\<lambda>_. 0),
      console_string_length = 0, console_string_length_old = 0, parameters_begin = 0,
      console_position = 0, console_line = 0, console_width = 21, console_height = 8,
      oldScanCodeLow = 0, oldScanCodeHigh = 0, lastChar = 0, shiftState = 0,
      console_prompt = (\<lambda>_. 0), console_prompt_length = 1,
      cursor_blink_rate = CURSOR_BLINK_RATE, displayRows = 8, displayColumbs = 21,
      CommandRegistry = (\<lambda>_. \<lparr>command_name = (\<lambda>_. 0), command_function = 0\<rparr>)\<rparr>"

text \<open>
  Functions of the console run in any state that extends the console's variables by others, which they
  leave alone: the kernel adds its table of open files to them (theory Boot).
\<close>

type_synonym ('x, 'a) con = "('x console_scheme, 'a) prog"


section \<open>The display\<close>

text \<open>\<open>displayDevice->write(address, byte)\<close>, where the byte is an expression over the state.\<close>

definition dwrite :: "u32 \<Rightarrow> ('x console_scheme \<Rightarrow> u8) \<Rightarrow> ('x, unit) con" where
  "dwrite address byte = pwith (\<lambda>c. pwrite (display c + address) (byte c))"

definition glBusyWait :: "('x, unit) con" where
  "glBusyWait = pwith (\<lambda>c. DeviceBusyWait (poll_limit c) (display c) 0x10)"

definition swapBuffers :: "('x, unit) con" where
  "swapBuffers = pseq [glBusyWait, dwrite 0x0000F (\<lambda>c. 1)]"

definition glInit :: "u8 \<Rightarrow> ('x, u8) con" where
  "glInit mode = pbody [glBusyWait, dwrite 0x00000 (\<lambda>c. mode)] (\<lambda>c. 1)"

definition glBufferSetSize :: "u8 \<Rightarrow> ('x, unit) con" where
  "glBufferSetSize sz = pseq [glBusyWait, dwrite 0x00008 (\<lambda>c. sz)]"

text \<open>
  A float is its four bytes, as \<open>union FloatBytes\<close> gives them: the conversion is that of the
  compiler.
\<close>

definition glUniformTranslate :: "(nat \<Rightarrow> u8) \<Rightarrow> (nat \<Rightarrow> u8) \<Rightarrow> (nat \<Rightarrow> u8) \<Rightarrow> ('x, unit) con" where
  "glUniformTranslate x y z =
     (let offset = 0 in
      pseq
       [glBusyWait,
        dwrite 0x00007 (\<lambda>c. 4),
        pfor [0..<4] (\<lambda>i. pseq
         [dwrite (0x000010 + of_nat i + offset) (\<lambda>c. x i),
          dwrite (0x000010 + of_nat i + 4 + offset) (\<lambda>c. y i),
          dwrite (0x000010 + of_nat i + 8 + offset) (\<lambda>c. z i)]),
        dwrite 0x00007 (\<lambda>c. 0)])"

definition glUniformRotation :: "(nat \<Rightarrow> u8) \<Rightarrow> (nat \<Rightarrow> u8) \<Rightarrow> (nat \<Rightarrow> u8) \<Rightarrow> ('x, unit) con" where
  "glUniformRotation yaw pitch roll =
     (let offset = 12 in
      pseq
       [glBusyWait,
        dwrite 0x00007 (\<lambda>c. 4),
        pfor [0..<4] (\<lambda>i. pseq
         [dwrite (0x000010 + of_nat i + offset) (\<lambda>c. yaw i),
          dwrite (0x000010 + of_nat i + 4 + offset) (\<lambda>c. pitch i),
          dwrite (0x000010 + of_nat i + 8 + offset) (\<lambda>c. roll i)]),
        dwrite 0x00007 (\<lambda>c. 0)])"

definition glUniformScale :: "(nat \<Rightarrow> u8) \<Rightarrow> ('x, unit) con" where
  "glUniformScale scale =
     (let offset = 24 in
      pseq
       [glBusyWait,
        dwrite 0x00007 (\<lambda>c. 4),
        pfor [0..<4] (\<lambda>i. dwrite (0x000010 + of_nat i + offset) (\<lambda>c. scale i)),
        dwrite 0x00007 (\<lambda>c. 0)])"

definition glBegin :: "u8 \<Rightarrow> ('x, unit) con" where
  "glBegin primitive = pseq [glBusyWait, dwrite 0x0000A (\<lambda>c. primitive)]"

text \<open>\<open>union Resigner\<close> keeps the bits of a signed byte, so the buffer is one of bytes.\<close>

definition glBufferData :: "buffer \<Rightarrow> u16 \<Rightarrow> ('x, unit) con" where
  "glBufferData buf sz =
     pseq
      [glBusyWait,
       dwrite 0x00001 (\<lambda>c. 0),
       dwrite 0x00002 (\<lambda>c. 0),
       dwrite 0x00007 (\<lambda>c. 3),
       pfor [0..<unat sz] (\<lambda>i. dwrite (ucast (0x00010 + of_nat i :: u16)) (\<lambda>c. buf i)),
       dwrite 0x00007 (\<lambda>c. 0),
       dwrite 0x00008 (\<lambda>c. ucast (sz div 10))]"

definition glDrawBuffer :: "u8 \<Rightarrow> u8 \<Rightarrow> ('x, unit) con" where
  "glDrawBuffer begin_at sz =
     pseq
      [glBusyWait,
       dwrite 0x0000C (\<lambda>c. begin_at),
       dwrite 0x0000D (\<lambda>c. sz),
       dwrite 0x0000E (\<lambda>c. 1),
       glBusyWait]"

text \<open>The character is not used by the code.\<close>

definition glClear :: "u8 \<Rightarrow> ('x, unit) con" where
  "glClear character = pseq [glBusyWait, dwrite 0x00009 (\<lambda>c. 1)]"


section \<open>The cursor\<close>

definition ConsoleSetBlinkRate :: "u8 \<Rightarrow> ('x, unit) con" where
  "ConsoleSetBlinkRate rate =
     pseq [pmod (cursor_blink_rate_update (\<lambda>_. rate)), glBusyWait, dwrite 3 (\<lambda>c. rate)]"

definition ConsoleSetCursor :: "u8 \<Rightarrow> u8 \<Rightarrow> ('x, unit) con" where
  "ConsoleSetCursor line position =
     pseq
      [pmod (console_line_update (\<lambda>_. line)),
       pmod (console_position_update (\<lambda>_. position)),
       glBusyWait,
       dwrite 1 console_line,
       dwrite 2 console_position]"

definition ConsoleSetCursorPosition :: "u8 \<Rightarrow> ('x, unit) con" where
  "ConsoleSetCursorPosition position =
     pseq
      [pmod (console_position_update (\<lambda>_. position)),
       glBusyWait,
       dwrite 2 console_position]"

definition ConsoleCursorEnable :: "('x, unit) con" where
  "ConsoleCursorEnable = pseq [glBusyWait, dwrite 3 cursor_blink_rate]"

definition ConsoleCursorDisable :: "('x, unit) con" where
  "ConsoleCursorDisable = pseq [glBusyWait, dwrite 3 (\<lambda>c. 0)]"

definition set_prompt :: "buffer \<Rightarrow> u8 \<Rightarrow> 'x console_scheme \<Rightarrow> 'x console_scheme" where
  "set_prompt prompt len c =
     c\<lparr>console_prompt := (\<lambda>i. if i < unat len then prompt i else console_prompt c i),
       console_prompt_length := len\<rparr>"

definition ConsoleSetPrompt :: "buffer \<Rightarrow> u8 \<Rightarrow> ('x, unit) con" where
  "ConsoleSetPrompt prompt len = pmod (set_prompt prompt len)"

definition ConsoleClearScreen :: "u8 \<Rightarrow> ('x, unit) con" where
  "ConsoleClearScreen clearToCharacter =
     pseq
      [glBusyWait,
       pfor [0..<8] (\<lambda>l. pseq
        [dwrite 0x00001 (\<lambda>c. of_nat l),
         dwrite 0x00002 (\<lambda>c. 0),
         pfor [0..<21] (\<lambda>i. dwrite (0x00010 + of_nat i) (\<lambda>c. clearToCharacter))]),
       swapBuffers]"

definition ConsoleGetCursorPosition :: "'x console_scheme \<Rightarrow> u8" where
  "ConsoleGetCursorPosition c = console_position c"

definition ConsoleGetCursorLine :: "'x console_scheme \<Rightarrow> u8" where
  "ConsoleGetCursorLine c = console_line c"

text \<open>The width and height arguments have 16 bits, the variables 8.\<close>

definition ConsoleSetDisplayWidth :: "u16 \<Rightarrow> 'x console_scheme \<Rightarrow> 'x console_scheme" where
  "ConsoleSetDisplayWidth width c = c\<lparr>console_width := ucast width\<rparr>"

definition ConsoleSetDisplayHeight :: "u16 \<Rightarrow> 'x console_scheme \<Rightarrow> 'x console_scheme" where
  "ConsoleSetDisplayHeight height c = c\<lparr>console_height := ucast height\<rparr>"

definition ConsoleGetDisplayWidth :: "'x console_scheme \<Rightarrow> u16" where
  "ConsoleGetDisplayWidth c = ucast (console_width c)"

definition ConsoleGetDisplayHeight :: "'x console_scheme \<Rightarrow> u16" where
  "ConsoleGetDisplayHeight c = ucast (console_height c)"


section \<open>Printing\<close>

text \<open>
  \<open>printc\<close> prints a string up to its NUL. Its index has 8 bits, so without a NUL among the first 256
  characters the loop does not end.
\<close>

definition c_string_length :: "buffer \<Rightarrow> nat option" where
  "c_string_length s = find (\<lambda>i. s i = 0) [0..<256]"

definition printc :: "buffer \<Rightarrow> ('x, unit) con" where
  "printc s =
     pseq
      [glBusyWait,
       dwrite 0x00001 console_line,
       (case c_string_length s of
          None \<Rightarrow> (\<lambda>c. Ret None)
        | Some n \<Rightarrow> pfor [0..<n] (\<lambda>i. pseq
           [dwrite 0x00002 console_position,
            dwrite 0x00010 (\<lambda>c. s i),
            pmod (console_position_update (\<lambda>p. p + 1))])),
       pwith (\<lambda>c. ConsoleSetCursorPosition (console_position c))]"

text \<open>The length given to \<open>print\<close> counts the terminating NUL, which is not printed.\<close>

definition print :: "buffer \<Rightarrow> u8 \<Rightarrow> ('x, unit) con" where
  "print s len =
     pseq
      [glBusyWait,
       dwrite 0x00001 console_line,
       pfor [0..<unat len - 1] (\<lambda>i. pseq
        [dwrite (0x00010 + of_nat i) (\<lambda>c. s i),
         pmod (console_position_update (\<lambda>p. p + 1))])]"

definition printChar :: "u8 \<Rightarrow> ('x, unit) con" where
  "printChar character =
     pseq
      [glBusyWait,
       dwrite 0x00001 console_line,
       dwrite 0x00002 console_position,
       dwrite 0x00010 (\<lambda>c. character),
       pmod (console_position_update (\<lambda>p. p + 1))]"

text \<open>The contents of the local array \<open>string\<close> before \<open>int_to_string\<close> are not read.\<close>

definition printInt :: "u32 \<Rightarrow> ('x, unit) con" where
  "printInt integer =
     (let (place, s) = int_to_string integer (\<lambda>_. 0) in
      if integer = 0 then printChar (ch CHR ''0'')
      else
        let place = (if place = 0 then place + 1 else place) in
        pseq
         [glBusyWait,
          dwrite 0x00001 console_line,
          dwrite 0x00002 console_position,
          pfor [0..<unat place] (\<lambda>i. dwrite (0x00010 + of_nat i) (\<lambda>c. s i)),
          pmod (console_position_update (\<lambda>p. p + (place div 2 + 1))),
          pwith (\<lambda>c. ConsoleSetCursorPosition (console_position c))])"

definition printLn :: "('x, unit) con" where
  "printLn =
     pseq
      [glBusyWait,
       pwith (\<lambda>c.
         if ucast (console_line c) < displayRows c - 1
         then pseq [pmod (console_line_update (\<lambda>l. l + 1)), dwrite 0x00001 console_line]
         else dwrite 0x00005 (\<lambda>c. 1)),
       pmod (console_position_update (\<lambda>_. 0)),
       pwith (\<lambda>c. ConsoleSetCursor (console_line c) (console_position c))]"

definition printSpace :: "u8 \<Rightarrow> ('x, unit) con" where
  "printSpace numberOfSpaces =
     pseq
      [glBusyWait,
       dwrite 0x00001 console_line,
       pfor [0..<unat numberOfSpaces] (\<lambda>i. pseq
        [dwrite 0x00002 console_position,
         dwrite (0x00010 + of_nat i) (\<lambda>c. ch CHR '' ''),
         pmod (console_position_update (\<lambda>p. p + 1))]),
       pwith (\<lambda>c. ConsoleSetCursorPosition (console_position c))]"

definition printPrompt :: "('x, unit) con" where
  "printPrompt =
     pseq
      [glBusyWait,
       dwrite 0x00001 console_line,
       dwrite 0x00002 (\<lambda>c. 0),
       pwith (\<lambda>c. pfor [0..<unat (console_prompt_length c) - 1] (\<lambda>i.
         dwrite (0x00010 + of_nat i) (\<lambda>c. console_prompt c i))),
       pmod (\<lambda>c. c\<lparr>console_position := console_prompt_length c - 1\<rparr>),
       pwith (\<lambda>c. ConsoleSetCursorPosition (console_position c))]"



section \<open>What reaches the display\<close>

text \<open>
  The effects on the variables, and the register writes: pairs of register number and byte.
\<close>

definition at_display :: "'x console_scheme \<Rightarrow> (u32 \<times> u8) list \<Rightarrow> (u32 \<times> u8) list" where
  "at_display c ws = map (\<lambda>(r, b). (display c + r, b)) ws"

lemma at_display_simps [simp]:
  "at_display c [] = []"
  "at_display c ((r, b) # ws) = (display c + r, b) # at_display c ws"
  "at_display c (ws @ ws') = at_display c ws @ at_display c ws'"
  "at_display c (map (\<lambda>i. (f i, g i)) is) = map (\<lambda>i. (display c + f i, g i)) is"
  by (simp_all add: at_display_def)

definition line_down :: "'x console_scheme \<Rightarrow> 'x console_scheme" where
  "line_down c = c\<lparr>console_line := (if ucast (console_line c) < displayRows c - 1
     then console_line c + 1 else console_line c), console_position := 0\<rparr>"

definition line_down_writes :: "'x console_scheme \<Rightarrow> (u32 \<times> u8) list" where
  "line_down_writes c =
     (if ucast (console_line c) < displayRows c - 1 then [(1, console_line c + 1)] else [(5, 1)])
     @ [(1, console_line (line_down c)), (2, 0)]"

definition text_writes :: "buffer \<Rightarrow> nat \<Rightarrow> (u32 \<times> u8) list" where
  "text_writes s n = map (\<lambda>i. (0x10 + of_nat i, s i)) [0..<n]"

definition clear_writes :: "u8 \<Rightarrow> (u32 \<times> u8) list" where
  "clear_writes x = concat (map (\<lambda>l. (1, of_nat l) # (2, 0) # text_writes (\<lambda>_. x) 21) [0..<8]) @ [(0xF, 1)]"

lemma fold_position:
  "fold (\<lambda>i. console_position_update (\<lambda>p. p + 1)) is c
     = c\<lparr>console_position := console_position c + of_nat (length is)\<rparr>"
  by (induction "is" arbitrary: c) (simp_all add: ac_simps)

lemma fold_ident: "fold (\<lambda>i c. c) is c = c"
  by (induction "is") simp_all

lemma concat_map_singleton: "concat (map (\<lambda>i. [f i]) is) = map f is"
  by (induction "is") simp_all

text \<open>
  The display of \<open>c\<close> is the device at \<open>base\<close>, and the bound on polling covers its delay. A
  function writes \<open>ws\<close> to the display and leaves the variables as \<open>c'\<close>, from every state of the device.
\<close>

definition attached_to :: "u32 \<Rightarrow> u8 \<Rightarrow> nat \<Rightarrow> 'x console_scheme \<Rightarrow> bool" where
  "attached_to base ident limit c \<longleftrightarrow> display c = base \<and> ident = 0x10 \<and> limit \<le> poll_limit c"

definition displays_on :: "('d \<Rightarrow> u32 \<Rightarrow> u8 \<times> 'd) \<Rightarrow> ('d \<Rightarrow> u32 \<Rightarrow> u8 \<Rightarrow> 'd) \<Rightarrow> ('d \<Rightarrow> (u32 \<times> u8) list) \<Rightarrow>
    ('x, 'a) con \<Rightarrow> 'x console_scheme \<Rightarrow> 'a \<Rightarrow> 'x console_scheme \<Rightarrow> (u32 \<times> u8) list \<Rightarrow> bool" where
  "displays_on rd wr log p c x c' ws \<longleftrightarrow>
     (\<forall>s. \<exists>s'. run rd wr p c s = (Some (x, c'), s') \<and> log s' = log s @ at_display c ws)"

context ready_device
begin

abbreviation attached :: "'x console_scheme \<Rightarrow> bool" where
  "attached \<equiv> attached_to base ident limit"

abbreviation displays :: "('x, 'a) con \<Rightarrow> 'x console_scheme \<Rightarrow> 'a \<Rightarrow> 'x console_scheme \<Rightarrow> (u32 \<times> u8) list \<Rightarrow> bool" where
  "displays \<equiv> displays_on rd wr log"

lemma attached_simps [simp]:
  "attached (console_position_update f c) = attached c"
  "attached (console_line_update f c) = attached c"
  "attached (console_string_update f1 c) = attached c"
  "attached (console_string_old_update f1 c) = attached c"
  "attached (console_string_length_update f c) = attached c"
  "attached (console_string_length_old_update f c) = attached c"
  "attached (parameters_begin_update f c) = attached c"
  "attached (cursor_blink_rate_update f c) = attached c"
  "attached (console_prompt_length_update f c) = attached c"
  "attached (shiftState_update f c) = attached c"
  "attached (line_down c) = attached c"
  by (simp_all add: attached_to_def line_down_def)

lemma run_glBusyWait: "attached c \<Longrightarrow> run rd wr glBusyWait c s = (Some ((), c), settled s)"
  unfolding glBusyWait_def attached_to_def by (simp add: run_pwith) (metis run_wait)

lemma run_dwrite: "run rd wr (dwrite a f) c s = (Some ((), c), wr s (display c + a) (f c))"
  unfolding dwrite_def by (simp add: run_simps)

lemmas con_simps = run_simps run_glBusyWait run_dwrite

lemma displays_pbind:
  assumes "displays m c x c1 ws1" and "displays (f x) c1 y c' ws2" and "display c1 = display c"
  shows "displays (pbind m f) c y c' (ws1 @ ws2)"
  unfolding displays_on_def
proof
  fix s
  obtain s1 where s1: "run rd wr m c s = (Some (x, c1), s1)" "log s1 = log s @ at_display c ws1"
    using assms(1) unfolding displays_on_def by blast
  obtain s2 where s2: "run rd wr (f x) c1 s1 = (Some (y, c'), s2)" "log s2 = log s1 @ at_display c1 ws2"
    using assms(2) unfolding displays_on_def by blast
  show "\<exists>s'. run rd wr (pbind m f) c s = (Some (y, c'), s') \<and> log s' = log s @ at_display c (ws1 @ ws2)"
    using s1 s2 assms(3) by (simp add: run_pbind at_display_def)
qed

lemma displays_pseq_Nil: "displays (pseq []) c () c []"
  by (simp add: displays_on_def run_simps)

lemma displays_pseq_Cons:
  assumes "displays m c x c1 ws1" and "displays (pseq ms) c1 () c' ws2" and "display c1 = display c"
  shows "displays (pseq (m # ms)) c () c' (ws1 @ ws2)"
  unfolding pseq.simps using assms by (rule displays_pbind)

lemma displays_wait: "attached c \<Longrightarrow> displays glBusyWait c () c []"
  by (simp add: displays_on_def con_simps log_simps)

lemma displays_dwrite: "displays (dwrite a f) c () c [(a, f c)]"
  by (simp add: displays_on_def con_simps log_simps)

lemma displays_pmod: "displays (pmod f) c () (f c) []"
  by (simp add: displays_on_def con_simps)

lemma displays_pwith: "displays (f c) c x c' ws \<Longrightarrow> displays (pwith f) c x c' ws"
  by (simp add: displays_on_def run_simps)

lemma displays_pget: "displays (pget f) c (f c) c []"
  by (simp add: displays_on_def run_simps)

lemma displays_pfor:
  assumes "\<And>i c. i \<in> set is \<Longrightarrow> P c \<Longrightarrow> displays (f i) c () (g i c) (w i)"
    and "\<And>i c. i \<in> set is \<Longrightarrow> P c \<Longrightarrow> P (g i c) \<and> display (g i c) = display c" and "P c"
  shows "displays (pfor is f) c () (fold g is c) (concat (map w is))"
  using assms
proof (induction "is" arbitrary: c)
  case Nil
  then show ?case by (simp add: displays_on_def run_simps)
next
  case (Cons i "is")
  have "displays (f i) c () (g i c) (w i)" using Cons.prems by simp
  moreover have "displays (pfor is f) (g i c) () (fold g is (g i c)) (concat (map w is))"
    using Cons.prems by (intro Cons.IH) auto
  moreover have "display (g i c) = display c" using Cons.prems by simp
  ultimately show ?case using displays_pbind [of "f i" c "()" "g i c" "w i" "\<lambda>_. pfor is f"] by simp
qed

lemma displays_pfor_writes:
  "displays (pfor is (\<lambda>i. dwrite (a i) (\<lambda>c. b i))) c () c (map (\<lambda>i. (a i, b i)) is)"
proof -
  have "displays (pfor is (\<lambda>i. dwrite (a i) (\<lambda>c. b i))) c () (fold (\<lambda>i c. c) is c)
      (concat (map (\<lambda>i. [(a i, b i)]) is))"
    by (rule displays_pfor [where P = "\<lambda>_. True"]) (rule displays_dwrite, simp_all)
  moreover have "fold (\<lambda>i c. c) is c = c" by (induction "is") auto
  moreover have "concat (map (\<lambda>i. [(a i, b i)]) is) = map (\<lambda>i. (a i, b i)) is"
    by (induction "is") auto
  ultimately show ?thesis by simp
qed

text \<open>The functions of the console.\<close>

lemma displays_eq:
  "displays p c x c' ws \<Longrightarrow> c' = c'' \<Longrightarrow> ws = ws' \<Longrightarrow> displays p c x c'' ws'"
  by simp

lemmas displays_statements = displays_pseq_Cons displays_pseq_Nil displays_wait displays_dwrite
  displays_pmod displays_pwith displays_pfor_writes

lemma displays_SetCursor:
  "attached c \<Longrightarrow>
     displays (ConsoleSetCursor l p) c () (c\<lparr>console_line := l, console_position := p\<rparr>) [(1, l), (2, p)]"
  by (simp add: displays_on_def ConsoleSetCursor_def con_simps log_simps)

lemma displays_SetCursorPosition:
  "attached c \<Longrightarrow> displays (ConsoleSetCursorPosition p) c () (c\<lparr>console_position := p\<rparr>) [(2, p)]"
  by (simp add: displays_on_def ConsoleSetCursorPosition_def con_simps log_simps)

lemma displays_printChar:
  "attached c \<Longrightarrow>
     displays (printChar x) c () (c\<lparr>console_position := console_position c + 1\<rparr>)
       [(1, console_line c), (2, console_position c), (0x10, x)]"
  by (simp add: displays_on_def printChar_def con_simps log_simps)

lemma displays_printLn:
  "attached c \<Longrightarrow> displays printLn c () (line_down c) (line_down_writes c)"
  by (simp add: displays_on_def printLn_def con_simps log_simps ConsoleSetCursor_def line_down_def
      line_down_writes_def)

lemma displays_swapBuffers: "attached c \<Longrightarrow> displays swapBuffers c () c [(0xF, 1)]"
  by (simp add: displays_on_def swapBuffers_def con_simps log_simps)

lemma displays_print:
  assumes "attached c"
  shows "displays (print t len) c () (c\<lparr>console_position := console_position c + of_nat (unat len - 1)\<rparr>)
    ((1, console_line c) # text_writes t (unat len - 1))"
proof -
  let ?body = "\<lambda>i. pseq [dwrite (0x10 + of_nat i) (\<lambda>c. t i), pmod (console_position_update (\<lambda>p. p + 1))]"
  have body: "displays (?body i) c () (console_position_update (\<lambda>p. p + 1) c) [(0x10 + of_nat i, t i)]" for i c
    by (simp add: displays_on_def con_simps log_simps)
  have "displays (pfor [0..<unat len - 1] ?body) c () (fold (\<lambda>i. console_position_update (\<lambda>p. p + 1)) [0..<unat len - 1] c)
      (concat (map (\<lambda>i. [(0x10 + of_nat i, t i)]) [0..<unat len - 1]))"
    by (rule displays_pfor [where P = "\<lambda>_. True"]) (rule body, simp_all)
  then have loop: "displays (pfor [0..<unat len - 1] ?body) c ()
      (c\<lparr>console_position := console_position c + of_nat (unat len - 1)\<rparr>) (text_writes t (unat len - 1))"
    by (simp add: fold_position text_writes_def concat_map_singleton)
  show ?thesis
    unfolding print_def
    by (rule displays_eq, (rule displays_statements loop assms | simp)+)
qed

lemma displays_printPrompt:
  assumes "attached c"
  shows "displays printPrompt c () (c\<lparr>console_position := console_prompt_length c - 1\<rparr>)
    ((1, console_line c) # (2, 0) # text_writes (console_prompt c) (unat (console_prompt_length c) - 1)
      @ [(2, console_prompt_length c - 1)])"
proof -
  have loop: "displays (pfor [0..<n] (\<lambda>i. dwrite (0x10 + of_nat i) (\<lambda>c. console_prompt c i))) c () c
      (text_writes (console_prompt c) n)" for n
  proof -
    have "displays (pfor [0..<n] (\<lambda>i. dwrite (0x10 + of_nat i) (\<lambda>c. console_prompt c i))) c ()
        (fold (\<lambda>i c. c) [0..<n] c) (concat (map (\<lambda>i. [(0x10 + of_nat i, console_prompt c i)]) [0..<n]))"
      by (rule displays_pfor [where P = "\<lambda>c'. c' = c"]) (use displays_dwrite in fastforce, simp_all)
    then show ?thesis by (simp add: text_writes_def concat_map_singleton fold_ident)
  qed
  show ?thesis
    unfolding printPrompt_def
    by (rule displays_eq, (rule displays_statements loop displays_SetCursorPosition | simp add: assms)+)
qed

lemma displays_ClearScreen:
  assumes "attached c"
  shows "displays (ConsoleClearScreen x) c () c (clear_writes x)"
proof -
  let ?row = "\<lambda>l. pseq [dwrite 1 (\<lambda>c. of_nat l), dwrite 2 (\<lambda>c. 0),
      pfor [0..<21] (\<lambda>i. dwrite (0x10 + of_nat i) (\<lambda>c. x))]"
  have row: "displays (?row l) c () c ((1, of_nat l) # (2, 0) # text_writes (\<lambda>_. x) 21)" for l c
    unfolding text_writes_def
    by (rule displays_eq, (rule displays_pseq_Cons displays_pseq_Nil displays_dwrite displays_pfor_writes | simp)+)
  have "displays (pfor [0..<8] ?row) c () (fold (\<lambda>l c. c) [0..<8] c)
      (concat (map (\<lambda>l. (1, of_nat l) # (2, 0) # text_writes (\<lambda>_. x) 21) [0..<8]))"
    by (rule displays_pfor [where P = "\<lambda>_. True"]) (rule row, simp_all)
  then have rows: "displays (pfor [0..<8] ?row) c () c
      (concat (map (\<lambda>l. (1, of_nat l) # (2, 0) # text_writes (\<lambda>_. x) 21) [0..<8]))"
    by (simp only: fold_ident)
  show ?thesis
    unfolding ConsoleClearScreen_def clear_writes_def
    by (rule displays_eq, (rule displays_pseq_Cons displays_pseq_Nil displays_wait rows displays_swapBuffers assms | simp)+)
qed

end

text \<open>
  Output. On a display that becomes ready within the bound, the print functions return, and
  the registers they write are, in order: the cursor line (register 1), the column (2), the text
  (from 0x10 on); \<open>printLn\<close> moves down a line or, on the last one, asks for a scroll
  (register 5); clearing blanks every row and swaps the buffers. The variables follow.
\<close>

theorem console_output:
  assumes "ready_device rd wr log base 0x10 limit" and "attached_to base 0x10 limit c"
  shows "displays_on rd wr log (printChar x) c () (c\<lparr>console_position := console_position c + 1\<rparr>)
      [(1, console_line c), (2, console_position c), (0x10, x)]
    \<and> displays_on rd wr log (print t len) c ()
        (c\<lparr>console_position := console_position c + of_nat (unat len - 1)\<rparr>)
        ((1, console_line c) # text_writes t (unat len - 1))
    \<and> displays_on rd wr log printLn c () (line_down c) (line_down_writes c)
    \<and> displays_on rd wr log printPrompt c () (c\<lparr>console_position := console_prompt_length c - 1\<rparr>)
        ((1, console_line c) # (2, 0) # text_writes (console_prompt c) (unat (console_prompt_length c) - 1)
          @ [(2, console_prompt_length c - 1)])
    \<and> displays_on rd wr log (ConsoleClearScreen x) c () c (clear_writes x)"
  by (intro conjI ready_device.displays_printChar [OF assms] ready_device.displays_print [OF assms]
      ready_device.displays_printLn [OF assms] ready_device.displays_printPrompt [OF assms]
      ready_device.displays_ClearScreen [OF assms])

theorem console_output_witness:
  "displays_on (history_rd 2 0x10) history_wr history printLn (console_initial 3) ()
     ((console_initial 3)\<lparr>console_line := 1\<rparr>) [(1, 1), (1, 1), (2, 0)]"
proof -
  have r: "ready_device (history_rd 2 0x10) history_wr history 0 0x10 3"
    using history_ready [of 2 "0x10" 0] by simp
  have a: "attached_to 0 0x10 3 (console_initial 3)"
    by (simp add: attached_to_def console_initial_def)
  show ?thesis
    using console_output [OF r a] by (simp add: line_down_def line_down_writes_def console_initial_def)
qed

end
