(* ===== verification/Screen.thy ===== *)
theory Screen
  imports Console
begin

text \<open>
  What the functions of the console need of a display, and what they keep. The locale \<open>screen\<close> is the
  interface of a display that is ready sooner or later: \<open>good\<close> relates the variables of the console and the
  state behind the bus; it depends on no other variables than the addresses of the two peripherals, the bound
  on polling, the registry of the commands and what a state has beside the console's, survives writes to the registers of the display behind the first one, and makes
  the busy wait return. Every print function then returns, and leaves a good state. The
  interpretations are a memory whose cells are the registers (here) and any ready device, with the
  addresses that the functions write to.
\<close>

definition printing_on :: "('d \<Rightarrow> u32 \<Rightarrow> u8 \<times> 'd) \<Rightarrow> ('d \<Rightarrow> u32 \<Rightarrow> u8 \<Rightarrow> 'd) \<Rightarrow>
    ('x console_scheme \<Rightarrow> 'd \<Rightarrow> bool) \<Rightarrow> ('x, 'a) con \<Rightarrow> bool" where
  "printing_on rd wr good p \<longleftrightarrow> (\<forall>c s. good c s \<longrightarrow>
     (\<exists>x c' s'. run rd wr p c s = (Some (x, c'), s') \<and> good c' s'))"

text \<open>The registers and the line buffer of the display.\<close>

definition DISPLAY_REGISTERS :: u32 where "DISPLAY_REGISTERS = 0x110"

lemma text_register:
  assumes "i < unat (n :: u8)"
  shows "0 < (0x10 :: u32) + of_nat i" "(0x10 :: u32) + of_nat i < DISPLAY_REGISTERS"
proof -
  have "unat n < 256" using unsigned_less [where 'a = nat, of n] by simp
  then have "i < 256" using assms by simp
  then have "unat ((0x10 :: u32) + of_nat i) = 16 + i" by (simp add: unat_word_ariths unat_of_nat)
  then show "0 < (0x10 :: u32) + of_nat i" "(0x10 :: u32) + of_nat i < DISPLAY_REGISTERS"
    using \<open>i < 256\<close> by (simp_all add: word_less_nat_alt DISPLAY_REGISTERS_def)
qed

text \<open>The variables of the console that no print function changes, besides those of the display.\<close>

definition kept_variables :: "'x console_scheme \<Rightarrow> u32 \<times> (nat \<Rightarrow> command) \<times> 'x" where
  [simp]: "kept_variables c = (keyboard c, CommandRegistry c, console.more c)"

locale screen =
  fixes rd :: "'d \<Rightarrow> u32 \<Rightarrow> u8 \<times> 'd"
    and wr :: "'d \<Rightarrow> u32 \<Rightarrow> u8 \<Rightarrow> 'd"
    and good :: "'x console_scheme \<Rightarrow> 'd \<Rightarrow> bool"
  assumes good_variables: "good c s \<Longrightarrow> display c' = display c \<Longrightarrow> poll_limit c' = poll_limit c \<Longrightarrow>
      kept_variables c' = kept_variables c \<Longrightarrow> good c' s"
    and good_read: "good c s \<Longrightarrow> good c (snd (rd s a))"
    and good_write: "good c s \<Longrightarrow> 0 < a \<Longrightarrow> a < DISPLAY_REGISTERS \<Longrightarrow> good c (wr s (display c + a) b)"
    and good_wait: "good c s \<Longrightarrow> \<exists>s'. run rd wr glBusyWait c s = (Some ((), c), s') \<and> good c s'"
begin

abbreviation printing :: "('x, 'a) con \<Rightarrow> bool" where
  "printing \<equiv> printing_on rd wr good"

lemma printing_pbind: "printing p \<Longrightarrow> (\<And>x. printing (f x)) \<Longrightarrow> printing (pbind p f)"
  unfolding printing_on_def run_pbind by fastforce

lemma printing_preturn: "printing (preturn x)"
  by (simp add: printing_on_def run_simps)

lemma printing_pseq_Nil: "printing (pseq [])"
  by (simp add: printing_on_def run_simps)

lemma printing_pseq_Cons: "printing p \<Longrightarrow> printing (pseq ps) \<Longrightarrow> printing (pseq (p # ps))"
  unfolding pseq.simps by (rule printing_pbind)

lemma printing_pfor: "(\<And>i. i \<in> set is \<Longrightarrow> printing (f i)) \<Longrightarrow> printing (pfor is f)"
proof (induction "is")
  case Nil
  then show ?case by (simp add: printing_preturn)
next
  case (Cons i "is")
  then show ?case unfolding pfor.simps by (intro printing_pbind) auto
qed

lemma printing_pwith: "(\<And>c. printing (f c)) \<Longrightarrow> printing (pwith f)"
  unfolding printing_on_def run_pwith by blast

lemma printing_pmod:
  "(\<And>c. display (f c) = display c \<and> poll_limit (f c) = poll_limit c \<and> kept_variables (f c) = kept_variables c) \<Longrightarrow>
     printing (pmod f)"
  unfolding printing_on_def run_pmod by (metis good_variables)

lemma printing_dwrite: "0 < a \<Longrightarrow> a < DISPLAY_REGISTERS \<Longrightarrow> printing (dwrite a f)"
  by (auto simp: printing_on_def dwrite_def run_simps intro: good_write)

lemma printing_pread: "printing (pread a)"
  unfolding printing_on_def by (metis (no_types, lifting) good_read run_pread case_prod_conv prod.collapse)

lemma printing_registers [simp]:
  "printing (dwrite 1 f)" "printing (dwrite 2 f)" "printing (dwrite 3 f)" "printing (dwrite 4 f)"
  "printing (dwrite 5 f)" "printing (dwrite 0xF f)" "printing (dwrite 0x10 f)"
  by (simp_all add: printing_dwrite DISPLAY_REGISTERS_def)

lemma printing_line: "i < unat (n :: u8) \<Longrightarrow> printing (dwrite (0x10 + of_nat i) f)"
  by (intro printing_dwrite text_register)

lemma printing_wait: "printing glBusyWait"
  using good_wait unfolding printing_on_def by blast

lemma printing_if: "(b \<Longrightarrow> printing p) \<Longrightarrow> (\<not> b \<Longrightarrow> printing q) \<Longrightarrow> printing (if b then p else q)"
  by simp

lemmas printing_rules = printing_pseq_Cons printing_pseq_Nil printing_pfor printing_pwith printing_wait
  printing_pmod printing_preturn printing_if printing_pread

lemma printing_cursor:
  "printing (ConsoleSetCursor l p)" "printing (ConsoleSetCursorPosition p)" "printing (ConsoleSetBlinkRate r)"
  unfolding ConsoleSetCursor_def ConsoleSetCursorPosition_def ConsoleSetBlinkRate_def
  by (intro printing_rules; simp)+

lemma printing_print: "printing (print t len)"
  unfolding print_def by (intro printing_rules printing_cursor) (auto intro: printing_line [of _ len])

lemma printing_printChar: "printing (printChar x)"
  unfolding printChar_def by (intro printing_rules) simp_all

lemma printing_printInt: "printing (printInt n)"
  unfolding printInt_def Let_def case_prod_beta
  by (intro printing_rules printing_printChar printing_cursor) (auto intro: printing_line)

lemma printing_printSpace: "printing (printSpace n)"
  unfolding printSpace_def by (intro printing_rules printing_cursor) (auto intro: printing_line)

lemma printing_printLn: "printing printLn"
  unfolding printLn_def by (intro printing_rules printing_cursor; simp)

lemma printing_prompt: "printing (ConsoleSetPrompt t n)"
  unfolding ConsoleSetPrompt_def set_prompt_def by (intro printing_rules) simp

lemma printing_clear: "printing (ConsoleClearScreen x)"
  unfolding ConsoleClearScreen_def swapBuffers_def
  by (intro printing_rules) (auto intro: printing_line [of _ 21])

lemmas printing_text = printing_print printing_printChar printing_printInt printing_printSpace printing_printLn
  printing_cursor printing_prompt printing_clear

end


section \<open>A memory as a display\<close>

text \<open>The first register holds the identifier of the display, so that it is ready at once.\<close>

definition display_ready :: "u32 \<Rightarrow> 'x console_scheme \<Rightarrow> mem \<Rightarrow> bool" where
  "display_ready base c m \<longleftrightarrow> display c = base \<and> 0 < poll_limit c \<and> m base = 0x10"

text \<open>
  A property \<open>kept\<close> of the memory that does not depend on the display's cells, and the variables
  that printing does not change, survive it.
\<close>

locale kept_screen =
  fixes base :: u32 and kept :: "mem \<Rightarrow> bool"
  assumes kept_display: "kept m \<Longrightarrow> 0 < a \<Longrightarrow> a < DISPLAY_REGISTERS \<Longrightarrow> kept (m(base + a := b))"

definition display_keeps :: "u32 \<Rightarrow> (mem \<Rightarrow> bool) \<Rightarrow> u32 \<times> (nat \<Rightarrow> command) \<times> 'x \<Rightarrow> 'x console_scheme \<Rightarrow> mem \<Rightarrow> bool" where
  "display_keeps base kept e c m \<longleftrightarrow> display_ready base c m \<and> kept_variables c = e \<and> kept m"

sublocale kept_screen \<subseteq> memory_screen: screen mem_rd mem_wr "display_keeps base kept e" for e
proof
  fix c m assume r: "display_keeps base kept e c m"
  then show "\<exists>m'. run mem_rd mem_wr glBusyWait c m = (Some ((), c), m') \<and> display_keeps base kept e c m'"
    by (cases "poll_limit c")
      (simp_all add: display_keeps_def display_ready_def glBusyWait_def run_pwith, simp add: run_def exec_Rd)
next
  fix c m a b assume r: "display_keeps base kept e c m" and a: "0 < a" "a < DISPLAY_REGISTERS"
  have "kept (m(base + a := b))" using kept_display r a by (simp add: display_keeps_def)
  then show "display_keeps base kept e c (mem_wr m (display c + a) b)"
    using r a by (auto simp: display_keeps_def display_ready_def mem_wr_def)
qed (auto simp: display_keeps_def display_ready_def mem_rd_def)

interpretation any_memory: kept_screen base "\<lambda>_. True" for base
  by unfold_locales simp


section \<open>Any ready device as a display\<close>

text \<open>What has been written since the log was \<open>l\<close> went to the display alone.\<close>

definition display_only :: "u32 \<Rightarrow> (u32 \<times> u8) list \<Rightarrow> bool" where
  "display_only base ws \<longleftrightarrow> (\<forall>(a, b) \<in> set ws. 0 < a - base \<and> a - base < DISPLAY_REGISTERS)"

lemma display_only_append: "display_only base (ws @ ws') \<longleftrightarrow> display_only base ws \<and> display_only base ws'"
  by (auto simp: display_only_def)

definition written_since :: "('d \<Rightarrow> (u32 \<times> u8) list) \<Rightarrow> u32 \<Rightarrow> u8 \<Rightarrow> nat \<Rightarrow> (u32 \<times> u8) list \<Rightarrow> 'x console_scheme \<Rightarrow> 'd \<Rightarrow> bool" where
  "written_since log base ident limit l c s \<longleftrightarrow> attached_to base ident limit c
     \<and> (\<exists>ws. log s = l @ ws \<and> display_only base ws)"

sublocale ready_device \<subseteq> log_screen: screen rd wr "written_since log base ident limit l" for l
proof
  fix c s assume "written_since log base ident limit l c s"
  then show "\<exists>s'. run rd wr glBusyWait c s = (Some ((), c), s') \<and> written_since log base ident limit l c s'"
    by (simp add: written_since_def run_glBusyWait log_settled)
next
  fix c s a b assume w: "written_since log base ident limit l c s" and a: "0 < a" "a < DISPLAY_REGISTERS"
  then obtain ws where "log s = l @ ws" "display_only base ws" "display c = base"
    by (auto simp: written_since_def attached_to_def)
  then have "log (wr s (display c + a) b) = l @ (ws @ [(base + a, b)])" "display_only base (ws @ [(base + a, b)])"
    using a by (simp_all add: log_wr display_only_def)
  then show "written_since log base ident limit l c (wr s (display c + a) b)"
    using w unfolding written_since_def by blast
qed (auto simp: written_since_def attached_to_def log_rd)

context ready_device
begin

text \<open>A function that prints, run on a ready device.\<close>

lemma printing_run:
  assumes "printing_on rd wr (written_since log base ident limit (log s)) p" and "attached c"
  obtains x c' s' ws where "run rd wr p c s = (Some (x, c'), s')" "attached c'"
    "log s' = log s @ ws" "display_only base ws"
proof -
  have "written_since log base ident limit (log s) c s"
    using assms(2) by (auto simp: written_since_def display_only_def)
  then show ?thesis using assms(1) that unfolding printing_on_def written_since_def by blast
qed

end

end
