(* ===== verification/Shell.thy ===== *)
theory Shell
  imports Console Keyboard
begin

text \<open>
  The command line: reading keys (kernel/command/cli.c), editing the line
  (kernel/command/shell.c), interpreting it (kernel/command/command.c, parse.c) and the
  environment (environment.c). The specification is a line editor on lists of characters.
  A registered command is a function pointer; what it does is the argument \<open>call\<close>.
\<close>

section \<open>Registering commands and initialisation\<close>

definition ConsoleRegisterCommand :: "buffer \<Rightarrow> u8 \<Rightarrow> nat \<Rightarrow> 'x console_scheme \<Rightarrow> u8 \<times> 'x console_scheme" where
  "ConsoleRegisterCommand name nameLength functionPtr c =
     (let free = (\<lambda>i. \<not> (is_letter (command_name (CommandRegistry c i) 0) = 1
                        \<or> is_number (command_name (CommandRegistry c i) 0) = 1));
          index = (case find free [0..<CONSOLE_FUNCTION_TABLE_SIZE] of Some i \<Rightarrow> i | None \<Rightarrow> 0);
          len = min (unat nameLength) CONSOLE_FUNCTION_NAME_LENGTH;
          entry = CommandRegistry c index
      in (1, c\<lparr>CommandRegistry := (CommandRegistry c)(index :=
            \<lparr>command_name = (\<lambda>i. if i < len - 1 then name i else command_name entry i),
             command_function = functionPtr\<rparr>)\<rparr>))"

text \<open>
  \<open>cliInit\<close> looks the two drivers up; the arguments are the hardware addresses of the devices
  they serve (theory Drivers).
\<close>

definition blank_registry :: "'x console_scheme \<Rightarrow> 'x console_scheme" where
  "blank_registry c = c\<lparr>CommandRegistry := (\<lambda>i.
     if i < CONSOLE_FUNCTION_TABLE_SIZE
     then \<lparr>command_name = (\<lambda>n. if n < CONSOLE_FUNCTION_NAME_LENGTH then ch CHR '' ''
                              else command_name (CommandRegistry c i) n),
           command_function = 0\<rparr>
     else CommandRegistry c i)\<rparr>"

definition ConsoleClearKeyboardString :: "'x console_scheme \<Rightarrow> 'x console_scheme" where
  "ConsoleClearKeyboardString c = c\<lparr>console_string := (\<lambda>i.
     if i < CONSOLE_STRING_LENGTH then ch CHR '' '' else console_string c i)\<rparr>"

definition prompt_text :: "string \<Rightarrow> buffer" where
  "prompt_text t = (\<lambda>i. if i < length t then ch (t ! i) else 0)"

definition set_old_scan_code :: "u8 \<Rightarrow> u8 \<Rightarrow> 'x console_scheme \<Rightarrow> 'x console_scheme" where
  "set_old_scan_code low high c = c\<lparr>oldScanCodeLow := low, oldScanCodeHigh := high\<rparr>"

definition cliInit :: "u32 \<Rightarrow> u32 \<Rightarrow> ('x, unit) con" where
  "cliInit keyboard_address display_address =
     pseq
      [pmod (\<lambda>c. c\<lparr>keyboard := keyboard_address, display := display_address\<rparr>),
       pwith (\<lambda>c. pbind (read_scan_code (keyboard c)) (\<lambda>(low, high). pseq
        [pmod (set_old_scan_code low high),
         pmod (lastChar_update (\<lambda>_. kbDecodeScanCode low high))])),
       pmod ConsoleClearKeyboardString,
       pmod blank_registry,
       dwrite 3 (\<lambda>c. 60),
       dwrite 4 (\<lambda>c. ch CHR ''_''),
       ConsoleSetPrompt (prompt_text ''A>'') 3]"


section \<open>Reading keys\<close>

definition ConsoleGetRawChar :: "('x, u8) con" where
  "ConsoleGetRawChar =
     pwith (\<lambda>c. pbind (read_scan_code (keyboard c)) (\<lambda>(low, high). preturn (kbDecodeScanCode low high)))"

definition ConsoleGetLastChar :: "('x, u8) con" where
  "ConsoleGetLastChar =
     pwith (\<lambda>c. pbind (read_scan_code (keyboard c)) (\<lambda>(low, high).
       if oldScanCodeLow c = low \<and> oldScanCodeHigh c = high then preturn 0
       else
         let scanCode = kbDecodeScanCode low high in
         pbind (pmod (set_old_scan_code low high)) (\<lambda>_.
           if scanCode = 0 then preturn 0
           else pbind (pmod (lastChar_update (\<lambda>_. scanCode))) (\<lambda>_. preturn scanCode))))"

text \<open>The loop of \<open>ConsoleWait\<close>; the first argument bounds the number of rounds.\<close>

primrec wait_loop :: "nat \<Rightarrow> u8 \<Rightarrow> ('x, u8) con" where
  "wait_loop 0 currentChar = (\<lambda>c. Ret None)"
| "wait_loop (Suc n) currentChar =
     pwith (\<lambda>c. if currentChar = lastChar c
       then
         pbind (read_scan_code (keyboard c)) (\<lambda>(low, high).
           let currentChar = kbDecodeScanCode low high in
           pbind (pmod (set_old_scan_code low high)) (\<lambda>_.
           pbind (pmod (\<lambda>c. if currentChar = 0 then c\<lparr>lastChar := currentChar\<rparr> else c)) (\<lambda>_.
             wait_loop n currentChar)))
       else pbind (pmod (lastChar_update (\<lambda>_. currentChar))) (\<lambda>_. preturn currentChar))"

definition ConsoleWait :: "('x, u8) con" where
  "ConsoleWait =
     pwith (\<lambda>c. pbind (read_scan_code (keyboard c)) (\<lambda>(low, high).
       pbind (pmod (set_old_scan_code low high)) (\<lambda>_. wait_loop (poll_limit c) (lastChar c))))"

definition msgPressAnyKey :: string where "msgPressAnyKey = ''Press any key...''"

definition printPause :: "('x, u8) con" where
  "printPause =
     pbind (pseq [print (prompt_text msgPressAnyKey) 17, ConsoleSetCursorPosition 16]) (\<lambda>_.
     pbind ConsoleWait (\<lambda>keypress.
     pbind (pseq
      [ConsoleSetCursorPosition 0,
       pfor [0..<17] (\<lambda>a. printChar (ch CHR '' '')),
       ConsoleSetCursorPosition 0]) (\<lambda>_. preturn keypress)))"

definition ConsolePrintKeyboardString :: "('x, unit) con" where
  "ConsolePrintKeyboardString =
     pseq
      [pwith (\<lambda>c. ConsoleSetCursorPosition (console_prompt_length c - 1)),
       pwith (\<lambda>c. pfor [0..<unat (console_string_length c)] (\<lambda>i. printChar (console_string c i))),
       pwith (\<lambda>c. ConsoleSetCursorPosition (console_prompt_length c + console_string_length c - 1)),
       pwith (\<lambda>c. if displayColumbs c \<le> ucast (console_position c)
         then pseq [printLn, pmod (console_position_update (\<lambda>_. 0)),
                    pwith (\<lambda>c. ConsoleSetCursorPosition (console_position c))]
         else preturn ())]"


section \<open>Editing the line\<close>

text \<open>The shifted character: the assignments to \<open>scanCode\<close>, in order.\<close>

definition shift_number :: "u8 \<Rightarrow> u8" where
  "shift_number scanCode =
     (let s = scanCode;
          s = (if s = ch CHR ''0'' then ch CHR '')'' else s);
          s = (if s = ch CHR ''1'' then ch CHR ''!'' else s);
          s = (if s = ch CHR ''2'' then ch CHR ''@'' else s);
          s = (if s = ch CHR ''3'' then ch CHR ''#'' else s);
          s = (if s = ch CHR ''4'' then ch CHR ''$'' else s);
          s = (if s = ch CHR ''5'' then ch CHR ''%'' else s);
          s = (if s = ch CHR ''6'' then ch CHR ''^'' else s);
          s = (if s = ch CHR ''7'' then ch CHR ''&'' else s);
          s = (if s = ch CHR ''8'' then ch CHR ''*'' else s);
          s = (if s = ch CHR ''9'' then ch CHR ''('' else s)
      in s)"

definition shift_symbol :: "u8 \<Rightarrow> u8" where
  "shift_symbol scanCode =
     (let s = scanCode;
          s = (if s = ch CHR ''['' \<or> s = ch CHR '']'' then s + 0x20 else s);
          s = (if s = 0x3B then s - 1 else s);
          s = (if s = ch CHR ''-'' then ch CHR ''_'' else s);
          s = (if s = ch CHR ''='' then ch CHR ''+'' else s);
          s = (if s = 0x5c then ch CHR ''|'' else s);
          s = (if s = 0x27 then 0x22 else s);
          s = (if s = ch CHR '','' then ch CHR ''<'' else s);
          s = (if s = ch CHR ''.'' then ch CHR ''>'' else s);
          s = (if s = ch CHR ''/'' then ch CHR ''?'' else s)
      in s)"

definition shift_char :: "u8 \<Rightarrow> u8" where
  "shift_char scanCode =
     (let s = (if is_number scanCode = 1 then shift_number scanCode else scanCode)
      in if is_letter s = 0 then shift_symbol s else s - 0x20)"

definition KeyFunctionPrintChar :: "u8 \<Rightarrow> ('x, unit) con" where
  "KeyFunctionPrintChar scanCode =
     pwith (\<lambda>c.
       if CONSOLE_STRING_LENGTH \<le> unat (console_string_length c) then preturn ()
       else
         let scanCode = (if shiftState c = 1 then shift_char scanCode else scanCode) in
         pseq
          [pmod (\<lambda>c. c\<lparr>console_string := (console_string c)(unat (console_string_length c) := scanCode)\<rparr>),
           pmod (console_string_length_update (\<lambda>n. n + 1)),
           printChar scanCode,
           pwith (\<lambda>c. ConsoleSetCursorPosition (console_position c)),
           pwith (\<lambda>c. if displayColumbs c \<le> ucast (console_position c)
             then pseq [printLn, pmod (console_position_update (\<lambda>_. 0)),
                        pwith (\<lambda>c. ConsoleSetCursorPosition (console_position c))]
             else preturn ())])"

definition KeyFunctionBackspace :: "('x, unit) con" where
  "KeyFunctionBackspace =
     pwith (\<lambda>c.
       if console_string_length c = 0 then preturn ()
       else pseq
        [pmod (\<lambda>c. c\<lparr>console_string := (console_string c)(unat (console_string_length c) - 1 := ch CHR '' '')\<rparr>),
         pwith (\<lambda>c. if console_position c = 0
           then pseq
            [pmod (console_line_update (\<lambda>l. l - 1)),
             pmod (console_position_update (\<lambda>_. 21)),
             dwrite 0x00001 console_line]
           else preturn ()),
         pmod (console_string_length_update (\<lambda>n. n - 1)),
         pmod (console_position_update (\<lambda>p. p - 1)),
         dwrite 0x00002 console_position,
         dwrite 0x00010 (\<lambda>c. ch CHR '' ''),
         dwrite 0x00002 console_position,
         swapBuffers])"


section \<open>Interpreting the line\<close>

text \<open>
  \<open>match_name\<close> is the inner loop of \<open>commandFunctionLookup\<close> over the positions of a name: the
  values of \<open>passed\<close> and \<open>parameters_begin_chk\<close> after it. \<open>lookup_loop\<close> is the outer loop, up to
  the call: \<open>passed\<close>, \<open>params_begin\<close> and the index of the entry found.
\<close>

fun match_name :: "buffer \<Rightarrow> buffer \<Rightarrow> nat list \<Rightarrow> u8 \<Rightarrow> u8 \<Rightarrow> u8 \<times> u8" where
  "match_name name line [] passed chk = (passed, chk)"
| "match_name name line (n # ns) passed chk =
     (if name n \<noteq> lowercase (line n) then (0, chk)
      else if is_symbol (line (n + 1)) = 1 \<or> name n = ch CHR '' ''
      then (passed, if chk = 0 then of_nat n + 1 else chk)
      else match_name name line ns 1 chk)"

fun lookup_loop :: "'x console_scheme \<Rightarrow> nat list \<Rightarrow> u8 \<Rightarrow> u8 \<Rightarrow> u8 \<Rightarrow> u8 \<times> u8 \<times> nat option" where
  "lookup_loop c [] params_begin passed chk = (passed, params_begin, None)"
| "lookup_loop c (i # is) params_begin passed chk =
     (let (passed, chk) = match_name (command_name (CommandRegistry c i)) (console_string c)
                            [0..<CONSOLE_FUNCTION_NAME_LENGTH] passed chk
      in if passed = 0 then lookup_loop c is params_begin passed chk
         else (passed, if chk \<noteq> 0 then chk else params_begin, Some i))"

definition commandFunctionLookup :: "(nat \<Rightarrow> buffer \<Rightarrow> u8 \<Rightarrow> ('x, unit) con) \<Rightarrow> u8 \<Rightarrow> ('x, u8) con" where
  "commandFunctionLookup call params_begin =
     pwith (\<lambda>c. case lookup_loop c [0..<CONSOLE_FUNCTION_TABLE_SIZE] params_begin 0 0 of
         (passed, params_begin, None) \<Rightarrow> preturn passed
       | (passed, params_begin, Some i) \<Rightarrow>
           pbind (if command_function (CommandRegistry c i) \<noteq> 0
                  then call (command_function (CommandRegistry c i))
                         (\<lambda>k. console_string c (unat params_begin + k))
                         (console_string_length c + 1 - params_begin)
                  else preturn ())
                 (\<lambda>_. preturn passed))"

definition commandSpecialChar :: "('x, u8) con" where
  "commandSpecialChar = preturn 0"

definition msgBadCommand :: string where "msgBadCommand = ''Bad cmd or filename''"

definition save_line :: "'x console_scheme \<Rightarrow> 'x console_scheme" where
  "save_line c = c\<lparr>console_string_old := (\<lambda>a. if a \<le> unat (console_string_length c)
       then console_string c a else console_string_old c a),
     console_string_length_old := console_string_length c\<rparr>"

definition find_parameters :: "'x console_scheme \<Rightarrow> 'x console_scheme" where
  "find_parameters c = c\<lparr>parameters_begin :=
     (case find (\<lambda>i. console_string c i = ch CHR '' '') [0..<Suc (unat (console_string_length_old c))] of
        Some i \<Rightarrow> of_nat i + 1
      | None \<Rightarrow> 0)\<rparr>"

definition KeyFunctionReturn :: "(nat \<Rightarrow> buffer \<Rightarrow> u8 \<Rightarrow> ('x, unit) con) \<Rightarrow> ('x, unit) con" where
  "KeyFunctionReturn call =
     pseq
      [printLn,
       ConsoleSetCursorPosition 0,
       pmod save_line,
       pmod find_parameters,
       pbind commandSpecialChar (\<lambda>passed.
       pbind (if passed = 0 then pwith (\<lambda>c. commandFunctionLookup call (parameters_begin c))
              else preturn passed) (\<lambda>passed.
         pwith (\<lambda>c. if passed = 0 \<and> 0 < console_string_length_old c
           then pseq [print (prompt_text msgBadCommand) 20, printLn]
           else preturn ()))),
       printPrompt,
       pmod ConsoleClearKeyboardString,
       pmod (console_string_length_update (\<lambda>_. 0))]"

definition handle_code :: "(nat \<Rightarrow> buffer \<Rightarrow> u8 \<Rightarrow> ('x, unit) con) \<Rightarrow> u8 \<Rightarrow> ('x, unit) con" where
  "handle_code call scanCode =
     pseq
      [if scanCode = 0x11 then pmod (shiftState_update (\<lambda>_. 1)) else preturn (),
       if scanCode = 0x12 then pmod (shiftState_update (\<lambda>_. 0)) else preturn (),
       if scanCode < 0x20
       then pseq
        [if scanCode = 0x01 then KeyFunctionBackspace else preturn (),
         if scanCode = 0x02 then KeyFunctionReturn call else preturn ()]
       else KeyFunctionPrintChar scanCode]"

definition cliRunShell :: "(nat \<Rightarrow> buffer \<Rightarrow> u8 \<Rightarrow> ('x, unit) con) \<Rightarrow> ('x, u8) con" where
  "cliRunShell call =
     pbind ConsoleGetLastChar (\<lambda>scanCode.
       if scanCode = 0 then preturn 0
       else pbind (handle_code call scanCode) (\<lambda>_. preturn 1))"

text \<open>\<open>ConsoleGetParameter\<close>: the index in \<open>console_string\<close> it points to, None for a null pointer.\<close>

fun parameter_loop :: "'x console_scheme \<Rightarrow> u8 \<Rightarrow> u8 \<Rightarrow> nat list \<Rightarrow> int \<Rightarrow> nat option" where
  "parameter_loop c index delimiter [] numrerOfParams = None"
| "parameter_loop c index delimiter (i # is) numrerOfParams =
     (let n = (if console_string c (unat (parameters_begin c) + i) = delimiter
               then numrerOfParams + 1 else numrerOfParams)
      in if n = uint index then Some (unat (parameters_begin c) + i + 1)
         else parameter_loop c index delimiter is n)"

definition ConsoleGetParameter :: "u8 \<Rightarrow> u8 \<Rightarrow> 'x console_scheme \<Rightarrow> nat option" where
  "ConsoleGetParameter index delimiter c =
     parameter_loop c index delimiter [0..<CONSOLE_STRING_LENGTH - unat (parameters_begin c)] (-1)"

definition ConsoleSetPath :: "buffer \<Rightarrow> u8" where
  "ConsoleSetPath path = 1"


section \<open>The environment\<close>

record environment =
  PathHome :: u8
  PathBin :: buffer
  PathBinLength :: u8

definition environment_initial :: environment where
  "environment_initial = \<lparr>PathHome = ch CHR ''a'', PathBin = (\<lambda>_. 0), PathBinLength = 0\<rparr>"

definition EnvironmentGetHomeChar :: "environment \<Rightarrow> u8" where
  "EnvironmentGetHomeChar e = PathHome e"

definition EnvironmentSetHomeChar :: "u8 \<Rightarrow> environment \<Rightarrow> environment" where
  "EnvironmentSetHomeChar newHomeChar e = e\<lparr>PathHome := newHomeChar\<rparr>"

definition EnvironmentGetPathBin :: "environment \<Rightarrow> buffer \<Rightarrow> u8 \<Rightarrow> buffer" where
  "EnvironmentGetPathBin e path len = (\<lambda>i. if i < unat len then PathBin e i else path i)"

definition EnvironmentGetPathBinLength :: "environment \<Rightarrow> u8" where
  "EnvironmentGetPathBinLength e = PathBinLength e"

definition EnvironmentSetPathBin :: "buffer \<Rightarrow> u8 \<Rightarrow> environment \<Rightarrow> environment" where
  "EnvironmentSetPathBin path len e =
     e\<lparr>PathBin := (\<lambda>i. if i < unat len then path i else PathBin e i), PathBinLength := len\<rparr>"


section \<open>The shift key\<close>

text \<open>
  With shift held, the characters the keyboard decoder produces become those of a US
  keyboard: digits and symbols their upper neighbours, letters their capitals; the back quote,
  which has no mapping in the code, stays.
\<close>

theorem shift_char_us_layout:
  "map shift_char (str ''0123456789-=[];,./abcdefghijklmnopqrstuvwxyz`'' @ [0x5c, 0x27])
     = str '')!@#$%^&*(_+{}:<>?ABCDEFGHIJKLMNOPQRSTUVWXYZ`|'' @ [0x22]"
  by (simp add: shift_char_def shift_number_def shift_symbol_def is_number_def is_letter_def
      is_uppercase_def is_lowercase_def ch_def Let_def)



section \<open>The line editor\<close>

text \<open>The line typed so far, and the invariant: it fits, and is followed by blanks.\<close>

definition typed_line :: "'x console_scheme \<Rightarrow> u8 list" where
  "typed_line c = map (console_string c) [0..<unat (console_string_length c)]"

definition shell_ok :: "'x console_scheme \<Rightarrow> bool" where
  "shell_ok c \<longleftrightarrow> unat (console_string_length c) \<le> 40
     \<and> (\<forall>i < 40. unat (console_string_length c) \<le> i \<longrightarrow> console_string c i = ch CHR '' '')"

text \<open>The editor on lists: whether shift is held, and the line.\<close>

definition edit_code :: "u8 \<Rightarrow> bool \<times> u8 list \<Rightarrow> bool \<times> u8 list" where
  "edit_code code st =
     (let (shift, l) = st in
      if code = 0x11 then (True, l)
      else if code = 0x12 then (False, l)
      else if code = 0x01 then (shift, butlast l)
      else if code = 0x02 then (shift, [])
      else if code < 0x20 then (shift, l)
      else if length l < 40 then (shift, l @ [if shift then shift_char code else code])
      else (shift, l))"

definition editor_of :: "'x console_scheme \<Rightarrow> bool \<times> u8 list" where
  "editor_of c = (shiftState c = 1, typed_line c)"

text \<open>A registered command prints, and leaves the keyboard state alone.\<close>

definition commands_behave :: "('d \<Rightarrow> u32 \<Rightarrow> u8 \<times> 'd) \<Rightarrow> ('d \<Rightarrow> u32 \<Rightarrow> u8 \<Rightarrow> 'd) \<Rightarrow> ('d \<Rightarrow> (u32 \<times> u8) list) \<Rightarrow>
    (nat \<Rightarrow> buffer \<Rightarrow> u8 \<Rightarrow> ('x, unit) con) \<Rightarrow> bool" where
  "commands_behave rd wr log call \<longleftrightarrow>
     (\<forall>f s len c. \<exists>c' ws. displays_on rd wr log (call f s len) c () c' ws
        \<and> display c' = display c \<and> poll_limit c' = poll_limit c \<and> shiftState c' = shiftState c)"

definition add_char :: "u8 \<Rightarrow> 'x console_scheme \<Rightarrow> 'x console_scheme" where
  "add_char k c = c\<lparr>console_string := (console_string c)(unat (console_string_length c) := k),
     console_string_length := console_string_length c + 1\<rparr>"

lemma length_suc:
  assumes "unat (console_string_length c) < 40"
  shows "unat (console_string_length c + 1) = Suc (unat (console_string_length c))"
  using assms by (subst unat_word_ariths) simp

lemma add_char_line:
  assumes "shell_ok c" "unat (console_string_length c) < 40"
  shows "typed_line (add_char k c) = typed_line c @ [k]" "shell_ok (add_char k c)"
  using assms length_suc [OF assms(2)] by (auto simp: typed_line_def shell_ok_def add_char_def)

definition drop_char :: "'x console_scheme \<Rightarrow> 'x console_scheme" where
  "drop_char c = c\<lparr>console_string := (console_string c)(unat (console_string_length c) - 1 := ch CHR '' ''),
     console_string_length := console_string_length c - 1\<rparr>"

lemma drop_char_line:
  assumes "shell_ok c" "console_string_length c \<noteq> 0"
  shows "typed_line (drop_char c) = butlast (typed_line c)" "shell_ok (drop_char c)"
proof -
  have pos: "0 < unat (console_string_length c)" using assms(2) by (simp add: unat_gt_0)
  then have n: "unat (console_string_length c - 1) = unat (console_string_length c) - 1"
    by (subst unat_sub) (use pos in \<open>simp_all add: word_le_nat_alt\<close>)
  show "typed_line (drop_char c) = butlast (typed_line c)"
    by (rule nth_equalityI) (auto simp: typed_line_def drop_char_def n nth_butlast)
  show "shell_ok (drop_char c)"
    using assms(1) pos unfolding shell_ok_def by (auto simp: drop_char_def n)
qed

text \<open>The parts of the state that the display functions leave alone.\<close>

definition same_keys :: "'x console_scheme \<Rightarrow> 'x console_scheme \<Rightarrow> bool" where
  "same_keys c c' \<longleftrightarrow> console_string c' = console_string c
     \<and> console_string_length c' = console_string_length c \<and> shiftState c' = shiftState c
     \<and> display c' = display c \<and> poll_limit c' = poll_limit c"

lemma same_keys_line:
  assumes "same_keys c c'"
  shows "editor_of c' = editor_of c" "shell_ok c' = shell_ok c"
  using assms by (auto simp: same_keys_def editor_of_def typed_line_def shell_ok_def)

text \<open>What the statements of a command line keep: the bus, and whether shift is held.\<close>

definition keeps :: "'x console_scheme \<Rightarrow> 'x console_scheme \<Rightarrow> bool" where
  "keeps c c' \<longleftrightarrow> display c' = display c \<and> poll_limit c' = poll_limit c \<and> shiftState c' = shiftState c"

definition clear_line :: "'x console_scheme \<Rightarrow> 'x console_scheme" where
  "clear_line c = (ConsoleClearKeyboardString c)\<lparr>console_string_length := 0\<rparr>"

context ready_device
begin

lemma same_keys_attached: "same_keys c c' \<Longrightarrow> attached c' = attached c"
  by (simp add: same_keys_def attached_to_def)

lemma attached_char [simp]:
  "attached (add_char k c) = attached c" "attached (drop_char c) = attached c"
  by (simp_all add: attached_to_def add_char_def drop_char_def)

text \<open>A key press shows the character and moves the cursor, on to the next line at the edge.\<close>

definition key_writes :: "u8 \<Rightarrow> 'x console_scheme \<Rightarrow> (u32 \<times> u8) list" where
  "key_writes k c =
     [(1, console_line c), (2, console_position c), (0x10, k), (2, console_position c + 1)]
     @ (if displayColumbs c \<le> ucast (console_position c + 1)
        then line_down_writes (c\<lparr>console_position := console_position c + 1\<rparr>) @ [(2, 0)] else [])"

lemma line_down_writes_cong:
  "console_line c = console_line c' \<Longrightarrow> displayRows c = displayRows c' \<Longrightarrow>
     line_down_writes c = line_down_writes c'"
  by (simp add: line_down_writes_def line_down_def)

lemma displays_PrintChar:
  fixes code :: u8
  assumes "attached c" "unat (console_string_length c) < 40"
  defines "k \<equiv> if shiftState c = 1 then shift_char code else code"
  shows "\<exists>c'. displays (KeyFunctionPrintChar code) c () c' (key_writes k c) \<and> same_keys (add_char k c) c'"
proof -
  let ?c = "(add_char k c)\<lparr>console_position := console_position c + 1\<rparr>"
  have a: "attached (add_char k c)" "attached ?c" using assms(1) by simp_all
  have wrap: "line_down_writes ?c = line_down_writes (c\<lparr>console_position := console_position c + 1\<rparr>)"
    by (rule line_down_writes_cong) (simp_all add: add_char_def)
  have steps: "displays (pseq
      [pmod (\<lambda>c. c\<lparr>console_string := (console_string c)(unat (console_string_length c) := k)\<rparr>),
       pmod (console_string_length_update (\<lambda>n. n + 1)),
       printChar k,
       pwith (\<lambda>c. ConsoleSetCursorPosition (console_position c)),
       pwith (\<lambda>c. if displayColumbs c \<le> ucast (console_position c)
         then pseq [printLn, pmod (console_position_update (\<lambda>_. 0)),
                    pwith (\<lambda>c. ConsoleSetCursorPosition (console_position c))]
         else preturn ())]) c ()
      (if displayColumbs c \<le> ucast (console_position c + 1) then line_down ?c else ?c) (key_writes k c)"
  proof (cases "displayColumbs c \<le> ucast (console_position c + 1)")
    case True
    show ?thesis
      unfolding displays_on_def key_writes_def
      using True assms(1) a
      by (simp add: con_simps log_simps printChar_def ConsoleSetCursorPosition_def printLn_def
          ConsoleSetCursor_def line_down_def line_down_writes_def add_char_def)
  next
    case False
    then show ?thesis
      unfolding displays_on_def key_writes_def
      using assms(1) a
      by (simp add: con_simps log_simps printChar_def ConsoleSetCursorPosition_def add_char_def)
  qed
  let ?c' = "if displayColumbs c \<le> ucast (console_position c + 1) then line_down ?c else ?c"
  have "same_keys (add_char k c) ?c'" by (simp add: same_keys_def line_down_def)
  moreover have "displays (KeyFunctionPrintChar code) c () ?c' (key_writes k c)"
    unfolding KeyFunctionPrintChar_def CONSOLE_STRING_LENGTH_def
    by (rule displays_pwith) (use steps assms(2) in \<open>simp add: k_def Let_def\<close>)
  ultimately show ?thesis by blast
qed

lemma displays_Backspace:
  assumes "attached c" "console_string_length c \<noteq> 0"
  shows "\<exists>c' ws. displays KeyFunctionBackspace c () c' ws \<and> same_keys (drop_char c) c'"
proof -
  let ?p = "if console_position c = 0 then 21 else console_position c"
  let ?l = "if console_position c = 0 then console_line c - 1 else console_line c"
  let ?c' = "(drop_char c)\<lparr>console_line := ?l, console_position := ?p - 1\<rparr>"
  let ?ws = "(if console_position c = 0 then [(1, ?l)] else [])
    @ [(2, ?p - 1), (0x10, ch CHR '' ''), (2, ?p - 1), (0xF, 1)]"
  have "displays KeyFunctionBackspace c () ?c' ?ws"
    unfolding displays_on_def KeyFunctionBackspace_def
    using assms by (simp add: con_simps log_simps swapBuffers_def drop_char_def)
  moreover have "same_keys (drop_char c) ?c'" by (simp add: same_keys_def)
  ultimately show ?thesis by blast
qed

definition does :: "('x, 'a) con \<Rightarrow> 'x console_scheme \<Rightarrow> bool" where
  "does p c \<longleftrightarrow> (\<exists>x c' ws. displays p c x c' ws \<and> keeps c c')"

lemma keeps_attached: "keeps c c' \<Longrightarrow> attached c \<Longrightarrow> attached c'"
  by (simp add: keeps_def attached_to_def)

lemma keeps_trans: "keeps c c' \<Longrightarrow> keeps c' c'' \<Longrightarrow> keeps c c''"
  by (simp add: keeps_def)

lemma does_displays: "displays p c x c' ws \<Longrightarrow> keeps c c' \<Longrightarrow> does p c"
  unfolding does_def by blast

lemma does_pbind:
  assumes "does m c" and "attached c" and "\<And>x c1. attached c1 \<Longrightarrow> does (f x) c1"
  shows "does (pbind m f) c"
proof -
  obtain x c1 ws1 where m: "displays m c x c1 ws1" "keeps c c1" using assms(1) unfolding does_def by blast
  obtain y c' ws2 where f: "displays (f x) c1 y c' ws2" "keeps c1 c'"
    using assms(3) [OF keeps_attached [OF m(2) assms(2)]] unfolding does_def by blast
  have "display c1 = display c" using m(2) by (simp add: keeps_def)
  show ?thesis
    by (rule does_displays [OF displays_pbind [where f = f, OF m(1) f(1)] keeps_trans [OF m(2) f(2)]]) fact
qed

lemma does_pseq_Cons:
  assumes "does m c" and "attached c" and "\<And>c1. attached c1 \<Longrightarrow> does (pseq ms) c1"
  shows "does (pseq (m # ms)) c"
  unfolding pseq.simps by (rule does_pbind [OF assms])

lemma does_if: "(b \<Longrightarrow> does p c) \<Longrightarrow> (\<not> b \<Longrightarrow> does q c) \<Longrightarrow> does (if b then p else q) c"
  by simp

lemma does_pwith: "does (f c) c \<Longrightarrow> does (pwith f) c"
  unfolding does_def by (blast intro: displays_pwith)

lemma displays_preturn: "displays (preturn x) c x c []"
  by (simp add: displays_on_def run_simps)

lemma does_statements:
  "does (preturn x) c"
  "attached c \<Longrightarrow> does printLn c"
  "attached c \<Longrightarrow> does printPrompt c"
  "attached c \<Longrightarrow> does (print t len) c"
  "attached c \<Longrightarrow> does (ConsoleSetCursorPosition p) c"
  "does (pmod save_line) c" "does (pmod find_parameters) c"
  by (rule does_displays, rule displays_preturn displays_printLn displays_printPrompt displays_print
      displays_SetCursorPosition displays_pmod, assumption?,
      simp add: keeps_def line_down_def save_line_def find_parameters_def)+

lemma does_pseq_Nil: "does (pseq []) c"
  unfolding pseq.simps by (rule does_statements)

lemma does_call: "commands_behave rd wr log call \<Longrightarrow> does (call f t n) c"
  unfolding commands_behave_def does_def keeps_def by blast

lemma does_lookup:
  assumes "commands_behave rd wr log call" "attached c"
  shows "does (commandFunctionLookup call pb) c"
  unfolding commandFunctionLookup_def
proof (rule does_pwith)
  show "does (case lookup_loop c [0..<CONSOLE_FUNCTION_TABLE_SIZE] pb 0 0 of
         (passed, params_begin, None) \<Rightarrow> preturn passed
       | (passed, params_begin, Some i) \<Rightarrow>
           pbind (if command_function (CommandRegistry c i) \<noteq> 0
                  then call (command_function (CommandRegistry c i))
                         (\<lambda>k. console_string c (unat params_begin + k))
                         (console_string_length c + 1 - params_begin)
                  else preturn ())
                 (\<lambda>_. preturn passed)) c"
    by (auto split: prod.splits option.splits intro!: does_pbind does_statements(1) does_call [OF assms(1)] assms(2))
qed

lemma does_interpret:
  assumes "commands_behave rd wr log call" "attached c"
  shows "does (pbind commandSpecialChar (\<lambda>passed.
       pbind (if passed = 0 then pwith (\<lambda>c. commandFunctionLookup call (parameters_begin c))
              else preturn passed) (\<lambda>passed.
         pwith (\<lambda>c. if passed = 0 \<and> 0 < console_string_length_old c
           then pseq [print (prompt_text msgBadCommand) 20, printLn]
           else preturn ())))) c"
  unfolding commandSpecialChar_def
  by (rule does_pbind does_pwith does_if does_pseq_Cons does_pseq_Nil does_statements does_lookup assms
      | assumption)+

lemma displays_Return:
  assumes "commands_behave rd wr log call" "attached c"
  shows "\<exists>c1 c' ws. displays (KeyFunctionReturn call) c () c' ws \<and> keeps c c1 \<and> c' = clear_line c1"
proof -
  let ?head = "\<lambda>k. pseq [printLn, ConsoleSetCursorPosition 0, pmod save_line, pmod find_parameters,
      pbind commandSpecialChar (\<lambda>passed.
       pbind (if passed = 0 then pwith (\<lambda>c. commandFunctionLookup call (parameters_begin c))
              else preturn passed) (\<lambda>passed.
         pwith (\<lambda>c. if passed = 0 \<and> 0 < console_string_length_old c
           then pseq [print (prompt_text msgBadCommand) 20, printLn]
           else preturn ()))), printPrompt]"
  have "does (?head ()) c"
    by (rule does_pseq_Cons does_pseq_Nil does_statements does_interpret assms | assumption)+
  then obtain x c1 ws where h: "displays (?head ()) c x c1 ws" "keeps c c1"
    unfolding does_def by blast
  have split: "KeyFunctionReturn call
      = (\<lambda>c. pseq ([printLn, ConsoleSetCursorPosition 0, pmod save_line, pmod find_parameters,
      pbind commandSpecialChar (\<lambda>passed.
       pbind (if passed = 0 then pwith (\<lambda>c. commandFunctionLookup call (parameters_begin c))
              else preturn passed) (\<lambda>passed.
         pwith (\<lambda>c. if passed = 0 \<and> 0 < console_string_length_old c
           then pseq [print (prompt_text msgBadCommand) 20, printLn]
           else preturn ()))), printPrompt]
         @ [pmod ConsoleClearKeyboardString, pmod (console_string_length_update (\<lambda>_. 0))]) c)"
    by (simp add: KeyFunctionReturn_def)
  have "displays (KeyFunctionReturn call) c () (clear_line c1) ws"
    unfolding displays_on_def
  proof
    fix s
    obtain s' where "run rd wr (?head ()) c s = (Some (x, c1), s')" "log s' = log s @ at_display c ws"
      using h(1) unfolding displays_on_def by blast
    then show "\<exists>s'. run rd wr (KeyFunctionReturn call) c s = (Some ((), clear_line c1), s')
        \<and> log s' = log s @ at_display c ws"
      unfolding split by (simp add: pseq_append_run del: append.simps)
        (simp add: run_simps clear_line_def)
  qed
  then show ?thesis using h(2) by blast
qed

end

text \<open>One decoded key: the editor on lists describes what it does.\<close>

lemma clear_line_editor:
  "typed_line (clear_line c) = []" "shell_ok (clear_line c)" "shiftState (clear_line c) = shiftState c"
  "display (clear_line c) = display c" "poll_limit (clear_line c) = poll_limit c"
  by (simp_all add: typed_line_def shell_ok_def clear_line_def ConsoleClearKeyboardString_def
      CONSOLE_STRING_LENGTH_def)

context ready_device
begin

lemma displays_last: "displays r c () c' ws \<Longrightarrow> displays (pseq [r]) c () c' ws"
  unfolding displays_on_def by (metis (no_types, lifting) run_pseq_Cons run_pseq_Nil case_prod_conv option.simps(5))

lemma displays_three:
  assumes "displays p c () c1 []" "displays q c1 () c2 []" "displays r c2 () c' ws"
    "display c1 = display c" "display c2 = display c"
  shows "displays (pseq [p, q, r]) c () c' ws"
proof -
  have "displays (pseq [p, q, r]) c () c' ([] @ [] @ ws)"
    by (rule displays_pseq_Cons [OF assms(1)] displays_pseq_Cons [OF assms(2)]
        displays_last [OF assms(3)])+ (simp_all add: assms)
  then show ?thesis by simp
qed

lemma handle_char:
  assumes "\<not> code < 0x20" "attached c" "shell_ok c"
  shows "\<exists>c' ws. displays (handle_code call code) c () c' ws \<and> attached c' \<and> shell_ok c'
    \<and> editor_of c' = edit_code code (editor_of c)"
proof -
  have code: "code \<noteq> 0x11" "code \<noteq> 0x12" "code \<noteq> 1" "code \<noteq> 2" using assms(1) by auto
  have len: "length (typed_line c) = unat (console_string_length c)" by (simp add: typed_line_def)
  have key: "displays (handle_code call code) c () c' ws" if "displays (KeyFunctionPrintChar code) c () c' ws" for c' ws
    unfolding handle_code_def using code assms(1)
    by (simp only: if_False) (rule displays_three displays_preturn that refl)+
  show ?thesis
  proof (cases "unat (console_string_length c) < 40")
    case True
    let ?k = "if shiftState c = 1 then shift_char code else code"
    obtain c' ws where c': "displays (KeyFunctionPrintChar code) c () c' ws" "same_keys (add_char ?k c) c'"
      using displays_PrintChar [OF assms(2) True, of code] by blast
    have "shiftState (add_char ?k c) = shiftState c" by (simp add: add_char_def)
    then have "editor_of (add_char ?k c) = edit_code code (editor_of c)"
      using add_char_line [OF assms(3) True] code assms(1) True len
      by (simp add: editor_of_def edit_code_def)
    then show ?thesis
      using key [OF c'(1)] same_keys_line [OF c'(2)] same_keys_attached [OF c'(2)]
        add_char_line [OF assms(3) True] assms(2) by auto
  next
    case False
    then have "displays (KeyFunctionPrintChar code) c () c []"
      unfolding KeyFunctionPrintChar_def CONSOLE_STRING_LENGTH_def
      by (intro displays_pwith) (simp add: displays_preturn)
    moreover have "edit_code code (editor_of c) = editor_of c"
      using False code assms(1) len by (simp add: edit_code_def editor_of_def)
    ultimately show ?thesis using key assms(2,3) by metis
  qed
qed

lemma handle_backspace:
  assumes "attached c" "shell_ok c"
  shows "\<exists>c' ws. displays (handle_code call 1) c () c' ws \<and> attached c' \<and> shell_ok c'
    \<and> editor_of c' = edit_code 1 (editor_of c)"
proof -
  have key: "displays (handle_code call 1) c () c' ws" if "displays KeyFunctionBackspace c () c' ws"
    and "display c' = display c" for c' ws
  proof -
    have "displays (pseq [KeyFunctionBackspace, preturn ()]) c () c' (ws @ [] @ [])"
      by (rule displays_pseq_Cons [OF that(1)] displays_pseq_Cons displays_preturn displays_pseq_Nil that(2) refl)+
    then show ?thesis
      unfolding handle_code_def by simp (rule displays_three displays_preturn refl | assumption)+
  qed
  show ?thesis
  proof (cases "console_string_length c = 0")
    case True
    then have "displays KeyFunctionBackspace c () c []"
      unfolding KeyFunctionBackspace_def by (intro displays_pwith) (simp add: displays_preturn)
    moreover have "edit_code 1 (editor_of c) = editor_of c"
      using True by (simp add: edit_code_def editor_of_def typed_line_def)
    ultimately show ?thesis using key assms by metis
  next
    case False
    obtain c' ws where c': "displays KeyFunctionBackspace c () c' ws" "same_keys (drop_char c) c'"
      using displays_Backspace [OF assms(1) False] by blast
    have "shiftState (drop_char c) = shiftState c" "display (drop_char c) = display c"
      by (simp_all add: drop_char_def)
    moreover then have "editor_of (drop_char c) = edit_code 1 (editor_of c)"
      using drop_char_line [OF assms(2) False] by (simp add: editor_of_def edit_code_def)
    ultimately show ?thesis
      using key [OF c'(1)] same_keys_line [OF c'(2)] same_keys_attached [OF c'(2)] c'(2)
        drop_char_line [OF assms(2) False] assms(1) unfolding same_keys_def by auto
  qed
qed

lemma handle_return:
  assumes "commands_behave rd wr log call" "attached c"
  shows "\<exists>c' ws. displays (handle_code call 2) c () c' ws \<and> attached c' \<and> shell_ok c'
    \<and> editor_of c' = edit_code 2 (editor_of c)"
proof -
  obtain c1 ws where r: "displays (KeyFunctionReturn call) c () (clear_line c1) ws" "keeps c c1"
    using displays_Return [OF assms] by blast
  have d: "display (clear_line c1) = display c" using r(2) by (simp add: keeps_def clear_line_editor)
  have "displays (pseq [preturn (), KeyFunctionReturn call]) c () (clear_line c1) ([] @ ws @ [])"
    by (rule displays_pseq_Cons [OF r(1)] displays_pseq_Cons displays_preturn displays_pseq_Nil d refl)+
  then have "displays (handle_code call 2) c () (clear_line c1) ws"
    unfolding handle_code_def by simp (rule displays_three displays_preturn refl | assumption)+
  moreover have "attached (clear_line c1)" using assms(2) r(2)
    by (simp add: attached_to_def keeps_def clear_line_editor)
  moreover have "editor_of (clear_line c1) = edit_code 2 (editor_of c)"
    using r(2) by (simp add: editor_of_def edit_code_def clear_line_editor keeps_def)
  ultimately show ?thesis using clear_line_editor(2) by blast
qed

lemma handle_other:
  assumes "code < 0x20" "code \<noteq> 1" "code \<noteq> 2" "attached c" "shell_ok c"
  shows "\<exists>c' ws. displays (handle_code call code) c () c' ws \<and> attached c' \<and> shell_ok c'
    \<and> editor_of c' = edit_code code (editor_of c)"
proof -
  let ?c1 = "if code = 0x11 then c\<lparr>shiftState := 1\<rparr> else c"
  let ?c' = "if code = 0x12 then c\<lparr>shiftState := 0\<rparr> else ?c1"
  have "displays (handle_code call code) c () ?c' []"
    using assms(1-3) by (simp add: handle_code_def displays_on_def run_simps)
  moreover have "attached ?c'" "shell_ok ?c'" using assms(4,5) by (simp_all add: shell_ok_def)
  moreover have "editor_of ?c' = edit_code code (editor_of c)"
    using assms(1-3) by (auto simp: editor_of_def edit_code_def typed_line_def)
  ultimately show ?thesis by blast
qed

lemma handle_code_edits:
  assumes "commands_behave rd wr log call" "attached c" "shell_ok c"
  shows "\<exists>c' ws. displays (handle_code call code) c () c' ws \<and> attached c' \<and> shell_ok c'
    \<and> editor_of c' = edit_code code (editor_of c)"
proof (cases "code < 0x20 \<and> code \<noteq> 1 \<and> code \<noteq> 2")
  case True
  then show ?thesis using handle_other [OF _ _ _ assms(2,3)] by simp
next
  case False
  then consider "\<not> code < 0x20" | "code = 1" | "code = 2" by blast
  then show ?thesis
  proof cases
    case 1
    then show ?thesis by (rule handle_char [OF _ assms(2,3)])
  next
    case 2
    then show ?thesis using handle_backspace [OF assms(2,3)] by simp
  next
    case 3
    then show ?thesis using handle_return [OF assms(1,2)] by simp
  qed
qed

lemma codes_edit:
  assumes "commands_behave rd wr log call" "attached c" "shell_ok c"
  shows "\<exists>c' ws. displays (pseq (map (handle_code call) codes)) c () c' ws \<and> attached c' \<and> shell_ok c'
    \<and> editor_of c' = fold edit_code codes (editor_of c)"
  using assms(2,3)
proof (induction codes arbitrary: c)
  case Nil
  then show ?case using displays_pseq_Nil by (metis fold_simps(1) list.simps(8))
next
  case (Cons code codes)
  obtain c1 ws1 where 1: "displays (handle_code call code) c () c1 ws1" "attached c1" "shell_ok c1"
    "editor_of c1 = edit_code code (editor_of c)"
    using handle_code_edits [OF assms(1) Cons.prems] by blast
  obtain c' ws2 where 2: "displays (pseq (map (handle_code call) codes)) c1 () c' ws2" "attached c'"
    "shell_ok c'" "editor_of c' = fold edit_code codes (editor_of c1)"
    using Cons.IH [OF 1(2,3)] by blast
  have "display c1 = display c" using 1(2) Cons.prems(1) by (simp add: attached_to_def)
  then have "displays (pseq (map (handle_code call) (code # codes))) c () c' (ws1 @ ws2)"
    using displays_pseq_Cons [OF 1(1) 2(1)] by simp
  then show ?case using 1(4) 2 by (metis fold_simps(2))
qed

end


definition demo_console :: console where
  "demo_console = ConsoleClearKeyboardString (console_initial 3)"

lemma demo_console_ok:
  "attached_to 0 0x10 3 demo_console" "shell_ok demo_console" "editor_of demo_console = (False, [])"
  by (simp_all add: demo_console_def ConsoleClearKeyboardString_def console_initial_def attached_to_def
      shell_ok_def editor_of_def typed_line_def CONSOLE_STRING_LENGTH_def)

lemma silent_commands_behave: "commands_behave rd wr log (\<lambda>f s len. preturn ())"
  by (auto simp: commands_behave_def displays_on_def run_simps intro!: exI [of _ "[]"])



section \<open>Looking a command up\<close>

definition blank :: u8 where "blank = ch CHR '' ''"

definition command_word :: "buffer \<Rightarrow> u8 list" where
  "command_word name = takeWhile (\<lambda>x. x \<noteq> blank) (map name [0..<10])"

definition first_word :: "'x console_scheme \<Rightarrow> u8 list" where
  "first_word c = command_word (\<lambda>i. lowercase (console_string c i))"

lemma match_name_words:
  fixes name line :: buffer
  assumes "\<forall>n \<in> set ns. is_symbol (line (n + 1)) \<noteq> 1"
  defines "w \<equiv> takeWhile (\<lambda>x. x \<noteq> blank) (map name ns)"
  shows "match_name name line ns p chk =
    (if w = takeWhile (\<lambda>x. x \<noteq> blank) (map (\<lambda>i. lowercase (line i)) ns)
     then (if w = [] then p else 1,
           case drop (length w) ns of [] \<Rightarrow> chk | m # _ \<Rightarrow> if chk = 0 then of_nat m + 1 else chk)
     else (0, chk))"
  using assms(1) unfolding w_def
proof (induction ns arbitrary: p)
  case Nil
  then show ?case by simp
next
  case (Cons n ns)
  then have s: "is_symbol (line (Suc n)) \<noteq> 1" by simp
  show ?case
  proof (cases "name n = lowercase (line n) \<and> name n \<noteq> blank")
    case True
    then have e: "name n = lowercase (line n)" and b: "lowercase (line n) \<noteq> blank" by auto
    then have "match_name name line (n # ns) p chk = match_name name line ns 1 chk"
      using s by (simp add: blank_def)
    then show ?thesis using e b Cons by simp
  next
    case False
    then show ?thesis using s by (auto simp: blank_def)
  qed
qed

lemma drop_upt_word:
  "length w \<le> n \<Longrightarrow> (case drop (length w) [0..<n] of [] \<Rightarrow> x | m # _ \<Rightarrow> f m)
     = (if length w < n then f (length w) else x)"
  by (auto simp: drop_upt upt_conv_Cons)

lemma lookup_loop_words:
  assumes sym: "\<forall>n < 10. is_symbol (console_string c (n + 1)) \<noteq> 1" and w: "first_word c \<noteq> []"
  defines "Q \<equiv> \<lambda>i. command_word (command_name (CommandRegistry c i)) = first_word c"
  shows "lookup_loop c is pb 0 0 =
    (case find Q is of None \<Rightarrow> (0, pb, None)
     | Some i \<Rightarrow> (1, if length (first_word c) < 10 then of_nat (length (first_word c)) + 1 else pb, Some i))"
proof (induction "is")
  case Nil
  then show ?case by simp
next
  case (Cons i "is")
  let ?name = "command_name (CommandRegistry c i)"
  have len: "length (first_word c) \<le> 10"
    unfolding first_word_def command_word_def by (rule order_trans [OF length_takeWhile_le]) simp
  have "(of_nat (Suc (length (first_word c))) :: u8) \<noteq> 0"
    using len by (simp only: word_of_nat_eq_0_iff) (auto dest: dvd_imp_le)
  then have suc: "of_nat (length (first_word c)) + 1 \<noteq> (0::u8)" by (simp add: add.commute)
  have "match_name ?name (console_string c) [0..<10] 0 0 =
      (if Q i then (1, if length (first_word c) < 10 then of_nat (length (first_word c)) + 1 else 0) else (0, 0))"
  proof -
    have s: "\<forall>n \<in> set [0..<10]. is_symbol (console_string c (n + 1)) \<noteq> 1" using sym by simp
    have l: "length (command_word ?name) \<le> 10"
      unfolding command_word_def by (rule order_trans [OF length_takeWhile_le]) simp
    have m: "match_name ?name (console_string c) [0..<10] 0 0 =
      (if command_word ?name = first_word c
       then (if command_word ?name = [] then 0 else 1,
             if length (command_word ?name) < 10 then of_nat (length (command_word ?name)) + 1 else 0)
       else (0, 0))"
      by (simp only: match_name_words [OF s] command_word_def [symmetric] first_word_def
          drop_upt_word [OF l] refl if_True)
    show ?thesis
    proof (cases "Q i")
      case True
      then show ?thesis using m w unfolding Q_def by simp
    next
      case False
      then show ?thesis using m unfolding Q_def by simp
    qed
  qed
  then show ?case using Cons suc by (simp add: CONSOLE_FUNCTION_NAME_LENGTH_def)
qed

text \<open>
  For a command line without punctuation in its first eleven characters, the interpreter
  compares whole words: the entry found is the first of the eight whose name is the first word
  typed, upper or lower case, and its parameters begin behind the blank that ends the word; if there is
  none, nothing is called and the result is 0.
\<close>

theorem commandFunctionLookup_words:
  assumes "\<forall>n < 10. is_symbol (console_string c (n + 1)) \<noteq> 1" and "first_word c \<noteq> []"
  shows "commandFunctionLookup call pb c =
    (case find (\<lambda>i. command_word (command_name (CommandRegistry c i)) = first_word c) [0..<8] of
       None \<Rightarrow> preturn 0 c
     | Some i \<Rightarrow>
         let f = command_function (CommandRegistry c i);
             b = (if length (first_word c) < 10 then of_nat (length (first_word c)) + 1 else pb)
         in pbind (if f \<noteq> 0 then call f (\<lambda>k. console_string c (unat b + k)) (console_string_length c + 1 - b)
                   else preturn ()) (\<lambda>_. preturn 1) c)"
  unfolding commandFunctionLookup_def pwith_def lookup_loop_words [OF assms] CONSOLE_FUNCTION_TABLE_SIZE_def
  by (simp add: Let_def split: option.splits)

definition demo_registry :: console where
  "demo_registry =
     (let c = snd (ConsoleRegisterCommand (prompt_text ''ls'') 3 7 (blank_registry demo_console)) in
      c\<lparr>console_string := (\<lambda>i. if i = 0 then ch CHR ''L'' else if i = 1 then ch CHR ''s'' else blank),
        console_string_length := 2\<rparr>)"

lemma demo_registry_words:
  "command_word (command_name (CommandRegistry demo_registry 0)) = str ''ls''"
  "first_word demo_registry = str ''ls''"
  "command_function (CommandRegistry demo_registry 0) = 7"
  "console_string_length demo_registry = 2"
  "\<forall>n < 10. is_symbol (console_string demo_registry (n + 1)) \<noteq> 1"
proof -
  have l: "[0..<10] = [0, 1, 2, 3, 4, 5, 6, 7, 8, 9 :: nat]" by (simp add: upt_rec)
  have l8: "[0..<8] = [0, 1, 2, 3, 4, 5, 6, 7 :: nat]" by (simp add: upt_rec)
  have b: "is_letter 32 = 0" "is_number 32 = 0"
    by (simp_all add: is_letter_def is_number_def is_uppercase_def is_lowercase_def)
  have d: "CommandRegistry demo_registry 0
      = \<lparr>command_name = (\<lambda>i. if i < 2 then prompt_text ''ls'' i else command_name (CommandRegistry (blank_registry demo_console) 0) i),
         command_function = 7\<rparr>"
    by (simp add: demo_registry_def ConsoleRegisterCommand_def CONSOLE_FUNCTION_TABLE_SIZE_def l8 Let_def
        blank_registry_def CONSOLE_FUNCTION_NAME_LENGTH_def ch_def b cong: if_cong)
  show "command_word (command_name (CommandRegistry demo_registry 0)) = str ''ls''"
    by (simp add: d command_word_def l prompt_text_def blank_def blank_registry_def
        CONSOLE_FUNCTION_TABLE_SIZE_def CONSOLE_FUNCTION_NAME_LENGTH_def ch_def)
  show "command_function (CommandRegistry demo_registry 0) = 7" by (simp add: d)
  show "first_word demo_registry = str ''ls''"
    by (simp add: demo_registry_def Let_def first_word_def command_word_def l blank_def ch_def lowercase_def
        is_uppercase_def)
  show "console_string_length demo_registry = 2" by (simp add: demo_registry_def Let_def)
  show "\<forall>n < 10. is_symbol (console_string demo_registry (n + 1)) \<noteq> 1"
    by (simp add: demo_registry_def Let_def blank_def ch_def is_symbol_def)
qed

theorem commandFunctionLookup_words_witness:
  "commandFunctionLookup (\<lambda>f t len. printChar (of_nat f)) 9 demo_registry =
     pbind (printChar 7) (\<lambda>_. preturn 1) demo_registry"
proof -
  have "first_word demo_registry \<noteq> []" by (simp add: demo_registry_words)
  from commandFunctionLookup_words [OF demo_registry_words(5) this, of "\<lambda>f t len. printChar (of_nat f)" 9]
  show ?thesis by (simp add: demo_registry_words upt_conv_Cons Let_def)
qed

end
