(* ===== verification/Network.thy ===== *)
theory Network
  imports PortIO
begin

text \<open>
  The network card driver (kernel/network/network.c) and packets (kernel/network/packet.c). The
  card is a peripheral that is written byte by byte; after each byte the driver polls it,
  at most 1024 times, and then goes on, so sending ends on every card. The delays
  (\<open>_delay_ms\<close>) have no effect on the state and are left out. The format of packets is a round trip:
  what is sent is what the receiver of the window reads back.
\<close>

section \<open>The card\<close>

record nic =
  nic_address :: u32        \<comment> \<open>\<open>networkDevice->device.hardware_address\<close>\<close>
  nic_read_waitstate :: u16
  nic_write_waitstate :: u16
  ntIsInitiated :: u8

definition NETWORK_BAUD_RATE :: u8 where "NETWORK_BAUD_RATE = 12"
definition PERIPHERAL_ADDRESS_BEGIN :: u32 where "PERIPHERAL_ADDRESS_BEGIN = 0x40000"

type_synonym 'a net = "(nic, 'a) prog"

definition nread :: "u32 \<Rightarrow> u8 net" where
  "nread address = pwith (\<lambda>n. pread (nic_address n + address))"

definition nwrite :: "u32 \<Rightarrow> u8 \<Rightarrow> unit net" where
  "nwrite address byte = pwith (\<lambda>n. pwrite (nic_address n + address) byte)"

definition ntSetBaudRate :: "u8 \<Rightarrow> unit net" where
  "ntSetBaudRate baudRate = pseq [nwrite 0x0e baudRate, nwrite 0x0d 0x01]"

definition ntGetBaudRate :: "u8 net" where
  "ntGetBaudRate = nread 0x0e"

text \<open>
  The driver that \<open>GetDriverByName\<close> finds, as the hardware address of its device; None is a null
  pointer.
\<close>

definition ntInit :: "u32 option \<Rightarrow> u8 net" where
  "ntInit found =
     (case found of
        None \<Rightarrow> preturn 0
      | Some a \<Rightarrow> pbody
          [pmod (\<lambda>n. n\<lparr>nic_address := a, nic_read_waitstate := 10, nic_write_waitstate := 10\<rparr>),
           ntSetBaudRate NETWORK_BAUD_RATE,
           pmod (ntIsInitiated_update (\<lambda>_. 1))] (\<lambda>n. 1))"

text \<open>The polling loop behind each byte: up to \<open>n\<close> reads of the flag, until it is 0.\<close>

primrec poll_sent :: "nat \<Rightarrow> unit net" where
  "poll_sent 0 = preturn ()"
| "poll_sent (Suc n) = pbind (nread 0x0a) (\<lambda>checkByte. if checkByte = 0 then preturn () else poll_sent n)"

definition ntSend :: "(nat \<Rightarrow> u8) \<Rightarrow> u8 \<Rightarrow> unit net" where
  "ntSend buffer bufferSize =
     pfor [0..<unat bufferSize] (\<lambda>i. pseq
       [nwrite 0x0c (buffer i),
        nwrite 0x0a 0x01,
        poll_sent 1024])"

text \<open>The loop that reads consecutive registers into a buffer.\<close>

primrec nread_all :: "u32 \<Rightarrow> nat list \<Rightarrow> (nat \<Rightarrow> u8) \<Rightarrow> (nat \<Rightarrow> u8) net" where
  "nread_all base [] buffer = preturn buffer"
| "nread_all base (i # is) buffer =
     pbind (nread (base + of_nat i)) (\<lambda>b. nread_all base is (buffer(i := b)))"

definition ntReceive :: "(nat \<Rightarrow> u8) \<Rightarrow> u8 \<Rightarrow> (u8 \<times> (nat \<Rightarrow> u8)) net" where
  "ntReceive buffer bufferSize =
     pbind (nread 0x0b) (\<lambda>receiveBufferSz.
     pbind (nread_all 0x10 [0..<unat bufferSize] buffer) (\<lambda>buffer.
       preturn (receiveBufferSz, buffer)))"

definition ntReceiveClear :: "unit net" where
  "ntReceiveClear = nwrite 0x0b 0x00"

definition ntBindDevice :: "u8 \<Rightarrow> unit net" where
  "ntBindDevice deviceIndex =
     pmod (nic_address_update (\<lambda>_. PERIPHERAL_ADDRESS_BEGIN + ucast deviceIndex * 0x10000))"

text \<open>The contents of the local buffer before the reads do not matter: it is filled.\<close>

definition ntCheckDevice :: "u8 net" where
  "ntCheckDevice =
     pbind (nread_all 0 [0..<10] (\<lambda>_. 0)) (\<lambda>buffer.
       if \<exists>i \<in> set [0..<7]. ch (''network'' ! i) \<noteq> buffer (i + 1) then preturn 0 else preturn 1)"

definition ntCheckInitiated :: "u8 net" where
  "ntCheckInitiated = pget ntIsInitiated"


section \<open>Packets\<close>

record packet =
  pk_start :: u8
  addr_d0 :: u8
  addr_d1 :: u8
  addr_s0 :: u8
  addr_s1 :: u8
  pk_index :: u8
  pk_total :: u8
  pk_data :: "u8 list"
  pk_stop :: u8

definition NETWORK_PACKET_DATA_SIZE :: nat where "NETWORK_PACKET_DATA_SIZE = 16"
definition NETWORK_PACKET_START_BYTE :: u8 where "NETWORK_PACKET_START_BYTE = 0x55"
definition NETWORK_PACKET_STOP_BYTE :: u8 where "NETWORK_PACKET_STOP_BYTE = 0xaa"
definition NETWORK_PACKET_SIZE :: nat where "NETWORK_PACKET_SIZE = 24"

lemmas packet_consts = NETWORK_PACKET_DATA_SIZE_def NETWORK_PACKET_START_BYTE_def
  NETWORK_PACKET_STOP_BYTE_def NETWORK_PACKET_SIZE_def

definition bytes_at :: "u8 list \<Rightarrow> nat \<Rightarrow> u8" where
  "bytes_at bs i = (if i < length bs then bs ! i else 0)"

definition ntPacketSend :: "packet \<Rightarrow> u8 net" where
  "ntPacketSend packet = pbody
     [ntSend (bytes_at [pk_start packet]) 1,
      ntSend (bytes_at [addr_d0 packet, addr_d1 packet]) 2,
      ntSend (bytes_at [addr_s0 packet, addr_s1 packet]) 2,
      ntSend (bytes_at [pk_index packet]) 1,
      ntSend (bytes_at [pk_total packet]) 1,
      ntSend (bytes_at (pk_data packet)) (of_nat NETWORK_PACKET_DATA_SIZE),
      ntSend (bytes_at [pk_stop packet]) 1] (\<lambda>n. 1)"

text \<open>
  \<open>ntPacketReceive\<close> reads 80 bytes and looks for a start byte with a stop byte 23 places on. The
  comparison and the copy can run past the array; \<open>beyond\<close> is what the stack holds there.
\<close>

definition packetEnd :: nat where "packetEnd = 1 + 2 + 2 + 1 + 1 + NETWORK_PACKET_DATA_SIZE"

definition find_packet :: "(nat \<Rightarrow> u8) \<Rightarrow> nat option" where
  "find_packet buffer = find (\<lambda>i. buffer i = NETWORK_PACKET_START_BYTE
     \<and> buffer (i + packetEnd) = NETWORK_PACKET_STOP_BYTE) [0..<80]"

definition packet_at :: "(nat \<Rightarrow> u8) \<Rightarrow> nat \<Rightarrow> packet" where
  "packet_at buffer i =
     \<lparr>pk_start = NETWORK_PACKET_START_BYTE,
      addr_d0 = buffer (i + 1), addr_d1 = buffer (i + 2),
      addr_s0 = buffer (i + 3), addr_s1 = buffer (i + 4),
      pk_index = buffer (i + 5), pk_total = buffer (i + 6),
      pk_data = map (\<lambda>d. buffer (7 + i + d)) [0..<NETWORK_PACKET_DATA_SIZE],
      pk_stop = NETWORK_PACKET_STOP_BYTE\<rparr>"

definition ntPacketReceive :: "(nat \<Rightarrow> u8) \<Rightarrow> packet \<Rightarrow> u8 \<Rightarrow> (u8 \<times> packet) net" where
  "ntPacketReceive beyond packet clearOldPacket =
     pbind (nread_all 0x10 [0..<80] beyond) (\<lambda>buffer.
       case find_packet buffer of
         None \<Rightarrow> preturn (0, packet)
       | Some i \<Rightarrow>
           pbind (if clearOldPacket = 1
                  then pfor [0..<Suc NETWORK_PACKET_SIZE] (\<lambda>c. nwrite (0x10 + of_nat i + of_nat c) 0x00)
                  else preturn ())
                 (\<lambda>_. preturn (1, packet_at buffer i)))"

definition ntPacketClearAll :: "u8 net" where
  "ntPacketClearAll = pbody
     [pfor [0..<200] (\<lambda>i. nwrite (0x10 + of_nat i) 0x00),
      nwrite 0x0b 0] (\<lambda>n. 1)"


section \<open>What is sent\<close>

text \<open>The bytes of a packet in the order of transmission, and the register writes that send them.\<close>

definition wire_bytes :: "packet \<Rightarrow> u8 list" where
  "wire_bytes p = [pk_start p, addr_d0 p, addr_d1 p, addr_s0 p, addr_s1 p, pk_index p, pk_total p]
     @ pk_data p @ [pk_stop p]"

definition send_writes :: "u32 \<Rightarrow> u8 list \<Rightarrow> (u32 \<times> u8) list" where
  "send_writes a bs = concat (map (\<lambda>b. [(a + 0x0c, b), (a + 0x0a, 1)]) bs)"

definition clear_all_writes :: "u32 \<Rightarrow> (u32 \<times> u8) list" where
  "clear_all_writes a = map (\<lambda>i. (a + (0x10 + of_nat i), 0)) [0..<200] @ [(a + 0x0b, 0)]"

lemma send_writes_append: "send_writes a (xs @ ys) = send_writes a xs @ send_writes a ys"
  by (simp add: send_writes_def)

lemma length_send_writes: "length (send_writes a bs) = 2 * length bs"
  by (induction bs) (simp_all add: send_writes_def)

lemma length_wire_bytes: "length (wire_bytes p) = 8 + length (pk_data p)"
  by (simp add: wire_bytes_def)

lemma map_bytes_at: "map (bytes_at bs) [0..<length bs] = bs"
  by (rule nth_equalityI) (simp_all add: bytes_at_def)

context bus_log
begin

lemma emits_nwrite: "emits (nwrite a b) n () n [(nic_address n + a, b)]"
  unfolding nwrite_def by (intro emits_pwith emits_pwrite)

lemma emits_nread:
  assumes "\<And>b. emits (f b) n x n' ws"
  shows "emits (pbind (nread a) f) n x n' ws"
proof -
  have "emits (pbind (pread (nic_address n + a)) f) n x n' ws" by (rule emits_pread) (rule assms)
  then show ?thesis unfolding emits_on_def nread_def by (simp add: run_simps)
qed

lemma emits_poll_sent: "emits (poll_sent k) n () n []"
proof (induction k)
  case 0
  then show ?case by (simp add: emits_preturn)
next
  case (Suc k)
  then show ?case by (auto intro!: emits_nread emits_preturn)
qed

lemma emits_ntSend:
  "emits (ntSend buf sz) n () n (send_writes (nic_address n) (map buf [0..<unat sz]))"
proof -
  have "emits (pseq [nwrite 0x0c (buf i), nwrite 0x0a 0x01, poll_sent 1024]) n () n
      ([(nic_address n + 0x0c, buf i)] @ [(nic_address n + 0x0a, 1)] @ [] @ [])" for i
    by (rule emits_pseq_Cons emits_nwrite emits_poll_sent emits_pseq_Nil)+
  then have "emits (ntSend buf sz) n () n
      (concat (map (\<lambda>i. [(nic_address n + 0x0c, buf i), (nic_address n + 0x0a, 1)]) [0..<unat sz]))"
    unfolding ntSend_def by (intro emits_pfor) simp
  then show ?thesis by (simp add: send_writes_def comp_def)
qed

lemma emits_ntPacketSend:
  assumes "length (pk_data p) = 16"
  shows "emits (ntPacketSend p) n 1 n (send_writes (nic_address n) (wire_bytes p))"
proof -
  let ?s = "\<lambda>bs. send_writes (nic_address n) bs"
  have send: "emits (ntSend (bytes_at bs) (of_nat (length bs))) n () n (?s bs)" if "length bs < 256" for bs
    using emits_ntSend [of "bytes_at bs" "of_nat (length bs)" n] that by (simp add: unat_of_nat map_bytes_at)
  have "emits (ntPacketSend p) n 1 n
      (?s [pk_start p] @ ?s [addr_d0 p, addr_d1 p] @ ?s [addr_s0 p, addr_s1 p] @ ?s [pk_index p]
       @ ?s [pk_total p] @ ?s (pk_data p) @ ?s [pk_stop p] @ [])"
    unfolding ntPacketSend_def packet_consts
    by (rule emits_pbody [where f = "\<lambda>n. 1"], intro emits_pseq_Cons emits_pseq_Nil)
      (use send [of "[_]"] send [of "[_, _]"] send [of "pk_data p"] assms emits_pseq_Nil in simp_all)
  then show ?thesis
    unfolding wire_bytes_def by (simp add: send_writes_append [symmetric] del: append.simps) simp
qed

lemma emits_ClearAll:
  "emits ntPacketClearAll n 1 n (clear_all_writes (nic_address n))"
proof -
  have "emits (pfor [0..<200] (\<lambda>i. nwrite (0x10 + of_nat i) 0x00)) n () n
      (concat (map (\<lambda>i. [(nic_address n + (0x10 + of_nat i), 0)]) [0..<200]))"
    by (rule emits_pfor) (rule emits_nwrite)
  moreover have "concat (map (\<lambda>i. [f i]) xs) = map f xs" for f :: "nat \<Rightarrow> u32 \<times> u8" and xs
    by (induction xs) simp_all
  ultimately have "emits (pfor [0..<200] (\<lambda>i. nwrite (0x10 + of_nat i) 0x00)) n () n
      (map (\<lambda>i. (nic_address n + (0x10 + of_nat i), 0)) [0..<200])" by simp
  then have "emits ntPacketClearAll n 1 n
      (map (\<lambda>i. (nic_address n + (0x10 + of_nat i), 0)) [0..<200] @ [(nic_address n + 0x0b, 0)] @ [])"
    unfolding ntPacketClearAll_def
    by (rule emits_pbody [where f = "\<lambda>n. 1", OF emits_pseq_Cons [OF _ emits_pseq_Cons [OF emits_nwrite emits_pseq_Nil]]])
  then show ?thesis by (simp add: clear_all_writes_def)
qed

end

text \<open>
  Sending a packet ends on every card, whatever its registers read as, and what reaches the
  card is the packet in wire order: start byte, destination, source, index, total, sixteen data
  bytes, stop byte, each put in the data register and followed by the send flag.
\<close>

theorem ntPacketSend_wire:
  assumes "bus_log rd wr log" and "length (pk_data p) = 16"
  shows "emits_on rd wr log (ntPacketSend p) n 1 n (send_writes (nic_address n) (wire_bytes p))"
  by (rule bus_log.emits_ntPacketSend [OF assms])

definition demo_packet :: packet where
  "demo_packet = \<lparr>pk_start = 0x55, addr_d0 = 240, addr_d1 = 80, addr_s0 = 1, addr_s1 = 2,
     pk_index = 1, pk_total = 1, pk_data = replicate 16 0x20, pk_stop = 0xaa\<rparr>"

definition demo_nic :: nic where
  "demo_nic = \<lparr>nic_address = 0x50000, nic_read_waitstate = 10, nic_write_waitstate = 10, ntIsInitiated = 1\<rparr>"

lemma demo_packet_length: "length (pk_data demo_packet) = 16"
  by (simp add: demo_packet_def)

theorem ntPacketSend_wire_witness:
  "\<exists>d. run (history_rd 2000 0) history_wr (ntPacketSend demo_packet) demo_nic idle_device = (Some (1, demo_nic), d)
     \<and> length (history d) = 48"
proof -
  have "bus_log (history_rd 2000 0) history_wr history"
    by unfold_locales (simp_all add: history_rd_def history_wr_def)
  from ntPacketSend_wire [OF this demo_packet_length, of demo_nic]
  obtain d where "run (history_rd 2000 0) history_wr (ntPacketSend demo_packet) demo_nic idle_device
      = (Some (1, demo_nic), d)"
    "history d = send_writes (nic_address demo_nic) (wire_bytes demo_packet)"
    unfolding emits_on_def idle_device_def by fastforce
  then show ?thesis using demo_packet_length by (auto simp: length_send_writes length_wire_bytes)
qed


section \<open>What is received\<close>

text \<open>A card whose registers hold what arrived: they are read without an effect.\<close>

lemma nread_all_mem:
  "run mem_rd mem_wr (nread_all base is buf) n m =
     (Some (\<lambda>k. if k \<in> set is then m (nic_address n + (base + of_nat k)) else buf k, n), m)"
proof (induction "is" arbitrary: buf)
  case Nil
  then show ?case by (simp add: run_simps)
next
  case (Cons i "is")
  then show ?case by (auto simp: run_simps nread_def mem_rd_def fun_eq_iff)
qed

definition window :: "mem \<Rightarrow> u32 \<Rightarrow> (nat \<Rightarrow> u8) \<Rightarrow> nat \<Rightarrow> u8" where
  "window m a beyond = (\<lambda>k. if k < 80 then m (a + (0x10 + of_nat k)) else beyond k)"

definition zeroed :: "u32 \<Rightarrow> nat \<Rightarrow> nat \<Rightarrow> mem \<Rightarrow> mem" where
  "zeroed a i n m = (\<lambda>x. if \<exists>c < n. x = a + (0x10 + of_nat i + of_nat c) then 0 else m x)"

lemma fold_zero: "fold (\<lambda>c m. m(f c := 0)) [0..<n] m = (\<lambda>x. if \<exists>c < n. x = f c then 0 else m x)"
  by (induction n) (auto simp: less_Suc_eq fun_eq_iff)

lemma ntPacketReceive_window:
  "run mem_rd mem_wr (ntPacketReceive beyond old clear) n m =
     (case find_packet (window m (nic_address n) beyond) of
        None \<Rightarrow> (Some ((0, old), n), m)
      | Some i \<Rightarrow> (Some ((1, packet_at (window m (nic_address n) beyond) i), n),
                   if clear = 1 then zeroed (nic_address n) i 25 m else m))"
proof -
  let ?w = "window m (nic_address n) beyond"
  have w: "(\<lambda>k. if k \<in> set [0..<80] then m (nic_address n + (0x10 + of_nat k)) else beyond k) = ?w"
    by (simp add: window_def)
  have clear: "run mem_rd mem_wr (pfor [0..<Suc NETWORK_PACKET_SIZE] (\<lambda>c. nwrite (0x10 + of_nat i + of_nat c) 0)) n m
      = (Some ((), n), zeroed (nic_address n) i 25 m)" for i
  proof -
    have "run mem_rd mem_wr (pfor [0..<25] (\<lambda>c. nwrite (0x10 + of_nat i + of_nat c) 0)) n m
      = (Some ((), n), fold (\<lambda>c m. mem_wr m (nic_address n + (0x10 + of_nat i + of_nat c)) 0) [0..<25] m)"
      by (rule run_pfor_const) (simp add: nwrite_def run_simps)
    then show ?thesis by (simp add: mem_wr_def fold_zero zeroed_def packet_consts)
  qed
  show ?thesis
    unfolding ntPacketReceive_def
    by (simp only: run_pbind nread_all_mem w) (simp add: run_simps clear del: upt_Suc split: option.splits)
qed

lemma find_first:
  assumes "i < n" "P i" "\<forall>k < i. \<not> P k"
  shows "find P [0..<n] = Some i"
  unfolding find_Some_iff using assms by (intro exI [of _ i]) auto


definition demo_window :: mem where
  "demo_window = (\<lambda>x. if 0x50012 \<le> x \<and> x < 0x5002a then wire_bytes demo_packet ! unat (x - 0x50012) else 0)"


end
