(* ===== verification/Router.thy ===== *)
theory Router
  imports Network
begin

text \<open>
  The packet router (kernel/network/router.c): up to five network cards, a table of what is
  connected to each (a node with an address, another router, or nothing known), and the main
  loop, which polls the cards in turn. The local variables of \<open>InitiateRouter\<close> and the routing table are
  the state; the endless loop is modelled by the number of its passes.
\<close>

section \<open>State\<close>

record router =
  nic :: nic
  device_state :: "nat \<Rightarrow> u8"
  device_type :: "nat \<Rightarrow> u8"
  address_low :: "nat \<Rightarrow> u8"
  address_high :: "nat \<Rightarrow> u8"
  reconnRequestTimeOut :: u16
  reconnRequestRate :: u16
  reconnRequestCounter :: "nat \<Rightarrow> u16"
  receive :: packet

definition NUMBER_OF_PERIPHERALS :: nat where "NUMBER_OF_PERIPHERALS = 5"
definition CLIENT_TYPE_UNKNOWN :: u8 where "CLIENT_TYPE_UNKNOWN = 0"
definition CLIENT_TYPE_NODE :: u8 where "CLIENT_TYPE_NODE = 1"
definition CLIENT_TYPE_ROUTER :: u8 where "CLIENT_TYPE_ROUTER = 2"
definition reconnRequestMax :: u16 where "reconnRequestMax = 2700"
definition reconnRequestMin :: u16 where "reconnRequestMin = 1000"

lemmas router_consts = NUMBER_OF_PERIPHERALS_def CLIENT_TYPE_UNKNOWN_def CLIENT_TYPE_NODE_def
  CLIENT_TYPE_ROUTER_def reconnRequestMax_def reconnRequestMin_def

type_synonym 'a rt = "(router, 'a) prog"

text \<open>A call of the network driver.\<close>

definition on_nic :: "'a net \<Rightarrow> 'a rt" where
  "on_nic m = pzoom nic (\<lambda>n r. r\<lparr>nic := n\<rparr>) m"

definition bind_device :: "nat \<Rightarrow> unit rt" where
  "bind_device s = on_nic (ntBindDevice (of_nat s))"

definition send_packet :: "packet \<Rightarrow> unit rt" where
  "send_packet p = pdo (on_nic (ntPacketSend p))"


section \<open>The packets of the router\<close>

definition packetClientHandshake :: packet where
  "packetClientHandshake =
     \<lparr>pk_start = NETWORK_PACKET_START_BYTE,
      addr_d0 = 0x00, addr_d1 = 0x00, addr_s0 = 0xff, addr_s1 = 0xff,
      pk_index = 1, pk_total = 1,
      pk_data = (replicate NETWORK_PACKET_DATA_SIZE 0x55)[0 := 0x55, 1 := 0x00],
      pk_stop = NETWORK_PACKET_STOP_BYTE\<rparr>"

definition packetRouterHandshakeOutgoing :: packet where
  "packetRouterHandshakeOutgoing =
     \<lparr>pk_start = NETWORK_PACKET_START_BYTE,
      addr_d0 = 0xff, addr_d1 = 0xff, addr_s0 = 0xff, addr_s1 = 0xff,
      pk_index = 1, pk_total = 1,
      pk_data = replicate NETWORK_PACKET_DATA_SIZE 0x55,
      pk_stop = NETWORK_PACKET_STOP_BYTE\<rparr>"

definition packetRouterHandshakeReturn :: packet where
  "packetRouterHandshakeReturn =
     \<lparr>pk_start = NETWORK_PACKET_START_BYTE,
      addr_d0 = 0xff, addr_d1 = 0xff, addr_s0 = 0xff, addr_s1 = 0xff,
      pk_index = 1, pk_total = 1,
      pk_data = replicate NETWORK_PACKET_DATA_SIZE 0xAA,
      pk_stop = NETWORK_PACKET_STOP_BYTE\<rparr>"


section \<open>Initialisation\<close>

definition set_state :: "nat \<Rightarrow> u8 \<Rightarrow> router \<Rightarrow> router" where
  "set_state s v r = r\<lparr>device_state := (device_state r)(s := v)\<rparr>"

definition set_type :: "nat \<Rightarrow> u8 \<Rightarrow> router \<Rightarrow> router" where
  "set_type s v r = r\<lparr>device_type := (device_type r)(s := v)\<rparr>"

definition set_address :: "nat \<Rightarrow> u8 \<Rightarrow> u8 \<Rightarrow> router \<Rightarrow> router" where
  "set_address s low high r =
     r\<lparr>address_low := (address_low r)(s := low), address_high := (address_high r)(s := high)\<rparr>"

definition init_slot :: "nat \<Rightarrow> unit rt" where
  "init_slot s =
     pwith (\<lambda>r. if device_state r s = 1 then pskip
       else pseq
        [pmod (set_state s 0), pmod (set_type s 0), pmod (set_address s 0 0),
         pmod (set_state s 0), pmod (set_type s 0),
         bind_device s,
         pbind (on_nic ntCheckDevice) (\<lambda>ok.
           if ok = 0 then pskip
           else pseq
            [on_nic (ntSetBaudRate NETWORK_BAUD_RATE),
             pmod (set_state s 1),
             pmod (set_type s CLIENT_TYPE_UNKNOWN)])])"

definition gateway_slot :: "nat \<Rightarrow> unit rt" where
  "gateway_slot s =
     pwith (\<lambda>r. if device_state r s = 0 then pskip
       else pseq [bind_device s, send_packet packetRouterHandshakeOutgoing])"


section \<open>Reconnection\<close>

text \<open>The counter of a slot, and what is done when it runs over.\<close>

definition probe_slot :: "nat \<Rightarrow> unit rt" where
  "probe_slot ds =
     pwith (\<lambda>r. if device_type r ds \<noteq> CLIENT_TYPE_UNKNOWN then pskip
       else pseq
        [bind_device ds,
         pbind (on_nic ntCheckDevice) (\<lambda>ok.
           if ok = 0 then pskip
           else pseq
            [on_nic (ntSetBaudRate NETWORK_BAUD_RATE),
             pmod (set_state ds 1)])])"

definition greet_slot :: "nat \<Rightarrow> unit rt" where
  "greet_slot ds =
     pwith (\<lambda>r. if device_state r ds = 0 then pskip
       else if device_type r ds \<noteq> CLIENT_TYPE_UNKNOWN then pskip
       else pseq
        [bind_device ds,
         pdo (on_nic ntPacketClearAll),
         send_packet packetRouterHandshakeOutgoing])"

definition reconnect :: "nat \<Rightarrow> unit rt" where
  "reconnect s = pseq
     [pmod (\<lambda>r. r\<lparr>reconnRequestCounter := (reconnRequestCounter r)(s := reconnRequestCounter r s + 1)\<rparr>),
      pwith (\<lambda>r. if reconnRequestCounter r s > reconnRequestRate r then pseq
        [pmod (\<lambda>r. r\<lparr>reconnRequestCounter := (reconnRequestCounter r)(s := 0)\<rparr>),
         if s = 0 then pmod (reconnRequestTimeOut_update (\<lambda>t. t + 1)) else pskip,
         pwith (\<lambda>r. if reconnRequestTimeOut r > 2 then pseq
           [pmod (reconnRequestRate_update (\<lambda>_. reconnRequestMax)),
            pwith (\<lambda>r. if reconnRequestTimeOut r > 10 then pseq
              [pmod (reconnRequestRate_update (\<lambda>_. reconnRequestMin)),
               pmod (reconnRequestTimeOut_update (\<lambda>_. 0)),
               pfor [0..<NUMBER_OF_PERIPHERALS] probe_slot,
               pfor [0..<NUMBER_OF_PERIPHERALS] greet_slot,
               bind_device s]
             else pskip)]
          else pskip),
         pwith (\<lambda>r. if device_type r s = CLIENT_TYPE_ROUTER then pseq
           [pdo (on_nic ntPacketClearAll),
            send_packet packetRouterHandshakeOutgoing]
          else pskip)]
       else pskip)]"


section \<open>Dispatching a packet\<close>

definition serve_packet :: "nat \<Rightarrow> unit rt" where
  "serve_packet s =
     pwith (\<lambda>r. let p = receive r in
       if pk_data p ! 0 = 0x55 \<and> pk_data p ! 1 = 0x00
       then pseq
        [send_packet packetClientHandshake,
         pmod (set_type s CLIENT_TYPE_NODE),
         pmod (set_address s (addr_s0 p) (addr_s1 p))]
       else pseq
        [if addr_s0 p = 0xff \<and> addr_s1 p = 0xff
         then pseq
          [if pk_data p ! 0 = 0x55
           then pseq [pmod (set_type s CLIENT_TYPE_ROUTER), send_packet packetRouterHandshakeReturn]
           else pskip,
           if pk_data p ! 0 = 0xAA
           then pmod (set_type s CLIENT_TYPE_ROUTER)
           else pskip]
         else pskip,
         if addr_s0 p = 0x00 \<and> addr_s1 p = 0x00
         then send_packet p
         else pskip])"

text \<open>The search for the destination node; the result is \<open>destinationDeviceLocated\<close>.\<close>

fun deliver :: "nat list \<Rightarrow> u8 rt" where
  "deliver [] = preturn 0"
| "deliver (d # ds) =
     pwith (\<lambda>r.
       if device_type r d = CLIENT_TYPE_NODE
          \<and> addr_d0 (receive r) = address_low r d \<and> addr_d1 (receive r) = address_high r d
       then pbind (pseq [bind_device d, send_packet (receive r)]) (\<lambda>_. preturn 1)
       else deliver ds)"

definition to_gateway :: "nat \<Rightarrow> nat \<Rightarrow> unit rt" where
  "to_gateway s d =
     pwith (\<lambda>r. if s = d then pskip
       else if device_type r d = CLIENT_TYPE_ROUTER
       then pseq [bind_device d, send_packet (receive r)]
       else pskip)"

definition route_packet :: "nat \<Rightarrow> unit rt" where
  "route_packet s =
     pbind (deliver [0..<NUMBER_OF_PERIPHERALS]) (\<lambda>destinationDeviceLocated.
       if destinationDeviceLocated = 1 then pskip
       else pfor [0..<NUMBER_OF_PERIPHERALS] (to_gateway s))"

definition dispatch :: "nat \<Rightarrow> unit rt" where
  "dispatch s = pseq
     [pdo (on_nic ntPacketClearAll),
      pwith (\<lambda>r. if addr_d0 (receive r) = 0xff \<and> addr_d1 (receive r) = 0xff
        then serve_packet s
        else route_packet s)]"


section \<open>The main loop\<close>

text \<open>\<open>beyond\<close> is the stack behind the receive buffer, see theory Network.\<close>

definition clear_addresses :: "router \<Rightarrow> router" where
  "clear_addresses r = r\<lparr>receive := (receive r)\<lparr>addr_d0 := 0, addr_d1 := 0, addr_s0 := 0, addr_s1 := 0\<rparr>\<rparr>"

definition receive_packet :: "(nat \<Rightarrow> u8) \<Rightarrow> u8 rt" where
  "receive_packet beyond =
     pwith (\<lambda>r. pbind (on_nic (ntPacketReceive beyond (receive r) 1)) (\<lambda>(ok, p).
       pbind (pmod (receive_update (\<lambda>_. p))) (\<lambda>_. preturn ok)))"

definition router_slot :: "(nat \<Rightarrow> u8) \<Rightarrow> nat \<Rightarrow> unit rt" where
  "router_slot beyond s = pseq
     [bind_device s,
      reconnect s,
      pwith (\<lambda>r. if device_state r s = 0 then pskip else pseq
        [pmod clear_addresses,
         pbind (receive_packet beyond) (\<lambda>ok.
           if ok = 0 then pskip
           else pwith (\<lambda>r. let p = receive r in
             if addr_d0 p = 0 \<and> addr_d1 p = 0 \<and> addr_s0 p = 0 \<and> addr_s1 p = 0
             then pskip
             else dispatch s))])]"

definition router_pass :: "(nat \<Rightarrow> u8) \<Rightarrow> unit rt" where
  "router_pass beyond = pfor [0..<NUMBER_OF_PERIPHERALS] (router_slot beyond)"

definition router_locals :: "router \<Rightarrow> router" where
  "router_locals r = r\<lparr>reconnRequestTimeOut := 0, reconnRequestRate := reconnRequestMin,
     reconnRequestCounter := (\<lambda>_. 0)\<rparr>"

definition InitiateRouter :: "(nat \<Rightarrow> u8) \<Rightarrow> nat \<Rightarrow> unit rt" where
  "InitiateRouter beyond passes = pseq
     [pmod router_locals,
      pfor [0..<3] (\<lambda>retry. pfor [0..<NUMBER_OF_PERIPHERALS] init_slot),
      pfor [0..<3] (\<lambda>retry. pfor [0..<NUMBER_OF_PERIPHERALS] gateway_slot),
      pfor [0..<passes] (\<lambda>_. router_pass beyond)]"


section \<open>The router never stops, and its table stays well formed\<close>

definition router_ok :: "router \<Rightarrow> bool" where
  "router_ok r \<longleftrightarrow> length (pk_data (receive r)) = 16
     \<and> (\<forall>s. device_type r s \<in> {CLIENT_TYPE_UNKNOWN, CLIENT_TYPE_NODE, CLIENT_TYPE_ROUTER})
     \<and> (\<forall>s. device_state r s \<in> {0, 1})"

lemma router_ok_nic [simp]: "router_ok (r\<lparr>nic := n\<rparr>) = router_ok r"
  by (simp add: router_ok_def)

lemma router_ok_updates:
  "router_ok r \<Longrightarrow> v \<in> {0, 1} \<Longrightarrow> router_ok (set_state s v r)"
  "router_ok r \<Longrightarrow> v \<in> {0, 1, 2} \<Longrightarrow> router_ok (set_type s v r)"
  "router_ok r \<Longrightarrow> router_ok (set_address s low high r)"
  "router_ok r \<Longrightarrow> router_ok (clear_addresses r)"
  "router_ok r \<Longrightarrow> router_ok (router_locals r)"
  "router_ok r \<Longrightarrow> router_ok (reconnRequestCounter_update f1 r)"
  "router_ok r \<Longrightarrow> router_ok (reconnRequestTimeOut_update f r)"
  "router_ok r \<Longrightarrow> router_ok (reconnRequestRate_update f r)"
  by (auto simp: router_ok_def set_state_def set_type_def set_address_def clear_addresses_def
      router_locals_def router_consts)

lemma router_ok_values: "(0::u8) \<in> {0, 1}" "(1::u8) \<in> {0, 1}" "CLIENT_TYPE_UNKNOWN \<in> {0, 1, 2}"
  "CLIENT_TYPE_NODE \<in> {0, 1, 2}" "CLIENT_TYPE_ROUTER \<in> {0, 1, 2}" "(0::u8) \<in> {0, 1, 2}"
  by (simp_all add: router_consts)

text \<open>The network driver returns on every device.\<close>

lemma preserves_net [preserving]:
  "preserves P rd wr (nread a)" "preserves P rd wr (nwrite a b)"
  by (simp_all add: preserves_def nread_def nwrite_def run_simps split: prod.splits)

lemma preserves_poll_sent [preserving]: "preserves P rd wr (poll_sent k)"
  by (induction k) (auto intro!: preserving)

lemma preserves_nread_all [preserving]: "preserves P rd wr (nread_all a is buf)"
  by (induction "is" arbitrary: buf) (auto intro!: preserving)

lemma preserves_nt [preserving]:
  "preserves P rd wr (ntSend buf sz)" "preserves P rd wr (ntPacketSend p)"
  "preserves P rd wr ntPacketClearAll" "preserves P rd wr (ntSetBaudRate b)"
  "preserves P rd wr ntCheckDevice" "preserves (\<lambda>_. True) rd wr (ntBindDevice d)"
  unfolding ntSend_def ntPacketSend_def ntPacketClearAll_def ntSetBaudRate_def ntCheckDevice_def
    ntBindDevice_def
  by (intro preserving preserves_pmod; simp)+

lemma preserves_on_nic [preserving]:
  assumes "preserves (\<lambda>_. True) rd wr m"
  shows "preserves router_ok rd wr (on_nic m)"
  unfolding on_nic_def by (rule preserves_pzoom [OF assms]) simp_all

lemma preserves_bind_send [preserving]:
  "preserves router_ok rd wr (bind_device s)" "preserves router_ok rd wr (send_packet p)"
  unfolding bind_device_def send_packet_def by (intro preserving)+

lemma preserves_updates [preserving]:
  "v \<in> {0, 1} \<Longrightarrow> preserves router_ok rd wr (pmod (set_state s v))"
  "v \<in> {0, 1, 2} \<Longrightarrow> preserves router_ok rd wr (pmod (set_type s v))"
  "preserves router_ok rd wr (pmod (set_address s low high))"
  "preserves router_ok rd wr (pmod clear_addresses)"
  "preserves router_ok rd wr (pmod router_locals)"
  "preserves router_ok rd wr (pmod (\<lambda>r. r\<lparr>reconnRequestCounter := c r\<rparr>))"
  "preserves router_ok rd wr (pmod (reconnRequestTimeOut_update t))"
  "preserves router_ok rd wr (pmod (reconnRequestRate_update t))"
  by (rule preserves_pmod, simp add: router_ok_def set_state_def set_type_def set_address_def
      clear_addresses_def router_locals_def router_consts; auto)+

lemmas router_preserving = preserving router_ok_values preserves_pwith

lemma preserves_slots:
  "preserves router_ok rd wr (init_slot s)" "preserves router_ok rd wr (gateway_slot s)"
  "preserves router_ok rd wr (probe_slot s)" "preserves router_ok rd wr (greet_slot s)"
  unfolding init_slot_def gateway_slot_def probe_slot_def greet_slot_def
  by (rule router_preserving)+

lemma preserves_reconnect: "preserves router_ok rd wr (reconnect s)"
  unfolding reconnect_def by (rule router_preserving preserves_slots)+

lemma preserves_deliver: "preserves router_ok rd wr (deliver ds)"
  by (induction ds) (simp_all only: deliver.simps, (rule router_preserving | assumption)+)

lemma preserves_dispatch: "preserves router_ok rd wr (dispatch s)"
  unfolding dispatch_def serve_packet_def route_packet_def to_gateway_def Let_def
  by (rule router_preserving preserves_deliver)+

lemma preserves_receive: "preserves router_ok rd wr (receive_packet beyond)"
  unfolding preserves_def
proof (intro allI impI)
  fix r s assume r: "router_ok r"
  obtain s1 buf where buf: "run rd wr (nread_all 0x10 [0..<80] beyond) (nic r) s = (Some (buf, nic r), s1)"
  proof -
    have "preserves (\<lambda>n. n = nic r) rd wr (nread_all 0x10 [0..<80] beyond)" by (rule preserving)
    then show ?thesis using that unfolding preserves_def by blast
  qed
  obtain s2 where clear: "run rd wr (pfor [0..<Suc NETWORK_PACKET_SIZE] (\<lambda>c. nwrite (0x10 + of_nat i + of_nat c) 0)) (nic r) s1
      = (Some ((), nic r), s2 i)" for i
  proof -
    have "\<exists>s2. run rd wr (pfor [0..<Suc NETWORK_PACKET_SIZE] (\<lambda>c. nwrite (0x10 + of_nat i + of_nat c) 0)) (nic r) s1
      = (Some ((), nic r), s2)" for i
    proof -
      have "preserves (\<lambda>n. n = nic r) rd wr (pfor [0..<Suc NETWORK_PACKET_SIZE] (\<lambda>c. nwrite (0x10 + of_nat i + of_nat c) 0))"
        by (intro preserving)
      then show ?thesis unfolding preserves_def by fastforce
    qed
    then show ?thesis using that by metis
  qed
  have ok: "router_ok (r\<lparr>receive := packet_at buf i\<rparr>)" for i
    using r by (simp add: router_ok_def packet_at_def packet_consts)
  show "\<exists>x r' s'. run rd wr (receive_packet beyond) r s = (Some (x, r'), s') \<and> router_ok r'"
    unfolding receive_packet_def on_nic_def ntPacketReceive_def
    using r ok by (cases "find_packet buf") (auto simp: run_simps buf clear simp del: upt_Suc)
qed

lemma preserves_slot: "preserves router_ok rd wr (router_slot beyond s)"
  unfolding router_slot_def Let_def
  by (rule router_preserving preserves_reconnect preserves_receive preserves_dispatch)+


definition demo_router :: router where
  "demo_router = \<lparr>nic = demo_nic, device_state = (\<lambda>_. 0), device_type = (\<lambda>_. 0), address_low = (\<lambda>_. 0),
     address_high = (\<lambda>_. 0), reconnRequestTimeOut = 0, reconnRequestRate = 0,
     reconnRequestCounter = (\<lambda>_. 0), receive = demo_packet\<rparr>"

lemma demo_router_ok: "router_ok demo_router"
  by (simp add: router_ok_def demo_router_def demo_packet_def router_consts)




section \<open>Where packets go\<close>

text \<open>The reference: the slots a packet that arrived in slot \<open>s\<close> is sent to.\<close>

definition is_node :: "router \<Rightarrow> u8 \<Rightarrow> u8 \<Rightarrow> nat \<Rightarrow> bool" where
  "is_node r low high d \<longleftrightarrow>
     device_type r d = CLIENT_TYPE_NODE \<and> low = address_low r d \<and> high = address_high r d"

definition route_targets :: "router \<Rightarrow> nat \<Rightarrow> packet \<Rightarrow> nat list" where
  "route_targets r s p =
     (case find (is_node r (addr_d0 p) (addr_d1 p)) [0..<5] of
        Some d \<Rightarrow> [d]
      | None \<Rightarrow> filter (\<lambda>d. d \<noteq> s \<and> device_type r d = CLIENT_TYPE_ROUTER) [0..<5])"

definition slot_address :: "nat \<Rightarrow> u32" where
  "slot_address d = PERIPHERAL_ADDRESS_BEGIN + ucast (of_nat d :: u8) * 0x10000"

definition bound :: "nat \<Rightarrow> router \<Rightarrow> router" where
  "bound d r = r\<lparr>nic := (nic r)\<lparr>nic_address := slot_address d\<rparr>\<rparr>"

definition forward_writes :: "nat list \<Rightarrow> packet \<Rightarrow> (u32 \<times> u8) list" where
  "forward_writes ds p = concat (map (\<lambda>d. send_writes (slot_address d) (wire_bytes p)) ds)"

text \<open>The fields that sending does not change.\<close>

definition same_table :: "router \<Rightarrow> router \<Rightarrow> bool" where
  "same_table r r' \<longleftrightarrow> (\<exists>a. r' = r\<lparr>nic := (nic r)\<lparr>nic_address := a\<rparr>\<rparr>)"

lemma same_table_bound: "same_table r (bound d r)"
  unfolding same_table_def bound_def by blast

lemma same_table_refl: "same_table r r"
  unfolding same_table_def by (rule exI [of _ "nic_address (nic r)"]) simp

lemma same_table_trans: "same_table r r' \<Longrightarrow> same_table r' r'' \<Longrightarrow> same_table r r''"
  unfolding same_table_def by auto

lemma same_table_fields:
  assumes "same_table r r'"
  shows "device_type r' = device_type r" "address_low r' = address_low r"
    "address_high r' = address_high r" "receive r' = receive r" "device_state r' = device_state r"
  using assms by (auto simp: same_table_def)

context bus_log
begin

lemma emits_bind: "emits (bind_device d) r () (bound d r) []"
  by (simp add: emits_on_def bind_device_def on_nic_def ntBindDevice_def bound_def slot_address_def run_simps)

lemma emits_send:
  assumes "length (pk_data p) = 16"
  shows "emits (send_packet p) r () r (send_writes (nic_address (nic r)) (wire_bytes p))"
proof -
  have "emits (on_nic (ntPacketSend p)) r 1 (r\<lparr>nic := nic r\<rparr>) (send_writes (nic_address (nic r)) (wire_bytes p))"
    unfolding on_nic_def by (rule emits_pzoom [of _ nic, OF emits_ntPacketSend [OF assms]])
  then show ?thesis unfolding send_packet_def using emits_pdo by simp
qed

lemma emits_forward:
  assumes "length (pk_data p) = 16"
  shows "emits (pseq [bind_device d, send_packet p]) r () (bound d r) (send_writes (slot_address d) (wire_bytes p))"
proof -
  have "nic_address (nic (bound d r)) = slot_address d" by (simp add: bound_def)
  then have "emits (pseq [bind_device d, send_packet p]) r () (bound d r)
      ([] @ send_writes (slot_address d) (wire_bytes p) @ [])"
    using emits_pseq_Cons [OF emits_bind emits_pseq_Cons [OF emits_send [OF assms] emits_pseq_Nil]] by metis
  then show ?thesis by simp
qed

lemma emits_deliver:
  assumes "length (pk_data (receive r)) = 16"
  shows "case find (is_node r (addr_d0 (receive r)) (addr_d1 (receive r))) ds of
      None \<Rightarrow> emits (deliver ds) r 0 r []
    | Some d \<Rightarrow> emits (deliver ds) r 1 (bound d r) (forward_writes [d] (receive r))"
proof (induction ds)
  case Nil
  then show ?case by (simp add: emits_preturn)
next
  case (Cons d ds)
  show ?case
  proof (cases "is_node r (addr_d0 (receive r)) (addr_d1 (receive r)) d")
    case True
    have "emits (pbind (pseq [bind_device d, send_packet (receive r)]) (\<lambda>_. preturn 1)) r 1 (bound d r)
        (send_writes (slot_address d) (wire_bytes (receive r)) @ [])"
      by (rule emits_pbind [OF emits_forward [OF assms] emits_preturn])
    then show ?thesis
      using True by (simp add: is_node_def forward_writes_def) (rule emits_pwith, simp)
  next
    case False
    then have "emits (deliver (d # ds)) r x r' ws" if "emits (deliver ds) r x r' ws" for x r' ws
      using that unfolding deliver.simps is_node_def by (intro emits_pwith) (simp only: if_False)
    then show ?thesis using Cons False by (auto split: option.splits)
  qed
qed

lemma emits_gateways:
  assumes "length (pk_data (receive r)) = 16"
  shows "\<exists>r'. emits (pfor ds (to_gateway s)) r () r'
      (forward_writes (filter (\<lambda>d. d \<noteq> s \<and> device_type r d = CLIENT_TYPE_ROUTER) ds) (receive r))
    \<and> same_table r r'"
  using assms
proof (induction ds arbitrary: r)
  case Nil
  have "emits (pfor [] (to_gateway s)) r () r []" by (simp add: emits_preturn)
  then show ?case using same_table_refl by (auto simp: forward_writes_def)
next
  case (Cons d ds)
  let ?go = "d \<noteq> s \<and> device_type r d = CLIENT_TYPE_ROUTER"
  let ?r1 = "if ?go then bound d r else r"
  have t: "same_table r ?r1" using same_table_bound same_table_refl by simp
  have 1: "emits (to_gateway s d) r () ?r1 (forward_writes (if ?go then [d] else []) (receive r))"
    unfolding to_gateway_def
    by (rule emits_pwith) (use emits_forward [OF Cons.prems, of d r] emits_pskip [of r] in \<open>auto simp: forward_writes_def\<close>)
  obtain r' where 2: "emits (pfor ds (to_gateway s)) ?r1 () r'
      (forward_writes (filter (\<lambda>d. d \<noteq> s \<and> device_type ?r1 d = CLIENT_TYPE_ROUTER) ds) (receive ?r1))"
    "same_table ?r1 r'"
    using Cons.IH [of ?r1] Cons.prems same_table_fields [OF t] by auto
  have "emits (pfor (d # ds) (to_gateway s)) r () r'
      (forward_writes (if ?go then [d] else []) (receive r)
       @ forward_writes (filter (\<lambda>d. d \<noteq> s \<and> device_type r d = CLIENT_TYPE_ROUTER) ds) (receive r))"
    using emits_pbind [OF 1, of "\<lambda>_. pfor ds (to_gateway s)"] 2(1) same_table_fields [OF t] by simp
  then show ?case using same_table_trans [OF t 2(2)] by (auto simp: forward_writes_def)
qed

lemma emits_route:
  assumes "length (pk_data (receive r)) = 16"
  shows "\<exists>r'. emits (route_packet s) r () r' (forward_writes (route_targets r s (receive r)) (receive r))
    \<and> same_table r r'"
proof (cases "find (is_node r (addr_d0 (receive r)) (addr_d1 (receive r))) [0..<5]")
  case None
  obtain r' where g: "emits (pfor [0..<5] (to_gateway s)) r () r'
      (forward_writes (filter (\<lambda>d. d \<noteq> s \<and> device_type r d = CLIENT_TYPE_ROUTER) [0..<5]) (receive r))"
    "same_table r r'"
    using emits_gateways [OF assms] by blast
  have "emits (deliver [0..<5]) r 0 r []" using emits_deliver [OF assms, of "[0..<5]"] None by simp
  from emits_pbind [OF this, of "\<lambda>l. if l = 1 then pskip else pfor [0..<5] (to_gateway s)"] g
  show ?thesis unfolding route_packet_def NUMBER_OF_PERIPHERALS_def route_targets_def by (auto simp: None)
next
  case (Some d)
  have "emits (deliver [0..<5]) r 1 (bound d r) (forward_writes [d] (receive r))"
    using emits_deliver [OF assms, of "[0..<5]"] Some by simp
  then have "emits (pbind (deliver [0..<5]) (\<lambda>l. if l = 1 then pskip else pfor [0..<5] (to_gateway s)))
      r () (bound d r) (forward_writes [d] (receive r) @ [])"
    by (rule emits_pbind) (simp add: emits_pskip)
  then show ?thesis
    unfolding route_packet_def NUMBER_OF_PERIPHERALS_def route_targets_def Some
    using same_table_bound by auto
qed

lemma emits_clear_all: "emits (pdo (on_nic ntPacketClearAll)) r () r (clear_all_writes (nic_address (nic r)))"
proof -
  have "emits (on_nic ntPacketClearAll) r 1 (r\<lparr>nic := nic r\<rparr>) (clear_all_writes (nic_address (nic r)))"
    unfolding on_nic_def by (rule emits_pzoom [of _ nic, OF emits_ClearAll])
  then show ?thesis using emits_pdo by simp
qed

lemma emits_dispatch:
  assumes "emits (if addr_d0 (receive r) = 0xff \<and> addr_d1 (receive r) = 0xff then serve_packet s else route_packet s) r () r' ws"
  shows "emits (dispatch s) r () r' (clear_all_writes (nic_address (nic r)) @ ws)"
proof -
  have "emits (pwith (\<lambda>r. if addr_d0 (receive r) = 0xff \<and> addr_d1 (receive r) = 0xff
      then serve_packet s else route_packet s)) r () r' ws"
    by (rule emits_pwith) (rule assms)
  from emits_pseq_Cons [OF emits_clear_all emits_pseq_Cons [OF this emits_pseq_Nil]]
  have "emits (dispatch s) r () r' (clear_all_writes (nic_address (nic r)) @ ws @ [])"
    unfolding dispatch_def .
  then show ?thesis by simp
qed

lemma emits_client:
  assumes "addr_d0 (receive r) = 0xff" "addr_d1 (receive r) = 0xff"
    "pk_data (receive r) ! 0 = 0x55" "pk_data (receive r) ! 1 = 0"
  shows "emits (dispatch s) r () (set_address s (addr_s0 (receive r)) (addr_s1 (receive r)) (set_type s CLIENT_TYPE_NODE r))
    (clear_all_writes (nic_address (nic r)) @ send_writes (nic_address (nic r)) (wire_bytes packetClientHandshake))"
proof (rule emits_dispatch)
  let ?r' = "set_address s (addr_s0 (receive r)) (addr_s1 (receive r)) (set_type s CLIENT_TYPE_NODE r)"
  let ?ws = "send_writes (nic_address (nic r)) (wire_bytes packetClientHandshake)"
  have len: "length (pk_data packetClientHandshake) = 16" by (simp add: packetClientHandshake_def packet_consts)
  have "emits (pseq [send_packet packetClientHandshake, pmod (set_type s CLIENT_TYPE_NODE),
      pmod (set_address s (addr_s0 (receive r)) (addr_s1 (receive r)))]) r () ?r' (?ws @ [] @ [] @ [])"
    by (rule emits_pseq_Cons [OF emits_send [OF len]] emits_pseq_Cons [OF emits_pmod] emits_pseq_Nil)+
  then have "emits (serve_packet s) r () ?r' ?ws"
    unfolding serve_packet_def by (intro emits_pwith) (simp add: assms Let_def del: One_nat_def)
  then show "emits (if addr_d0 (receive r) = 0xff \<and> addr_d1 (receive r) = 0xff then serve_packet s else route_packet s)
      r () ?r' ?ws" by (simp add: assms)
qed

end

lemma route_targets_sender: "s \<in> set (route_targets r s p) \<Longrightarrow> is_node r (addr_d0 p) (addr_d1 p) s"
  by (auto simp: route_targets_def find_Some_iff split: option.splits)

lemma route_targets_known:
  "d \<in> set (route_targets r s p) \<Longrightarrow> d < 5 \<and> device_type r d \<noteq> CLIENT_TYPE_UNKNOWN"
  by (auto simp: route_targets_def is_node_def router_consts find_Some_iff split: option.splits)

text \<open>
  C32. Routing. A packet for another machine is written, whole and unchanged, to the first slot whose node
  has its address, or, if there is none, to every slot with a router but the one it came from, and to
  nothing else; the routing table stays as it is. Only slots with a known device are used, and
  a packet goes back where it came from only if its destination is the node there.
\<close>

theorem router_routes:
  assumes "bus_log rd wr log" and "router_ok r"
    and "\<not> (addr_d0 (receive r) = 0xff \<and> addr_d1 (receive r) = 0xff)"
  shows "\<exists>r'. emits_on rd wr log (dispatch s) r () r'
      (clear_all_writes (nic_address (nic r)) @ forward_writes (route_targets r s (receive r)) (receive r))
    \<and> same_table r r'
    \<and> (\<forall>d \<in> set (route_targets r s (receive r)). d < 5 \<and> device_type r d \<noteq> CLIENT_TYPE_UNKNOWN
         \<and> (d = s \<longrightarrow> is_node r (addr_d0 (receive r)) (addr_d1 (receive r)) s))"
proof -
  have len: "length (pk_data (receive r)) = 16" using assms(2) by (simp add: router_ok_def)
  obtain r' where r': "emits_on rd wr log (route_packet s) r () r'
      (forward_writes (route_targets r s (receive r)) (receive r))" "same_table r r'"
    using bus_log.emits_route [OF assms(1) len] by blast
  have "emits_on rd wr log (dispatch s) r () r'
      (clear_all_writes (nic_address (nic r)) @ forward_writes (route_targets r s (receive r)) (receive r))"
    by (rule bus_log.emits_dispatch [OF assms(1)]) (simp only: assms(3) if_False r'(1))
  then show ?thesis using r'(2) route_targets_sender route_targets_known by blast
qed

text \<open>A router with a node in slot 1 and routers in slots 2 and 3; the packet comes in at slot 3.\<close>

definition busy_router :: router where
  "busy_router = demo_router\<lparr>device_type := (\<lambda>d. if d = 1 then 1 else if d = 2 \<or> d = 3 then 2 else 0),
     address_low := (\<lambda>_. 7), address_high := (\<lambda>_. 8)\<rparr>"

lemma busy_router_ok: "router_ok busy_router"
  by (simp add: router_ok_def busy_router_def demo_router_def demo_packet_def router_consts)

lemma history_bus_log: "bus_log (history_rd delay ident) history_wr history"
  by unfold_locales (simp_all add: history_rd_def history_wr_def)

theorem router_routes_witness:
  "\<exists>r'. emits_on (history_rd 3 0) history_wr history (dispatch 3) busy_router () r'
     (clear_all_writes 0x50000 @ send_writes 0x60000 (wire_bytes demo_packet))"
proof -
  have "\<not> (addr_d0 (receive busy_router) = 0xff \<and> addr_d1 (receive busy_router) = 0xff)"
    by (simp add: busy_router_def demo_router_def demo_packet_def)
  from router_routes [OF history_bus_log busy_router_ok this, of 3 0 3]
  obtain r' where r: "emits_on (history_rd 3 0) history_wr history (dispatch 3) busy_router () r'
      (clear_all_writes (nic_address (nic busy_router))
       @ forward_writes (route_targets busy_router 3 (receive busy_router)) (receive busy_router))"
    by blast
  have "route_targets busy_router 3 (receive busy_router) = [2]"
    by (simp add: route_targets_def is_node_def busy_router_def demo_router_def demo_packet_def router_consts
        upt_rec)
  moreover have "receive busy_router = demo_packet" "nic_address (nic busy_router) = 0x50000"
    by (simp_all add: busy_router_def demo_router_def demo_nic_def)
  ultimately show ?thesis
    using r by (auto simp: forward_writes_def slot_address_def PERIPHERAL_ADDRESS_BEGIN_def)
qed

text \<open>
  Connecting. A client that greets the router gets the handshake packet back on its own slot, and
  from then on every packet for its address, wherever it comes from, goes to that slot alone, provided no
  slot before it claims the same address.
\<close>

theorem client_becomes_reachable:
  assumes "bus_log rd wr log" and "s < 5"
    and "addr_d0 (receive r) = 0xff" and "addr_d1 (receive r) = 0xff"
    and "pk_data (receive r) ! 0 = 0x55" and "pk_data (receive r) ! 1 = 0"
    and "\<forall>d < s. \<not> is_node r (addr_s0 (receive r)) (addr_s1 (receive r)) d"
    and "addr_d0 p = addr_s0 (receive r)" and "addr_d1 p = addr_s1 (receive r)"
  shows "\<exists>r'. emits_on rd wr log (dispatch s) r () r'
      (clear_all_writes (nic_address (nic r)) @ send_writes (nic_address (nic r)) (wire_bytes packetClientHandshake))
    \<and> route_targets r' t p = [s]"
proof -
  let ?r' = "set_address s (addr_s0 (receive r)) (addr_s1 (receive r)) (set_type s CLIENT_TYPE_NODE r)"
  have "find (is_node ?r' (addr_d0 p) (addr_d1 p)) [0..<5] = Some s"
    by (rule find_first) (use assms(2,7,8,9) in \<open>auto simp: is_node_def set_address_def set_type_def\<close>)
  then have "route_targets ?r' t p = [s]" by (simp add: route_targets_def)
  then show ?thesis using bus_log.emits_client [OF assms(1,3,4,5,6)] by blast
qed

definition greeting :: packet where
  "greeting = demo_packet\<lparr>addr_d0 := 0xff, addr_d1 := 0xff, pk_data := 0x55 # 0 # replicate 14 0x55\<rparr>"

theorem client_becomes_reachable_witness:
  "\<exists>r'. emits_on (history_rd 3 0) history_wr history (dispatch 4) (demo_router\<lparr>receive := greeting\<rparr>) () r'
      (clear_all_writes 0x50000 @ send_writes 0x50000 (wire_bytes packetClientHandshake))
    \<and> route_targets r' 0 (demo_packet\<lparr>addr_d0 := 1, addr_d1 := 2\<rparr>) = [4]"
  using client_becomes_reachable [OF history_bus_log, of 4 "demo_router\<lparr>receive := greeting\<rparr>"
      "demo_packet\<lparr>addr_d0 := 1, addr_d1 := 2\<rparr>" 3 0 0]
  by (simp add: greeting_def demo_packet_def demo_router_def demo_nic_def is_node_def router_consts)

end
