(* ===== verification/KernelBase.thy ===== *)
theory KernelBase
  imports Console
begin

text \<open>
  Small parts of the kernel that print: the version line (kernel/version.c), the fatal error screen
  (kernel/throw.c) and the sizing of the external memory (kernel/kalloc.c).
\<close>

section \<open>The version line\<close>

definition literal :: "string \<Rightarrow> buffer" where
  "literal t = (\<lambda>i. if i < length t then ch (t ! i) else 0)"

definition KERNEL_VERSION_MAJOR :: u8 where "KERNEL_VERSION_MAJOR = 0"
definition KERNEL_VERSION_MINOR :: u8 where "KERNEL_VERSION_MINOR = 1"
definition KERNEL_VERSION_PATCH :: u8 where "KERNEL_VERSION_PATCH = 0"

definition kPrintVersion :: "('x, unit) con" where
  "kPrintVersion =
     pseq
      [ConsoleSetBlinkRate CURSOR_BLINK_RATE,
       print (literal ''kernel'') 7,
       printSpace 1,
       printChar (ch CHR ''v''),
       printInt (ucast KERNEL_VERSION_MAJOR),
       printChar (ch CHR ''.''),
       printInt (ucast KERNEL_VERSION_MINOR),
       printChar (ch CHR ''.''),
       printInt (ucast KERNEL_VERSION_PATCH),
       printLn]"


section \<open>Fatal errors\<close>

definition HALT_SEGMENTATION_FAULT :: u32 where "HALT_SEGMENTATION_FAULT = 0x80000004"
definition HALT_OUT_OF_MEMORY :: u32 where "HALT_OUT_OF_MEMORY = 0x10000008"
definition HALT_BAD_ALLOCATION :: u32 where "HALT_BAD_ALLOCATION = 0x50000007"
definition HALT_ACCESS_VIOLATION :: u32 where "HALT_ACCESS_VIOLATION = 0x80000064"
definition HALT_APP_HANG :: u32 where "HALT_APP_HANG = 0x10000002"

lemmas halt_codes = HALT_SEGMENTATION_FAULT_def HALT_OUT_OF_MEMORY_def HALT_BAD_ALLOCATION_def
  HALT_ACCESS_VIOLATION_def HALT_APP_HANG_def

text \<open>\<open>while(1) nop\<close>: it does not return.\<close>

definition kHalt :: "('s, unit) prog" where
  "kHalt = (\<lambda>s. Ret None)"

definition print_error_name :: "u32 \<Rightarrow> ('x, unit) con" where
  "print_error_name errorCode =
     (if errorCode = HALT_BAD_ALLOCATION then print (literal ''BAD-ALLOC'') 10
      else if errorCode = HALT_SEGMENTATION_FAULT then print (literal ''SIG-SEGV'') 9
      else if errorCode = HALT_OUT_OF_MEMORY then print (literal ''OUT-OF-MEM'') 11
      else if errorCode = HALT_APP_HANG then print (literal ''APP-HANG'') 9
      else pskip)"

text \<open>
  Byte \<open>3 - i\<close> of the address goes through \<open>int_to_hex_string\<close>, which always writes eight digits; the
  local array \<open>hexstr\<close> has two bytes, of which \<open>print\<close> shows the first two digits. The
  six bytes behind it are overwritten in the code; the function does not return, so that they are not
  read again.
\<close>

definition print_address_byte :: "u32 \<Rightarrow> nat \<Rightarrow> ('x, unit) con" where
  "print_address_byte address i =
     pseq
      [ConsoleSetCursor 7 (2 + 2 * of_nat i),
       print (int_to_hex_string (ucast (le32_bytes address ! (3 - i))) (\<lambda>_. 0)) 3]"

definition kThrow :: "u32 \<Rightarrow> u32 \<Rightarrow> ('x, unit) con" where
  "kThrow errorCode hardwareAddress =
     pseq
      [ConsoleClearScreen (ch CHR '' ''),
       ConsoleSetCursor 0 0,
       print (literal ''Fatal kernel error'') 19,
       ConsoleSetCursor 6 0,
       print_error_name errorCode,
       ConsoleSetCursor 7 0,
       print (literal ''0x'') 3,
       pfor [0..<4] (print_address_byte (errorCode + hardwareAddress)),
       ConsoleCursorDisable,
       kHalt]"


section \<open>Sizing the memory\<close>

definition MAX_MEMORY_SIZE :: nat where "MAX_MEMORY_SIZE = 0x40000"

text \<open>
  The loop over the addresses, of which \<open>n\<close> are left: two patterns are written and read back; the
  first byte that does not hold them ends the loop. After each 1024 bytes the number is shown. The result
  is the address at the end of the loop.
\<close>

primrec size_loop :: "nat \<Rightarrow> u32 \<Rightarrow> u16 \<Rightarrow> buffer \<Rightarrow> ('x, u32) con" where
  "size_loop 0 address counter totalString = preturn address"
| "size_loop (Suc n) address counter totalString =
     pbind (pwrite address 0x55) (\<lambda>_.
     pbind (pread address) (\<lambda>byte.
       if byte \<noteq> 0x55 then preturn address else
     pbind (pwrite address 0xAA) (\<lambda>_.
     pbind (pread address) (\<lambda>byte.
       if byte \<noteq> 0xAA then preturn address else
       if counter + 1 < 1024 then size_loop n (address + 1) (counter + 1) totalString else
       (let (place, totalString) = int_to_string (address + 1) totalString in
        pbind (pseq
         [ConsoleSetCursor 0 0,
          print totalString 10,
          printLn,
          ConsoleSetCursor 0 place]) (\<lambda>_. size_loop n (address + 1) 0 totalString))))))"

text \<open>The result is the new value of \<open>totalAllocatedMemory\<close>.\<close>

definition AllocateExternalMemory :: "('x, u32) con" where
  "AllocateExternalMemory =
     pbind ConsoleCursorDisable (\<lambda>_.
     pbind (size_loop MAX_MEMORY_SIZE 0 0 (\<lambda>_. 0x20)) (\<lambda>address.
       let totalAllocatedMemory = address + 1 in
       if totalAllocatedMemory < 1024 then preturn totalAllocatedMemory else
       pbind (pseq
        [printSpace 1,
         print (literal ''bytes free'') 11,
         printLn]) (\<lambda>_. preturn totalAllocatedMemory)))"


section \<open>What the error screen shows\<close>

text \<open>A byte has at most two hexadecimal digits, and the first two of eight are zeros.\<close>

lemma int_to_hex_string_byte:
  "int_to_hex_string (ucast (b::u8)) buf 0 = ch CHR ''0''"
  "int_to_hex_string (ucast (b::u8)) buf 1 = ch CHR ''0''"
proof -
  have d: "drop_bit 28 (ucast b :: u32) = 0" "drop_bit 28 (push_bit 4 (ucast b) :: u32) = 0"
    by (auto simp: bit_simps intro!: bit_word_eqI)
  show "int_to_hex_string (ucast b) buf 0 = ch CHR ''0''" "int_to_hex_string (ucast b) buf 1 = ch CHR ''0''"
    by (simp_all add: int_to_hex_string_def copy_in_def upt_rec Let_def d)
qed

definition error_name :: "u32 \<Rightarrow> string" where
  "error_name errorCode =
     (if errorCode = HALT_BAD_ALLOCATION then ''BAD-ALLOC''
      else if errorCode = HALT_SEGMENTATION_FAULT then ''SIG-SEGV''
      else if errorCode = HALT_OUT_OF_MEMORY then ''OUT-OF-MEM''
      else if errorCode = HALT_APP_HANG then ''APP-HANG'' else '''')"

definition shown :: "u8 \<Rightarrow> string \<Rightarrow> (u32 \<times> u8) list" where
  "shown line t = (1, line) # map (\<lambda>i. (0x10 + of_nat i, ch (t ! i))) [0..<length t]"

text \<open>The writes of the screen: no byte of the address among them.\<close>

definition error_screen :: "u32 \<Rightarrow> (u32 \<times> u8) list" where
  "error_screen errorCode =
     clear_writes (ch CHR '' '') @ [(1, 0), (2, 0)] @ shown 0 ''Fatal kernel error'' @ [(1, 6), (2, 0)]
     @ (if error_name errorCode = '''' then [] else shown 6 (error_name errorCode))
     @ [(1, 7), (2, 0)] @ shown 7 ''0x''
     @ concat (map (\<lambda>i. [(1, 7), (2, 2 + 2 * of_nat i)] @ shown 7 ''00'') [0..<4]) @ [(3, 0)]"

lemma text_writes_literal:
  "n \<le> length t \<Longrightarrow> text_writes (literal t) n = map (\<lambda>i. (0x10 + of_nat i, ch (t ! i))) [0..<n]"
  by (simp add: text_writes_def literal_def)

text \<open>The memory: \<open>sz\<close> bytes that hold what is written to them; the next byte does not.\<close>

definition sized_memory :: "('d \<Rightarrow> u32 \<Rightarrow> u8 \<times> 'd) \<Rightarrow> ('d \<Rightarrow> u32 \<Rightarrow> u8 \<Rightarrow> 'd) \<Rightarrow> nat \<Rightarrow> bool" where
  "sized_memory rd wr sz \<longleftrightarrow> sz \<le> MAX_MEMORY_SIZE
     \<and> (\<forall>s a b. unat a < sz \<longrightarrow> fst (rd (wr s a b) a) = b)
     \<and> (sz < MAX_MEMORY_SIZE \<longrightarrow> (\<forall>s. fst (rd (wr s (of_nat sz) 0x55) (of_nat sz)) \<noteq> 0x55))"

context ready_device
begin

lemma displays_CursorDisable: "attached c \<Longrightarrow> displays ConsoleCursorDisable c () c [(3, 0)]"
  by (simp add: displays_on_def ConsoleCursorDisable_def con_simps log_simps)

lemma displays_literal:
  assumes "attached c" and "length t < 255" and "t \<noteq> ''''"
  shows "displays (print (literal t) (of_nat (length t) + 1)) c ()
    (c\<lparr>console_position := console_position c + of_nat (length t)\<rparr>) (shown (console_line c) t)"
proof -
  have n: "unat (of_nat (length t) + 1 :: u8) - 1 = length t"
    using assms(2) by (simp add: unat_word_ariths unat_of_nat)
  show ?thesis
    using displays_print [OF assms(1), of "literal t" "of_nat (length t) + 1"]
    by (simp add: n text_writes_literal shown_def del: One_nat_def)
qed

lemma displays_error_name:
  assumes "attached c" and "console_line c = 6"
  shows "\<exists>p. displays (print_error_name e) c () (c\<lparr>console_position := p\<rparr>)
    (if error_name e = '''' then [] else shown 6 (error_name e))"
proof -
  have "\<exists>p. c = c\<lparr>console_position := p\<rparr>" by (rule exI [of _ "console_position c"]) simp
  then show ?thesis
  using displays_literal [OF assms(1), of "''BAD-ALLOC''"] displays_literal [OF assms(1), of "''SIG-SEGV''"]
    displays_literal [OF assms(1), of "''OUT-OF-MEM''"] displays_literal [OF assms(1), of "''APP-HANG''"]
    displays_pseq_Nil [of c]
  unfolding print_error_name_def error_name_def
  by (auto simp: assms(2) pskip_def displays_on_def run_simps)
qed

lemma displays_address_byte:
  assumes "attached c"
  shows "\<exists>p. displays (print_address_byte a i) c () (c\<lparr>console_line := 7, console_position := p\<rparr>)
    ([(1, 7), (2, 2 + 2 * of_nat i)] @ shown 7 ''00'')"
proof -
  let ?c = "c\<lparr>console_line := 7, console_position := 2 + 2 * of_nat i\<rparr>"
  let ?t = "int_to_hex_string (ucast (le32_bytes a ! (3 - i))) (\<lambda>_. 0)"
  have "displays (print ?t 3) ?c () (?c\<lparr>console_position := console_position ?c + 2\<rparr>) (shown 7 ''00'')"
    using displays_print [of ?c ?t 3] assms
    by (simp add: text_writes_def shown_def upt_rec int_to_hex_string_byte [unfolded One_nat_def])
  from displays_pseq_Cons [OF displays_SetCursor [OF assms, of 7 "2 + 2 * of_nat i"]
      displays_pseq_Cons [OF this displays_pseq_Nil]]
  show ?thesis unfolding print_address_byte_def by auto
qed

lemma displays_address:
  assumes "attached c"
  shows "\<exists>c'. displays (pfor is (print_address_byte a)) c () c'
      (concat (map (\<lambda>i. [(1, 7), (2, 2 + 2 * of_nat i)] @ shown 7 ''00'') is))
    \<and> attached c' \<and> display c' = display c"
  using assms
proof (induction "is" arbitrary: c)
  case Nil
  then show ?case by (auto simp: displays_on_def run_simps)
next
  case (Cons i "is")
  obtain p where p: "displays (print_address_byte a i) c () (c\<lparr>console_line := 7, console_position := p\<rparr>)
      ([(1, 7), (2, 2 + 2 * of_nat i)] @ shown 7 ''00'')"
    using displays_address_byte [OF Cons.prems] by blast
  let ?c = "c\<lparr>console_line := 7, console_position := p\<rparr>"
  obtain c' where c': "displays (pfor is (print_address_byte a)) ?c () c'
      (concat (map (\<lambda>i. [(1, 7), (2, 2 + 2 * of_nat i)] @ shown 7 ''00'') is))" "attached c'" "display c' = display ?c"
    using Cons.IH [of ?c] Cons.prems by auto
  from displays_pbind [OF p, of "\<lambda>_. pfor is (print_address_byte a)"] c'
  show ?case by fastforce
qed

text \<open>A body that displays something and then halts.\<close>

lemma displays_then_halts:
  assumes "displays (pseq ms) c () c' ws"
  shows "\<exists>d. run rd wr (pseq (ms @ [kHalt])) c s = (None, d) \<and> log d = log s @ at_display c ws"
proof -
  obtain d where "run rd wr (pseq ms) c s = (Some ((), c'), d)" "log d = log s @ at_display c ws"
    using assms unfolding displays_on_def by blast
  then show ?thesis
    by (simp add: pseq_append_run run_pseq_Cons) (simp add: run_def kHalt_def)
qed

lemma displays_screen:
  assumes "attached c"
  shows "\<exists>c'. displays (pseq
      [ConsoleClearScreen (ch CHR '' ''), ConsoleSetCursor 0 0, print (literal ''Fatal kernel error'') 19,
       ConsoleSetCursor 6 0, print_error_name e, ConsoleSetCursor 7 0, print (literal ''0x'') 3,
       pfor [0..<4] (print_address_byte a), ConsoleCursorDisable]) c () c' (error_screen e)"
proof -
  let ?c1 = "c\<lparr>console_line := 0, console_position := 0\<rparr>"
  let ?c2 = "?c1\<lparr>console_position := 18\<rparr>"
  let ?c3 = "?c2\<lparr>console_line := 6, console_position := 0\<rparr>"
  have 2: "displays (print (literal ''Fatal kernel error'') 19) ?c1 () ?c2 (shown 0 ''Fatal kernel error'')"
    using displays_literal [of ?c1 "''Fatal kernel error''"] assms by simp
  obtain p where 3: "displays (print_error_name e) ?c3 () (?c3\<lparr>console_position := p\<rparr>)
      (if error_name e = '''' then [] else shown 6 (error_name e))"
    using displays_error_name [of ?c3 e] assms by auto
  let ?c4 = "?c3\<lparr>console_position := p\<rparr>\<lparr>console_line := 7, console_position := 0\<rparr>"
  let ?c5 = "?c4\<lparr>console_position := 2\<rparr>"
  have 4: "displays (print (literal ''0x'') 3) ?c4 () ?c5 (shown 7 ''0x'')"
    using displays_literal [of ?c4 "''0x''"] assms by simp
  obtain c' where 5: "displays (pfor [0..<4] (print_address_byte a)) ?c5 () c'
      (concat (map (\<lambda>i. [(1, 7), (2, 2 + 2 * of_nat i)] @ shown 7 ''00'') [0..<4]))"
    "attached c'" "display c' = display ?c5"
    using displays_address [of ?c5 "[0..<4]" a] assms by auto
  show ?thesis
    unfolding error_screen_def append_assoc [symmetric]
    by (intro exI [of _ c'], rule displays_eq,
        (rule displays_pseq_Cons displays_pseq_Nil displays_ClearScreen displays_SetCursor 2 3 4 5(1)
          displays_CursorDisable | simp add: assms 5(2,3))+)
qed

lemma run_screen_step:
  assumes "displays m c x c' ws"
  obtains d where "run rd wr m c s = (Some (x, c'), d)"
  using assms unfolding displays_on_def by metis

lemma displays_printSpace:
  assumes "attached c"
  shows "\<exists>ws. displays (printSpace n) c () (c\<lparr>console_position := console_position c + of_nat (unat n)\<rparr>) ws"
proof -
  let ?body = "\<lambda>i. pseq [dwrite 0x00002 console_position, dwrite (0x00010 + of_nat i) (\<lambda>c. ch CHR '' ''),
      pmod (console_position_update (\<lambda>p. p + 1))]"
  have loop: "\<exists>ws. displays (pfor is ?body) c () (c\<lparr>console_position := console_position c + of_nat (length is)\<rparr>) ws" for "is" c
  proof (induction "is" arbitrary: c)
    case Nil
    then show ?case by (auto simp: displays_on_def run_simps intro: exI [of _ "[]"])
  next
    case (Cons i "is")
    let ?c = "console_position_update (\<lambda>p. p + 1) c"
    have b: "displays (?body i) c () ?c [(2, console_position c), (0x10 + of_nat i, ch CHR '' '')]"
      by (rule displays_eq, (rule displays_statements | simp)+)
    obtain ws where "displays (pfor is ?body) ?c () (?c\<lparr>console_position := console_position ?c + of_nat (length is)\<rparr>) ws"
      using Cons.IH by blast
    from displays_pbind [OF b, of "\<lambda>_. pfor is ?body", OF this]
    show ?case by (auto simp: ac_simps)
  qed
  obtain ws where l: "displays (pfor [0..<unat n] ?body) c ()
      (c\<lparr>console_position := console_position c + of_nat (length [0..<unat n])\<rparr>) ws" using loop by blast
  have "displays (printSpace n) c () (c\<lparr>console_position := console_position c + of_nat (unat n)\<rparr>)
      ([] @ [(1, console_line c)] @ ws @ [(2, console_position c + of_nat (unat n))] @ [])"
    unfolding printSpace_def
    by (rule displays_eq, (rule displays_pseq_Cons displays_pseq_Nil displays_wait displays_dwrite l
          displays_pwith displays_SetCursorPosition | simp add: assms)+)
  then show ?thesis by blast
qed

lemma size_loop_finds:
  fixes c :: "'x console_scheme"
  assumes m: "sized_memory rd wr sz" and "k \<le> sz" and "attached c"
  shows "\<exists>c' d. run rd wr (size_loop (MAX_MEMORY_SIZE - k) (of_nat k) counter t) c s = (Some (of_nat sz, c'), d) \<and> attached c'"
  using assms(2,3)
proof (induction "sz - k" arbitrary: k counter t c s)
  case 0
  then have k: "k = sz" by simp
  show ?case
  proof (cases "MAX_MEMORY_SIZE - sz")
    case 0
    then show ?thesis using k \<open>attached c\<close> by (auto simp: run_simps)
  next
    case (Suc n)
    then have "fst (rd (wr s (of_nat sz) 0x55) (of_nat sz)) \<noteq> 0x55"
      using m by (simp add: sized_memory_def)
    then show ?thesis using k Suc \<open>attached c\<close> by (auto simp: run_simps split: prod.splits)
  qed
next
  case (Suc x)
  have k: "k < sz" "x = sz - Suc k" using Suc.hyps(2) by simp_all
  have "sz \<le> MAX_MEMORY_SIZE" using m by (simp add: sized_memory_def)
  then have r: "MAX_MEMORY_SIZE - k = Suc (MAX_MEMORY_SIZE - Suc k)" and "k < 2 ^ 32"
    using k by (auto simp: MAX_MEMORY_SIZE_def)
  then have holds: "fst (rd (wr s (of_nat k) b) (of_nat k)) = b" for s b
    using m k unfolding sized_memory_def by (simp add: unat_of_nat_u32)
  define s1 where "s1 = snd (rd (wr s (of_nat k) 0x55) (of_nat k))"
  define s2 where "s2 = snd (rd (wr s1 (of_nat k) 0xAA) (of_nat k))"
  have rd1: "rd (wr s (of_nat k) 0x55) (of_nat k) = (0x55, s1)" "rd (wr s1 (of_nat k) 0xAA) (of_nat k) = (0xAA, s2)"
    unfolding s1_def s2_def by (simp_all add: prod_eq_iff holds)
  have next_k: "of_nat k + 1 = (of_nat (Suc k) :: u32)" by simp
  have IH: "\<exists>c' d. run rd wr (size_loop (MAX_MEMORY_SIZE - Suc k) (of_nat k + 1) counter t) c s = (Some (of_nat sz, c'), d) \<and> attached c'"
    if "attached c" for counter t s and c :: "'x console_scheme"
    unfolding next_k using Suc.hyps(1) [of "Suc k"] k that by simp
  show ?case
  proof (cases "counter + 1 < 1024")
    case True
    then show ?thesis
      using IH [of c "counter + 1" t s2] Suc.prems unfolding r size_loop.simps by (simp add: run_simps rd1)
  next
    case False
    obtain place u where u: "int_to_string (of_nat k + 1) t = (place, u)" by force
    let ?c1 = "c\<lparr>console_line := 0, console_position := 0\<rparr>"
    let ?c2 = "?c1\<lparr>console_position := of_nat (unat (10::u8) - 1)\<rparr>"
    let ?c3 = "line_down ?c2"
    let ?c4 = "?c3\<lparr>console_line := 0, console_position := place\<rparr>"
    have "displays (print u 10) ?c1 () ?c2 ((1, 0) # text_writes u (unat (10::u8) - 1))"
      using displays_print [of ?c1 u 10] Suc.prems by simp
    then have "\<exists>ws. displays (pseq [ConsoleSetCursor 0 0, print u 10, printLn, ConsoleSetCursor 0 place]) c () ?c4 ws"
      by (intro exI) (rule displays_pseq_Cons displays_pseq_Nil displays_SetCursor displays_printLn | assumption
        | simp add: Suc.prems line_down_def)+
    then obtain ws where ws: "displays (pseq [ConsoleSetCursor 0 0, print u 10, printLn, ConsoleSetCursor 0 place]) c () ?c4 ws" by blast
    obtain d where "run rd wr (pseq [ConsoleSetCursor 0 0, print u 10, printLn, ConsoleSetCursor 0 place]) c s2 = (Some ((), ?c4), d)"
      using run_screen_step [OF ws] .
    then show ?thesis
      using IH [of ?c4 0 u d] Suc.prems False unfolding r size_loop.simps by (simp add: run_simps rd1 u)
  qed
qed

lemma AllocateExternalMemory_runs:
  assumes "attached c" and "sized_memory rd wr sz"
  shows "\<exists>c' d. run rd wr AllocateExternalMemory c s = (Some (of_nat sz + 1, c'), d)"
proof -
  obtain d1 where d1: "run rd wr ConsoleCursorDisable c s = (Some ((), c), d1)"
    using run_screen_step [OF displays_CursorDisable [OF assms(1)]] .
  obtain c2 d2 where c2: "run rd wr (size_loop MAX_MEMORY_SIZE 0 0 (\<lambda>_. 0x20)) c d1 = (Some (of_nat sz, c2), d2)"
    "attached c2"
    using size_loop_finds [OF assms(2), of 0 c 0 "\<lambda>_. 0x20" d1] assms(1) by auto
  let ?c3 = "c2\<lparr>console_position := console_position c2 + of_nat (unat (1::u8))\<rparr>"
  let ?c4 = "?c3\<lparr>console_position := console_position ?c3 + of_nat (length ''bytes free'')\<rparr>"
  obtain ws where ws: "displays (printSpace 1) c2 () ?c3 ws"
    using displays_printSpace [OF c2(2)] by blast
  have p: "displays (print (literal ''bytes free'') 11) ?c3 () ?c4 (shown (console_line ?c3) ''bytes free'')"
    using displays_literal [of ?c3 "''bytes free''"] c2(2) by simp
  have "displays (pseq [printSpace 1, print (literal ''bytes free'') 11, printLn]) c2 () (line_down ?c4)
      (ws @ shown (console_line ?c3) ''bytes free'' @ line_down_writes ?c4 @ [])"
    by (rule displays_pseq_Cons displays_pseq_Nil ws p displays_printLn | simp add: c2(2) line_down_def)+
  from run_screen_step [OF this] obtain d3 where
    "run rd wr (pseq [printSpace 1, print (literal ''bytes free'') 11, printLn]) c2 d2 = (Some ((), line_down ?c4), d3)" .
  then show ?thesis
    unfolding AllocateExternalMemory_def by (simp add: run_pbind d1 c2(1) run_preturn Let_def)
qed

end



text \<open>
  C36. The size of the memory. With a memory of \<open>sz\<close> bytes, \<open>AllocateExternalMemory\<close> returns and
  the number it stores is \<open>sz + 1\<close>, one more than there are.
\<close>

theorem AllocateExternalMemory_one_more:
  assumes "ready_device rd wr log base 0x10 limit" and "attached_to base 0x10 limit c"
    and "sized_memory rd wr sz"
  shows "\<exists>c' d. run rd wr AllocateExternalMemory c s = (Some (of_nat sz + 1, c'), d)"
  by (rule ready_device.AllocateExternalMemory_runs [OF assms])

section \<open>A board\<close>

text \<open>A memory of \<open>sz\<close> bytes and, above it, a display that is ready at once.\<close>

definition board_rd :: "nat \<Rightarrow> history_device \<times> mem \<Rightarrow> u32 \<Rightarrow> u8 \<times> history_device \<times> mem" where
  "board_rd sz b a = (if unat a < sz then (snd b a, b)
     else case history_rd 0 0x10 (fst b) a of (x, h) \<Rightarrow> (x, h, snd b))"

definition board_wr :: "history_device \<times> mem \<Rightarrow> u32 \<Rightarrow> u8 \<Rightarrow> history_device \<times> mem" where
  "board_wr b a x = (history_wr (fst b) a x, (snd b)(a := x))"

definition board_log :: "history_device \<times> mem \<Rightarrow> (u32 \<times> u8) list" where
  "board_log b = history (fst b)"

lemma board_ready:
  assumes "sz \<le> unat base"
  shows "ready_device (board_rd sz) board_wr board_log base 0x10 1"
proof unfold_locales
  show "\<exists>k < 1. fst (board_rd sz (polled (board_rd sz) base k d) base) = 0x10" for d
    using assms by (simp add: board_rd_def history_rd_def polled_def)
qed (simp_all add: board_rd_def board_wr_def board_log_def history_rd_def history_wr_def)

lemma board_sized: "sz \<le> MAX_MEMORY_SIZE \<Longrightarrow> sized_memory (board_rd sz) board_wr sz"
  by (simp add: sized_memory_def board_rd_def board_wr_def history_rd_def MAX_MEMORY_SIZE_def unat_of_nat_u32)

theorem AllocateExternalMemory_one_more_witness:
  "\<exists>c' d. run (board_rd 4096) board_wr AllocateExternalMemory ((console_initial 1)\<lparr>display := 0x40000\<rparr>) (idle_device, \<lambda>_. 0)
     = (Some (4097, c'), d)"
proof -
  have a: "attached_to 0x40000 0x10 1 ((console_initial 1)\<lparr>display := 0x40000\<rparr>)"
    by (simp add: attached_to_def console_initial_def)
  have r: "ready_device (board_rd 4096) board_wr board_log 0x40000 0x10 1"
    by (rule board_ready) simp
  show ?thesis
    using AllocateExternalMemory_one_more [OF r a board_sized [of 4096], of "(idle_device, \<lambda>_. 0)"]
    by (simp add: MAX_MEMORY_SIZE_def)
qed

end
