(* ===== verification/Server.thy ===== *)
theory Server
  imports KernelBase Screen Router
begin

text \<open>
  The packet server (kernel/network/server.c): it asks the router for a connection until it gets
  one, and answers every packet of a client with a packet to the client's address. The local variables
  of \<open>InitiateServer\<close> are the state, with what the stack held before in those that the code does
  not initialise; the endless loop is modelled by the number of its turns. \<open>beyond\<close> is the
  stack behind the receive buffer (theory Network), \<open>text_low\<close> and \<open>text_high\<close> are the contents of the
  arrays for numerals.

  The composition with the router is the last section: the server's request registers it, the router's
  answer connects it, and a client's packet is answered.
\<close>

section \<open>State\<close>

record server =
  server_console :: console
  server_nic :: nic
  serverAddress0 :: u8
  serverAddress1 :: u8
  packetClientReturn :: packet
  packetRouterConnectionRequest :: packet
  received :: packet
  connectionStatus :: u8
  connectionAttemptCounter :: u16

type_synonym 'a srv = "(server, 'a) prog"

definition show_on :: "(unit, 'a) con \<Rightarrow> 'a srv" where
  "show_on m = pzoom server_console (\<lambda>k. server_console_update (\<lambda>_. k)) m"

definition on_card :: "'a net \<Rightarrow> 'a srv" where
  "on_card m = pzoom server_nic (\<lambda>n. server_nic_update (\<lambda>_. n)) m"


section \<open>Before the loop\<close>

definition print_address :: "u8 \<Rightarrow> u8 \<Rightarrow> buffer \<Rightarrow> buffer \<Rightarrow> (unit, unit) con" where
  "print_address low high text_low text_high =
     (let (placeLow, msgAddressLow) = int_to_string (ucast low) text_low;
          (placeHigh, msgAddressHigh) = int_to_string (ucast high) text_high
      in pseq
       [print msgAddressLow (placeLow + 1),
        printChar (ch CHR ''.''),
        print msgAddressHigh (placeHigh + 1)])"

definition set_packets :: "server \<Rightarrow> server" where
  "set_packets v = v
     \<lparr>packetClientReturn := (packetClientReturn v)
       \<lparr>pk_start := NETWORK_PACKET_START_BYTE, addr_d0 := 0x00, addr_d1 := 0x00,
        addr_s0 := serverAddress0 v, addr_s1 := serverAddress1 v,
        pk_data := replicate NETWORK_PACKET_DATA_SIZE (ch CHR '' ''),
        pk_stop := NETWORK_PACKET_STOP_BYTE\<rparr>,
      packetRouterConnectionRequest := (packetRouterConnectionRequest v)
       \<lparr>pk_data := (replicate NETWORK_PACKET_DATA_SIZE 0x55)[0 := 0x55, 1 := 0x00],
        pk_start := NETWORK_PACKET_START_BYTE, addr_d0 := 0xff, addr_d1 := 0xff,
        addr_s0 := serverAddress0 v, addr_s1 := serverAddress1 v,
        pk_stop := NETWORK_PACKET_STOP_BYTE\<rparr>\<rparr>"

definition server_prologue :: "buffer \<Rightarrow> buffer \<Rightarrow> unit srv" where
  "server_prologue text_low text_high = pseq
     [show_on (ConsoleSetBlinkRate 0),
      show_on (ConsoleSetCursor 0 0),
      show_on (print (literal ''Server not connected'') 21),
      show_on printLn,
      pwith (\<lambda>v. show_on (print_address (serverAddress0 v) (serverAddress1 v) text_low text_high)),
      show_on printLn,
      pmod set_packets,
      pmod (\<lambda>v. v\<lparr>connectionStatus := 0, connectionAttemptCounter := 800\<rparr>)]"


section \<open>A turn of the loop\<close>

definition connection_attempt :: "unit srv" where
  "connection_attempt = pwith (\<lambda>v.
     if connectionStatus v = 0
     then pseq
       [pmod (connectionAttemptCounter_update (\<lambda>n. n + 1)),
        pwith (\<lambda>v. if connectionAttemptCounter v > 800
          then pseq
            [pmod (connectionAttemptCounter_update (\<lambda>_. 0)),
             pdo (on_card (ntPacketSend (packetRouterConnectionRequest v)))]
          else pskip)]
     else pskip)"

definition clear_received :: "server \<Rightarrow> server" where
  "clear_received v = v\<lparr>received := (received v)
     \<lparr>addr_d0 := 0x00, addr_d1 := 0x00, addr_s0 := 0x00, addr_s1 := 0x00\<rparr>\<rparr>"

definition receive_on :: "(nat \<Rightarrow> u8) \<Rightarrow> u8 srv" where
  "receive_on beyond = pwith (\<lambda>v. pbind (on_card (ntPacketReceive beyond (received v) 1)) (\<lambda>(ok, p).
     pbind (pmod (received_update (\<lambda>_. p))) (\<lambda>_. preturn ok)))"

text \<open>A packet of the router.\<close>

definition router_packet :: "unit srv" where
  "router_packet = pwith (\<lambda>v.
     if pk_data (received v) ! 0 = 0x55 \<and> pk_data (received v) ! 1 = 0x00
     then pseq
       [pmod (connectionStatus_update (\<lambda>_. 1)),
        show_on (ConsoleSetCursor 0 0),
        show_on (print (literal ''Connected           '') 21)]
     else pskip)"

definition return_text :: "u8 list" where
  "return_text = str ''Return packet'' @ replicate 3 0"

definition address_return :: "server \<Rightarrow> server" where
  "address_return v = v\<lparr>packetClientReturn := (packetClientReturn v)
     \<lparr>addr_s0 := serverAddress0 v, addr_s1 := serverAddress1 v,
      addr_d0 := addr_s0 (received v), addr_d1 := addr_s1 (received v)\<rparr>\<rparr>"

definition fill_return :: "server \<Rightarrow> server" where
  "fill_return v = v\<lparr>packetClientReturn := (packetClientReturn v)
     \<lparr>pk_index := 1, pk_total := 1, pk_data := return_text\<rparr>\<rparr>"

text \<open>The source address as it is shown: the two tests of the code are the same.\<close>

definition blank_to_zero :: "buffer \<Rightarrow> buffer" where
  "blank_to_zero t = (if t 0 = ch CHR '' '' \<or> t 1 = ch CHR '' '' then t(0 := ch CHR ''0'') else t)"

definition show_source :: "u8 \<Rightarrow> u8 \<Rightarrow> buffer \<Rightarrow> buffer \<Rightarrow> (unit, unit) con" where
  "show_source low high text_low text_high =
     (let (addrPlaceLow, srcAddressLow) = int_to_string (ucast low) text_low;
          (addrPlaceHigh, srcAddressHigh) = int_to_string (ucast high) text_high;
          addrPlaceLow = (if addrPlaceLow = 0 then addrPlaceLow + 1 else addrPlaceLow);
          addrPlaceHigh = (if addrPlaceHigh = 0 then addrPlaceHigh + 1 else addrPlaceHigh);
          srcAddressLow = blank_to_zero (blank_to_zero srcAddressLow)
      in pseq
       [ConsoleSetCursor 0 4,
        print srcAddressLow (addrPlaceLow + 1),
        printChar (ch CHR ''.''),
        print srcAddressHigh (addrPlaceHigh + 1)])"

text \<open>A packet of a client: announce it, answer it, show it.\<close>

definition announce_client :: "unit srv" where
  "announce_client = pseq
     [show_on (ConsoleClearScreen (ch CHR '' '')),
      pmod address_return,
      show_on (ConsoleSetCursor 0 0),
      show_on (print (literal '' <<                '') 20),
      pmod fill_return]"

definition send_return :: "unit srv" where
  "send_return = pwith (\<lambda>v. pdo (on_card (ntPacketSend (packetClientReturn v))))"

definition show_packet :: "buffer \<Rightarrow> buffer \<Rightarrow> unit srv" where
  "show_packet text_low text_high = pseq
     [pwith (\<lambda>v. show_on (show_source (addr_s0 (received v)) (addr_s1 (received v)) text_low text_high)),
      show_on (ConsoleSetCursor 1 0),
      pwith (\<lambda>v. show_on (pfor [0..<NETWORK_PACKET_DATA_SIZE] (\<lambda>i. printChar (pk_data (received v) ! i))))]"

definition client_packet :: "buffer \<Rightarrow> buffer \<Rightarrow> unit srv" where
  "client_packet text_low text_high = pseq [announce_client, send_return, show_packet text_low text_high]"

definition serve :: "buffer \<Rightarrow> buffer \<Rightarrow> unit srv" where
  "serve text_low text_high = pwith (\<lambda>v. let p = received v in
     if addr_d0 p = 0x00 \<and> addr_d1 p = 0x00 \<and> addr_s0 p = 0x00 \<and> addr_s1 p = 0x00 then pskip
     else pbind (on_card ntPacketClearAll) (\<lambda>_.
       if addr_s0 p = 0xff \<and> addr_s1 p = 0xff then router_packet
       else client_packet text_low text_high))"

definition server_turn :: "(nat \<Rightarrow> u8) \<Rightarrow> buffer \<Rightarrow> buffer \<Rightarrow> unit srv" where
  "server_turn beyond text_low text_high = pseq
     [connection_attempt,
      pmod clear_received,
      pbind (receive_on beyond) (\<lambda>ok. if ok = 0 then pskip else serve text_low text_high)]"

definition InitiateServer :: "(nat \<Rightarrow> u8) \<Rightarrow> buffer \<Rightarrow> buffer \<Rightarrow> nat \<Rightarrow> unit srv" where
  "InitiateServer beyond text_low text_high turns = pseq
     [server_prologue text_low text_high,
      pfor [0..<turns] (\<lambda>_. server_turn beyond text_low text_high)]"


section \<open>Every turn ends\<close>

lemma preserves_option:
  "preserves P rd wr m \<Longrightarrow> (\<And>x. preserves P rd wr (f x))
    \<Longrightarrow> preserves P rd wr (case v of None \<Rightarrow> m | Some x \<Rightarrow> f x)"
  by (cases v) simp_all

context ready_device
begin

abbreviation server_attached :: "server \<Rightarrow> bool" where
  "server_attached v \<equiv> attached (server_console v)"

lemma preserves_show_on:
  assumes "\<And>l. printing_on rd wr (written_since log base ident limit l) p"
  shows "preserves server_attached rd wr (show_on p)"
  unfolding show_on_def
proof (rule preserves_pzoom [where Q = attached])
  show "preserves attached rd wr p"
    unfolding preserves_def
  proof (intro allI impI)
    fix c :: console and s assume "attached c"
    from printing_run [OF assms this]
    show "\<exists>x c' s'. run rd wr p c s = (Some (x, c'), s') \<and> attached c'" by metis
  qed
qed simp_all

lemmas shows_text = log_screen.printing_text log_screen.printing_rules

lemma preserves_show_text:
  "preserves server_attached rd wr (show_on (print t n))"
  "preserves server_attached rd wr (show_on printLn)"
  "preserves server_attached rd wr (show_on (ConsoleSetCursor l i))"
  "preserves server_attached rd wr (show_on (ConsoleSetBlinkRate x))"
  "preserves server_attached rd wr (show_on (ConsoleClearScreen x))"
  "preserves server_attached rd wr (show_on (print_address a b tx ty))"
  "preserves server_attached rd wr (show_on (show_source a b tx ty))"
  "preserves server_attached rd wr (show_on (pfor is (\<lambda>i. printChar (f i))))"
  unfolding print_address_def show_source_def Let_def case_prod_beta
  by (rule preserves_show_on, intro shows_text)+

lemma preserves_on_card:
  "preserves (\<lambda>_. True) rd wr m \<Longrightarrow> preserves server_attached rd wr (on_card m)"
  unfolding on_card_def by (rule preserves_pzoom) simp_all

lemma preserves_ntPacketReceive: "preserves (\<lambda>_. True) rd wr (ntPacketReceive beyond p c)"
  unfolding ntPacketReceive_def by (intro preserving preserves_option)

lemma preserves_server_mod: "(\<And>v. server_console (f v) = server_console v) \<Longrightarrow> preserves server_attached rd wr (pmod f)"
  by (rule preserves_pmod) simp

lemma preserves_router_packet: "preserves server_attached rd wr router_packet"
  unfolding router_packet_def by (intro preserving preserves_pwith preserves_show_text preserves_server_mod) simp

lemma preserves_client_packet: "preserves server_attached rd wr (client_packet tx ty)"
  unfolding client_packet_def announce_client_def send_return_def show_packet_def
  by (intro preserving preserves_pwith preserves_show_text preserves_server_mod preserves_on_card)
    (simp_all add: address_return_def fill_return_def)

lemma preserves_serve: "preserves server_attached rd wr (serve tx ty)"
  unfolding serve_def Let_def
  by (intro preserves_pwith preserves_if preserves_pskip preserves_pbind preserves_on_card preserves_nt
      preserves_router_packet preserves_client_packet)

lemma preserves_receive_on: "preserves server_attached rd wr (receive_on beyond)"
  unfolding receive_on_def case_prod_beta
  by (intro preserving preserves_pwith preserves_server_mod preserves_on_card preserves_ntPacketReceive) simp

lemma preserves_attempt: "preserves server_attached rd wr connection_attempt"
  unfolding connection_attempt_def
  by (intro preserving preserves_pwith preserves_server_mod preserves_on_card) simp_all

lemma preserves_prologue: "preserves server_attached rd wr (server_prologue tx ty)"
  unfolding server_prologue_def
  by (intro preserving preserves_pwith preserves_server_mod preserves_show_text) (simp_all add: set_packets_def)

lemma preserves_turn: "preserves server_attached rd wr (server_turn beyond tx ty)"
  unfolding server_turn_def
  by (intro preserving preserves_attempt preserves_receive_on preserves_serve preserves_server_mod)
    (simp add: clear_received_def)

lemma preserves_server: "preserves server_attached rd wr (InitiateServer beyond tx ty turns)"
  unfolding InitiateServer_def by (intro preserving preserves_prologue preserves_turn)

end


section \<open>What a client gets\<close>

text \<open>The packet that answers the one received.\<close>

definition reply :: "server \<Rightarrow> packet" where
  "reply v = \<lparr>pk_start = pk_start (packetClientReturn v),
     addr_d0 = addr_s0 (received v), addr_d1 = addr_s1 (received v),
     addr_s0 = serverAddress0 v, addr_s1 = serverAddress1 v,
     pk_index = 1, pk_total = 1, pk_data = return_text, pk_stop = pk_stop (packetClientReturn v)\<rparr>"

definition from_client :: "packet \<Rightarrow> bool" where
  "from_client p \<longleftrightarrow> (addr_d0 p \<noteq> 0 \<or> addr_d1 p \<noteq> 0 \<or> addr_s0 p \<noteq> 0 \<or> addr_s1 p \<noteq> 0)
     \<and> (addr_s0 p \<noteq> 0xff \<or> addr_s1 p \<noteq> 0xff)"

lemma length_return_text: "length return_text = 16"
  by (simp add: return_text_def)

lemma reply_filled: "packetClientReturn (fill_return (address_return v)) = reply v"
  by (simp add: fill_return_def address_return_def reply_def)

text \<open>
  A statement that only works on the screen: it takes the variables from \<open>v\<close> to \<open>v'\<close>, the console
  apart, and writes to the display alone.
\<close>

definition screens_on :: "('d \<Rightarrow> u32 \<Rightarrow> u8 \<times> 'd) \<Rightarrow> ('d \<Rightarrow> u32 \<Rightarrow> u8 \<Rightarrow> 'd) \<Rightarrow> ('d \<Rightarrow> (u32 \<times> u8) list) \<Rightarrow>
    u32 \<Rightarrow> u8 \<Rightarrow> nat \<Rightarrow> unit srv \<Rightarrow> server \<Rightarrow> server \<Rightarrow> bool" where
  "screens_on rd wr log base ident limit p v v' \<longleftrightarrow> (\<forall>k s. attached_to base ident limit k \<longrightarrow>
     (\<exists>k' s' ws. run rd wr p (v\<lparr>server_console := k\<rparr>) s = (Some ((), v'\<lparr>server_console := k'\<rparr>), s')
       \<and> attached_to base ident limit k' \<and> log s' = log s @ ws \<and> display_only base ws))"

context ready_device
begin

abbreviation screens :: "unit srv \<Rightarrow> server \<Rightarrow> server \<Rightarrow> bool" where
  "screens \<equiv> screens_on rd wr log base ident limit"

lemma screens_show:
  assumes "\<And>l. printing_on rd wr (written_since log base ident limit l) p"
  shows "screens (show_on p) v v"
  unfolding screens_on_def
proof (intro allI impI)
  fix k :: console and s assume "attached k"
  from printing_run [OF assms this] obtain x k' s' ws where
    "run rd wr p k s = (Some (x, k'), s')" "attached k'" "log s' = log s @ ws" "display_only base ws" .
  then show "\<exists>k' s' ws. run rd wr (show_on p) (v\<lparr>server_console := k\<rparr>) s = (Some ((), v\<lparr>server_console := k'\<rparr>), s')
      \<and> attached k' \<and> log s' = log s @ ws \<and> display_only base ws"
    by (simp add: show_on_def run_simps) blast
qed

lemma screens_Nil: "screens (pseq []) v v"
  by (auto simp: screens_on_def run_simps display_only_def)

lemma screens_Cons:
  assumes "screens p v v1" and "screens (pseq ps) v1 v'"
  shows "screens (pseq (p # ps)) v v'"
  unfolding screens_on_def
proof (intro allI impI)
  fix k :: console and s assume "attached k"
  then obtain k1 s1 ws1 where 1: "run rd wr p (v\<lparr>server_console := k\<rparr>) s = (Some ((), v1\<lparr>server_console := k1\<rparr>), s1)"
    "attached k1" "log s1 = log s @ ws1" "display_only base ws1"
    using assms(1) unfolding screens_on_def by blast
  obtain k2 s2 ws2 where 2: "run rd wr (pseq ps) (v1\<lparr>server_console := k1\<rparr>) s1 = (Some ((), v'\<lparr>server_console := k2\<rparr>), s2)"
    "attached k2" "log s2 = log s1 @ ws2" "display_only base ws2"
    using assms(2) 1(2) unfolding screens_on_def by blast
  have "run rd wr (pseq (p # ps)) (v\<lparr>server_console := k\<rparr>) s = (Some ((), v'\<lparr>server_console := k2\<rparr>), s2)"
    by (simp add: run_pseq_Cons 1(1) 2(1))
  moreover have "log s2 = log s @ (ws1 @ ws2)" "display_only base (ws1 @ ws2)"
    using 1(3,4) 2(3,4) by (simp_all add: display_only_append)
  ultimately show "\<exists>k' s' ws. run rd wr (pseq (p # ps)) (v\<lparr>server_console := k\<rparr>) s = (Some ((), v'\<lparr>server_console := k'\<rparr>), s')
      \<and> attached k' \<and> log s' = log s @ ws \<and> display_only base ws"
    using 2(2) by blast
qed

lemma screens_pmod:
  "(\<And>k. f (v\<lparr>server_console := k\<rparr>) = (f v)\<lparr>server_console := k\<rparr>) \<Longrightarrow> screens (pmod f) v (f v)"
  by (auto simp: screens_on_def run_simps display_only_def intro!: exI [of _ "[]"])

lemma screens_pwith: "(\<And>k. screens (f (v\<lparr>server_console := k\<rparr>)) v v') \<Longrightarrow> screens (pwith f) v v'"
  by (simp add: screens_on_def run_pwith)

lemma screens_run:
  assumes "screens p v v'" and "server_attached v"
  obtains k s' ws where "run rd wr p v s = (Some ((), v'\<lparr>server_console := k\<rparr>), s')" "attached k"
    "log s' = log s @ ws" "display_only base ws"
proof -
  have "v\<lparr>server_console := server_console v\<rparr> = v" by simp
  then show ?thesis using assms that unfolding screens_on_def by metis
qed

lemma run_on_card:
  assumes "emits m (server_nic v) x (server_nic v) ws"
  obtains s' where "run rd wr (on_card m) v s = (Some (x, v), s')" "log s' = log s @ ws"
proof -
  obtain s' where "run rd wr m (server_nic v) s = (Some (x, server_nic v), s')" "log s' = log s @ ws"
    using assms unfolding emits_on_def by blast
  then show ?thesis using that by (simp add: on_card_def run_simps)
qed

lemmas screens_rules = screens_show screens_Nil screens_Cons screens_pmod screens_pwith

lemma before_reply: "screens announce_client v (fill_return (address_return v))"
  unfolding announce_client_def
  by (rule screens_rules shows_text | simp add: address_return_def fill_return_def)+

lemma after_reply: "screens (show_packet tx ty) v v"
  unfolding show_packet_def show_source_def Let_def case_prod_beta
  by (rule screens_rules shows_text)+

lemma run_reply:
  assumes "server_nic w = n" and "packetClientReturn w = reply v"
  obtains s' where "run rd wr send_return w s = (Some ((), w), s')"
    "log s' = log s @ send_writes (nic_address n) (wire_bytes (reply v))"
proof -
  have "length (pk_data (reply v)) = 16" by (simp add: reply_def length_return_text)
  then have "emits (ntPacketSend (reply v)) (server_nic w) 1 (server_nic w)
      (send_writes (nic_address n) (wire_bytes (reply v)))"
    unfolding assms(1) by (rule emits_ntPacketSend)
  then obtain s' where "run rd wr (on_card (ntPacketSend (reply v))) w s = (Some (1, w), s')"
    "log s' = log s @ send_writes (nic_address n) (wire_bytes (reply v))"
    by (rule run_on_card)
  then show ?thesis by (intro that) (simp_all add: send_return_def run_simps assms(2))
qed

lemma run_client_packet:
  assumes "server_attached v"
  shows "\<exists>v' s' ws1 ws2. run rd wr (client_packet tx ty) v s = (Some ((), v'), s')
    \<and> log s' = log s @ ws1 @ send_writes (nic_address (server_nic v)) (wire_bytes (reply v)) @ ws2
    \<and> display_only base ws1 \<and> display_only base ws2"
proof -
  let ?v = "fill_return (address_return v)"
  obtain k1 s1 ws1 where 1: "run rd wr announce_client v s = (Some ((), ?v\<lparr>server_console := k1\<rparr>), s1)"
    "attached k1" "log s1 = log s @ ws1" "display_only base ws1"
    by (rule screens_run [OF before_reply assms])
  let ?v1 = "?v\<lparr>server_console := k1\<rparr>"
  have v1: "server_nic ?v1 = server_nic v" "packetClientReturn ?v1 = reply v"
    by (simp add: fill_return_def address_return_def) (simp add: reply_filled)
  obtain s2 where 2: "run rd wr send_return ?v1 s1 = (Some ((), ?v1), s2)"
    "log s2 = log s1 @ send_writes (nic_address (server_nic v)) (wire_bytes (reply v))"
    by (rule run_reply [OF v1])
  have "server_attached ?v1" using 1(2) by simp
  then obtain k3 s3 ws3 where 3: "run rd wr (show_packet tx ty) ?v1 s2
      = (Some ((), ?v1\<lparr>server_console := k3\<rparr>), s3)" "attached k3" "log s3 = log s2 @ ws3" "display_only base ws3"
    by (rule screens_run [OF after_reply])
  have "run rd wr (client_packet tx ty) v s = (Some ((), ?v1\<lparr>server_console := k3\<rparr>), s3)"
    by (simp add: client_packet_def run_pseq_Cons run_pseq_Nil 1(1) 2(1) 3(1) del: server.update_convs)
  moreover have "log s3 = log s @ ws1 @ send_writes (nic_address (server_nic v)) (wire_bytes (reply v)) @ ws3"
    by (simp add: 1(3) 2(2) 3(3))
  ultimately show ?thesis using 1(4) 3(4) by blast
qed

lemma serve_client:
  assumes "server_attached v" and "from_client (received v)"
  shows "\<exists>v' s' ws1 ws2. run rd wr (serve tx ty) v s = (Some ((), v'), s')
    \<and> log s' = log s @ clear_all_writes (nic_address (server_nic v)) @ ws1
         @ send_writes (nic_address (server_nic v)) (wire_bytes (reply v)) @ ws2
    \<and> display_only base ws1 \<and> display_only base ws2"
proof -
  obtain s0 where 0: "run rd wr (on_card ntPacketClearAll) v s = (Some (1, v), s0)"
    "log s0 = log s @ clear_all_writes (nic_address (server_nic v))"
    by (rule run_on_card [OF emits_ClearAll])
  have "run rd wr (serve tx ty) v s = run rd wr (client_packet tx ty) v s0"
    using assms(2) unfolding serve_def Let_def run_pwith from_client_def
    by (auto simp: run_pbind 0(1))
  then show ?thesis using run_client_packet [OF assms(1), of tx ty s0] 0(2) by simp
qed

lemma serve_confirmed:
  assumes "server_attached v" and "addr_s0 (received v) = 0xff" "addr_s1 (received v) = 0xff"
    and "pk_data (received v) ! 0 = 0x55" "pk_data (received v) ! 1 = 0"
  shows "\<exists>v' s'. run rd wr (serve tx ty) v s = (Some ((), v'), s') \<and> connectionStatus v' = 1"
proof -
  obtain s0 where 0: "run rd wr (on_card ntPacketClearAll) v s = (Some (1, v), s0)"
    by (rule run_on_card [OF emits_ClearAll])
  have "screens (pseq [pmod (connectionStatus_update (\<lambda>_. 1)), show_on (ConsoleSetCursor 0 0),
      show_on (print (literal ''Connected           '') 21)]) v (v\<lparr>connectionStatus := 1\<rparr>)"
    by (rule screens_rules shows_text | simp)+
  then obtain k s' where "run rd wr (pseq [pmod (connectionStatus_update (\<lambda>_. 1)), show_on (ConsoleSetCursor 0 0),
      show_on (print (literal ''Connected           '') 21)]) v s0 = (Some ((), v\<lparr>connectionStatus := 1\<rparr>\<lparr>server_console := k\<rparr>), s')"
    using screens_run [OF _ assms(1)] by metis
  then have "run rd wr (serve tx ty) v s = (Some ((), v\<lparr>connectionStatus := 1\<rparr>\<lparr>server_console := k\<rparr>), s')"
    using assms(2-5) by (simp add: serve_def Let_def run_pwith run_pbind 0 router_packet_def del: One_nat_def)
  then show ?thesis by simp
qed

end

context bus_log
begin

lemma emits_request:
  assumes "connectionStatus v = 0" and "connectionAttemptCounter v = 800"
    and "length (pk_data (packetRouterConnectionRequest v)) = 16"
  shows "emits connection_attempt v () (v\<lparr>connectionAttemptCounter := 0\<rparr>)
    (send_writes (nic_address (server_nic v)) (wire_bytes (packetRouterConnectionRequest v)))"
proof -
  obtain n p where n: "n = server_nic v" "p = packetRouterConnectionRequest v" by blast
  have e: "emits (ntPacketSend p) n 1 n (send_writes (nic_address n) (wire_bytes p))"
    by (rule emits_ntPacketSend) (simp add: n assms(3))
  show ?thesis
    unfolding emits_on_def
  proof
    fix s
    obtain s' where "run rd wr (ntPacketSend p) n s = (Some (1, n), s')"
      "log s' = log s @ send_writes (nic_address n) (wire_bytes p)"
      using e unfolding emits_on_def by blast
    then show "\<exists>s'. run rd wr connection_attempt v s = (Some ((), v\<lparr>connectionAttemptCounter := 0\<rparr>), s')
        \<and> log s' = log s @ send_writes (nic_address (server_nic v)) (wire_bytes (packetRouterConnectionRequest v))"
      by (simp add: connection_attempt_def on_card_def run_simps assms(1,2) n)
  qed
qed

end

text \<open>
  The server never gets stuck. Whatever arrives from the card, and whatever its registers answer, every number of
  turns of the server's loop comes to an end, on a display that becomes ready, and leaves the
  console attached to it.
\<close>

theorem server_runs:
  assumes "ready_device rd wr log base 0x10 limit" and "attached_to base 0x10 limit (server_console v)"
  shows "\<exists>v' s'. run rd wr (InitiateServer beyond text_low text_high turns) v s = (Some ((), v'), s')
    \<and> attached_to base 0x10 limit (server_console v')"
  using ready_device.preserves_server [OF assms(1), of beyond text_low text_high turns] assms(2)
  unfolding preserves_def by fastforce

definition demo_server :: server where
  "demo_server = \<lparr>server_console = (console_initial 3)\<lparr>display := 0x40000\<rparr>, server_nic = demo_nic,
     serverAddress0 = 240, serverAddress1 = 80, packetClientReturn = demo_packet,
     packetRouterConnectionRequest = demo_packet, received = demo_packet,
     connectionStatus = 0, connectionAttemptCounter = 800\<rparr>"

lemma demo_server_ready:
  "ready_device (history_rd 2 0x10) history_wr history 0x40000 0x10 3"
  "attached_to 0x40000 0x10 3 (server_console demo_server)"
  using history_ready [of 2 "0x10" "0x40000"] by (simp_all add: attached_to_def demo_server_def console_initial_def)

theorem server_runs_witness:
  "\<exists>v' d. run (history_rd 2 0x10) history_wr (InitiateServer (\<lambda>_. 0) (\<lambda>_. 0) (\<lambda>_. 0) 1000) demo_server idle_device
    = (Some ((), v'), d) \<and> display (server_console v') = 0x40000"
  using server_runs [OF demo_server_ready, of "\<lambda>_. 0" "\<lambda>_. 0" "\<lambda>_. 0" 1000 idle_device]
  by (auto simp: attached_to_def)

text \<open>
  C34. Every client is answered. To a packet that is neither empty nor from the router the server
  answers with one packet: written whole to the card, from the server's address to the address the packet came from, after
  the receive window was cleared; all else that it writes goes to the display.
\<close>

theorem server_replies:
  assumes "ready_device rd wr log base 0x10 limit" and "attached_to base 0x10 limit (server_console v)"
    and "from_client (received v)"
  shows "\<exists>v' s' ws1 ws2. run rd wr (serve text_low text_high) v s = (Some ((), v'), s')
    \<and> log s' = log s @ clear_all_writes (nic_address (server_nic v)) @ ws1
         @ send_writes (nic_address (server_nic v)) (wire_bytes (reply v)) @ ws2
    \<and> display_only base ws1 \<and> display_only base ws2
    \<and> addr_d0 (reply v) = addr_s0 (received v) \<and> addr_d1 (reply v) = addr_s1 (received v)
    \<and> addr_s0 (reply v) = serverAddress0 v \<and> addr_s1 (reply v) = serverAddress1 v"
  using ready_device.serve_client [OF assms] by (simp add: reply_def)

theorem server_replies_witness:
  "\<exists>v' d. run (history_rd 2 0x10) history_wr (serve (\<lambda>_. 0) (\<lambda>_. 0)) demo_server idle_device = (Some ((), v'), d)
    \<and> (0x50000 + 0x0c, 240) \<in> set (history d)"
proof -
  have "from_client (received demo_server)" by (simp add: from_client_def demo_server_def demo_packet_def)
  from server_replies [OF demo_server_ready this, of "\<lambda>_. 0" "\<lambda>_. 0" idle_device]
  obtain v' d ws1 ws2 where "run (history_rd 2 0x10) history_wr (serve (\<lambda>_. 0) (\<lambda>_. 0)) demo_server idle_device = (Some ((), v'), d)"
    "history d = history idle_device @ clear_all_writes (nic_address (server_nic demo_server)) @ ws1
         @ send_writes (nic_address (server_nic demo_server)) (wire_bytes (reply demo_server)) @ ws2"
    by blast
  then show ?thesis
    by (auto simp: send_writes_def wire_bytes_def reply_def demo_server_def demo_nic_def)
qed

text \<open>
  C33. The handshake of server and router. A server that is not connected sends its request when its counter
  has run up; the router in whose slot it arrives sends the client handshake and from then on takes the slot for the
  node with the server's address; and the server that gets this packet is connected.
\<close>

theorem server_router_handshake:
  assumes "bus_log rrd rwr rlog"
    and "ready_device rd wr log base 0x10 limit" and "attached_to base 0x10 limit (server_console v)"
    and "connectionStatus v = 0" and "connectionAttemptCounter v = 800"
    and "receive r = packetRouterConnectionRequest (set_packets v)"
  shows "emits_on rd wr log connection_attempt (set_packets v) () ((set_packets v)\<lparr>connectionAttemptCounter := 0\<rparr>)
      (send_writes (nic_address (server_nic v)) (wire_bytes (receive r)))
    \<and> (\<exists>r'. emits_on rrd rwr rlog (dispatch slot) r () r'
        (clear_all_writes (nic_address (nic r)) @ send_writes (nic_address (nic r)) (wire_bytes packetClientHandshake))
      \<and> is_node r' (serverAddress0 v) (serverAddress1 v) slot)
    \<and> (\<exists>v' s'. run rd wr (serve text_low text_high) (v\<lparr>received := packetClientHandshake\<rparr>) s = (Some ((), v'), s')
      \<and> connectionStatus v' = 1)"
proof (intro conjI)
  have "bus_log rd wr log" using assms(2) by (rule ready_device.axioms(1))
  then show "emits_on rd wr log connection_attempt (set_packets v) () ((set_packets v)\<lparr>connectionAttemptCounter := 0\<rparr>)
      (send_writes (nic_address (server_nic v)) (wire_bytes (receive r)))"
    using bus_log.emits_request [of rd wr log "set_packets v"] assms(4-6) by (simp add: set_packets_def packet_consts)
  have "addr_d0 (receive r) = 0xff" "addr_d1 (receive r) = 0xff" "pk_data (receive r) ! 0 = 0x55"
    "pk_data (receive r) ! 1 = 0" "addr_s0 (receive r) = serverAddress0 v" "addr_s1 (receive r) = serverAddress1 v"
    by (simp_all add: assms(6) set_packets_def packet_consts)
  then show "\<exists>r'. emits_on rrd rwr rlog (dispatch slot) r () r'
        (clear_all_writes (nic_address (nic r)) @ send_writes (nic_address (nic r)) (wire_bytes packetClientHandshake))
      \<and> is_node r' (serverAddress0 v) (serverAddress1 v) slot"
    using bus_log.emits_client [OF assms(1), of r slot]
    by (intro exI conjI) (assumption, simp add: is_node_def set_address_def set_type_def)
  show "\<exists>v' s'. run rd wr (serve text_low text_high) (v\<lparr>received := packetClientHandshake\<rparr>) s = (Some ((), v'), s')
      \<and> connectionStatus v' = 1"
    by (rule ready_device.serve_confirmed [OF assms(2)]) (simp_all add: assms(3) packetClientHandshake_def packet_consts)
qed

theorem server_router_handshake_witness:
  "\<exists>r'. emits_on (history_rd 3 0) history_wr history (dispatch 4)
      (demo_router\<lparr>receive := packetRouterConnectionRequest (set_packets demo_server)\<rparr>) () r'
      (clear_all_writes 0x50000 @ send_writes 0x50000 (wire_bytes packetClientHandshake))
    \<and> is_node r' 240 80 4"
  using server_router_handshake [OF history_bus_log demo_server_ready, of
      "demo_router\<lparr>receive := packetRouterConnectionRequest (set_packets demo_server)\<rparr>" 3 0 4]
  by (simp add: demo_server_def demo_router_def demo_nic_def)

end
