(* ===== verification/Drivers.thy ===== *)
theory Drivers
  imports KList PortIO BusPins CString "HOL-Library.Monad_Syntax"
begin

text \<open>
  The driver table (kernel/driver/driver.c), the device table (kernel/device/device.c) and the
  baked-in drivers (kernel/drivers.c and the two drivers it calls). Both tables are linked lists of
  pointers (theory KList); what the pointers point to is kept in two maps. The contract of such a
  table is the locale \<open>pointer_table\<close>, extended by registration in \<open>growing_table\<close>; both are interpreted
  on the driver and on the device table. None stands for dereferencing NULL.
\<close>

section \<open>State\<close>

record device =
  device_name :: buffer
  device_id :: u8
  device_class :: u8
  hardware_slot :: u8
  hardware_address :: u32
  device_bus :: bus

record driver =
  driver_device :: device
  is_linked :: u8

text \<open>
  \<open>malloc_node\<close> and \<open>malloc_device\<close> stand for the C library's \<open>malloc\<close>: NULL or an address for a new
  list node, NULL or an address for a new device together with what the memory holds.
\<close>

record tables =
  malloc_node :: "heap \<Rightarrow> ptr"
  malloc_device :: "(ptr \<rightharpoonup> device) \<Rightarrow> ptr \<times> device"
  nodes :: heap
  drivers :: "ptr \<rightharpoonup> driver"
  devices :: "ptr \<rightharpoonup> device"
  DriverTableHead :: ptr
  DeviceTableHead :: ptr

definition DEVICE_NAME_LEN :: u8 where "DEVICE_NAME_LEN = 10"
definition PERIPHERAL_BEGIN :: u32 where "PERIPHERAL_BEGIN = 0x40000"
definition PERIPHERAL_STRIDE :: u32 where "PERIPHERAL_STRIDE = 0x10000"
definition PERIPHERALS :: nat where "PERIPHERALS = 5"


section \<open>The driver table\<close>

definition LoadLibrary :: "buffer \<Rightarrow> u8 \<Rightarrow> u8" where
  "LoadLibrary filename filenameLength = 0"

definition GetNumberOfDrivers :: "tables \<Rightarrow> u32 option" where
  "GetNumberOfDrivers st = ListGetSize (nodes st) (DriverTableHead st)"

definition GetDriverByIndex :: "tables \<Rightarrow> u8 \<Rightarrow> ptr option" where
  "GetDriverByIndex st index =
     do {
       p \<leftarrow> ListGetNode (nodes st) (DriverTableHead st) (ucast index);
       n \<leftarrow> nodes st p;
       Some (node_data n)
     }"

definition RegisterDriver :: "ptr \<Rightarrow> tables \<Rightarrow> (u32 \<times> tables) option" where
  "RegisterDriver p st =
     do {
       (head, h) \<leftarrow> ListAddNode (malloc_node st) (nodes st) (DriverTableHead st) p;
       let st = st\<lparr>nodes := h, DriverTableHead := head\<rparr>;
       n \<leftarrow> GetNumberOfDrivers st;
       Some (n, st)
     }"

text \<open>A loop over the entries of a table, with an index of eight bits.\<close>

partial_function (option) table_scan :: "(u8 \<Rightarrow> ptr option) \<Rightarrow> (ptr \<Rightarrow> bool option) \<Rightarrow> u32 \<Rightarrow> u8 \<Rightarrow> ptr option" where
  "table_scan entry matches n index =
     (if ucast index < n
      then do {
        p \<leftarrow> entry index;
        found \<leftarrow> matches p;
        if found then Some p else table_scan entry matches n (index + 1)
      }
      else Some 0)"

definition name_matches :: "tables \<Rightarrow> buffer \<Rightarrow> u8 \<Rightarrow> ptr \<Rightarrow> bool option" where
  "name_matches st name nameLength p =
     do {
       d \<leftarrow> drivers st p;
       Some (StringCompare (device_name (driver_device d)) nameLength name nameLength = 1)
     }"

definition GetDriverByName :: "tables \<Rightarrow> buffer \<Rightarrow> u8 \<Rightarrow> ptr option" where
  "GetDriverByName st name nameLength =
     do {
       numberOfDrivers \<leftarrow> GetNumberOfDrivers st;
       table_scan (GetDriverByIndex st) (name_matches st name nameLength) numberOfDrivers 0
     }"


section \<open>The device table\<close>

definition GetDeviceByIndex :: "tables \<Rightarrow> u8 \<Rightarrow> ptr option" where
  "GetDeviceByIndex st index =
     do {
       p \<leftarrow> ListGetNode (nodes st) (DeviceTableHead st) (ucast index);
       if p = 0 then Some 0
       else do { n \<leftarrow> nodes st p; Some (node_data n) }
     }"

definition GetNumberOfDevices :: "tables \<Rightarrow> u8 option" where
  "GetNumberOfDevices st = map_option ucast (ListGetSize (nodes st) (DeviceTableHead st))"

text \<open>A statement that can dereference NULL, and assignment to a field of a device.\<close>

definition plift :: "('s \<Rightarrow> ('a \<times> 's) option) \<Rightarrow> ('s, 'a) prog" where
  "plift f = (\<lambda>s. Ret (f s))"

definition set_device :: "ptr \<Rightarrow> (device \<Rightarrow> device) \<Rightarrow> (tables, unit) prog" where
  "set_device p f = plift (\<lambda>st. case devices st p of None \<Rightarrow> None
     | Some d \<Rightarrow> Some ((), st\<lparr>devices := (devices st)(p \<mapsto> f d)\<rparr>))"

definition new_device :: "(tables, ptr) prog" where
  "new_device = plift (\<lambda>st.
     let (p, contents) = malloc_device st (devices st);
         st = (if p = 0 then st else st\<lparr>devices := (devices st)(p \<mapsto> contents)\<rparr>)
     in do {
          (head, h) \<leftarrow> ListAddNode (malloc_node st) (nodes st) (DeviceTableHead st) p;
          Some (p, st\<lparr>nodes := h, DeviceTableHead := head\<rparr>)
        })"

fun blank_loop :: "nat list \<Rightarrow> u8 \<Rightarrow> buffer \<Rightarrow> buffer" where
  "blank_loop [] checkFinished name = name"
| "blank_loop (i # is) checkFinished name =
     (let checkFinished = (if name i = ch CHR '' '' then 1 else checkFinished);
          name = (if checkFinished \<noteq> 0 then name(i := ch CHR '' '') else name)
      in blank_loop is checkFinished name)"

definition init_peripheral :: "nat \<Rightarrow> (tables, unit) prog" where
  "init_peripheral d =
     (let address = PERIPHERAL_BEGIN + PERIPHERAL_STRIDE * of_nat d in
      pbind (pread address) (\<lambda>deviceID.
        if deviceID = 0xff then pskip
        else pbind new_device (\<lambda>p. pseq
         [set_device p (device_id_update (\<lambda>_. deviceID)),
          pfor [0..<unat DEVICE_NAME_LEN] (\<lambda>i.
            pbind (pread (address + of_nat i + 1)) (\<lambda>b.
              set_device p (\<lambda>v. v\<lparr>device_name := (device_name v)(i := b)\<rparr>))),
          set_device p (\<lambda>v. v\<lparr>device_name := blank_loop [0..<unat DEVICE_NAME_LEN] 0 (device_name v)\<rparr>),
          set_device p (hardware_address_update (\<lambda>_. address)),
          set_device p (hardware_slot_update (\<lambda>_. of_nat d))])))"

text \<open>
  Linking driver \<open>i\<close>: the devices in order, up to the first that the driver serves. A driver
  begins with its device, so the cast of one pointer to the other reads \<open>driver_device\<close>.
\<close>

definition serves :: "driver \<Rightarrow> device \<Rightarrow> bool" where
  "serves drv v \<longleftrightarrow>
     \<not> (device_id (driver_device drv) \<noteq> device_id v
        \<or> bus_type (device_bus (driver_device drv)) \<noteq> bus_type (device_bus v))
     \<and> StringCompare (device_name (driver_device drv)) DEVICE_NAME_LEN (device_name v) DEVICE_NAME_LEN \<noteq> 0"

definition link :: "device \<Rightarrow> driver \<Rightarrow> driver" where
  "link v drv = drv\<lparr>driver_device := (driver_device drv)\<lparr>hardware_slot := hardware_slot v,
     hardware_address := hardware_address v\<rparr>, is_linked := 1\<rparr>"

fun link_scan :: "nat \<Rightarrow> nat list \<Rightarrow> tables \<Rightarrow> tables option" where
  "link_scan i [] st = Some st"
| "link_scan i (d # ds) st =
     do {
       node \<leftarrow> ListGetNode (nodes st) (DeviceTableHead st) (of_nat d);
       n \<leftarrow> nodes st node;
       v \<leftarrow> devices st (node_data n);
       p \<leftarrow> GetDriverByIndex st (of_nat i);
       drv \<leftarrow> drivers st p;
       if serves drv v then Some (st\<lparr>drivers := (drivers st)(p \<mapsto> link v drv)\<rparr>)
       else link_scan i ds st
     }"

fun link_all :: "nat list \<Rightarrow> tables \<Rightarrow> tables option" where
  "link_all [] st = Some st"
| "link_all (i # is) st =
     do {
       numberOfDevices \<leftarrow> ListGetSize (nodes st) (DeviceTableHead st);
       st \<leftarrow> link_scan i [0..<unat numberOfDevices] st;
       link_all is st
     }"

definition InitiateDeviceTable :: "(tables, unit) prog" where
  "InitiateDeviceTable = pseq
     [pfor [0..<PERIPHERALS] init_peripheral,
      plift (\<lambda>st. do {
        n \<leftarrow> GetNumberOfDrivers st;
        st \<leftarrow> link_all [0..<unat n] st;
        Some ((), st)
      })]"


section \<open>The baked-in drivers\<close>

text \<open>
  The two driver objects are static, so zero at the start; \<open>display_driver\<close> and
  \<open>keyboard_driver\<close> are their addresses.
\<close>

definition zero_driver :: driver where
  "zero_driver = \<lparr>driver_device = \<lparr>device_name = (\<lambda>_. 0), device_id = 0, device_class = 0, hardware_slot = 0,
     hardware_address = 0, device_bus = \<lparr>read_waitstate = 0, write_waitstate = 0, bus_type = 0\<rparr>\<rparr>, is_linked = 0\<rparr>"

definition set_driver :: "ptr \<Rightarrow> (driver \<Rightarrow> driver) \<Rightarrow> tables \<Rightarrow> tables option" where
  "set_driver p f st = (case drivers st p of None \<Rightarrow> None
     | Some d \<Rightarrow> Some (st\<lparr>drivers := (drivers st)(p \<mapsto> f d)\<rparr>))"

definition put_name :: "string \<Rightarrow> driver \<Rightarrow> driver" where
  "put_name name drv = drv\<lparr>driver_device := (driver_device drv)\<lparr>device_name :=
     (\<lambda>i. if i < length name then ch (name ! i) else if i = length name then 0
          else device_name (driver_device drv) i)\<rparr>\<rparr>"

definition put_hardware :: "u32 \<Rightarrow> u8 \<Rightarrow> u16 \<Rightarrow> driver \<Rightarrow> driver" where
  "put_hardware address ident waitstate drv = drv\<lparr>driver_device := (driver_device drv)\<lparr>hardware_address := address,
     device_id := ident, device_bus := (device_bus (driver_device drv))\<lparr>read_waitstate := waitstate,
       write_waitstate := waitstate\<rparr>\<rparr>, is_linked := 0\<rparr>"

definition initiateDisplayDriver :: "ptr \<Rightarrow> tables \<Rightarrow> tables option" where
  "initiateDisplayDriver display_driver st =
     do {
       st \<leftarrow> set_driver display_driver (put_name ''display'') st;
       (n, st) \<leftarrow> RegisterDriver display_driver st;
       set_driver display_driver (put_hardware PERIPHERAL_BEGIN 0x10 8) st
     }"

definition initiatePS2Driver :: "ptr \<Rightarrow> tables \<Rightarrow> tables option" where
  "initiatePS2Driver keyboard_driver st =
     do {
       st \<leftarrow> set_driver keyboard_driver (put_name ''PS2'') st;
       (n, st) \<leftarrow> RegisterDriver keyboard_driver st;
       set_driver keyboard_driver (put_hardware 0x90000 0x01 2) st
     }"

definition InitBakedDrivers :: "ptr \<Rightarrow> ptr \<Rightarrow> tables \<Rightarrow> tables option" where
  "InitBakedDrivers display_driver keyboard_driver st =
     do {
       st \<leftarrow> initiateDisplayDriver display_driver st;
       initiatePS2Driver keyboard_driver st
     }"


section \<open>The contract of a table of pointers\<close>

lemma unat_ucast_u8_u32: "unat (ucast (x::u8) :: u32) = unat x"
  by transfer (simp add: take_bit_nat_eq_self)

lemma unat_ucast_u8_u16: "unat (ucast (x::u8) :: u16) = unat x"
  by transfer (simp add: take_bit_nat_eq_self)

locale pointer_table =
  fixes entries :: "'s \<Rightarrow> ptr list \<Rightarrow> bool"
    and count :: "'s \<Rightarrow> u32 option"
    and entry :: "'s \<Rightarrow> u8 \<Rightarrow> ptr option"
  assumes count_entries: "entries s ps \<Longrightarrow> length ps < 2 ^ 15 \<Longrightarrow> count s = Some (of_nat (length ps))"
    and entry_nth: "entries s ps \<Longrightarrow> length ps < 2 ^ 15 \<Longrightarrow> i < length ps \<Longrightarrow> i < 256 \<Longrightarrow>
      entry s (of_nat i) = Some (ps ! i)"
begin

text \<open>A scan visits the entries in order and stops at the first match.\<close>

lemma scan_from:
  assumes "entries s ps" "length ps < 256" "\<forall>p \<in> set ps. matches p \<noteq> None" "i \<le> length ps"
  shows "table_scan (entry s) matches (of_nat (length ps)) (of_nat i)
    = Some (case find (\<lambda>p. matches p = Some True) (drop i ps) of None \<Rightarrow> 0 | Some p \<Rightarrow> p)"
  using assms(4)
proof (induction "length ps - i" arbitrary: i)
  case 0
  then have i: "i = length ps" by simp
  have "(ucast (of_nat (length ps) :: u8) :: u32) = of_nat (length ps)"
    using assms(2) by (simp add: word_unat_eq_iff unat_of_nat unat_ucast_u8_u32)
  then show ?case by (subst table_scan.simps) (simp add: i)
next
  case (Suc k)
  then have i: "i < length ps" by simp
  have u: "unat (of_nat i :: u8) = i" "unat (of_nat (length ps) :: u32) = length ps"
    using i assms(2) by (simp_all add: unat_of_nat)
  have lt: "(ucast (of_nat i :: u8) :: u32) < of_nat (length ps)"
    using i u by (simp add: word_less_nat_alt unat_ucast_u8_u32)
  have e: "entry s (of_nat i) = Some (ps ! i)"
    using entry_nth [OF assms(1), of i] i assms(2) by simp
  obtain b where b: "matches (ps ! i) = Some b" using assms(3) i by (metis nth_mem not_None_eq)
  have d: "drop i ps = ps ! i # drop (Suc i) ps" using i by (simp add: Cons_nth_drop_Suc)
  have "table_scan (entry s) matches (of_nat (length ps)) (of_nat (Suc i))
    = Some (case find (\<lambda>p. matches p = Some True) (drop (Suc i) ps) of None \<Rightarrow> 0 | Some p \<Rightarrow> p)"
    using Suc by (intro Suc.hyps) auto
  then show ?case
    using lt e b by (subst table_scan.simps) (simp add: d add.commute)
qed

lemma scan_first:
  assumes "entries s ps" "length ps < 256" "\<forall>p \<in> set ps. matches p \<noteq> None"
  shows "(do { n \<leftarrow> count s; table_scan (entry s) matches n 0 })
    = Some (case find (\<lambda>p. matches p = Some True) ps of None \<Rightarrow> 0 | Some p \<Rightarrow> p)"
  using scan_from [OF assms, of 0] count_entries [OF assms(1)] assms(2) by simp

end

text \<open>A table that can grow; the entry is lost when there is no memory for it.\<close>

locale growing_table = pointer_table entries count entry
  for entries :: "'s \<Rightarrow> ptr list \<Rightarrow> bool"
    and count :: "'s \<Rightarrow> u32 option"
    and entry :: "'s \<Rightarrow> u8 \<Rightarrow> ptr option" +
  fixes room :: "'s \<Rightarrow> bool"
    and register :: "ptr \<Rightarrow> 's \<Rightarrow> 's option"
  assumes register_entries: "entries s ps \<Longrightarrow> length ps < 2 ^ 15 - 1 \<Longrightarrow>
    \<exists>s'. register p s = Some s' \<and> entries s' (if room s then ps @ [p] else ps)"
begin

lemma registered_last:
  assumes "entries s ps" "length ps < 255" "room s"
  shows "\<exists>s'. register p s = Some s' \<and> count s' = Some (of_nat (Suc (length ps)))
    \<and> entry s' (of_nat (length ps)) = Some p"
proof -
  obtain s' where s': "register p s = Some s'" "entries s' (ps @ [p])"
    using register_entries [OF assms(1), of p] assms(2,3) by auto
  then show ?thesis
    using count_entries [OF s'(2)] entry_nth [OF s'(2), of "length ps"] assms(2) by auto
qed

end


section \<open>Both tables keep the contract\<close>

definition driver_entries :: "tables \<Rightarrow> ptr list \<Rightarrow> bool" where
  "driver_entries st ps \<longleftrightarrow> fresh_malloc (malloc_node st) \<and> holds (nodes st) (DriverTableHead st) ps"

definition device_entries :: "tables \<Rightarrow> ptr list \<Rightarrow> bool" where
  "device_entries st ps \<longleftrightarrow> fresh_malloc (malloc_node st) \<and> holds (nodes st) (DeviceTableHead st) ps"

definition has_room :: "tables \<Rightarrow> bool" where
  "has_room st \<longleftrightarrow> malloc_node st (nodes st) \<noteq> 0"

definition add_device :: "ptr \<Rightarrow> tables \<Rightarrow> tables option" where
  "add_device p st =
     do {
       (head, h) \<leftarrow> ListAddNode (malloc_node st) (nodes st) (DeviceTableHead st) p;
       Some (st\<lparr>nodes := h, DeviceTableHead := head\<rparr>)
     }"

lemma list_entry:
  assumes "holds h head ps" "length ps < 2 ^ 15" "i < length ps" "i < 256"
  shows "\<exists>p n. ListGetNode h head (ucast (of_nat i :: u8)) = Some p \<and> p \<noteq> 0 \<and> h p = Some n \<and> node_data n = ps ! i"
proof -
  have "(ucast (of_nat i :: u8) :: 16 word) = of_nat i"
    using assms(4) by (simp add: word_unat_eq_iff unat_of_nat unat_ucast_u8_u16)
  then show ?thesis using ListGetNode_holds [OF assms(1), of i] assms(2-4) by auto
qed

interpretation driver_table: growing_table driver_entries GetNumberOfDrivers GetDriverByIndex has_room
  "\<lambda>p st. map_option snd (RegisterDriver p st)"
proof unfold_locales
  fix st ps assume e: "driver_entries st ps" and l: "length ps < 2 ^ 15"
  show "GetNumberOfDrivers st = Some (of_nat (length ps))"
    using e l unfolding driver_entries_def GetNumberOfDrivers_def by (simp add: ListGetSize_holds)
  show "GetDriverByIndex st (of_nat i) = Some (ps ! i)" if "i < length ps" "i < 256" for i
    using list_entry [of "nodes st" "DriverTableHead st" ps i] e l that
    unfolding driver_entries_def GetDriverByIndex_def by auto
next
  fix st ps p assume e: "driver_entries st ps" and l: "length ps < 2 ^ 15 - 1"
  let ?ps = "if has_room st then ps @ [p] else ps"
  obtain head h where a: "ListAddNode (malloc_node st) (nodes st) (DriverTableHead st) p = Some (head, h)"
    "holds h head ?ps"
    using ListAddNode_holds [of "malloc_node st" "nodes st" "DriverTableHead st" ps p] e
    unfolding driver_entries_def has_room_def by (auto split: if_splits)
  have "ListGetSize h head = Some (of_nat (length ?ps))"
    by (rule ListGetSize_holds [OF a(2)]) (use l in auto)
  then show "\<exists>st'. map_option snd (RegisterDriver p st) = Some st' \<and> driver_entries st' ?ps"
    using a e unfolding RegisterDriver_def GetNumberOfDrivers_def driver_entries_def by simp
qed

interpretation device_table: growing_table device_entries
  "\<lambda>st. ListGetSize (nodes st) (DeviceTableHead st)" GetDeviceByIndex has_room add_device
proof unfold_locales
  fix st ps assume e: "device_entries st ps" and l: "length ps < 2 ^ 15"
  show "ListGetSize (nodes st) (DeviceTableHead st) = Some (of_nat (length ps))"
    using e l unfolding device_entries_def by (simp add: ListGetSize_holds)
  show "GetDeviceByIndex st (of_nat i) = Some (ps ! i)" if "i < length ps" "i < 256" for i
    using list_entry [of "nodes st" "DeviceTableHead st" ps i] e l that
    unfolding device_entries_def GetDeviceByIndex_def by auto
next
  fix st ps p assume e: "device_entries st ps" and l: "length ps < 2 ^ 15 - 1"
  show "\<exists>st'. add_device p st = Some st' \<and> device_entries st' (if has_room st then ps @ [p] else ps)"
    using ListAddNode_holds [of "malloc_node st" "nodes st" "DeviceTableHead st" ps p] e
    unfolding device_entries_def has_room_def add_device_def by (auto split: if_splits)
qed


section \<open>Finding drivers\<close>

lemma GetDriverByName_is_first:
  assumes "driver_entries st ps" and "length ps < 256" and "set ps \<subseteq> dom (drivers st)" and "unat len \<le> 10"
  shows "GetDriverByName st name len
    = Some (case find (\<lambda>p. padded (device_name (driver_device (the (drivers st p)))) (unat len)
                             = padded name (unat len)) ps of None \<Rightarrow> 0 | Some p \<Rightarrow> p)"
proof -
  have m: "name_matches st name len p
      = Some (padded (device_name (driver_device (the (drivers st p)))) (unat len) = padded name (unat len))"
    if "p \<in> set ps" for p
  proof -
    from that assms(3) obtain d where "drivers st p = Some d" by auto
    then show ?thesis using StringCompare_is_padded [OF assms(4,4)] by (simp add: name_matches_def)
  qed
  then have "\<forall>p \<in> set ps. name_matches st name len p \<noteq> None" by simp
  from driver_table.scan_first [OF assms(1,2) this]
  have "GetDriverByName st name len
    = Some (case find (\<lambda>p. name_matches st name len p = Some True) ps of None \<Rightarrow> 0 | Some p \<Rightarrow> p)"
    by (simp add: GetDriverByName_def)
  moreover have "find (\<lambda>p. name_matches st name len p = Some True) ps
    = find (\<lambda>p. padded (device_name (driver_device (the (drivers st p)))) (unat len) = padded name (unat len)) ps"
    by (rule find_cong) (simp_all add: m)
  ultimately show ?thesis by simp
qed

text \<open>
  \<open>GetDriverByName\<close> returns, for a table of fewer than 256 drivers, and it returns the first
  driver registered under the name (names of at most ten characters, up to trailing blanks), or a null
  pointer if there is none.
\<close>

theorem GetDriverByName_first:
  assumes "driver_entries st ps" and "length ps < 256" and "set ps \<subseteq> dom (drivers st)" and "unat len \<le> 10"
  shows "GetDriverByName st name len
    = Some (case find (\<lambda>p. padded (device_name (driver_device (the (drivers st p)))) (unat len)
                             = padded name (unat len)) ps of None \<Rightarrow> 0 | Some p \<Rightarrow> p)"
  using assms by (rule GetDriverByName_is_first)

definition fresh_tables :: "ptr \<Rightarrow> ptr \<Rightarrow> tables \<Rightarrow> bool" where
  "fresh_tables d k st \<longleftrightarrow> DriverTableHead st = 0 \<and> d \<noteq> 0 \<and> k \<noteq> 0 \<and> d \<noteq> k
     \<and> drivers st d = Some zero_driver \<and> drivers st k = Some zero_driver
     \<and> fresh_malloc (malloc_node st) \<and> malloc_node st (nodes st) \<noteq> 0
     \<and> (\<forall>n. malloc_node st ((nodes st)(malloc_node st (nodes st) \<mapsto> n)) \<noteq> 0)"

definition name_buffer :: "string \<Rightarrow> buffer" where
  "name_buffer t = (\<lambda>i. if i < length t then ch (t ! i) else 0)"

lemma RegisterDriver_room:
  assumes "driver_entries st ps" "length ps < 100" and room: "has_room st"
  shows "\<exists>n st'. RegisterDriver p st = Some (n, st') \<and> driver_entries st' (ps @ [p])
    \<and> drivers st' = drivers st \<and> malloc_node st' = malloc_node st"
proof -
  obtain st' where r: "map_option snd (RegisterDriver p st) = Some st'" "driver_entries st' (ps @ [p])"
    using driver_table.register_entries [OF assms(1), of p] assms(2) room by auto
  then obtain n where n: "RegisterDriver p st = Some (n, st')" by auto
  then have "drivers st' = drivers st \<and> malloc_node st' = malloc_node st"
    by (auto simp: RegisterDriver_def Let_def split: Option.bind_splits)
  then show ?thesis using n r(2) by blast
qed

lemma RegisterDriver_first:
  assumes "RegisterDriver p st = Some (n, st')" "DriverTableHead st = 0" "has_room st"
  shows "nodes st' = (nodes st)(malloc_node st (nodes st) \<mapsto> \<lparr>next_node = 0, node_data = p\<rparr>)"
  using assms by (auto simp: RegisterDriver_def ListAddNode_def ListCreateNode_def has_room_def Let_def
      split: Option.bind_splits)

lemma entries_upd [simp]: "driver_entries (st\<lparr>drivers := d\<rparr>) = driver_entries st"
  by (simp add: driver_entries_def fun_eq_iff)

lemma InitBakedDrivers_state:
  assumes "fresh_tables d k st"
  shows "\<exists>st'. InitBakedDrivers d k st = Some st' \<and> driver_entries st' [d, k]
    \<and> drivers st' d = Some (put_hardware PERIPHERAL_BEGIN 0x10 8 (put_name ''display'' zero_driver))
    \<and> drivers st' k = Some (put_hardware 0x90000 0x01 2 (put_name ''PS2'' zero_driver))"
proof -
  note f = assms [unfolded fresh_tables_def]
  let ?s1 = "st\<lparr>drivers := (drivers st)(d \<mapsto> put_name ''display'' zero_driver)\<rparr>"
  have e1: "driver_entries ?s1 []" using f by (simp add: driver_entries_def holds_null)
  obtain n2 s2 where s2: "RegisterDriver d ?s1 = Some (n2, s2)" "driver_entries s2 ([] @ [d])"
    "drivers s2 = drivers ?s1" "malloc_node s2 = malloc_node ?s1"
    using RegisterDriver_room [OF e1, of d] f by (auto simp: has_room_def)
  let ?s3 = "s2\<lparr>drivers := (drivers s2)(d \<mapsto> put_hardware PERIPHERAL_BEGIN 0x10 8 (put_name ''display'' zero_driver))\<rparr>"
  let ?s4 = "?s3\<lparr>drivers := (drivers ?s3)(k \<mapsto> put_name ''PS2'' zero_driver)\<rparr>"
  have e4: "driver_entries ?s4 [d]" using s2(2) by simp
  have "has_room ?s1" using f by (simp add: has_room_def)
  then have "nodes s2 = (nodes st)(malloc_node st (nodes st) \<mapsto> \<lparr>next_node = 0, node_data = d\<rparr>)"
    using RegisterDriver_first [OF s2(1)] f by simp
  then have r4: "has_room ?s4" using f s2(4) by (simp add: has_room_def)
  obtain n5 s5 where s5: "RegisterDriver k ?s4 = Some (n5, s5)" "driver_entries s5 ([d] @ [k])"
    "drivers s5 = drivers ?s4" "malloc_node s5 = malloc_node ?s4"
    using RegisterDriver_room [OF e4 _ r4, of k] by auto
  have "initiateDisplayDriver d st = Some ?s3"
    using f s2(1,3) by (simp add: initiateDisplayDriver_def set_driver_def)
  moreover have "initiatePS2Driver k ?s3
      = Some (s5\<lparr>drivers := (drivers s5)(k \<mapsto> put_hardware 0x90000 0x01 2 (put_name ''PS2'' zero_driver))\<rparr>)"
    using f s2(3) s5(1,3) by (simp add: initiatePS2Driver_def set_driver_def)
  ultimately show ?thesis
    using f s5(2,3) s2(3) by (simp add: InitBakedDrivers_def)
qed

text \<open>
  After the baked-in drivers are registered, the names the console looks up, with their
  terminating NUL, find them: ``display'' at the first peripheral address, ``PS2'' at 0x90000;
  another name finds nothing.
\<close>

theorem baked_drivers_found:
  assumes "fresh_tables d k st"
  shows "\<exists>st'. InitBakedDrivers d k st = Some st'
    \<and> GetDriverByName st' (name_buffer ''display'') 8 = Some d
    \<and> GetDriverByName st' (name_buffer ''PS2'') 4 = Some k
    \<and> GetDriverByName st' (name_buffer ''network'') 7 = Some 0
    \<and> map_option (hardware_address \<circ> driver_device) (drivers st' d) = Some 0x40000
    \<and> map_option (hardware_address \<circ> driver_device) (drivers st' k) = Some 0x90000"
proof -
  obtain st' where st': "InitBakedDrivers d k st = Some st'" "driver_entries st' [d, k]"
    "drivers st' d = Some (put_hardware PERIPHERAL_BEGIN 0x10 8 (put_name ''display'' zero_driver))"
    "drivers st' k = Some (put_hardware 0x90000 0x01 2 (put_name ''PS2'' zero_driver))"
    using InitBakedDrivers_state [OF assms] by blast
  have dom: "set [d, k] \<subseteq> dom (drivers st')" using st'(3,4) by auto
  have n: "device_name (driver_device (the (drivers st' d))) = name_buffer ''display''"
    "device_name (driver_device (the (drivers st' k))) = name_buffer ''PS2''"
    unfolding st'(3,4) by (auto simp: put_hardware_def put_name_def zero_driver_def name_buffer_def)
  have l: "[0..<8] = [0, 1, 2, 3, 4, 5, 6, 7 :: nat]" "[0..<4] = [0, 1, 2, 3 :: nat]"
    "[0..<7] = [0, 1, 2, 3, 4, 5, 6 :: nat]"
    by (simp_all add: upt_rec)
  have found: "GetDriverByName st' name len
    = Some (if padded (name_buffer ''display'') (unat len) = padded name (unat len) then d
            else if padded (name_buffer ''PS2'') (unat len) = padded name (unat len) then k else 0)"
    if "unat len \<le> 10" for name len
    using GetDriverByName_is_first [OF st'(2) _ dom that] by (simp add: n)
  have ne: "padded (name_buffer ''display'') 4 \<noteq> padded (name_buffer ''PS2'') 4"
    "padded (name_buffer ''display'') 7 \<noteq> padded (name_buffer ''network'') 7"
    "padded (name_buffer ''PS2'') 7 \<noteq> padded (name_buffer ''network'') 7"
    by (simp_all add: padded_def name_buffer_def l ch_def)
  have "map_option (hardware_address \<circ> driver_device) (drivers st' d) = Some 0x40000"
    "map_option (hardware_address \<circ> driver_device) (drivers st' k) = Some 0x90000"
    unfolding st'(3,4) by (simp_all add: put_hardware_def PERIPHERAL_BEGIN_def)
  then show ?thesis
    using st'(1) found [of 8 "name_buffer ''display''"] found [of 4 "name_buffer ''PS2''"]
      found [of 7 "name_buffer ''network''"] ne by simp
qed

definition demo_tables :: tables where
  "demo_tables = \<lparr>malloc_node = (\<lambda>h. if h 3 = None then 3 else if h 4 = None then 4 else 0),
     malloc_device = (\<lambda>m. (0, driver_device zero_driver)), nodes = (\<lambda>_. None),
     drivers = [1 \<mapsto> zero_driver, 2 \<mapsto> zero_driver], devices = (\<lambda>_. None),
     DriverTableHead = 0, DeviceTableHead = 0\<rparr>"

theorem baked_drivers_found_witness:
  "\<exists>st'. InitBakedDrivers 1 2 demo_tables = Some st'
    \<and> GetDriverByName st' (name_buffer ''display'') 8 = Some 1
    \<and> GetDriverByName st' (name_buffer ''PS2'') 4 = Some 2"
proof -
  have "fresh_tables 1 2 demo_tables" by (auto simp: fresh_tables_def demo_tables_def fresh_malloc_def)
  from baked_drivers_found [OF this] show ?thesis by blast
qed

definition one_driver :: tables where
  "one_driver = demo_tables\<lparr>nodes := [3 \<mapsto> \<lparr>next_node = 0, node_data = 1\<rparr>], DriverTableHead := 3\<rparr>"

theorem GetDriverByName_first_witness:
  "GetDriverByName one_driver (name_buffer ''PS2'') 3 = Some 0"
proof -
  have "driver_entries one_driver [1]"
    unfolding driver_entries_def holds_def
    by (auto simp: one_driver_def demo_tables_def fresh_malloc_def data_at_def intro!: exI [of _ "[3]"])
  moreover have "set [1] \<subseteq> dom (drivers one_driver)" by (simp add: one_driver_def demo_tables_def)
  moreover have "padded (device_name (driver_device zero_driver)) 3 \<noteq> padded (name_buffer ''PS2'') 3"
  proof -
    have "[0..<3] = [0, 1, 2 :: nat]" by (simp add: upt_rec)
    then show ?thesis by (simp add: padded_def zero_driver_def name_buffer_def ch_def)
  qed
  ultimately show ?thesis
    using GetDriverByName_first [of one_driver "[1]" 3 "name_buffer ''PS2''"]
    by (simp add: one_driver_def demo_tables_def)
qed


section \<open>Linking drivers to hardware\<close>

lemma blank_loop_blank: "name i = ch CHR '' '' \<Longrightarrow> blank_loop is c name i = ch CHR '' ''"
  by (induction "is" arbitrary: c name) (auto simp: Let_def)

text \<open>
  A device whose identification holds the driver's name filled up with blanks, as the blanking
  of the name in \<open>InitiateDeviceTable\<close> expects it, is not linked: the driver's own copy of the name
  has the terminating NUL in the place of the first blank, and all ten characters are compared.
\<close>

theorem blank_padded_device_not_linked:
  assumes "length name < 10" and "device_name (driver_device drv) = name_buffer name"
    and "\<forall>i < 10. raw i = (if i < length name then ch (name ! i) else ch CHR '' '')"
    and "device_name v = blank_loop [0..<10] 0 raw"
  shows "\<not> serves drv v"
proof -
  let ?n = "length name"
  have "device_name v ?n = ch CHR '' ''"
    using assms(1,3,4) by (simp add: blank_loop_blank)
  moreover have "device_name (driver_device drv) ?n = 0" by (simp add: assms(2) name_buffer_def)
  ultimately have "device_name (driver_device drv) ?n \<noteq> device_name v ?n"
    by (simp add: ch_def)
  then have "padded (device_name (driver_device drv)) 10 \<noteq> padded (device_name v) 10"
    using assms(1) by (auto simp: padded_def)
  then show ?thesis by (simp add: serves_def StringCompare_is_padded DEVICE_NAME_LEN_def)
qed

theorem blank_padded_device_not_linked_witness:
  "\<not> serves (put_name ''PS2'' zero_driver)
     ((driver_device zero_driver)\<lparr>device_name := blank_loop [0..<10] 0
        (\<lambda>i. if i < 3 then ch (''PS2'' ! i) else ch CHR '' '')\<rparr>)"
proof (rule blank_padded_device_not_linked)
  show "device_name (driver_device (put_name ''PS2'' zero_driver)) = name_buffer ''PS2''"
    by (auto simp: put_name_def zero_driver_def name_buffer_def)
  show "\<forall>i < 10. (\<lambda>i. if i < 3 then ch (''PS2'' ! i) else ch CHR '' '') i
      = (if i < length ''PS2'' then ch (''PS2'' ! i) else ch CHR '' '')" by simp
qed simp_all

end
