(* ===== verification/Virtual.thy ===== *)
theory Virtual
  imports KPrelude
begin

text \<open>
  The address range of the running code (kernel/virtual/virtual.c): the segment that the access
  mode selects, and the range of the heap that the emulator and the scheduler set. \<open>VirtualRead\<close>,
  \<open>VirtualWrite\<close>, \<open>VirtualBegin\<close> and \<open>VirtualEnd\<close> have no code but comments.
\<close>

record segments =
  virtual_begin :: u32
  virtual_end :: u32
  heap_begin :: u32
  heap_end :: u32

definition KERNEL_VIRTUAL_ACCESS_BEGIN :: u32 where "KERNEL_VIRTUAL_ACCESS_BEGIN = 0x00000000"
definition KERNEL_VIRTUAL_ACCESS_END :: u32 where "KERNEL_VIRTUAL_ACCESS_END = 0xffffffff"
definition USER_VIRTUAL_ACCESS_BEGIN :: u32 where "USER_VIRTUAL_ACCESS_BEGIN = 0x00004000"
definition USER_VIRTUAL_ACCESS_END :: u32 where "USER_VIRTUAL_ACCESS_END = 0xffffffff"

definition VIRTUAL_ACCESS_MODE_KERNEL :: u8 where "VIRTUAL_ACCESS_MODE_KERNEL = 0"
definition VIRTUAL_ACCESS_MODE_USER :: u8 where "VIRTUAL_ACCESS_MODE_USER = 1"

lemmas virtual_consts = KERNEL_VIRTUAL_ACCESS_BEGIN_def KERNEL_VIRTUAL_ACCESS_END_def
  USER_VIRTUAL_ACCESS_BEGIN_def USER_VIRTUAL_ACCESS_END_def
  VIRTUAL_ACCESS_MODE_KERNEL_def VIRTUAL_ACCESS_MODE_USER_def

definition segments_initial :: segments where
  "segments_initial =
     \<lparr>virtual_begin = KERNEL_VIRTUAL_ACCESS_BEGIN, virtual_end = KERNEL_VIRTUAL_ACCESS_END,
      heap_begin = 0x00000000, heap_end = 0xffffffff\<rparr>"

text \<open>The result is an \<open>int8_t\<close>; -1 is the byte 0xFF.\<close>

definition VirtualAccessGetMode :: "segments \<Rightarrow> u8" where
  "VirtualAccessGetMode v =
     (if virtual_begin v = KERNEL_VIRTUAL_ACCESS_BEGIN then VIRTUAL_ACCESS_MODE_KERNEL
      else if virtual_begin v = USER_VIRTUAL_ACCESS_BEGIN then VIRTUAL_ACCESS_MODE_USER
      else 0xFF)"

definition VirtualAccessSetMode :: "u8 \<Rightarrow> segments \<Rightarrow> segments" where
  "VirtualAccessSetMode mode v =
     (if mode = VIRTUAL_ACCESS_MODE_USER
      then v\<lparr>virtual_begin := USER_VIRTUAL_ACCESS_BEGIN, virtual_end := USER_VIRTUAL_ACCESS_END\<rparr>
      else v\<lparr>virtual_begin := KERNEL_VIRTUAL_ACCESS_BEGIN, virtual_end := KERNEL_VIRTUAL_ACCESS_END\<rparr>)"

text \<open>Setting what was read restores the segment, from the two modes.\<close>

lemma get_set_mode:
  "VirtualAccessGetMode (VirtualAccessSetMode mode v)
     = (if mode = VIRTUAL_ACCESS_MODE_USER then VIRTUAL_ACCESS_MODE_USER else VIRTUAL_ACCESS_MODE_KERNEL)"
  by (simp add: VirtualAccessGetMode_def VirtualAccessSetMode_def virtual_consts)

definition mode_segment :: "segments \<Rightarrow> bool" where
  "mode_segment v \<longleftrightarrow> (\<exists>mode w. v = VirtualAccessSetMode mode w)"

lemma mode_segment_initial [simp]: "mode_segment segments_initial"
  unfolding mode_segment_def segments_initial_def
  by (intro exI [of _ 0] exI [of _ segments_initial])
     (simp add: VirtualAccessSetMode_def segments_initial_def virtual_consts)

lemma mode_segment_set [simp]: "mode_segment (VirtualAccessSetMode mode v)"
  unfolding mode_segment_def by blast

lemma set_get_mode:
  assumes "mode_segment v"
  shows "VirtualAccessSetMode (VirtualAccessGetMode v) v = v"
proof -
  obtain mode w where "v = VirtualAccessSetMode mode w" using assms unfolding mode_segment_def by blast
  then show ?thesis
    by (simp add: VirtualAccessGetMode_def VirtualAccessSetMode_def virtual_consts)
qed

end
