(* ===== verification/Triples.thy ===== *)
theory Triples
  imports PortIO
begin

text \<open>
  Partial correctness of statements: from a state with the precondition, a run that returns has a
  result and a state with the postcondition, whatever is behind the bus. One rule for each
  statement; the collection \<open>triples\<close> holds those that apply without a choice.
\<close>

definition triple :: "('s \<Rightarrow> bool) \<Rightarrow> ('s, 'a) prog \<Rightarrow> ('a \<Rightarrow> 's \<Rightarrow> bool) \<Rightarrow>
    ('d \<Rightarrow> u32 \<Rightarrow> u8 \<times> 'd) \<Rightarrow> ('d \<Rightarrow> u32 \<Rightarrow> u8 \<Rightarrow> 'd) \<Rightarrow> bool" where
  "triple P m Q rd wr \<longleftrightarrow>
     (\<forall>c s x c' s'. P c \<longrightarrow> run rd wr m c s = (Some (x, c'), s') \<longrightarrow> Q x c')"

named_theorems triples \<open>statements with a triple\<close>

lemma tripleI:
  "(\<And>c s x c' s'. P c \<Longrightarrow> run rd wr m c s = (Some (x, c'), s') \<Longrightarrow> Q x c') \<Longrightarrow> triple P m Q rd wr"
  by (simp add: triple_def)

lemma tripleD:
  "triple P m Q rd wr \<Longrightarrow> P c \<Longrightarrow> run rd wr m c s = (Some (x, c'), s') \<Longrightarrow> Q x c'"
  unfolding triple_def by blast

lemma triple_weaken:
  "triple P m Q rd wr \<Longrightarrow> (\<And>c. P' c \<Longrightarrow> P c) \<Longrightarrow> (\<And>x c. Q x c \<Longrightarrow> Q' x c) \<Longrightarrow> triple P' m Q' rd wr"
  unfolding triple_def by blast

lemma triple_pbind:
  assumes "triple P m R rd wr" and "\<And>x. triple (R x) (f x) Q rd wr"
  shows "triple P (pbind m f) Q rd wr"
proof (rule tripleI)
  fix c s y c' s' assume P: "P c" and r: "run rd wr (pbind m f) c s = (Some (y, c'), s')"
  then obtain x c1 s1 where 1: "run rd wr m c s = (Some (x, c1), s1)" "run rd wr (f x) c1 s1 = (Some (y, c'), s')"
    by (auto simp: run_pbind split: prod.splits option.splits)
  then show "Q y c'" using P assms by (metis tripleD)
qed

lemma triple_preturn: "(\<And>c. P c \<Longrightarrow> Q x c) \<Longrightarrow> triple P (preturn x) Q rd wr"
  by (auto simp: triple_def run_simps)

lemma triple_pmod: "(\<And>c. P c \<Longrightarrow> Q () (f c)) \<Longrightarrow> triple P (pmod f) Q rd wr"
  by (auto simp: triple_def run_simps)

lemma triple_pwith: "(\<And>c. P c \<Longrightarrow> triple (\<lambda>c'. c' = c) (f c) Q rd wr) \<Longrightarrow> triple P (pwith f) Q rd wr"
  unfolding triple_def by (simp add: run_simps)

lemma triple_if:
  "(b \<Longrightarrow> triple P m Q rd wr) \<Longrightarrow> (\<not> b \<Longrightarrow> triple P m' Q rd wr) \<Longrightarrow> triple P (if b then m else m') Q rd wr"
  by simp

text \<open>An invariant of the state alone.\<close>

abbreviation invariant :: "('s \<Rightarrow> bool) \<Rightarrow> ('s, 'a) prog \<Rightarrow>
    ('d \<Rightarrow> u32 \<Rightarrow> u8 \<times> 'd) \<Rightarrow> ('d \<Rightarrow> u32 \<Rightarrow> u8 \<Rightarrow> 'd) \<Rightarrow> bool" where
  "invariant P m \<equiv> triple P m (\<lambda>_. P)"

lemma invariant_pbind [triples]:
  "invariant P m rd wr \<Longrightarrow> (\<And>x. invariant P (f x) rd wr) \<Longrightarrow> invariant P (pbind m f) rd wr"
  by (rule triple_pbind)

lemma invariant_preturn [triples]: "invariant P (preturn x) rd wr"
  by (rule triple_preturn)

lemma invariant_pskip [triples]: "invariant P pskip rd wr"
  by (simp add: triple_def run_simps)

lemma invariant_pread [triples]: "invariant P (pread a) rd wr"
  by (simp add: triple_def run_simps split: prod.splits)

lemma invariant_pwrite [triples]: "invariant P (pwrite a b) rd wr"
  by (simp add: triple_def run_simps)

lemma invariant_pseq_Nil [triples]: "invariant P (pseq []) rd wr"
  by (simp add: triple_def run_simps)

lemma invariant_pseq_Cons [triples]:
  "invariant P m rd wr \<Longrightarrow> invariant P (pseq ms) rd wr \<Longrightarrow> invariant P (pseq (m # ms)) rd wr"
  unfolding pseq.simps by (rule triple_pbind)

lemma invariant_if [triples]:
  "invariant P m rd wr \<Longrightarrow> invariant P m' rd wr \<Longrightarrow> invariant P (if b then m else m') rd wr"
  by simp

lemma invariant_option [triples]:
  "invariant P m rd wr \<Longrightarrow> (\<And>x. invariant P (f x) rd wr)
    \<Longrightarrow> invariant P (case v of None \<Rightarrow> m | Some x \<Rightarrow> f x) rd wr"
  by (cases v) simp_all

lemma invariant_pwith: "(\<And>c. P c \<Longrightarrow> invariant P (f c) rd wr) \<Longrightarrow> invariant P (pwith f) rd wr"
  unfolding triple_def run_pwith by blast

lemma invariant_pmod: "(\<And>c. P c \<Longrightarrow> P (f c)) \<Longrightarrow> invariant P (pmod f) rd wr"
  by (rule triple_pmod)

text \<open>A call on a component of the state does not change what does not depend on it.\<close>

lemma invariant_pzoom:
  assumes "\<And>k c. P c \<Longrightarrow> P (put k c)"
  shows "invariant P (pzoom get put m) rd wr"
  using assms by (auto simp: triple_def run_simps split: prod.splits option.splits)

end
