(* ===== verification/EmulatorX4.thy ===== *)
theory EmulatorX4
  imports KernelBase Virtual Network Drivers "HOL-Library.Monad_Syntax"
begin

text \<open>
  The X4 processor emulator (kernel/emulation/x4/x4.c) and its interrupt services
  (kernel/emulation/x4/services.c). A program of at most 256 bytes runs on eight byte registers, a stack
  of 100 bytes and the memory of the board behind the user segment.

  A turn of the loop is a statement over the emulator's variables whose result says how it
  ended: \<open>Continue\<close>, \<open>Return\<close> (interrupt 0x20), or \<open>Undefined\<close>, where the C code indexes an array out
  of bounds or divides by zero. The program buffer is a function from indices, so that the
  argument bytes fetched behind its end (\<open>programBuffer[pc + 5]\<close>) are whatever lies there. The
  loop has a bound on its turns; \<open>Running\<close> is the result when it is used up.
\<close>

section \<open>State\<close>

record x4 =
  programBuffer :: buffer
  programSize :: u32
  param_string :: buffer
  param_length :: u32
  reg :: "u8 list"          \<comment> \<open>\<open>uint8_t reg[8]\<close>\<close>
  stack :: "u8 list"        \<comment> \<open>\<open>uint8_t stack[100]\<close>\<close>
  pc :: u32
  pcRet :: u32
  stack_ptr :: u32
  flag_compare :: u8
  flag_greater :: u8
  flag_consoleDirty :: u8
  interrupts :: bool        \<comment> \<open>the interrupt flag of the AVR\<close>
  x4_segments :: segments
  x4_console :: console
  x4_nic :: nic

datatype outcome = Continue | Return | Undefined | Running | Ended

definition MAX_PROGRAM_SIZE :: nat where "MAX_PROGRAM_SIZE = 256"

definition OP_NOP :: u8 where "OP_NOP = 0x90"
definition OP_MOVR :: u8 where "OP_MOVR = 0x88"
definition OP_MOVB :: u8 where "OP_MOVB = 0x89"
definition OP_MOVA :: u8 where "OP_MOVA = 0x83"
definition OP_MOVMW :: u8 where "OP_MOVMW = 0x82"
definition OP_MOVMR :: u8 where "OP_MOVMR = 0x81"
definition OP_INC :: u8 where "OP_INC = 0xFD"
definition OP_DEC :: u8 where "OP_DEC = 0xFC"
definition OP_ADD :: u8 where "OP_ADD = 0x00"
definition OP_SUB :: u8 where "OP_SUB = 0x80"
definition OP_MUL :: u8 where "OP_MUL = 0xF6"
definition OP_DIV :: u8 where "OP_DIV = 0xF4"
definition OP_AND :: u8 where "OP_AND = 0x20"
definition OP_OR :: u8 where "OP_OR = 0x21"
definition OP_XOR :: u8 where "OP_XOR = 0x22"
definition OP_NOT :: u8 where "OP_NOT = 0x23"
definition OP_POP :: u8 where "OP_POP = 0x0F"
definition OP_PUSH :: u8 where "OP_PUSH = 0xF0"
definition OP_CMP :: u8 where "OP_CMP = 0x38"
definition OP_CMPR :: u8 where "OP_CMPR = 0x39"
definition OP_JMP :: u8 where "OP_JMP = 0xFE"
definition OP_JE :: u8 where "OP_JE = 0x74"
definition OP_JNE :: u8 where "OP_JNE = 0xF3"
definition OP_JG :: u8 where "OP_JG = 0x75"
definition OP_JL :: u8 where "OP_JL = 0xF1"
definition OP_CALL :: u8 where "OP_CALL = 0x9A"
definition OP_RET :: u8 where "OP_RET = 0xCB"
definition OP_STI :: u8 where "OP_STI = 0xFB"
definition OP_CLI :: u8 where "OP_CLI = 0xFA"

lemmas opcodes = OP_NOP_def OP_MOVR_def OP_MOVB_def OP_MOVA_def OP_MOVMW_def OP_MOVMR_def
  OP_INC_def OP_DEC_def OP_ADD_def OP_SUB_def OP_MUL_def OP_DIV_def OP_AND_def OP_OR_def OP_XOR_def
  OP_NOT_def OP_POP_def OP_PUSH_def OP_CMP_def OP_CMPR_def OP_JMP_def OP_JE_def OP_JNE_def OP_JG_def
  OP_JL_def OP_CALL_def OP_RET_def OP_STI_def OP_CLI_def

definition rAL :: u8 where "rAL = 0"
definition rAH :: u8 where "rAH = 1"
definition rBL :: u8 where "rBL = 2"
definition rCL :: u8 where "rCL = 4"
definition rDL :: u8 where "rDL = 6"
definition rDH :: u8 where "rDH = 7"


section \<open>Registers\<close>

definition reg_at :: "x4 \<Rightarrow> u8 \<Rightarrow> u8 option" where
  "reg_at s r = (if unat r < length (reg s) then Some (reg s ! unat r) else None)"

definition set_reg :: "u8 \<Rightarrow> u8 \<Rightarrow> x4 \<Rightarrow> x4 option" where
  "set_reg r v s = (if unat r < length (reg s) then Some (s\<lparr>reg := (reg s)[unat r := v]\<rparr>) else None)"

definition advance :: "u32 \<Rightarrow> x4 \<Rightarrow> x4" where
  "advance n s = s\<lparr>pc := pc s + n\<rparr>"

text \<open>\<open>union Pointer\<close> of four argument bytes.\<close>

definition pointer :: "u8 \<Rightarrow> u8 \<Rightarrow> u8 \<Rightarrow> u8 \<Rightarrow> u32" where
  "pointer b0 b1 b2 b3 = le32 [b0, b1, b2, b3]"


section \<open>Instructions on the registers\<close>

text \<open>Each takes the state behind the fetch of the opcode, and the argument bytes.\<close>

definition x4_MOVR :: "u8 \<Rightarrow> u8 \<Rightarrow> x4 \<Rightarrow> x4 option" where
  "x4_MOVR argA argB s = do { v \<leftarrow> reg_at s argB; s \<leftarrow> set_reg argA v s; Some (advance 2 s) }"

definition x4_MOVB :: "u8 \<Rightarrow> u8 \<Rightarrow> x4 \<Rightarrow> x4 option" where
  "x4_MOVB argA argB s = do { s \<leftarrow> set_reg argA argB s; Some (advance 2 s) }"

text \<open>\<open>argA + 1\<close> is an int in C: it does not wrap around.\<close>

definition x4_MOVA :: "u8 \<Rightarrow> u8 \<Rightarrow> u8 \<Rightarrow> x4 \<Rightarrow> x4 option" where
  "x4_MOVA argA argB argC s =
     do {
       s \<leftarrow> set_reg argA argB s;
       s \<leftarrow> (if unat argA + 1 < length (reg s) then Some (s\<lparr>reg := (reg s)[unat argA + 1 := argC]\<rparr>) else None);
       Some (advance 5 s)
     }"

definition x4_INC :: "u8 \<Rightarrow> x4 \<Rightarrow> x4 option" where
  "x4_INC argA s = do { v \<leftarrow> reg_at s argA; s \<leftarrow> set_reg argA (v + 1) s; Some (advance 1 s) }"

definition x4_DEC :: "u8 \<Rightarrow> x4 \<Rightarrow> x4 option" where
  "x4_DEC argA s = do { v \<leftarrow> reg_at s argA; s \<leftarrow> set_reg argA (v - 1) s; Some (advance 1 s) }"

text \<open>ADD, SUB, AND, OR and XOR: the first register is an operand and the destination.\<close>

definition x4_binary :: "(u8 \<Rightarrow> u8 \<Rightarrow> u8) \<Rightarrow> u8 \<Rightarrow> u8 \<Rightarrow> x4 \<Rightarrow> x4 option" where
  "x4_binary f argA argB s =
     do {
       a \<leftarrow> reg_at s argA;
       b \<leftarrow> reg_at s argB;
       s \<leftarrow> set_reg argA (f a b) s;
       Some (advance 2 s)
     }"

definition x4_MUL :: "u8 \<Rightarrow> u8 \<Rightarrow> u8 \<Rightarrow> x4 \<Rightarrow> x4 option" where
  "x4_MUL argA argB argC s =
     do {
       b \<leftarrow> reg_at s argB;
       c \<leftarrow> reg_at s argC;
       s \<leftarrow> set_reg argA (b * c) s;
       Some (advance 3 s)
     }"

definition x4_DIV :: "u8 \<Rightarrow> u8 \<Rightarrow> u8 \<Rightarrow> x4 \<Rightarrow> x4 option" where
  "x4_DIV argA argB argC s =
     do {
       b \<leftarrow> reg_at s argB;
       c \<leftarrow> reg_at s argC;
       (if c = 0 then None else do { s \<leftarrow> set_reg argA (b div c) s; Some (advance 3 s) })
     }"

definition x4_NOT :: "u8 \<Rightarrow> x4 \<Rightarrow> x4 option" where
  "x4_NOT argA s = do { v \<leftarrow> reg_at s argA; s \<leftarrow> set_reg argA (NOT v) s; Some (advance 2 s) }"

definition x4_POP :: "u8 \<Rightarrow> x4 \<Rightarrow> x4 option" where
  "x4_POP argA s =
     (let s = s\<lparr>stack_ptr := stack_ptr s - 1\<rparr> in
      if unat (stack_ptr s) < length (stack s)
      then do { s \<leftarrow> set_reg argA (stack s ! unat (stack_ptr s)) s; Some (advance 1 s) }
      else None)"

definition x4_PUSH :: "u8 \<Rightarrow> x4 \<Rightarrow> x4 option" where
  "x4_PUSH argA s =
     do {
       v \<leftarrow> reg_at s argA;
       (if unat (stack_ptr s) < length (stack s)
        then Some (advance 1 (s\<lparr>stack := (stack s)[unat (stack_ptr s) := v], stack_ptr := stack_ptr s + 1\<rparr>))
        else None)
     }"

definition compare_bytes :: "u8 \<Rightarrow> u8 \<Rightarrow> x4 \<Rightarrow> x4" where
  "compare_bytes a b s =
     (if a = b then s\<lparr>flag_compare := 1, flag_greater := 0\<rparr>
      else if a > b then s\<lparr>flag_compare := 0, flag_greater := 1\<rparr>
      else s\<lparr>flag_compare := 0, flag_greater := 0\<rparr>)"

definition x4_CMP :: "u8 \<Rightarrow> u8 \<Rightarrow> x4 \<Rightarrow> x4 option" where
  "x4_CMP argA argB s = do { a \<leftarrow> reg_at s argA; Some (advance 2 (compare_bytes a argB s)) }"

definition x4_CMPR :: "u8 \<Rightarrow> u8 \<Rightarrow> x4 \<Rightarrow> x4 option" where
  "x4_CMPR argA argB s =
     do { a \<leftarrow> reg_at s argA; b \<leftarrow> reg_at s argB; Some (advance 2 (compare_bytes a b s)) }"

text \<open>JMP, JE, JNE, JG, JL: the condition is one on the flags.\<close>

definition x4_jump_if :: "bool \<Rightarrow> u32 \<Rightarrow> x4 \<Rightarrow> x4 option" where
  "x4_jump_if b target s = Some (if b then s\<lparr>pc := target\<rparr> else advance 4 s)"

definition x4_CALL :: "u32 \<Rightarrow> x4 \<Rightarrow> x4 option" where
  "x4_CALL target s = Some (s\<lparr>pcRet := pc s + 4, pc := target\<rparr>)"

definition x4_RET :: "x4 \<Rightarrow> x4 option" where
  "x4_RET s = Some (s\<lparr>pc := pcRet s, pcRet := 0\<rparr>)"


section \<open>Memory\<close>

definition x4_do :: "(x4 \<Rightarrow> x4 option) \<Rightarrow> (x4, outcome) prog" where
  "x4_do f = (\<lambda>s. Ret (Some (case f s of None \<Rightarrow> (Undefined, s) | Some s' \<Rightarrow> (Continue, s'))))"

definition on_console :: "(unit, 'a) con \<Rightarrow> (x4, 'a) prog" where
  "on_console m = pzoom x4_console (\<lambda>k. x4_console_update (\<lambda>_. k)) m"

definition on_nic :: "'a net \<Rightarrow> (x4, 'a) prog" where
  "on_nic m = pzoom x4_nic (\<lambda>k. x4_nic_update (\<lambda>_. k)) m"

definition check_segment :: "u32 \<Rightarrow> (x4, unit) prog" where
  "check_segment address =
     pwith (\<lambda>s. if address > heap_end (x4_segments s)
       then on_console (kThrow HALT_SEGMENTATION_FAULT (heap_begin (x4_segments s) + address))
       else pskip)"

definition x4_MOVMR :: "u8 \<Rightarrow> u32 \<Rightarrow> (x4, outcome) prog" where
  "x4_MOVMR argA address =
     pbind (check_segment address) (\<lambda>_.
     pwith (\<lambda>s. pbind (pread (heap_begin (x4_segments s) + address)) (\<lambda>byte.
       x4_do (\<lambda>s. do { s \<leftarrow> set_reg argA byte s; Some (advance 5 s) }))))"

definition x4_MOVMW :: "u8 \<Rightarrow> u32 \<Rightarrow> (x4, outcome) prog" where
  "x4_MOVMW argA address =
     pbind (check_segment address) (\<lambda>_.
     pwith (\<lambda>s. case reg_at s argA of
         None \<Rightarrow> preturn Undefined
       | Some v \<Rightarrow> pbind (pwrite (heap_begin (x4_segments s) + address) v) (\<lambda>_.
           x4_do (\<lambda>s. Some (advance 5 s)))))"


section \<open>Interrupt services\<close>

definition set_service_result :: "u8 \<Rightarrow> x4 \<Rightarrow> x4" where
  "set_service_result v s = s\<lparr>reg := (reg s)[unat rBL := v]\<rparr>"

text \<open>The status of \<open>LoadLibrary\<close> is an \<open>int8_t\<close>; -1, -2 and -3 are the bytes 0xFF, 0xFE and 0xFD.\<close>

definition ISC_OperatingSystem :: "x4 \<Rightarrow> x4" where
  "ISC_OperatingSystem s =
     (if reg s ! unat rAH = 0x0A then
        let status = LoadLibrary (param_string s) (ucast (param_length s)) in
        if status = 0xFF then set_service_result 1 s
        else if status = 0xFE then set_service_result 2 s
        else if status = 0xFD then set_service_result 3 s
        else if status < 0x80 then set_service_result 0 s
        else s
      else s)"

text \<open>The loop over the characters of a string, up to its NUL; 0x0A is the newline.\<close>

primrec print_program_string :: "buffer \<Rightarrow> u32 \<Rightarrow> nat list \<Rightarrow> (unit, unit) con" where
  "print_program_string program address [] = pskip"
| "print_program_string program address (i # is) =
     (let c = program (unat (address + of_nat i)) in
      if c = 0 then pskip
      else if c = 0x0A then pseq [printLn, print_program_string program address is]
      else pseq [printChar c, print_program_string program address is])"

definition data_offset :: "x4 \<Rightarrow> u32" where
  "data_offset s = pointer (reg s ! unat rDL) (reg s ! unat rDH) 0 0"

definition ISC_DisplayRoutine :: "(x4, unit) prog" where
  "ISC_DisplayRoutine =
     pwith (\<lambda>s.
       if reg s ! unat rAH = 0x09 then pseq
         [on_console (print_program_string (programBuffer s) (data_offset s) [0..<unat (programSize s)]),
          pmod (flag_consoleDirty_update (\<lambda>_. 1))]
       else if reg s ! unat rAH = 0x03 then pseq
         [on_console (ConsoleClearScreen (ch CHR '' '')),
          on_console (ConsoleSetCursor 0 0),
          pmod (flag_consoleDirty_update (\<lambda>_. 0))]
       else pmod (set_service_result 1))"

definition ISC_FileSystemRoutine :: "x4 \<Rightarrow> x4" where
  "ISC_FileSystemRoutine s = set_service_result 1 s"

text \<open>
  \<open>found\<close> is what \<open>GetDriverByName\<close> finds for \<open>ntInit\<close>. \<open>ntSend\<close> takes the low eight bits of the
  parameter length.
\<close>

definition ISC_NetworkRoutine :: "u32 option \<Rightarrow> (x4, unit) prog" where
  "ISC_NetworkRoutine found =
     pwith (\<lambda>s.
       if reg s ! unat rAH = 0x0A then
         pbind (on_nic (ntInit found)) (\<lambda>r.
           if r = 0 then pmod (set_service_result 1)
           else pbind (on_nic ntCheckInitiated) (\<lambda>r.
             if r = 0 then pmod (set_service_result 2)
             else pmod (set_service_result 0)))
       else if reg s ! unat rAH = 0x0C then
         (let offset = data_offset s; cl = reg s ! unat rCL in
          if offset \<ge> programSize s \<or> offset + ucast cl \<ge> programSize s
          then pmod (set_service_result 1)
          else pseq
           [(if reg s ! unat rAL = 0 then on_nic (ntSend (\<lambda>i. programBuffer s (unat offset + i)) cl)
             else if reg s ! unat rAL = 1 then on_nic (ntSend (param_string s) (ucast (param_length s)))
             else pskip),
            pmod (set_service_result 0)])
       else pmod (set_service_result 1))"

definition x4_INT :: "u32 option \<Rightarrow> u8 \<Rightarrow> (x4, outcome) prog" where
  "x4_INT found argA =
     pbind (pseq
      [pmod (advance 1),
       (if argA = 0x10 then ISC_DisplayRoutine
        else if argA = 0x13 then pmod ISC_FileSystemRoutine
        else if argA = 0x14 then ISC_NetworkRoutine found
        else if argA = 0x47 then pmod ISC_OperatingSystem
        else pskip)]) (\<lambda>_.
     if argA = 0x20 then
       pbind (pwith (\<lambda>s. if flag_consoleDirty s = 1 then on_console printLn else pskip)) (\<lambda>_. preturn Return)
     else preturn Continue)"


section \<open>The loop\<close>

text \<open>The instruction with this opcode, behind its fetch.\<close>

definition x4_execute :: "u32 option \<Rightarrow> u8 \<Rightarrow> u8 \<Rightarrow> u8 \<Rightarrow> u8 \<Rightarrow> u8 \<Rightarrow> u8 \<Rightarrow> (x4, outcome) prog" where
  "x4_execute found opCode argA argB argC argD argE =
     (if opCode = OP_NOP then preturn Continue
      else if opCode = OP_MOVMR then x4_MOVMR argA (pointer argB argC argD argE)
      else if opCode = OP_MOVMW then x4_MOVMW argA (pointer argB argC argD argE)
      else if opCode = OP_MOVR then x4_do (x4_MOVR argA argB)
      else if opCode = OP_MOVB then x4_do (x4_MOVB argA argB)
      else if opCode = OP_MOVA then x4_do (x4_MOVA argA argB argC)
      else if opCode = OP_INC then x4_do (x4_INC argA)
      else if opCode = OP_DEC then x4_do (x4_DEC argA)
      else if opCode = OP_ADD then x4_do (x4_binary (+) argA argB)
      else if opCode = OP_SUB then x4_do (x4_binary (-) argA argB)
      else if opCode = OP_MUL then x4_do (x4_MUL argA argB argC)
      else if opCode = OP_DIV then x4_do (x4_DIV argA argB argC)
      else if opCode = OP_POP then x4_do (x4_POP argA)
      else if opCode = OP_PUSH then x4_do (x4_PUSH argA)
      else if opCode = OP_AND then x4_do (x4_binary (AND) argA argB)
      else if opCode = OP_OR then x4_do (x4_binary (OR) argA argB)
      else if opCode = OP_XOR then x4_do (x4_binary (XOR) argA argB)
      else if opCode = OP_NOT then x4_do (x4_NOT argA)
      else if opCode = OP_CMP then x4_do (x4_CMP argA argB)
      else if opCode = OP_CMPR then x4_do (x4_CMPR argA argB)
      else if opCode = OP_JMP then x4_do (x4_jump_if True (pointer argA argB argC argD))
      else if opCode = OP_JE then x4_do (\<lambda>s. x4_jump_if (flag_compare s = 1) (pointer argA argB argC argD) s)
      else if opCode = OP_JNE then x4_do (\<lambda>s. x4_jump_if (flag_compare s = 0) (pointer argA argB argC argD) s)
      else if opCode = OP_JG then x4_do (\<lambda>s. x4_jump_if (flag_greater s = 1) (pointer argA argB argC argD) s)
      else if opCode = OP_JL then x4_do (\<lambda>s. x4_jump_if (flag_greater s = 0) (pointer argA argB argC argD) s)
      else if opCode = OP_CALL then x4_do (x4_CALL (pointer argA argB argC argD))
      else if opCode = OP_RET then x4_do x4_RET
      else if opCode = OP_CLI then x4_do (\<lambda>s. Some (s\<lparr>interrupts := False\<rparr>))
      else if opCode = OP_STI then x4_do (\<lambda>s. Some (s\<lparr>interrupts := True\<rparr>))
      else if opCode = 0xCC \<or> opCode = 0xCD then x4_INT found argA
      else preturn Continue)"

definition fetch :: "nat \<Rightarrow> x4 \<Rightarrow> u8" where
  "fetch k s = programBuffer s (unat (pc s + of_nat k))"

definition x4_step :: "u32 option \<Rightarrow> (x4, outcome) prog" where
  "x4_step found =
     pwith (\<lambda>s. pbind (pmod (advance 1)) (\<lambda>_.
       x4_execute found (fetch 0 s) (fetch 1 s) (fetch 2 s) (fetch 3 s) (fetch 4 s) (fetch 5 s)))"

text \<open>\<open>while (pc < MAX_PROGRAM_SIZE)\<close>, for at most \<open>n\<close> turns.\<close>

primrec x4_loop :: "u32 option \<Rightarrow> nat \<Rightarrow> (x4, outcome) prog" where
  "x4_loop found 0 = preturn Running"
| "x4_loop found (Suc n) =
     pwith (\<lambda>s.
       if unat (pc s) < MAX_PROGRAM_SIZE
       then pbind (x4_step found) (\<lambda>r. if r = Continue then x4_loop found n else preturn r)
       else preturn Ended)"

definition EmulatorSetProgram :: "buffer \<Rightarrow> u32 \<Rightarrow> x4 \<Rightarrow> x4" where
  "EmulatorSetProgram buf sz s =
     s\<lparr>programBuffer := (\<lambda>i. if i < unat sz then buf i else programBuffer s i), programSize := sz\<rparr>"

definition EmulatorSetParameters :: "buffer \<Rightarrow> u32 \<Rightarrow> x4 \<Rightarrow> x4" where
  "EmulatorSetParameters parameters len s =
     s\<lparr>param_string := (\<lambda>i. if i < unat len then parameters i else param_string s i), param_length := len\<rparr>"

definition set_heap :: "u32 \<Rightarrow> u32 \<Rightarrow> segments \<Rightarrow> segments" where
  "set_heap b e v = v\<lparr>heap_begin := b, heap_end := e\<rparr>"

definition x4_start :: "x4 \<Rightarrow> x4" where
  "x4_start s =
     (let v = VirtualAccessSetMode VIRTUAL_ACCESS_MODE_USER (x4_segments s) in
      s\<lparr>pc := 0, pcRet := 0, stack_ptr := 0, flag_compare := 0, flag_greater := 0, flag_consoleDirty := 1,
        x4_segments := set_heap (virtual_begin v) (virtual_end v) v\<rparr>)"

definition x4_end :: "x4 \<Rightarrow> x4" where
  "x4_end = x4_segments_update (\<lambda>v.
     set_heap 0x00000000 0xffffffff (VirtualAccessSetMode VIRTUAL_ACCESS_MODE_KERNEL v))"

definition EmulateX4 :: "u32 option \<Rightarrow> nat \<Rightarrow> (x4, outcome) prog" where
  "EmulateX4 found n =
     pbind (pmod x4_start) (\<lambda>_.
     pbind (x4_loop found n) (\<lambda>r.
       if r = Ended then
         pbind (pmod x4_end) (\<lambda>_.
         pbind (pwith (\<lambda>s. if flag_consoleDirty s = 1 then on_console printLn else pskip)) (\<lambda>_. preturn Ended))
       else preturn r))"

end
