(* ===== verification/X4Machine.thy ===== *)
theory X4Machine
  imports EmulatorX4 Triples BusCache
begin

text \<open>
  The instruction set of the X4 as an abstract machine, and the proof that the emulator implements
  it. The machine has named instructions instead of bytes, a function from register numbers, a
  stack that is a list, the result of the last comparison instead of two flags, and a partial
  memory. A step is undefined where the C code would leave an array or divide by zero.
\<close>

section \<open>The abstract machine\<close>

datatype instruction =
    NOP
  | MOVMR u8 u32 | MOVMW u8 u32 | MOVR u8 u8 | MOVB u8 u8 | MOVA u8 u8 u8
  | INC u8 | DEC u8 | ADDR u8 u8 | SUBR u8 u8 | MULR u8 u8 u8 | DIVR u8 u8 u8
  | ANDR u8 u8 | ORR u8 u8 | XORR u8 u8 | NOTR u8
  | POP u8 | PUSH u8 | CMPB u8 u8 | CMPR u8 u8
  | JMP u32 | JE u32 | JNE u32 | JG u32 | JL u32 | CALL u32 | RET | CLI | STI

datatype comparison = Below | Equal | Above

record machine =
  regs :: "u8 \<Rightarrow> u8"
  stk :: "u8 list"
  counter :: u32
  return_link :: u32
  compared :: comparison
  enabled :: bool
  memory :: "u32 \<Rightarrow> u8 option"

definition compare_result :: "u8 \<Rightarrow> u8 \<Rightarrow> comparison" where
  "compare_result a b = (if a = b then Equal else if a > b then Above else Below)"

definition put :: "u8 \<Rightarrow> u8 \<Rightarrow> machine \<Rightarrow> machine" where
  "put r v M = M\<lparr>regs := (regs M)(r := v)\<rparr>"

text \<open>The effect of an instruction; \<open>counter\<close> is already behind it.\<close>

fun perform :: "instruction \<Rightarrow> machine \<Rightarrow> machine option" where
  "perform NOP M = Some M"
| "perform (MOVMR r a) M = map_option (\<lambda>b. put r b M) (memory M a)"
| "perform (MOVMW r a) M = (if a \<in> dom (memory M) then Some (M\<lparr>memory := (memory M)(a \<mapsto> regs M r)\<rparr>) else None)"
| "perform (MOVR r q) M = Some (put r (regs M q) M)"
| "perform (MOVB r b) M = Some (put r b M)"
| "perform (MOVA r lo hi) M = Some (put (r + 1) hi (put r lo M))"
| "perform (INC r) M = Some (put r (regs M r + 1) M)"
| "perform (DEC r) M = Some (put r (regs M r - 1) M)"
| "perform (ADDR r q) M = Some (put r (regs M r + regs M q) M)"
| "perform (SUBR r q) M = Some (put r (regs M r - regs M q) M)"
| "perform (MULR r p q) M = Some (put r (regs M p * regs M q) M)"
| "perform (DIVR r p q) M = (if regs M q = 0 then None else Some (put r (regs M p div regs M q) M))"
| "perform (ANDR r q) M = Some (put r (regs M r AND regs M q) M)"
| "perform (ORR r q) M = Some (put r (regs M r OR regs M q) M)"
| "perform (XORR r q) M = Some (put r (regs M r XOR regs M q) M)"
| "perform (NOTR r) M = Some (put r (NOT (regs M r)) M)"
| "perform (POP r) M = (case stk M of [] \<Rightarrow> None | x # xs \<Rightarrow> Some (put r x (M\<lparr>stk := xs\<rparr>)))"
| "perform (PUSH r) M = (if length (stk M) < 100 then Some (M\<lparr>stk := regs M r # stk M\<rparr>) else None)"
| "perform (CMPB r b) M = Some (M\<lparr>compared := compare_result (regs M r) b\<rparr>)"
| "perform (CMPR r q) M = Some (M\<lparr>compared := compare_result (regs M r) (regs M q)\<rparr>)"
| "perform (JMP a) M = Some (M\<lparr>counter := a\<rparr>)"
| "perform (JE a) M = Some (if compared M = Equal then M\<lparr>counter := a\<rparr> else M)"
| "perform (JNE a) M = Some (if compared M \<noteq> Equal then M\<lparr>counter := a\<rparr> else M)"
| "perform (JG a) M = Some (if compared M = Above then M\<lparr>counter := a\<rparr> else M)"
| "perform (JL a) M = Some (if compared M \<noteq> Above then M\<lparr>counter := a\<rparr> else M)"
| "perform (CALL a) M = Some (M\<lparr>return_link := counter M, counter := a\<rparr>)"
| "perform RET M = Some (M\<lparr>counter := return_link M, return_link := 0\<rparr>)"
| "perform CLI M = Some (M\<lparr>enabled := False\<rparr>)"
| "perform STI M = Some (M\<lparr>enabled := True\<rparr>)"

text \<open>The bytes of an instruction. NOT and MOVA have bytes that are skipped.\<close>

fun encode :: "instruction \<Rightarrow> u8 list" where
  "encode NOP = [OP_NOP]"
| "encode (MOVMR r a) = OP_MOVMR # r # le32_bytes a"
| "encode (MOVMW r a) = OP_MOVMW # r # le32_bytes a"
| "encode (MOVR r q) = [OP_MOVR, r, q]"
| "encode (MOVB r b) = [OP_MOVB, r, b]"
| "encode (MOVA r lo hi) = [OP_MOVA, r, lo, hi, 0, 0]"
| "encode (INC r) = [OP_INC, r]"
| "encode (DEC r) = [OP_DEC, r]"
| "encode (ADDR r q) = [OP_ADD, r, q]"
| "encode (SUBR r q) = [OP_SUB, r, q]"
| "encode (MULR r p q) = [OP_MUL, r, p, q]"
| "encode (DIVR r p q) = [OP_DIV, r, p, q]"
| "encode (ANDR r q) = [OP_AND, r, q]"
| "encode (ORR r q) = [OP_OR, r, q]"
| "encode (XORR r q) = [OP_XOR, r, q]"
| "encode (NOTR r) = [OP_NOT, r, 0]"
| "encode (POP r) = [OP_POP, r]"
| "encode (PUSH r) = [OP_PUSH, r]"
| "encode (CMPB r b) = [OP_CMP, r, b]"
| "encode (CMPR r q) = [OP_CMPR, r, q]"
| "encode (JMP a) = OP_JMP # le32_bytes a"
| "encode (JE a) = OP_JE # le32_bytes a"
| "encode (JNE a) = OP_JNE # le32_bytes a"
| "encode (JG a) = OP_JG # le32_bytes a"
| "encode (JL a) = OP_JL # le32_bytes a"
| "encode (CALL a) = OP_CALL # le32_bytes a"
| "encode RET = [OP_RET]"
| "encode CLI = [OP_CLI]"
| "encode STI = [OP_STI]"

fun registers :: "instruction \<Rightarrow> nat list" where
  "registers (MOVMR r a) = [unat r]"
| "registers (MOVMW r a) = [unat r]"
| "registers (MOVR r q) = [unat r, unat q]"
| "registers (MOVB r b) = [unat r]"
| "registers (MOVA r lo hi) = [unat r, unat r + 1]"
| "registers (INC r) = [unat r]"
| "registers (DEC r) = [unat r]"
| "registers (ADDR r q) = [unat r, unat q]"
| "registers (SUBR r q) = [unat r, unat q]"
| "registers (MULR r p q) = [unat r, unat p, unat q]"
| "registers (DIVR r p q) = [unat r, unat p, unat q]"
| "registers (ANDR r q) = [unat r, unat q]"
| "registers (ORR r q) = [unat r, unat q]"
| "registers (XORR r q) = [unat r, unat q]"
| "registers (NOTR r) = [unat r]"
| "registers (POP r) = [unat r]"
| "registers (PUSH r) = [unat r]"
| "registers (CMPB r b) = [unat r]"
| "registers (CMPR r q) = [unat r, unat q]"
| "registers i = []"

definition assemble :: "instruction list \<Rightarrow> u8 list" where
  "assemble is = concat (map encode is)"

fun instruction_at :: "instruction list \<Rightarrow> nat \<Rightarrow> instruction option" where
  "instruction_at [] a = None"
| "instruction_at (i # is) a =
     (if a = 0 then Some i
      else if a < length (encode i) then None
      else instruction_at is (a - length (encode i)))"

definition machine_step :: "instruction list \<Rightarrow> machine \<Rightarrow> machine option" where
  "machine_step is M =
     (case instruction_at is (unat (counter M)) of
        None \<Rightarrow> None
      | Some i \<Rightarrow> if list_all (\<lambda>r. r < 8) (registers i)
                  then perform i (M\<lparr>counter := counter M + of_nat (length (encode i))\<rparr>) else None)"

primrec machine_run :: "instruction list \<Rightarrow> nat \<Rightarrow> machine \<Rightarrow> machine option" where
  "machine_run is 0 M = Some M"
| "machine_run is (Suc n) M = Option.bind (machine_step is M) (machine_run is n)"


section \<open>Fetching\<close>

definition loaded :: "instruction list \<Rightarrow> x4 \<Rightarrow> bool" where
  "loaded is s \<longleftrightarrow> length (assemble is) \<le> MAX_PROGRAM_SIZE
     \<and> (\<forall>k < length (assemble is). programBuffer s k = assemble is ! k)"

lemma length_encode_pos [simp]: "0 < length (encode i)"
  by (cases i) simp_all

lemma encode_not_Nil [simp]: "encode i \<noteq> []"
  using length_encode_pos [of i] by blast

lemma instruction_at_bytes:
  assumes "instruction_at is a = Some i"
  shows "\<exists>pre post. assemble is = pre @ encode i @ post \<and> length pre = a"
  using assms
proof (induction "is" arbitrary: a)
  case (Cons j "is")
  show ?case
  proof (cases "a = 0")
    case True
    then show ?thesis using Cons.prems by (auto simp: assemble_def intro: exI [of _ "[]"])
  next
    case False
    then have "length (encode j) \<le> a" "instruction_at is (a - length (encode j)) = Some i"
      using Cons.prems by (auto split: if_splits)
    moreover obtain pre post where "assemble is = pre @ encode i @ post" "length pre = a - length (encode j)"
      using Cons.IH calculation(2) by blast
    ultimately show ?thesis
      by (intro exI [of _ "encode j @ pre"] exI [of _ post]) (simp add: assemble_def)
  qed
qed simp

lemma fetch_instruction:
  assumes "loaded is s" and "instruction_at is (unat (pc s)) = Some i" and "k < length (encode i)"
  shows "fetch k s = encode i ! k"
proof -
  obtain pre post where b: "assemble is = pre @ encode i @ post" "length pre = unat (pc s)"
    using instruction_at_bytes [OF assms(2)] by blast
  then have l: "unat (pc s) + k < length (assemble is)" using assms(3) by simp
  moreover have "length (assemble is) \<le> 256" using assms(1) by (simp add: loaded_def MAX_PROGRAM_SIZE_def)
  ultimately have "unat (pc s + of_nat k) = unat (pc s) + k"
    by (simp add: unat_add_no_wrap unat_of_nat_u32)
  then show ?thesis
    using assms(1,3) l b by (simp add: fetch_def loaded_def nth_append)
qed

lemma instruction_in_program:
  assumes "loaded is s" and "instruction_at is (unat (pc s)) = Some i"
  shows "unat (pc s) < MAX_PROGRAM_SIZE"
proof -
  obtain pre post where b: "assemble is = pre @ encode i @ post" "length pre = unat (pc s)"
    using instruction_at_bytes [OF assms(2)] by blast
  then have "unat (pc s) < length (assemble is)" by simp
  then show ?thesis using assms(1) by (simp add: loaded_def)
qed


section \<open>The emulator and the machine\<close>

definition flags_of :: "comparison \<Rightarrow> u8 \<times> u8" where
  "flags_of c = (case c of Below \<Rightarrow> (0, 0) | Equal \<Rightarrow> (1, 0) | Above \<Rightarrow> (0, 1))"

definition registers_match :: "x4 \<Rightarrow> machine \<Rightarrow> bool" where
  "registers_match s M \<longleftrightarrow> length (reg s) = 8 \<and> (\<forall>r. unat r < 8 \<longrightarrow> reg s ! unat r = regs M r)"

definition stack_matches :: "x4 \<Rightarrow> machine \<Rightarrow> bool" where
  "stack_matches s M \<longleftrightarrow> length (stack s) = 100 \<and> unat (stack_ptr s) = length (stk M)
     \<and> length (stk M) \<le> 100 \<and> take (length (stk M)) (stack s) = rev (stk M)"

definition control_matches :: "x4 \<Rightarrow> machine \<Rightarrow> bool" where
  "control_matches s M \<longleftrightarrow> pc s = counter M \<and> pcRet s = return_link M \<and> interrupts s = enabled M
     \<and> (flag_compare s, flag_greater s) = flags_of (compared M)"

text \<open>The memory of the program starts at the base of its heap; \<open>view\<close> is that of the board.\<close>

definition memory_matches :: "(u32 \<Rightarrow> bool) \<Rightarrow> mem \<Rightarrow> x4 \<Rightarrow> machine \<Rightarrow> bool" where
  "memory_matches valid m s M \<longleftrightarrow> heap_end (x4_segments s) = 0xffffffff
     \<and> (\<forall>a. memory M a = (if valid (heap_begin (x4_segments s) + a) then Some (m (heap_begin (x4_segments s) + a)) else None))"

definition matches :: "(u32 \<Rightarrow> bool) \<Rightarrow> mem \<Rightarrow> x4 \<Rightarrow> machine \<Rightarrow> bool" where
  "matches valid m s M \<longleftrightarrow> registers_match s M \<and> stack_matches s M \<and> control_matches s M \<and> memory_matches valid m s M"

lemmas match_defs = matches_def registers_match_def stack_matches_def control_matches_def memory_matches_def

lemma matches_put:
  assumes "matches valid m s M" and "unat r < 8"
  shows "matches valid m (s\<lparr>reg := (reg s)[unat r := v]\<rparr>) (put r v M)"
  using assms by (auto simp: match_defs put_def nth_list_update word_unat_eq_iff)

lemma matches_set_reg:
  assumes "matches valid m s M" and "unat r < 8"
  shows "set_reg r v s = Some (s\<lparr>reg := (reg s)[unat r := v]\<rparr>)"
  using assms by (simp add: match_defs set_reg_def)

lemma matches_reg_at:
  assumes "matches valid m s M" and "unat r < 8"
  shows "reg_at s r = Some (regs M r)"
  using assms by (simp add: match_defs reg_at_def)

lemma matches_advance:
  "matches valid m s M \<Longrightarrow> matches valid m (advance n s) (M\<lparr>counter := counter M + n\<rparr>)"
  by (auto simp: match_defs advance_def)

lemma matches_jump:
  "matches valid m s M \<Longrightarrow> matches valid m (s\<lparr>pc := a\<rparr>) (M\<lparr>counter := a\<rparr>)"
  by (auto simp: match_defs)

lemma matches_compare:
  "matches valid m s M \<Longrightarrow> matches valid m (compare_bytes a b s) (M\<lparr>compared := compare_result a b\<rparr>)"
  by (auto simp: match_defs compare_bytes_def compare_result_def flags_of_def)

lemma matches_flags:
  assumes "matches valid m s M"
  shows "flag_compare s = 1 \<longleftrightarrow> compared M = Equal" "flag_compare s = 0 \<longleftrightarrow> compared M \<noteq> Equal"
    "flag_greater s = 1 \<longleftrightarrow> compared M = Above" "flag_greater s = 0 \<longleftrightarrow> compared M \<noteq> Above"
  using assms by (cases "compared M"; simp add: match_defs flags_of_def)+

lemma matches_push:
  assumes "matches valid m s M" and "length (stk M) < 100"
  shows "matches valid m (s\<lparr>stack := (stack s)[unat (stack_ptr s) := v], stack_ptr := stack_ptr s + 1\<rparr>) (M\<lparr>stk := v # stk M\<rparr>)"
    and "unat (stack_ptr s) < length (stack s)"
proof -
  have p: "unat (stack_ptr s) = length (stk M)" "length (stack s) = 100" "take (length (stk M)) (stack s) = rev (stk M)"
    using assms(1) by (simp_all add: match_defs)
  have "unat (stack_ptr s + 1) = length (stk M) + 1"
    using assms(2) p(1) by (simp add: unat_add_no_wrap del: One_nat_def)
  moreover have "take (Suc (length (stk M))) ((stack s)[length (stk M) := v]) = rev (stk M) @ [v]"
    using p assms(2) by (simp add: take_Suc_conv_app_nth)
  ultimately show "matches valid m (s\<lparr>stack := (stack s)[unat (stack_ptr s) := v], stack_ptr := stack_ptr s + 1\<rparr>) (M\<lparr>stk := v # stk M\<rparr>)"
    using assms p by (simp add: match_defs)
  show "unat (stack_ptr s) < length (stack s)" using p assms(2) by simp
qed

lemma matches_pop:
  assumes "matches valid m s M" and "stk M = x # xs"
  shows "matches valid m (s\<lparr>stack_ptr := stack_ptr s - 1\<rparr>) (M\<lparr>stk := xs\<rparr>)"
    and "unat (stack_ptr s - 1) < length (stack s)" and "stack s ! unat (stack_ptr s - 1) = x"
proof -
  have p: "unat (stack_ptr s) = Suc (length xs)" "length (stack s) = 100" "length xs < 100"
    "take (Suc (length xs)) (stack s) = rev xs @ [x]"
    using assms by (simp_all add: match_defs)
  then have "1 \<le> stack_ptr s" by (simp add: word_le_nat_alt)
  then have q: "unat (stack_ptr s - 1) = length xs" using p(1) by (simp add: unat_sub_le)
  have t: "take (length xs) (stack s) = rev xs" "stack s ! length xs = x"
    using p(2-4) by (auto simp: take_Suc_conv_app_nth)
  show "matches valid m (s\<lparr>stack_ptr := stack_ptr s - 1\<rparr>) (M\<lparr>stk := xs\<rparr>)"
    using assms p q t by (simp add: match_defs)
  show "unat (stack_ptr s - 1) < length (stack s)" "stack s ! unat (stack_ptr s - 1) = x"
    using p q t by simp_all
qed

lemma pointer_le32 [simp]:
  "pointer (ucast a) (ucast (drop_bit 8 a)) (ucast (drop_bit 16 a)) (ucast (drop_bit 24 a)) = a"
  using le32_le32_bytes [of a] by (simp add: pointer_def le32_bytes_def)

lemma run_x4_do [run_simps]:
  "run rd wr (x4_do f) s d = (Some (case f s of None \<Rightarrow> (Undefined, s) | Some s' \<Rightarrow> (Continue, s')), d)"
  by (simp add: run_def x4_do_def)

lemma check_segment_passes:
  assumes "heap_end (x4_segments s) = 0xffffffff"
  shows "run rd wr (check_segment a) s d = (Some ((), s), d)"
proof -
  have "\<not> 0xffffffff < a" using unsigned_less [where 'a = nat and w = a] by (simp add: word_less_nat_alt)
  then show ?thesis using assms by (simp add: check_segment_def run_simps)
qed

text \<open>The instructions that do not use the bus.\<close>

definition off_bus :: "instruction \<Rightarrow> bool" where
  "off_bus i \<longleftrightarrow> (case i of MOVMR r a \<Rightarrow> False | MOVMW r a \<Rightarrow> False | _ \<Rightarrow> True)"

lemmas x4_pure_defs = x4_MOVR_def x4_MOVB_def x4_MOVA_def x4_INC_def x4_DEC_def x4_binary_def
  x4_MUL_def x4_DIV_def x4_NOT_def x4_POP_def x4_PUSH_def x4_CMP_def x4_CMPR_def x4_jump_if_def
  x4_CALL_def x4_RET_def

lemma advance_advance: "advance n (advance k s) = advance (k + n) s"
  by (simp add: advance_def ac_simps)

lemma put_counter: "(put r v M)\<lparr>counter := n\<rparr> = put r v (M\<lparr>counter := n\<rparr>)"
  by (simp add: put_def)

lemma counter_put [simp]: "counter (put r v M) = counter M"
  by (simp add: put_def)

lemma matches_put_next:
  assumes "matches valid m t M" and "unat r < 8"
  shows "matches valid m (advance n (t\<lparr>reg := (reg t)[unat r := v]\<rparr>)) (put r v (M\<lparr>counter := counter M + n\<rparr>))"
  using matches_advance [OF matches_put [OF assms, of v], of n] by (simp add: put_counter)

lemma matches_put2_next:
  assumes "matches valid m t M" and "unat r + 1 < 8"
  shows "matches valid m (advance n (t\<lparr>reg := (reg t)[unat r := v, Suc (unat r) := w]\<rparr>))
    (put (r + 1) w (put r v (M\<lparr>counter := counter M + n\<rparr>)))"
proof -
  have r: "unat r < 8" "unat (r + 1) = Suc (unat r)"
    using assms(2) by (simp_all add: unat_word_ariths)
  then have "matches valid m (t\<lparr>reg := (reg t)[unat r := v, unat (r + 1) := w]\<rparr>) (put (r + 1) w (put r v M))"
    using matches_put [OF matches_put [OF assms(1) r(1), of v], of "r + 1" w] assms(2) by simp
  from matches_advance [OF this, of n] show ?thesis by (simp add: r put_counter)
qed

lemma matches_push_next:
  assumes "matches valid m t M" and "length (stk M) < 100"
  shows "matches valid m (advance n (t\<lparr>stack := (stack t)[unat (stack_ptr t) := v], stack_ptr := stack_ptr t + 1\<rparr>))
    (M\<lparr>counter := counter M + n, stk := v # stk M\<rparr>)"
proof -
  have eq: "M\<lparr>stk := v # stk M, counter := counter M + n\<rparr> = M\<lparr>counter := counter M + n, stk := v # stk M\<rparr>" by simp
  show ?thesis unfolding eq [symmetric] using matches_advance [OF matches_push(1) [OF assms, of v], of n] by simp
qed

lemma matches_pop_next:
  assumes "matches valid m t M" and "stk M = x # xs" and "unat r < 8"
  shows "matches valid m (advance n (t\<lparr>stack_ptr := stack_ptr t - 1, reg := (reg t)[unat r := x]\<rparr>))
    (put r x (M\<lparr>counter := counter M + n, stk := xs\<rparr>))"
proof -
  have eq: "M\<lparr>stk := xs, counter := counter M + n\<rparr> = M\<lparr>counter := counter M + n, stk := xs\<rparr>" by simp
  show ?thesis unfolding eq [symmetric] using matches_put_next [OF matches_pop(1) [OF assms(1,2)] assms(3), of n x] by simp
qed

lemma matches_compare_next:
  assumes "matches valid m t M"
  shows "matches valid m (advance n (compare_bytes a b t)) (M\<lparr>counter := counter M + n, compared := compare_result a b\<rparr>)"
proof -
  have eq: "M\<lparr>compared := compare_result a b, counter := counter M + n\<rparr>
      = M\<lparr>counter := counter M + n, compared := compare_result a b\<rparr>" by simp
  show ?thesis unfolding eq [symmetric] using matches_advance [OF matches_compare [OF assms, of a b], of n] by simp
qed

lemma program_kept [simp]:
  "programBuffer (advance n s) = programBuffer s"
  "programBuffer (compare_bytes a b s) = programBuffer s"
  "x4_segments (advance n s) = x4_segments s"
  "x4_segments (compare_bytes a b s) = x4_segments s"
  by (simp_all add: advance_def compare_bytes_def)

lemma execute_pure:
  assumes m: "matches valid m s M" and regs: "list_all (\<lambda>r. r < 8) (registers i)" and "off_bus i"
    and perf: "perform i (M\<lparr>counter := counter M + of_nat (length (encode i))\<rparr>) = Some M'"
    and fetched: "\<And>k. k < length (encode i) \<Longrightarrow> fetch k s = encode i ! k"
  shows "\<exists>s'. run rd wr (x4_execute found (fetch 0 s) (fetch 1 s) (fetch 2 s) (fetch 3 s) (fetch 4 s) (fetch 5 s))
      (advance 1 s) d = (Some (Continue, s'), d) \<and> matches valid m s' M'
      \<and> programBuffer s' = programBuffer s \<and> x4_segments s' = x4_segments s"
proof -
  let ?t = "advance 1 s"
  let ?M = "M\<lparr>counter := counter M + 1\<rparr>"
  have t: "matches valid m ?t ?M" using matches_advance [OF m, of 1] .
  note f = fetched [of 0] fetched [of "Suc 0"] fetched [of 2] fetched [of 3] fetched [of 4] fetched [of 5]
  note x = x4_execute_def opcodes run_simps x4_pure_defs matches_reg_at [OF t] matches_set_reg [OF t]
    advance_advance le32_bytes_def add.commute [of "counter M"]
  show ?thesis
  proof (cases i)
    case (MOVR r q)
    then show ?thesis
      using f regs perf matches_put_next [OF t, of r 2 "regs M q"] by (auto simp: x)
  next
    case (MOVB r b)
    then show ?thesis
      using f regs perf matches_put_next [OF t, of r 2 b] by (auto simp: x)
  next
    case (ADDR r q)
    then show ?thesis
      using f regs perf matches_put_next [OF t, of r 2 "regs M r + regs M q"] by (auto simp: x)
  next
    case (SUBR r q)
    then show ?thesis
      using f regs perf matches_put_next [OF t, of r 2 "regs M r - regs M q"] by (auto simp: x)
  next
    case (ANDR r q)
    then show ?thesis
      using f regs perf matches_put_next [OF t, of r 2 "regs M r AND regs M q"] by (auto simp: x)
  next
    case (ORR r q)
    then show ?thesis
      using f regs perf matches_put_next [OF t, of r 2 "regs M r OR regs M q"] by (auto simp: x)
  next
    case (XORR r q)
    then show ?thesis
      using f regs perf matches_put_next [OF t, of r 2 "regs M r XOR regs M q"] by (auto simp: x)
  next
    case (INC r)
    then show ?thesis
      using f regs perf matches_put_next [OF t, of r 1 "regs M r + 1"] by (auto simp: x)
  next
    case (DEC r)
    then show ?thesis
      using f regs perf matches_put_next [OF t, of r 1 "regs M r - 1"] by (auto simp: x)
  next
    case (MULR r p q)
    then show ?thesis
      using f regs perf matches_put_next [OF t, of r 3 "regs M p * regs M q"] by (auto simp: x)
  next
    case (DIVR r p q)
    then show ?thesis
      using f regs perf matches_put_next [OF t, of r 3 "regs M p div regs M q"] by (auto simp: x split: if_splits)
  next
    case (NOTR r)
    then show ?thesis
      using f regs perf matches_put_next [OF t, of r 2 "NOT (regs M r)"] by (auto simp: x)
  next
    case (MOVA r lo hi)
    moreover have "length (reg ?t) = 8" using t by (simp add: match_defs)
    ultimately show ?thesis
      using f regs perf matches_put2_next [OF t, of r 5 lo hi] by (auto simp: x)
  next
    case (JMP a)
    then show ?thesis
      using f regs perf matches_jump [OF t, of a] matches_advance [OF t, of 4] matches_flags [OF t] by (auto simp: x)
  next
    case (JE a)
    then show ?thesis
      using f regs perf matches_jump [OF t, of a] matches_advance [OF t, of 4] matches_flags [OF t] by (auto simp: x)
  next
    case (JNE a)
    then show ?thesis
      using f regs perf matches_jump [OF t, of a] matches_advance [OF t, of 4] matches_flags [OF t] by (auto simp: x)
  next
    case (JG a)
    then show ?thesis
      using f regs perf matches_jump [OF t, of a] matches_advance [OF t, of 4] matches_flags [OF t] by (auto simp: x)
  next
    case (JL a)
    then show ?thesis
      using f regs perf matches_jump [OF t, of a] matches_advance [OF t, of 4] matches_flags [OF t] by (auto simp: x)
  next
    case (CMPB r b)
    then show ?thesis
      using f regs perf matches_compare_next [OF t, of 2 "regs M r" b] by (auto simp: x)
  next
    case (CMPR r q)
    then show ?thesis
      using f regs perf matches_compare_next [OF t, of 2 "regs M r" "regs M q"] by (auto simp: x)
  next
    case NOP
    then show ?thesis
      using f regs perf t by (auto simp: x)
  next
    case (PUSH r)
    then have l: "length (stk M) < 100"
      and M': "M' = M\<lparr>counter := counter M + 2, stk := regs M r # stk M\<rparr>"
      using perf by (auto split: if_splits)
    show ?thesis
      using PUSH f regs l M' matches_push_next [OF t, of 1 "regs M r"] matches_push(2) [OF t] by (auto simp: x)
  next
    case (POP r)
    then obtain v xs where l: "stk M = v # xs" and M': "M' = put r v (M\<lparr>counter := counter M + 2, stk := xs\<rparr>)"
      using perf by (auto split: list.splits)
    show ?thesis
      using POP f regs l M' matches_pop_next [OF t, of v xs r 1] matches_pop(2,3) [OF t, of v xs]
        matches_set_reg [OF matches_pop(1) [OF t, of v xs]]
      by (auto simp: x)
  next
    case (CALL a)
    then show ?thesis using f perf m by (auto simp: x advance_def match_defs)
  next
    case RET
    then show ?thesis using f perf m by (auto simp: x advance_def match_defs)
  next
    case CLI
    then show ?thesis using f perf m by (auto simp: x advance_def match_defs)
  next
    case STI
    then show ?thesis using f perf m by (auto simp: x advance_def match_defs)
  qed (use assms(3) in \<open>simp_all add: off_bus_def\<close>)
qed


section \<open>Steps and runs\<close>

lemma matches_valid_cong:
  assumes "matches valid m s M" and "\<And>a. valid a \<Longrightarrow> m a = m' a"
  shows "matches valid m' s M"
  using assms by (auto simp: match_defs)

lemma matches_store:
  assumes "matches valid m s M" and "valid (heap_begin (x4_segments s) + a)"
  shows "matches valid (m(heap_begin (x4_segments s) + a := b)) s (M\<lparr>memory := (memory M)(a \<mapsto> b)\<rparr>)"
  using assms by (auto simp: match_defs)

context byte_store
begin

lemma execute_load:
  assumes m: "matches valid (view d) t M" and "ok d" and "unat r < 8" and b: "memory M a = Some b"
  shows "\<exists>d'. run rd wr (x4_MOVMR r a) t d = (Some (Continue, advance 5 (t\<lparr>reg := (reg t)[unat r := b]\<rparr>)), d')
    \<and> ok d' \<and> (\<forall>c. valid c \<longrightarrow> view d' c = view d c)"
proof -
  let ?a = "heap_begin (x4_segments t) + a"
  have h: "heap_end (x4_segments t) = 0xffffffff" and v: "valid ?a" "view d ?a = b"
    using m b by (auto simp: match_defs split: if_splits)
  have "run rd wr (x4_MOVMR r a) t d
      = (Some (Continue, advance 5 (t\<lparr>reg := (reg t)[unat r := fst (rd d ?a)]\<rparr>)), snd (rd d ?a))"
    by (simp add: x4_MOVMR_def run_simps check_segment_passes [OF h] matches_set_reg [OF m \<open>unat r < 8\<close>] split: prod.splits)
  then show ?thesis using rd_val rd_ok rd_view \<open>ok d\<close> v by auto
qed

lemma execute_store:
  assumes m: "matches valid (view d) t M" and "ok d" and "unat r < 8" and a: "a \<in> dom (memory M)"
  shows "run rd wr (x4_MOVMW r a) t d = (Some (Continue, advance 5 t), wr d (heap_begin (x4_segments t) + a) (regs M r))
    \<and> valid (heap_begin (x4_segments t) + a)"
proof -
  have h: "heap_end (x4_segments t) = 0xffffffff" and v: "valid (heap_begin (x4_segments t) + a)"
    using m a by (auto simp: match_defs split: if_splits)
  then show ?thesis
    by (simp add: x4_MOVMW_def run_simps check_segment_passes [OF h] matches_reg_at [OF m \<open>unat r < 8\<close>])
qed

lemma step_simulates:
  assumes "ok d" and l: "loaded is s" and m: "matches valid (view d) s M" and st: "machine_step is M = Some M'"
  shows "\<exists>s' d'. run rd wr (x4_step found) s d = (Some (Continue, s'), d')
    \<and> ok d' \<and> matches valid (view d') s' M' \<and> loaded is s' \<and> x4_segments s' = x4_segments s"
proof -
  obtain i where i: "instruction_at is (unat (counter M)) = Some i" "list_all (\<lambda>r. r < 8) (registers i)"
    and perf: "perform i (M\<lparr>counter := counter M + of_nat (length (encode i))\<rparr>) = Some M'"
    using st by (auto simp: machine_step_def split: option.splits if_splits)
  have pc: "pc s = counter M" using m by (simp add: match_defs)
  have fetched: "fetch k s = encode i ! k" if "k < length (encode i)" for k
    using fetch_instruction [OF l _ that] i(1) pc by simp
  have run: "run rd wr (x4_step found) s d = run rd wr
      (x4_execute found (fetch 0 s) (fetch 1 s) (fetch 2 s) (fetch 3 s) (fetch 4 s) (fetch 5 s)) (advance 1 s) d"
    by (simp add: x4_step_def run_simps)
  have t: "matches valid (view d) (advance 1 s) (M\<lparr>counter := counter M + 1\<rparr>)"
    using matches_advance [OF m, of 1] .
  note f = fetched [of 0] fetched [of "Suc 0"] fetched [of 2] fetched [of 3] fetched [of 4] fetched [of 5]
  note x = x4_execute_def opcodes le32_bytes_def add.commute [of "counter M"]
  show ?thesis
  proof (cases "off_bus i")
    case True
    from execute_pure [OF m i(2) True perf fetched, of rd wr found d] show ?thesis
      unfolding run using \<open>ok d\<close> l by (auto simp: loaded_def)
  next
    case False
    then consider r a where "i = MOVMR r a" | r a where "i = MOVMW r a"
      by (auto simp: off_bus_def split: instruction.splits)
    then show ?thesis
    proof cases
      case 1
      then obtain b where b: "memory M a = Some b" "M' = put r b (M\<lparr>counter := counter M + 1 + 5\<rparr>)" and r: "unat r < 8"
        using perf i(2) by (auto simp: add.commute [of "counter M"])
      obtain d' where d': "run rd wr (x4_MOVMR r a) (advance 1 s) d
            = (Some (Continue, advance 5 ((advance 1 s)\<lparr>reg := (reg (advance 1 s))[unat r := b]\<rparr>)), d')"
          "ok d'" "\<forall>c. valid c \<longrightarrow> view d' c = view d c"
        using execute_load [OF t \<open>ok d\<close> r, of a b] b(1) by auto
      have "matches valid (view d') (advance 5 ((advance 1 s)\<lparr>reg := (reg (advance 1 s))[unat r := b]\<rparr>)) M'"
        using matches_valid_cong [OF matches_put_next [OF t r, of 5 b], of "view d'"] d'(3) b(2) by simp
      then show ?thesis
        unfolding run using 1 f d'(1,2) l by (auto simp: x loaded_def)
    next
      case 2
      let ?a = "heap_begin (x4_segments s) + a"
      have dom: "a \<in> dom (memory M)" and M': "M' = M\<lparr>counter := counter M + 1 + 5, memory := (memory M)(a \<mapsto> regs M r)\<rparr>"
        and r: "unat r < 8"
        using 2 perf i(2) by (auto simp: add.commute [of "counter M"] split: if_splits)
      have w: "run rd wr (x4_MOVMW r a) (advance 1 s) d = (Some (Continue, advance 5 (advance 1 s)), wr d ?a (regs M r))"
        "valid ?a"
        using execute_store [OF t \<open>ok d\<close> r, of a] dom by auto
      have m6: "matches valid (view d) (advance 5 (advance 1 s)) (M\<lparr>counter := counter M + 1 + 5\<rparr>)"
        using matches_advance [OF t, of 5] by simp
      have "matches valid ((view d)(?a := regs M r)) (advance 5 (advance 1 s)) M'"
        using matches_store [OF m6, of a "regs M r"] w(2) by (simp add: M')
      from matches_valid_cong [OF this, of "view (wr d ?a (regs M r))"]
      have "matches valid (view (wr d ?a (regs M r))) (advance 5 (advance 1 s)) M'"
        using wr_view [OF \<open>ok d\<close> w(2)] by simp
      then show ?thesis
        unfolding run using 2 f w l wr_ok [OF \<open>ok d\<close> w(2)] by (auto simp: x loaded_def)
    qed
  qed
qed

lemma run_simulates:
  assumes "ok d" and "loaded is s" and "matches valid (view d) s M" and "machine_run is n M = Some M'"
  shows "\<exists>s' d'. (\<forall>k. run rd wr (x4_loop found (n + k)) s d = run rd wr (x4_loop found k) s' d')
    \<and> ok d' \<and> matches valid (view d') s' M' \<and> loaded is s' \<and> x4_segments s' = x4_segments s"
  using assms
proof (induction n arbitrary: s d M)
  case 0
  then show ?case by auto
next
  case (Suc n)
  obtain M1 where M1: "machine_step is M = Some M1" "machine_run is n M1 = Some M'"
    using Suc.prems(4) by (auto simp: bind_eq_Some_conv)
  obtain s1 d1 where 1: "run rd wr (x4_step found) s d = (Some (Continue, s1), d1)"
    "ok d1" "matches valid (view d1) s1 M1" "loaded is s1" "x4_segments s1 = x4_segments s"
    using step_simulates [OF Suc.prems(1-3) M1(1)] by blast
  obtain i where "instruction_at is (unat (pc s)) = Some i"
    using M1(1) Suc.prems(3) by (auto simp: machine_step_def match_defs split: option.splits)
  from instruction_in_program [OF Suc.prems(2) this]
  have "run rd wr (x4_loop found (Suc n + k)) s d = run rd wr (x4_loop found (n + k)) s1 d1" for k
    using 1(1) by (simp add: run_simps)
  then show ?case using Suc.IH [OF 1(2,4,3) M1(2)] 1(5) by auto
qed

end


section \<open>The program that ran\<close>

text \<open>
  C3. The emulator implements the instruction set. A program assembled into the buffer runs, on
  whatever stores bytes (the write-back cache is one such thing), as the abstract machine runs it: if
  the machine makes \<open>n\<close> steps, then the emulator's loop makes \<open>n\<close> turns, none of them the last one,
  and ends up with the machine's registers, stack, flags and memory.
\<close>

theorem emulator_refines_machine:
  assumes "byte_store rd wr view ok valid" and "ok d" and "loaded is s" and "matches valid (view d) s M"
    and "machine_run is n M = Some M'"
  shows "\<exists>s' d'. (\<forall>k. run rd wr (x4_loop found (n + k)) s d = run rd wr (x4_loop found k) s' d')
    \<and> ok d' \<and> matches valid (view d') s' M' \<and> x4_segments s' = x4_segments s"
  using byte_store.run_simulates [OF assms] by blast

text \<open>The factorial of three, stored at address 0x100 of the program's memory.\<close>

definition factorial_program :: "instruction list" where
  "factorial_program =
     [MOVB 0 3, MOVB 2 1,
      MULR 2 2 0, DEC 0, CMPB 0 0, JNE 6,
      MOVMW 2 0x100]"

definition demo_x4 :: x4 where
  "demo_x4 =
     \<lparr>programBuffer = (\<lambda>i. if i < length (assemble factorial_program) then assemble factorial_program ! i else 0),
      programSize = 26, param_string = (\<lambda>_. 0), param_length = 0,
      reg = replicate 8 0, stack = replicate 100 0, pc = 0, pcRet = 0, stack_ptr = 0,
      flag_compare = 0, flag_greater = 0, flag_consoleDirty = 1, interrupts = True,
      x4_segments = \<lparr>virtual_begin = 0x4000, virtual_end = 0xffffffff, heap_begin = 0x4000, heap_end = 0xffffffff\<rparr>,
      x4_console = console_initial 1,
      x4_nic = \<lparr>nic_address = 0, nic_read_waitstate = 0, nic_write_waitstate = 0, ntIsInitiated = 0\<rparr>\<rparr>"

definition demo_machine :: machine where
  "demo_machine = \<lparr>regs = (\<lambda>_. 0), stk = [], counter = 0, return_link = 0, compared = Below, enabled = True,
     memory = (\<lambda>a. Some 0)\<rparr>"

lemma factorial_result:
  "map_option (\<lambda>M. memory M 0x100) (machine_run factorial_program 15 demo_machine) = Some (Some 6)"
  by code_simp

theorem emulator_refines_machine_witness:
  "\<exists>s' m. (\<forall>k. run mem_rd mem_wr (x4_loop None (15 + k)) demo_x4 (\<lambda>_. 0) = run mem_rd mem_wr (x4_loop None k) s' m)
    \<and> m 0x4100 = 6"
proof -
  obtain M' where M': "machine_run factorial_program 15 demo_machine = Some M'" "memory M' 0x100 = Some 6"
    using factorial_result by auto
  have l: "loaded factorial_program demo_x4"
    by (simp add: loaded_def demo_x4_def assemble_def factorial_program_def le32_bytes_def MAX_PROGRAM_SIZE_def)
  have m: "matches (\<lambda>_. True) (\<lambda>_. 0) demo_x4 demo_machine"
    by (simp add: match_defs demo_x4_def demo_machine_def flags_of_def)
  obtain s' m where r: "\<forall>k. run mem_rd mem_wr (x4_loop None (15 + k)) demo_x4 (\<lambda>_. 0) = run mem_rd mem_wr (x4_loop None k) s' m"
    "matches (\<lambda>_. True) m s' M'" "x4_segments s' = x4_segments demo_x4"
    using emulator_refines_machine [OF flat.byte_store_axioms _ l _ M'(1), of "\<lambda>_. 0" None] m by auto
  have "m 0x4100 = 6"
    using r(2,3) M'(2) by (simp add: match_defs demo_x4_def)
  then show ?thesis using r(1) by blast
qed

end
