(* ===== verification/X4Safety.thy ===== *)
theory X4Safety
  imports EmulatorX4 Triples
begin

text \<open>
  What every program does to the emulator's state, and which addresses it can reach. The
  invariant is proved statement by statement with the triples of theory Triples; nothing is assumed of
  the program or of the devices behind the bus.
\<close>

section \<open>The invariant\<close>

text \<open>The arrays keep their lengths, and no instruction changes the segments.\<close>

definition x4_shape :: "segments \<Rightarrow> x4 \<Rightarrow> bool" where
  "x4_shape v s \<longleftrightarrow> length (reg s) = 8 \<and> length (stack s) = 100 \<and> x4_segments s = v"

lemma shape_set_reg: "x4_shape v s \<Longrightarrow> set_reg r x s = Some s' \<Longrightarrow> x4_shape v s'"
  by (auto simp: x4_shape_def set_reg_def split: if_splits)

lemma shape_updates [simp]:
  "x4_shape v (advance n s) = x4_shape v s"
  "x4_shape v (s\<lparr>pc := a\<rparr>) = x4_shape v s"
  "x4_shape v (s\<lparr>pcRet := a\<rparr>) = x4_shape v s"
  "x4_shape v (s\<lparr>stack_ptr := a\<rparr>) = x4_shape v s"
  "x4_shape v (s\<lparr>interrupts := b\<rparr>) = x4_shape v s"
  "x4_shape v (flag_consoleDirty_update f s) = x4_shape v s"
  "x4_shape v (s\<lparr>x4_console := c\<rparr>) = x4_shape v s"
  "x4_shape v (s\<lparr>x4_nic := n'\<rparr>) = x4_shape v s"
  "x4_shape v (compare_bytes x y s) = x4_shape v s"
  "x4_shape v (set_service_result x s) = x4_shape v s"
  by (simp_all add: x4_shape_def advance_def compare_bytes_def set_service_result_def)

lemma shape_reg_update: "x4_shape v s \<Longrightarrow> x4_shape v (s\<lparr>reg := (reg s)[i := x]\<rparr>)"
  by (simp add: x4_shape_def)

lemma shape_stack_update: "x4_shape v s \<Longrightarrow> x4_shape v (s\<lparr>stack := (stack s)[i := x]\<rparr>)"
  by (simp add: x4_shape_def)

definition keeps_shape :: "(x4 \<Rightarrow> x4 option) \<Rightarrow> bool" where
  "keeps_shape f \<longleftrightarrow> (\<forall>v s s'. x4_shape v s \<longrightarrow> f s = Some s' \<longrightarrow> x4_shape v s')"

lemma instructions_keep_shape:
  "keeps_shape (x4_MOVR a b)" "keeps_shape (x4_MOVB a b)" "keeps_shape (x4_MOVA a b c)"
  "keeps_shape (x4_INC a)" "keeps_shape (x4_DEC a)" "keeps_shape (x4_binary g a b)"
  "keeps_shape (x4_MUL a b c)" "keeps_shape (x4_DIV a b c)" "keeps_shape (x4_NOT a)"
  "keeps_shape (x4_CMP a b)" "keeps_shape (x4_CMPR a b)" "keeps_shape (x4_CALL t)" "keeps_shape x4_RET"
  by (auto simp: keeps_shape_def x4_MOVR_def x4_MOVB_def x4_MOVA_def x4_INC_def x4_DEC_def x4_binary_def
      x4_MUL_def x4_DIV_def x4_NOT_def x4_CMP_def x4_CMPR_def x4_CALL_def x4_RET_def
      bind_eq_Some_conv shape_set_reg shape_reg_update split: if_splits)

lemma stack_instructions_keep_shape:
  "keeps_shape (x4_POP a)" "keeps_shape (x4_PUSH a)"
  by (auto simp: keeps_shape_def x4_POP_def x4_PUSH_def x4_shape_def set_reg_def advance_def Let_def
      bind_eq_Some_conv split: if_splits)

lemma jumps_keep_shape: "keeps_shape (\<lambda>s. x4_jump_if (p s) t s)"
  "keeps_shape (\<lambda>s. Some (s\<lparr>interrupts := b\<rparr>))" "keeps_shape (\<lambda>s. Some (advance n s))"
  "keeps_shape (\<lambda>s. do { s \<leftarrow> set_reg a x s; Some (advance n s) })"
  by (auto simp: keeps_shape_def x4_jump_if_def bind_eq_Some_conv shape_set_reg)

lemmas keep_shape = instructions_keep_shape stack_instructions_keep_shape jumps_keep_shape
  jumps_keep_shape(1) [where p = "\<lambda>_. True"]

lemma invariant_x4_do [triples]: "keeps_shape f \<Longrightarrow> invariant (x4_shape v) (x4_do f) rd wr"
  by (auto simp: triple_def x4_do_def run_def keeps_shape_def split: option.splits)

lemma invariant_on_console [triples]: "invariant (x4_shape v) (on_console m) rd wr"
  unfolding on_console_def by (rule invariant_pzoom) simp

lemma invariant_on_nic [triples]: "invariant (x4_shape v) (on_nic m) rd wr"
  unfolding on_nic_def by (rule invariant_pzoom) simp

lemma invariant_set_result [triples]: "invariant (x4_shape v) (pmod (set_service_result x)) rd wr"
  by (rule invariant_pmod) simp

lemma invariant_advance [triples]: "invariant (x4_shape v) (pmod (advance n)) rd wr"
  by (rule invariant_pmod) simp

lemma invariant_dirty [triples]: "invariant (x4_shape v) (pmod (flag_consoleDirty_update f)) rd wr"
  by (rule invariant_pmod) simp

lemma invariant_memory_access [triples]:
  "invariant (x4_shape v) (x4_MOVMR r a) rd wr" "invariant (x4_shape v) (x4_MOVMW r a) rd wr"
  unfolding x4_MOVMR_def x4_MOVMW_def check_segment_def
  by (rule triples invariant_pwith keep_shape)+

lemma invariant_services [triples]:
  "invariant (x4_shape v) ISC_DisplayRoutine rd wr" "invariant (x4_shape v) (ISC_NetworkRoutine found) rd wr"
  "invariant (x4_shape v) (pmod ISC_FileSystemRoutine) rd wr" "invariant (x4_shape v) (pmod ISC_OperatingSystem) rd wr"
proof -
  show "invariant (x4_shape v) ISC_DisplayRoutine rd wr" "invariant (x4_shape v) (ISC_NetworkRoutine found) rd wr"
    unfolding ISC_DisplayRoutine_def ISC_NetworkRoutine_def Let_def by (rule triples invariant_pwith)+
  show "invariant (x4_shape v) (pmod ISC_FileSystemRoutine) rd wr"
    by (rule invariant_pmod) (simp add: ISC_FileSystemRoutine_def)
  show "invariant (x4_shape v) (pmod ISC_OperatingSystem) rd wr"
    by (rule invariant_pmod) (simp add: ISC_OperatingSystem_def Let_def)
qed

lemma invariant_x4_INT [triples]: "invariant (x4_shape v) (x4_INT found a) rd wr"
  unfolding x4_INT_def by (rule triples invariant_pwith)+

lemma invariant_x4_execute [triples]: "invariant (x4_shape v) (x4_execute found opc a b c e f) rd wr"
  unfolding x4_execute_def by (rule triples keep_shape)+

lemma invariant_x4_step [triples]: "invariant (x4_shape v) (x4_step found) rd wr"
  unfolding x4_step_def by (rule triples invariant_pwith)+

lemma invariant_x4_loop [triples]: "invariant (x4_shape v) (x4_loop found n) rd wr"
proof (induction n)
  case 0
  then show ?case by (simp add: invariant_preturn)
next
  case (Suc n)
  then show ?case unfolding x4_loop.simps by (intro invariant_pwith triples)
qed

definition user_segments :: segments where
  "user_segments = \<lparr>virtual_begin = 0x4000, virtual_end = 0xffffffff, heap_begin = 0x4000, heap_end = 0xffffffff\<rparr>"

lemma x4_start_segments: "x4_segments (x4_start s) = user_segments"
  by (simp add: x4_start_def set_heap_def VirtualAccessSetMode_def virtual_consts user_segments_def)

lemma x4_end_segments: "x4_segments (x4_end s) = segments_initial"
  by (simp add: x4_end_def set_heap_def VirtualAccessSetMode_def virtual_consts segments_initial_def)

lemma shape_start: "x4_shape v s \<Longrightarrow> x4_shape user_segments (x4_start s)"
  unfolding x4_shape_def x4_start_segments by (simp add: x4_start_def Let_def)

lemma shape_end: "x4_shape v s \<Longrightarrow> x4_shape segments_initial (x4_end s)"
  unfolding x4_shape_def x4_end_segments by (simp add: x4_end_def)

lemma EmulateX4_triple:
  "triple (x4_shape v) (EmulateX4 found n)
     (\<lambda>r. x4_shape (if r = Ended then segments_initial else user_segments)) rd wr"
  unfolding EmulateX4_def
proof (rule triple_pbind, rule triple_pmod, erule shape_start, rule triple_pbind, rule invariant_x4_loop)
  fix r
  show "triple (x4_shape user_segments)
      (if r = Ended then
         pbind (pmod x4_end) (\<lambda>_. pbind (pwith (\<lambda>s. if flag_consoleDirty s = 1 then on_console printLn else pskip))
           (\<lambda>_. preturn Ended))
       else preturn r) (\<lambda>r. x4_shape (if r = Ended then segments_initial else user_segments)) rd wr"
  proof (rule triple_if)
    show "triple (x4_shape user_segments) (pbind (pmod x4_end)
        (\<lambda>_. pbind (pwith (\<lambda>s. if flag_consoleDirty s = 1 then on_console printLn else pskip)) (\<lambda>_. preturn Ended)))
      (\<lambda>r. x4_shape (if r = Ended then segments_initial else user_segments)) rd wr"
      by (rule triple_pbind, rule triple_pmod, erule shape_end, rule triple_pbind,
          (rule triples invariant_pwith)+, rule triple_preturn) simp
  qed (simp add: triple_preturn)
qed

text \<open>
  C27. Whatever bytes are run and whatever the devices answer, a run of the emulator that comes
  back leaves eight registers and a stack of 100 bytes; if the program ran off its end, the
  segments are the kernel's again, but after the exit interrupt 0x20 (and after undefined behaviour) they
  are still the user's: the kernel goes on in user mode with the heap of the program.
\<close>

theorem EmulateX4_segments:
  assumes "length (reg s) = 8" and "length (stack s) = 100"
    and "run rd wr (EmulateX4 found n) s d = (Some (r, s'), d')"
  shows "length (reg s') = 8 \<and> length (stack s') = 100
    \<and> x4_segments s' = (if r = Ended then segments_initial else user_segments)"
proof -
  have "x4_shape (x4_segments s) s" using assms(1,2) by (simp add: x4_shape_def)
  from tripleD [OF EmulateX4_triple this assms(3)] show ?thesis by (simp add: x4_shape_def)
qed

definition exit_x4 :: x4 where
  "exit_x4 =
     \<lparr>programBuffer = (\<lambda>i. if i = 0 then 0xCD else if i = 1 then 0x20 else 0), programSize = 2,
      param_string = (\<lambda>_. 0), param_length = 0,
      reg = replicate 8 0, stack = replicate 100 0, pc = 0, pcRet = 0, stack_ptr = 0,
      flag_compare = 0, flag_greater = 0, flag_consoleDirty = 1, interrupts = True,
      x4_segments = segments_initial, x4_console = console_initial 1,
      x4_nic = \<lparr>nic_address = 0, nic_read_waitstate = 0, nic_write_waitstate = 0, ntIsInitiated = 0\<rparr>\<rparr>"

lemma exit_run:
  "\<exists>s' d'. run (history_rd 0 0x10) history_wr (EmulateX4 None 1) exit_x4 idle_device = (Some (Return, s'), d')"
proof -
  let ?c = "console_initial 1"
  have r: "ready_device (history_rd 0 0x10) history_wr history 0 0x10 1"
    using history_ready [of 0 "0x10" 0] by simp
  have "attached_to 0 0x10 1 ?c" by (simp add: attached_to_def console_initial_def)
  from ready_device.displays_printLn [OF r this]
  obtain d where d: "run (history_rd 0 0x10) history_wr printLn ?c idle_device = (Some ((), line_down ?c), d)"
    unfolding displays_on_def by metis
  have f: "x4_console (x4_start exit_x4) = ?c" "flag_consoleDirty (x4_start exit_x4) = 1"
    "pc (x4_start exit_x4) = 0" "programBuffer (x4_start exit_x4) = programBuffer exit_x4"
    by (simp_all add: x4_start_def exit_x4_def Let_def)
  have "fetch 0 (x4_start exit_x4) = 0xCD" "fetch 1 (x4_start exit_x4) = 0x20"
    by (simp_all add: fetch_def f) (simp_all add: exit_x4_def)
  then have "\<exists>s' d'. run (history_rd 0 0x10) history_wr (x4_step None) (x4_start exit_x4) idle_device = (Some (Return, s'), d')"
    by (simp add: x4_step_def x4_execute_def opcodes x4_INT_def run_simps on_console_def f d [unfolded One_nat_def] advance_def)
  then show ?thesis
    by (auto simp: EmulateX4_def run_simps f MAX_PROGRAM_SIZE_def)
qed

theorem EmulateX4_segments_witness:
  "\<exists>s' d'. run (history_rd 0 0x10) history_wr (EmulateX4 None 1) exit_x4 idle_device = (Some (Return, s'), d')
    \<and> VirtualAccessGetMode (x4_segments exit_x4) = VIRTUAL_ACCESS_MODE_KERNEL
    \<and> VirtualAccessGetMode (x4_segments s') = VIRTUAL_ACCESS_MODE_USER"
proof -
  obtain s' d' where r: "run (history_rd 0 0x10) history_wr (EmulateX4 None 1) exit_x4 idle_device = (Some (Return, s'), d')"
    using exit_run by blast
  have "length (reg exit_x4) = 8" "length (stack exit_x4) = 100" by (simp_all add: exit_x4_def)
  from EmulateX4_segments [OF this r] have "x4_segments s' = user_segments" by simp
  then show ?thesis
    using r by (simp add: user_segments_def VirtualAccessGetMode_def virtual_consts exit_x4_def segments_initial_def)
qed


section \<open>The addresses a program reaches\<close>

text \<open>
  C35. A store of a running program. The segment check lets every operand pass; the byte goes to
  the operand plus 0x4000, and this is below the user segment, in the memory of the
  kernel, exactly for the operands from 0xFFFFC000 on: for each address of the kernel there is an
  operand with which the store reaches it.
\<close>

theorem store_reaches_kernel_memory:
  assumes "x4_segments s = user_segments" and "unat r < length (reg s)"
  shows "run rd wr (x4_MOVMW r operand) s d = (Some (Continue, advance 5 s), wr d (0x4000 + operand) (reg s ! unat r))
    \<and> (0x4000 + operand < 0x4000 \<longleftrightarrow> operand \<ge> 0xFFFFC000)
    \<and> (\<forall>a :: u32. \<exists>operand. 0x4000 + operand = a)"
proof (intro conjI)
  have "\<not> 0xffffffff < operand"
    using unsigned_less [where 'a = nat and w = operand] by (simp add: word_less_nat_alt)
  then show "run rd wr (x4_MOVMW r operand) s d
      = (Some (Continue, advance 5 s), wr d (0x4000 + operand) (reg s ! unat r))"
    using assms by (simp add: x4_MOVMW_def check_segment_def run_simps user_segments_def reg_at_def x4_do_def)
       (simp add: run_def)
  show "0x4000 + operand < 0x4000 \<longleftrightarrow> operand \<ge> 0xFFFFC000"
    by (simp add: word_less_nat_alt word_le_nat_alt unat_word_ariths) (use unsigned_less [where 'a = nat and w = operand] in \<open>auto simp: mod_if\<close>)
  show "\<forall>a :: u32. \<exists>operand. 0x4000 + operand = a"
  proof
    fix a :: u32
    show "\<exists>operand. 0x4000 + operand = a" by (rule exI [of _ "a - 0x4000"]) simp
  qed
qed

theorem store_reaches_kernel_memory_witness:
  "snd (run mem_rd mem_wr (x4_MOVMW 0 0xFFFFC010) (x4_start exit_x4) (\<lambda>_. 7)) 0x10 = 0"
proof -
  have a: "x4_segments (x4_start exit_x4) = user_segments" "unat (0::u8) < length (reg (x4_start exit_x4))"
    by (simp_all add: x4_start_segments) (simp add: x4_start_def exit_x4_def Let_def)
  have "reg (x4_start exit_x4) ! 0 = 0" by (simp add: x4_start_def exit_x4_def Let_def)
  then show ?thesis
    using store_reaches_kernel_memory [OF a, of mem_rd mem_wr "0xFFFFC010" "\<lambda>_. 7"] by (simp add: mem_wr_def)
qed

end
