(* ===== verification/Interrupts.thy ===== *)
theory Interrupts
  imports PortIO
begin

text \<open>
  Interrupts: the services behind the processor's vectors and the timers that raise them
  (kernel/interrupt.c), and the table of hardware vectors that the board's interrupt line selects from
  (kernel/kernel.c). A pointer to a function is a name.
\<close>

section \<open>Vectors and timers\<close>

datatype service =
    dummyFunction
  | nullfunction
  | SchedulerTimer            \<comment> \<open>\<open>_ISR_SCHEDULER_TIMER__\<close>\<close>
  | SchedulerMain             \<comment> \<open>\<open>_ISR_SCHEDULER_MAIN__\<close>\<close>
  | HardwareService           \<comment> \<open>\<open>_ISR_hardware_service_routine\<close>\<close>
  | Service nat

record interrupt_state =
  timer_comp_a :: service
  timer_comp_b :: service
  timer_comp_c :: service
  external_int :: service
  TCCR0B :: u8
  TIMSK0 :: u8
  OCR0A :: u8
  TCCR1B :: u8
  TIMSK1 :: u8
  OCR1A :: u16
  TCCR2B :: u8
  EICRA :: u8
  EIMSK :: u8
  global_interrupts :: bool

definition interrupts_initial :: interrupt_state where
  "interrupts_initial =
     \<lparr>timer_comp_a = dummyFunction, timer_comp_b = dummyFunction, timer_comp_c = dummyFunction,
      external_int = dummyFunction, TCCR0B = 0, TIMSK0 = 0, OCR0A = 0, TCCR1B = 0, TIMSK1 = 0, OCR1A = 0,
      TCCR2B = 0, EICRA = 0, EIMSK = 0, global_interrupts = False\<rparr>"

text \<open>The bit numbers of the AVR's registers are those of avr/io.h.\<close>

definition bit_of :: "nat \<Rightarrow> u8" where "bit_of n = push_bit n 1"

definition DisableGlobalInterrupts :: "interrupt_state \<Rightarrow> interrupt_state" where
  "DisableGlobalInterrupts i = i\<lparr>global_interrupts := False\<rparr>"

definition EnableGlobalInterrupts :: "interrupt_state \<Rightarrow> interrupt_state" where
  "EnableGlobalInterrupts i = i\<lparr>global_interrupts := True\<rparr>"

definition InterruptStartScheduler :: "interrupt_state \<Rightarrow> interrupt_state" where
  "InterruptStartScheduler i =
     i\<lparr>TCCR1B := bit_of 3 OR bit_of 1 OR bit_of 0, TIMSK1 := bit_of 1, OCR1A := 391\<rparr>"

definition InterruptStartTimeCounter :: "interrupt_state \<Rightarrow> interrupt_state" where
  "InterruptStartTimeCounter i =
     i\<lparr>TCCR0B := bit_of 3 OR bit_of 2, TIMSK0 := bit_of 1, OCR0A := 98\<rparr>"

definition InterruptStartHardware :: "interrupt_state \<Rightarrow> interrupt_state" where
  "InterruptStartHardware i = i\<lparr>EICRA := bit_of 4, EIMSK := EIMSK i OR bit_of 2\<rparr>"

definition InterruptStopScheduler :: "interrupt_state \<Rightarrow> interrupt_state" where
  "InterruptStopScheduler i = i\<lparr>TCCR0B := 0\<rparr>"

definition InterruptStopTimerCounter :: "interrupt_state \<Rightarrow> interrupt_state" where
  "InterruptStopTimerCounter i = i\<lparr>TCCR1B := 0, TCCR2B := 0\<rparr>"

definition InterruptStopHardware :: "interrupt_state \<Rightarrow> interrupt_state" where
  "InterruptStopHardware i = i\<lparr>EICRA := 0, EIMSK := 0\<rparr>"

text \<open>The cases of the \<open>switch\<close> have no \<open>break\<close>: each falls into the next.\<close>

definition SetInterruptService :: "u8 \<Rightarrow> service \<Rightarrow> interrupt_state \<Rightarrow> interrupt_state" where
  "SetInterruptService index service_ptr i =
     (let i = (if index = 0 then i\<lparr>timer_comp_a := service_ptr\<rparr> else i);
          i = (if index = 0 \<or> index = 1 then i\<lparr>timer_comp_b := service_ptr\<rparr> else i)
      in (if index = 0 \<or> index = 1 \<or> index = 2 then i\<lparr>timer_comp_c := service_ptr\<rparr> else i))"

definition SetHardwareInterruptService :: "service \<Rightarrow> interrupt_state \<Rightarrow> interrupt_state" where
  "SetHardwareInterruptService service_ptr i = i\<lparr>external_int := service_ptr\<rparr>"

text \<open>The processor's vectors.\<close>

datatype vector = TIMER0_COMPA | TIMER1_COMPA | TIMER2_COMPA | INT2

fun vector_service :: "vector \<Rightarrow> interrupt_state \<Rightarrow> service" where
  "vector_service TIMER0_COMPA i = timer_comp_a i"
| "vector_service TIMER1_COMPA i = timer_comp_b i"
| "vector_service TIMER2_COMPA i = timer_comp_c i"
| "vector_service INT2 i = external_int i"

text \<open>Installing a service for one timer installs it for the timers behind it as well.\<close>

lemma SetInterruptService_falls_through:
  "vector_service TIMER0_COMPA (SetInterruptService n f i) = (if n = 0 then f else timer_comp_a i)"
  "vector_service TIMER1_COMPA (SetInterruptService n f i) = (if n \<le> 1 then f else timer_comp_b i)"
  "vector_service TIMER2_COMPA (SetInterruptService n f i) = (if n \<le> 2 then f else timer_comp_c i)"
proof -
  have "n = 0 \<or> n = 1 \<longleftrightarrow> n \<le> 1" "n = 0 \<or> n = 1 \<or> n = 2 \<longleftrightarrow> n \<le> 2"
    by (auto simp: word_le_nat_alt word_unat_eq_iff)
  then show "vector_service TIMER0_COMPA (SetInterruptService n f i) = (if n = 0 then f else timer_comp_a i)"
    "vector_service TIMER1_COMPA (SetInterruptService n f i) = (if n \<le> 1 then f else timer_comp_b i)"
    "vector_service TIMER2_COMPA (SetInterruptService n f i) = (if n \<le> 2 then f else timer_comp_c i)"
    by (simp_all add: SetInterruptService_def Let_def)
qed

text \<open>A timer counts while it has a clock: the low three bits of its control register.\<close>

definition running :: "u8 \<Rightarrow> bool" where
  "running tccr \<longleftrightarrow> tccr AND 7 \<noteq> 0"

text \<open>
  Stopping the scheduler stops the timer of the time counter, and the other way round: the timer that
  raises the scheduler's interrupt goes on.
\<close>

lemma stop_stops_the_other_timer:
  "running (TCCR1B (InterruptStopScheduler (InterruptStartTimeCounter (InterruptStartScheduler i))))"
  "\<not> running (TCCR0B (InterruptStopScheduler (InterruptStartTimeCounter (InterruptStartScheduler i))))"
  "running (TCCR0B (InterruptStopTimerCounter (InterruptStartTimeCounter (InterruptStartScheduler i))))"
  "\<not> running (TCCR1B (InterruptStopTimerCounter (InterruptStartTimeCounter (InterruptStartScheduler i))))"
  by (simp_all add: running_def InterruptStopScheduler_def InterruptStartTimeCounter_def
      InterruptStartScheduler_def InterruptStopTimerCounter_def bit_of_def)


section \<open>The hardware vector table\<close>

definition HARDWARE_INTERRUPT_TABLE_SIZE :: nat where "HARDWARE_INTERRUPT_TABLE_SIZE = 8"

record vector_table =
  isr_read_waitstate :: u16
  hardware_interrupt_table :: "service list"

definition KernelVectorTableInit :: "vector_table \<Rightarrow> vector_table" where
  "KernelVectorTableInit t =
     t\<lparr>isr_read_waitstate := 1,
       hardware_interrupt_table := replicate HARDWARE_INTERRUPT_TABLE_SIZE nullfunction\<rparr>"

text \<open>None: an index outside the table.\<close>

definition SetInterruptVector :: "u8 \<Rightarrow> service \<Rightarrow> vector_table \<Rightarrow> vector_table option" where
  "SetInterruptVector index servicePtr t =
     (if unat index < length (hardware_interrupt_table t)
      then Some (t\<lparr>hardware_interrupt_table := (hardware_interrupt_table t)[unat index := servicePtr]\<rparr>)
      else None)"

text \<open>\<open>perform\<close> is what a service does. Bit 7 of the vector selects entry 0, bit 0 entry 7.\<close>

definition call_if :: "u8 \<Rightarrow> nat \<Rightarrow> ('s, unit) prog \<Rightarrow> ('s, unit) prog" where
  "call_if vect n m = (if drop_bit n vect AND 1 \<noteq> 0 then m else pskip)"

definition ISR_hardware_service_routine ::
    "(service \<Rightarrow> ('s, unit) prog) \<Rightarrow> vector_table \<Rightarrow> ('s, unit) prog" where
  "ISR_hardware_service_routine perform t =
     pbind (pread 0x00000) (\<lambda>vect.
       pseq
        [call_if vect 7 (perform (hardware_interrupt_table t ! 0)),
         call_if vect 6 (perform (hardware_interrupt_table t ! 1)),
         call_if vect 5 (perform (hardware_interrupt_table t ! 2)),
         call_if vect 4 (perform (hardware_interrupt_table t ! 3)),
         call_if vect 3 (perform (hardware_interrupt_table t ! 4)),
         call_if vect 2 (perform (hardware_interrupt_table t ! 5)),
         call_if vect 1 (perform (hardware_interrupt_table t ! 6)),
         call_if vect 0 (perform (hardware_interrupt_table t ! 7))])"

lemma bit_test: "drop_bit n (v::u8) AND 1 \<noteq> 0 \<longleftrightarrow> bit v n"
  by (simp add: and_one_eq bit_iff_odd_drop_bit mod_2_eq_odd)

text \<open>Dispatch: the services of the set bits, from the highest bit down.\<close>

lemma pseq_calls:
  "run rd wr (pseq (map (\<lambda>k. call_if v (f k) (m k)) ks)) c s
     = run rd wr (pseq (map m (filter (\<lambda>k. bit v (f k)) ks))) c s"
proof (induction ks arbitrary: c s)
  case (Cons k ks)
  have "call_if v (f k) (m k) = (if bit v (f k) then m k else pskip)"
    unfolding call_if_def bit_test ..
  then show ?case by (simp add: run_pskip Cons.IH run_pseq_Cons split: prod.splits option.splits)
qed simp

lemma ISR_dispatches:
  "run rd wr (ISR_hardware_service_routine perform t) c s =
     (case rd s 0 of (v, s') \<Rightarrow>
        run rd wr (pseq (map (\<lambda>k. perform (hardware_interrupt_table t ! k)) (filter (\<lambda>k. bit v (7 - k)) [0..<8]))) c s')"
proof -
  have e: "[call_if v 7 (perform (hardware_interrupt_table t ! 0)),
         call_if v 6 (perform (hardware_interrupt_table t ! 1)),
         call_if v 5 (perform (hardware_interrupt_table t ! 2)),
         call_if v 4 (perform (hardware_interrupt_table t ! 3)),
         call_if v 3 (perform (hardware_interrupt_table t ! 4)),
         call_if v 2 (perform (hardware_interrupt_table t ! 5)),
         call_if v 1 (perform (hardware_interrupt_table t ! 6)),
         call_if v 0 (perform (hardware_interrupt_table t ! 7))]
      = map (\<lambda>k. call_if v (7 - k) (perform (hardware_interrupt_table t ! k))) [0..<8]" for v
    by (simp add: upt_rec eval_nat_numeral)
  show ?thesis
    unfolding ISR_hardware_service_routine_def e pseq_calls [symmetric] by (simp add: run_simps split: prod.splits)
qed

end
