(* ===== verification/Scheduler.thy ===== *)
theory Scheduler
  imports KList CString Virtual Interrupts "HOL-Library.Monad_Syntax"
begin

text \<open>
  The task scheduler (kernel/scheduler.c) and its lock (kernel/mutex.c). The main interrupt takes the
  lock, moves on to the next process, and either counts down its priority or calls the function
  of the task with interrupts enabled, so that the timer's and the main interrupt can come in while
  the task runs and while the scheduler cleans up after it. The second half of the theory is the state
  machine of these activations: \<open>sched_step\<close> is one interrupt or one part of a handler, and the
  invariant shows that the lock keeps at most one task running.
\<close>

section \<open>The lock and the reference counter\<close>

text \<open>Result 0 is success.\<close>

definition MutexLock :: "u8 \<Rightarrow> u8 \<times> u8" where
  "MutexLock lock = (if lock = 0 then (0, 1) else (1, lock))"

definition MutexUnlock :: "u8 \<Rightarrow> u8" where
  "MutexUnlock lock = 0"

text \<open>
  kernel/kref.c: a count of 16 bits behind a pointer; None is NULL, and for the result of an operation it
  is the dereference of NULL. The new count is returned as 8 bits.
\<close>

definition kRefInit :: "u16 option \<Rightarrow> u16 option" where
  "kRefInit rc = (case rc of None \<Rightarrow> None | Some count \<Rightarrow> Some 1)"

definition kRefInc :: "u16 option \<Rightarrow> u16 option" where
  "kRefInc rc = map_option (\<lambda>count. count + 1) rc"

definition kRefDec :: "u16 option \<Rightarrow> (u8 \<times> u16) option" where
  "kRefDec rc =
     (case rc of
        None \<Rightarrow> None
      | Some count \<Rightarrow> let count = (if count > 0 then count - 1 else count) in Some (ucast count, count))"

definition kRefCheck :: "u16 option \<Rightarrow> u8" where
  "kRefCheck rc = (if rc = Some 0 then 1 else 0)"

text \<open>
  Up to 256 references the returned count tells whether one is left, with 257 it does not: 0 is returned
  while 256 are.
\<close>

lemma kRefDec_count:
  assumes "k < 256"
  shows "\<exists>r. kRefDec (Some (of_nat k + 1)) = Some (r, of_nat k) \<and> (r = 0 \<longleftrightarrow> kRefCheck (Some (of_nat k)) = 1)"
proof -
  have u: "unat (of_nat k + 1 :: u16) = k + 1" "unat (of_nat k :: u16) = k"
    using assms by (simp_all add: unat_of_nat unat_word_ariths del: One_nat_def)
  then have "(0 :: u16) < of_nat k + 1" by (simp add: word_less_nat_alt)
  moreover have "(ucast (of_nat k :: u16) :: u8) = 0 \<longleftrightarrow> (of_nat k :: u16) = 0"
    using assms by (simp add: word_unat_eq_iff unsigned_ucast_eq u(2) take_bit_eq_mod)
  ultimately show ?thesis by (simp add: kRefDec_def kRefCheck_def Let_def)
qed

lemma kRefDec_257: "kRefDec (Some 257) = Some (0, 256) \<and> kRefCheck (Some 256) = 0"
  by (simp add: kRefDec_def kRefCheck_def)


section \<open>Processes\<close>

definition TASK_NAME_LENGTH_MAX :: nat where "TASK_NAME_LENGTH_MAX = 10"
definition TASK_TYPE_UNKNOWN :: u8 where "TASK_TYPE_UNKNOWN = 0"
definition TASK_TYPE_TSR :: u8 where "TASK_TYPE_TSR = 1"
definition TASK_TYPE_VOLATILE :: u8 where "TASK_TYPE_VOLATILE = 2"
definition TASK_PRIVILEGE_KERNEL :: u8 where "TASK_PRIVILEGE_KERNEL = ch CHR ''k''"
definition TASK_PRIVILEGE_SERVICE :: u8 where "TASK_PRIVILEGE_SERVICE = ch CHR ''s''"
definition TASK_PRIVILEGE_USER :: u8 where "TASK_PRIVILEGE_USER = ch CHR ''u''"
definition EVENT_NOMESSAGE :: u8 where "EVENT_NOMESSAGE = 0"
definition EVENT_INITIATE :: u8 where "EVENT_INITIATE = 1"
definition EVENT_SHUTDOWN :: u8 where "EVENT_SHUTDOWN = 2"
definition TASK_FLAG_INITIATE :: u8 where "TASK_FLAG_INITIATE = 0"
definition TASK_FLAG_SHUTDOWN_RQ :: u8 where "TASK_FLAG_SHUTDOWN_RQ = 1"
definition MEMORY_START :: u32 where "MEMORY_START = 0x4000"
definition MEMORY_END :: u32 where "MEMORY_END = 0xFFFF"
definition MEMORY_BLOCK_SIZE :: u32 where "MEMORY_BLOCK_SIZE = 0x0400"

record process =
  process_name :: buffer
  process_type :: u8
  privilege :: u8
  priority :: u8
  counter :: u8
  flags :: u8
  process_heap_begin :: u32
  process_heap_end :: u32
  process_block :: u32
  time_slice :: u16
  process_function :: nat

record sched =
  nodes :: heap
  ProcessNodeTable :: ptr
  processes :: "ptr \<rightharpoonup> process"
  system_timer_ms :: "64 word"
  schedulerIsActive :: u8
  procIndex :: u32
  flagProcActive :: u8
  proc_info :: ptr
  mux :: u8
  procSuperBlock :: u32
  segs :: segments
  interrupt :: interrupt_state

text \<open>\<open>TaskCreate\<close>, \<open>TaskDestroy\<close> and \<open>TaskFind\<close> are comments and a return in the code.\<close>

definition TaskCreate :: "buffer \<Rightarrow> u8 \<Rightarrow> nat \<Rightarrow> u8 \<Rightarrow> u8 \<Rightarrow> u8 \<Rightarrow> sched \<Rightarrow> u32 \<times> sched" where
  "TaskCreate name name_length task_ptr prio priv type s = (1, s)"

definition TaskDestroy :: "u32 \<Rightarrow> sched \<Rightarrow> u8 \<times> sched" where
  "TaskDestroy index s = (1, s)"

definition TaskFind :: "buffer \<Rightarrow> u8 \<Rightarrow> sched \<Rightarrow> u32" where
  "TaskFind name name_length s = 0"

text \<open>None: a null pointer is followed. \<open>ListGetNode\<close> takes an \<open>int\<close>, of 16 bits.\<close>

definition GetProcInfo :: "sched \<Rightarrow> u32 \<Rightarrow> ptr option" where
  "GetProcInfo s index =
     do {
       node \<leftarrow> ListGetNode (nodes s) (ProcessNodeTable s) (ucast index);
       if node = 0 then None else map_option node_data (nodes s node)
     }"

text \<open>The walk of \<open>FindNextAvailableMemoryRange\<close>: \<open>Inr\<close> is the return from inside the loop.\<close>

partial_function (option) range_walk ::
    "heap \<Rightarrow> (ptr \<rightharpoonup> process) \<Rightarrow> ptr \<Rightarrow> u32 \<Rightarrow> (u32 + u32) option" where
  "range_walk h ps temp currentAddress =
     (if temp = 0 then Some (Inl currentAddress)
      else case h temp of
        None \<Rightarrow> None
      | Some n \<Rightarrow> (case ps (node_data n) of
          None \<Rightarrow> None
        | Some p \<Rightarrow>
            if currentAddress < process_heap_begin p then Some (Inr currentAddress)
            else range_walk h ps (next_node n) (process_heap_end p)))"

definition FindNextAvailableMemoryRange :: "sched \<Rightarrow> u32 option" where
  "FindNextAvailableMemoryRange s =
     (case range_walk (nodes s) (processes s) (ProcessNodeTable s) MEMORY_START of
        None \<Rightarrow> None
      | Some (Inr currentAddress) \<Rightarrow> Some currentAddress
      | Some (Inl currentAddress) \<Rightarrow>
          Some (if currentAddress + MEMORY_BLOCK_SIZE \<le> MEMORY_END then currentAddress else 0))"

definition SchedulerStart :: "sched \<Rightarrow> sched" where
  "SchedulerStart s =
     (if schedulerIsActive s = 1 then s
      else s\<lparr>schedulerIsActive := 1,
        interrupt := SetInterruptService 1 SchedulerMain (SetInterruptService 0 SchedulerTimer (interrupt s))\<rparr>)"

definition SchedulerStop :: "sched \<Rightarrow> sched" where
  "SchedulerStop s = (if schedulerIsActive s = 0 then s else s\<lparr>schedulerIsActive := 0\<rparr>)"


section \<open>The main interrupt\<close>

definition set_process :: "ptr \<Rightarrow> process \<Rightarrow> sched \<Rightarrow> sched" where
  "set_process p d s = s\<lparr>processes := (processes s)(p \<mapsto> d)\<rparr>"

text \<open>
  The handler up to the call of the task's function. \<open>Returned\<close>: it is through without a call.
  \<open>Calls event mode s\<close>: the function is called with \<open>event\<close>, and \<open>mode\<close> is the local variable
  \<open>currentMode\<close> that the rest of the handler restores.
\<close>

datatype entered = Returned sched | Calls u8 u8 sched

text \<open>The parts of the handler behind the call.\<close>

definition end_of_task :: "sched \<Rightarrow> sched option" where
  "end_of_task s =
     (case processes s (proc_info s) of
        None \<Rightarrow> None
      | Some d \<Rightarrow>
          if process_type d = TASK_TYPE_VOLATILE
          then let (_, s) = TaskDestroy (procIndex s) s in Some (s\<lparr>procIndex := 0\<rparr>)
          else Some s)"

definition restore_access :: "u8 \<Rightarrow> sched \<Rightarrow> sched" where
  "restore_access currentMode s =
     s\<lparr>procSuperBlock := 0,
       segs := VirtualAccessSetMode currentMode ((segs s)\<lparr>heap_begin := 0x00000000, heap_end := 0xffffffff\<rparr>)\<rparr>"

definition release :: "sched \<Rightarrow> sched" where
  "release s = s\<lparr>mux := MutexUnlock (mux s)\<rparr>"

definition select_process :: "u32 \<Rightarrow> sched \<Rightarrow> sched option" where
  "select_process numberOfTasks s =
     (let s = s\<lparr>procIndex := procIndex s + 1\<rparr>;
          s = (if procIndex s \<ge> numberOfTasks then s\<lparr>procIndex := 0\<rparr> else s)
      in do { p \<leftarrow> GetProcInfo s (procIndex s); Some (s\<lparr>proc_info := p\<rparr>) })"

definition set_access :: "process \<Rightarrow> sched \<Rightarrow> sched" where
  "set_access d s =
     s\<lparr>procSuperBlock := process_block d,
       segs := (VirtualAccessSetMode
         (if privilege d = TASK_PRIVILEGE_KERNEL then VIRTUAL_ACCESS_MODE_KERNEL else VIRTUAL_ACCESS_MODE_USER) (segs s))
         \<lparr>heap_begin := process_heap_begin d, heap_end := process_heap_end d\<rparr>\<rparr>"

definition ISR_SCHEDULER_MAIN :: "sched \<Rightarrow> entered option" where
  "ISR_SCHEDULER_MAIN s =
     do {
       numberOfTasks \<leftarrow> ListGetSize (nodes s) (ProcessNodeTable s);
       if numberOfTasks = 0 then Some (Returned s)
       else
         let (r, m) = MutexLock (mux s); s = s\<lparr>mux := m\<rparr> in
         if r = 1 then Some (Returned s)
         else
           do {
             s \<leftarrow> select_process numberOfTasks s;
             d \<leftarrow> processes s (proc_info s);
             (let currentMode = VirtualAccessGetMode (segs s);
                  s = set_access d s
              in
                if Scheduler.counter d > priority d then
                  (let d = d\<lparr>counter := 0\<rparr>;
                       starts = (bit_get (flags d) TASK_FLAG_INITIATE = 0);
                       d = (if starts then d\<lparr>flags := bit_set (flags d) TASK_FLAG_INITIATE\<rparr> else d);
                       event = (if starts then EVENT_INITIATE else EVENT_NOMESSAGE);
                       s = set_process (proc_info s) (d\<lparr>time_slice := 0\<rparr>) s;
                       s = s\<lparr>interrupt := EnableGlobalInterrupts (interrupt s), flagProcActive := 1\<rparr>
                   in Some (Calls event currentMode s))
                else
                  do {
                    s \<leftarrow> end_of_task (set_process (proc_info s) (d\<lparr>counter := Scheduler.counter d + 1\<rparr>) s);
                    Some (Returned (release (restore_access currentMode s)))
                  })
           }
     }"


section \<open>The timer interrupt\<close>

text \<open>None: the kernel halts, or a null pointer is followed.\<close>

definition ISR_SCHEDULER_TIMER :: "sched \<Rightarrow> sched option" where
  "ISR_SCHEDULER_TIMER s =
     (let s = s\<lparr>system_timer_ms := system_timer_ms s + 1\<rparr> in
      if flagProcActive s = 0 then Some s
      else
        do {
          d \<leftarrow> processes s (proc_info s);
          let d = d\<lparr>time_slice := time_slice d + 1\<rparr>;
          let s = set_process (proc_info s) d s;
          if time_slice d > 100
          then Some (set_process (proc_info s) (d\<lparr>flags := bit_set (flags d) TASK_FLAG_SHUTDOWN_RQ\<rparr>) s)
          else if time_slice d > 1000
          then let (_, s) = TaskDestroy (procIndex s) s in Some (s\<lparr>procIndex := 0\<rparr>)
          else if time_slice d > 3000 then None
          else Some s
        })"


section \<open>The activations\<close>

text \<open>
  Interrupted handlers lie on the stack. \<open>Task m\<close>: a task's function runs; \<open>Ending m\<close>: it returned;
  \<open>Restored\<close>: the access ranges are the old ones again; \<open>Unlocked\<close>: only the return from the
  interrupt is left. Interrupts are enabled in all four, so that a handler can come in at each.
\<close>

datatype frame = Task u8 | Ending u8 | Restored | Unlocked

definition set_interrupts :: "bool \<Rightarrow> sched \<Rightarrow> sched" where
  "set_interrupts b s = s\<lparr>interrupt := (interrupt s)\<lparr>global_interrupts := b\<rparr>\<rparr>"

definition interruptible :: "sched \<Rightarrow> bool" where
  "interruptible s \<longleftrightarrow> global_interrupts (interrupt s)"

inductive sched_step :: "sched \<times> frame list \<Rightarrow> sched \<times> frame list \<Rightarrow> bool" where
  timer: "interruptible s \<Longrightarrow> ISR_SCHEDULER_TIMER s = Some s' \<Longrightarrow> sched_step (s, fs) (s', fs)"
| main_returns: "interruptible s \<Longrightarrow> ISR_SCHEDULER_MAIN s = Some (Returned s') \<Longrightarrow> sched_step (s, fs) (s', fs)"
| main_calls: "interruptible s \<Longrightarrow> ISR_SCHEDULER_MAIN s = Some (Calls event m s') \<Longrightarrow>
    sched_step (s, fs) (s', Task m # fs)"
| task_masks: "sched_step (s, Task m # fs) (set_interrupts b s, Task m # fs)"
| task_returns: "sched_step (s, Task m # fs) (s\<lparr>flagProcActive := 0\<rparr>, Ending m # fs)"
| task_ends: "end_of_task s = Some s' \<Longrightarrow> sched_step (s, Ending m # fs) (restore_access m s', Restored # fs)"
| unlocks: "sched_step (s, Restored # fs) (release s, Unlocked # fs)"
| reti: "sched_step (s, Unlocked # fs) (set_interrupts True s, fs)"

inductive_cases sched_stepE: "sched_step (s, fs) (s', fs')"

definition table_ok :: "sched \<Rightarrow> bool" where
  "table_ok s \<longleftrightarrow> (\<exists>ds. holds (nodes s) (ProcessNodeTable s) ds \<and> length ds < 2 ^ 15 \<and> set ds \<subseteq> dom (processes s))"

text \<open>The state in which \<open>main\<close> enables the interrupts.\<close>

definition sched_ready :: "sched \<Rightarrow> bool" where
  "sched_ready s \<longleftrightarrow> table_ok s \<and> mux s = 0 \<and> flagProcActive s = 0 \<and> procSuperBlock s = 0 \<and> segs s = segments_initial"

definition unlocked_all :: "frame list \<Rightarrow> bool" where
  "unlocked_all fs \<longleftrightarrow> (\<forall>f \<in> set fs. f = Unlocked)"

lemma unlocked_all_simps [simp]:
  "unlocked_all []" "unlocked_all (f # fs) \<longleftrightarrow> f = Unlocked \<and> unlocked_all fs"
  by (simp_all add: unlocked_all_def)

definition idle :: "sched \<Rightarrow> bool" where
  "idle s \<longleftrightarrow> flagProcActive s = 0 \<and> procSuperBlock s = 0 \<and> segs s = segments_initial"

fun frames_ok :: "sched \<Rightarrow> frame list \<Rightarrow> bool" where
  "frames_ok s (Task m # fs) \<longleftrightarrow> mux s = 1 \<and> flagProcActive s = 1 \<and> proc_info s \<in> dom (processes s)
     \<and> m = VIRTUAL_ACCESS_MODE_KERNEL \<and> unlocked_all fs"
| "frames_ok s (Ending m # fs) \<longleftrightarrow> mux s = 1 \<and> flagProcActive s = 0 \<and> proc_info s \<in> dom (processes s)
     \<and> m = VIRTUAL_ACCESS_MODE_KERNEL \<and> unlocked_all fs"
| "frames_ok s (Restored # fs) \<longleftrightarrow> mux s = 1 \<and> idle s \<and> unlocked_all fs"
| "frames_ok s fs \<longleftrightarrow> mux s = 0 \<and> idle s \<and> unlocked_all fs"

definition sched_ok :: "sched \<Rightarrow> frame list \<Rightarrow> bool" where
  "sched_ok s fs \<longleftrightarrow> table_ok s \<and> frames_ok s fs"


subsection \<open>The handlers and the invariant\<close>

lemma table_ok_update [simp]:
  "table_ok (s\<lparr>mux := m\<rparr>) = table_ok s" "table_ok (s\<lparr>procIndex := i\<rparr>) = table_ok s"
  "table_ok (s\<lparr>flagProcActive := a\<rparr>) = table_ok s" "table_ok (s\<lparr>proc_info := p\<rparr>) = table_ok s"
  "table_ok (s\<lparr>system_timer_ms := t\<rparr>) = table_ok s" "table_ok (s\<lparr>interrupt := j\<rparr>) = table_ok s"
  "table_ok (set_interrupts b s) = table_ok s" "table_ok (release s) = table_ok s"
  "table_ok (restore_access m s) = table_ok s" "table_ok (set_access d s) = table_ok s"
  by (simp_all add: table_ok_def set_interrupts_def release_def restore_access_def set_access_def)

lemma table_ok_set_process [simp]: "table_ok s \<Longrightarrow> table_ok (set_process p d s)"
  by (auto simp: table_ok_def set_process_def)

lemma GetProcInfo_valid:
  assumes "holds (nodes s) (ProcessNodeTable s) ds" and "length ds < 2 ^ 15" and "unat i < length ds"
  shows "GetProcInfo s i = Some (ds ! unat i)"
proof -
  have c: "(of_nat (unat i) :: 16 word) = ucast i" by (simp add: word_unat_eq_iff unsigned_ucast_eq unsigned_of_nat)
  have "length ds \<le> 2 ^ 16" "unat i < 2 ^ 16" using assms(2,3) by simp_all
  from ListGetNode_holds [OF assms(1) this] obtain p where
    "ListGetNode (nodes s) (ProcessNodeTable s) (ucast i) = Some p" and
    "if unat i < length ds then p \<noteq> 0 \<and> (\<exists>n. nodes s p = Some n \<and> node_data n = ds ! unat i) else p = 0"
    unfolding c by blast
  then show ?thesis using assms(3) by (auto simp: GetProcInfo_def)
qed

text \<open>The next process: one further in the table, or the first.\<close>

definition next_index :: "nat \<Rightarrow> u32 \<Rightarrow> u32" where
  "next_index n i = (if i + 1 \<ge> of_nat n then 0 else i + 1)"

lemma next_index_less: "0 < n \<Longrightarrow> n < 2 ^ 32 \<Longrightarrow> unat (next_index n i) < n"
  by (auto simp: next_index_def word_le_nat_alt not_le unat_of_nat_u32)

lemma select_process_valid:
  assumes "holds (nodes s) (ProcessNodeTable s) ds" and "length ds < 2 ^ 15" and "ds \<noteq> []"
  shows "select_process (of_nat (length ds)) s
    = Some (s\<lparr>procIndex := next_index (length ds) (procIndex s), proc_info := ds ! unat (next_index (length ds) (procIndex s))\<rparr>)"
proof -
  let ?i = "next_index (length ds) (procIndex s)"
  have "unat ?i < length ds" using assms(2,3) by (simp add: next_index_less)
  then have "GetProcInfo (s\<lparr>procIndex := ?i\<rparr>) ?i = Some (ds ! unat ?i)"
    using GetProcInfo_valid [of "s\<lparr>procIndex := ?i\<rparr>" ds ?i] assms(1,2) by simp
  then show ?thesis
    by (auto simp: select_process_def next_index_def Let_def)
qed

lemma end_of_task_cases:
  "end_of_task s = (if proc_info s \<in> dom (processes s)
     then Some (if process_type (the (processes s (proc_info s))) = TASK_TYPE_VOLATILE then s\<lparr>procIndex := 0\<rparr> else s)
     else None)"
  by (auto simp: end_of_task_def TaskDestroy_def split: option.splits)

lemma frames_ok_cong:
  assumes "mux s' = mux s" and "flagProcActive s' = flagProcActive s" and "proc_info s' = proc_info s"
    and "dom (processes s) \<subseteq> dom (processes s')" and "procSuperBlock s' = procSuperBlock s" and "segs s' = segs s"
    and "frames_ok s fs"
  shows "frames_ok s' fs"
proof -
  have "idle s' = idle s" using assms by (simp add: idle_def)
  then show ?thesis using assms by (cases "(s, fs)" rule: frames_ok.cases) auto
qed

lemma timer_ok:
  assumes "sched_ok s fs"
  shows "\<exists>s'. ISR_SCHEDULER_TIMER s = Some s' \<and> sched_ok s' fs"
proof (cases "flagProcActive s = 0")
  case True
  then show ?thesis
    using assms frames_ok_cong [of "s\<lparr>system_timer_ms := system_timer_ms s + 1\<rparr>" s fs]
    by (simp add: ISR_SCHEDULER_TIMER_def sched_ok_def)
next
  case False
  then have "proc_info s \<in> dom (processes s)"
    using assms unfolding sched_ok_def by (cases "(s, fs)" rule: frames_ok.cases) (auto simp: idle_def)
  then obtain d where d: "processes s (proc_info s) = Some d" by auto
  have "\<exists>d'. ISR_SCHEDULER_TIMER s = Some (set_process (proc_info s) d' (s\<lparr>system_timer_ms := system_timer_ms s + 1\<rparr>))"
    using False d by (auto simp: ISR_SCHEDULER_TIMER_def Let_def set_process_def word_less_nat_alt TaskDestroy_def)
  then obtain d' where e: "ISR_SCHEDULER_TIMER s = Some (set_process (proc_info s) d' (s\<lparr>system_timer_ms := system_timer_ms s + 1\<rparr>))"
    by blast
  have "frames_ok (set_process (proc_info s) d' (s\<lparr>system_timer_ms := system_timer_ms s + 1\<rparr>)) fs"
    by (rule frames_ok_cong [of _ s]) (use assms in \<open>auto simp: set_process_def sched_ok_def\<close>)
  then show ?thesis using e assms by (simp add: sched_ok_def)
qed

text \<open>The main interrupt with the lock free: the next process is called, or its counter goes up.\<close>

lemma main_free:
  assumes t: "holds (nodes s) (ProcessNodeTable s) ds" "length ds < 2 ^ 15" "set ds \<subseteq> dom (processes s)" "ds \<noteq> []"
    and "mux s = 0" and "idle s"
  shows "\<exists>i d. i = next_index (length ds) (procIndex s) \<and> processes s (ds ! unat i) = Some d
    \<and> (if Scheduler.counter d > priority d
       then \<exists>event s'. ISR_SCHEDULER_MAIN s = Some (Calls event VIRTUAL_ACCESS_MODE_KERNEL s')
          \<and> mux s' = 1 \<and> flagProcActive s' = 1 \<and> procIndex s' = i \<and> proc_info s' = ds ! unat i
          \<and> proc_info s' \<in> dom (processes s') \<and> (table_ok s \<longrightarrow> table_ok s')
       else \<exists>s'. ISR_SCHEDULER_MAIN s = Some (Returned s') \<and> mux s' = 0 \<and> idle s'
          \<and> procIndex s' = (if process_type d = TASK_TYPE_VOLATILE then 0 else i)
          \<and> processes s' = (processes s)(ds ! unat i \<mapsto> d\<lparr>counter := Scheduler.counter d + 1\<rparr>)
          \<and> (table_ok s \<longrightarrow> table_ok s'))"
proof -
  let ?s1 = "s\<lparr>mux := 1\<rparr>"
  define i where "i = next_index (length ds) (procIndex s)"
  have i: "unat i < length ds" using t(2,4) by (simp add: i_def next_index_less)
  have sel: "select_process (of_nat (length ds)) ?s1 = Some (?s1\<lparr>procIndex := i, proc_info := ds ! unat i\<rparr>)"
    using select_process_valid [of ?s1 ds] t by (simp add: i_def)
  obtain d where d: "processes s (ds ! unat i) = Some d" using t(3) i nth_mem by blast
  have n: "ListGetSize (nodes s) (ProcessNodeTable s) = Some (of_nat (length ds))"
    using ListGetSize_holds t(1,2) by blast
  have n0: "(of_nat (length ds) :: u32) \<noteq> 0"
    using t(2,4) by (simp add: u32_eq_iff_unat unat_of_nat_u32)
  let ?s2 = "?s1\<lparr>procIndex := i, proc_info := ds ! unat i\<rparr>"
  have mode: "VirtualAccessGetMode (segs s) = VIRTUAL_ACCESS_MODE_KERNEL"
    using \<open>idle s\<close> by (simp add: idle_def segments_initial_def VirtualAccessGetMode_def)
  have restored: "restore_access VIRTUAL_ACCESS_MODE_KERNEL u = u\<lparr>procSuperBlock := 0, segs := segments_initial\<rparr>" for u
    by (simp add: restore_access_def VirtualAccessSetMode_def segments_initial_def virtual_consts)
  show ?thesis
  proof (intro exI conjI)
    show "if Scheduler.counter d > priority d
       then \<exists>event s'. ISR_SCHEDULER_MAIN s = Some (Calls event VIRTUAL_ACCESS_MODE_KERNEL s')
          \<and> mux s' = 1 \<and> flagProcActive s' = 1 \<and> procIndex s' = i \<and> proc_info s' = ds ! unat i
          \<and> proc_info s' \<in> dom (processes s') \<and> (table_ok s \<longrightarrow> table_ok s')
       else \<exists>s'. ISR_SCHEDULER_MAIN s = Some (Returned s') \<and> mux s' = 0 \<and> idle s'
          \<and> procIndex s' = (if process_type d = TASK_TYPE_VOLATILE then 0 else i)
          \<and> processes s' = (processes s)(ds ! unat i \<mapsto> d\<lparr>counter := Scheduler.counter d + 1\<rparr>)
          \<and> (table_ok s \<longrightarrow> table_ok s')"
    proof (cases "Scheduler.counter d > priority d")
      case True
      then show ?thesis
        using n n0 sel d mode \<open>mux s = 0\<close>
        by (simp add: ISR_SCHEDULER_MAIN_def MutexLock_def Let_def set_access_def set_process_def)
           (auto simp: table_ok_def)
    next
      case False
      then show ?thesis
        using n n0 sel d mode \<open>mux s = 0\<close> \<open>idle s\<close>
        by (simp add: ISR_SCHEDULER_MAIN_def MutexLock_def Let_def set_access_def set_process_def
            end_of_task_cases restored release_def MutexUnlock_def idle_def)
           (auto simp: table_ok_def)
    qed
  qed (use i_def d in auto)
qed

lemma main_locked:
  assumes "table_ok s" and "mux s = 1"
  shows "ISR_SCHEDULER_MAIN s = Some (Returned s)"
proof -
  have "s\<lparr>mux := 1\<rparr> = s" using assms(2) by (metis sched.surjective sched.update_convs(9))
  then show ?thesis
    using assms ListGetSize_holds by (fastforce simp: table_ok_def ISR_SCHEDULER_MAIN_def MutexLock_def)
qed

lemma main_empty:
  assumes "holds (nodes s) (ProcessNodeTable s) []"
  shows "ISR_SCHEDULER_MAIN s = Some (Returned s)"
  using ListGetSize_holds [OF assms] by (simp add: ISR_SCHEDULER_MAIN_def)

lemma frames_unlocked: "unlocked_all fs \<Longrightarrow> frames_ok s fs \<longleftrightarrow> mux s = 0 \<and> idle s"
  by (cases "(s, fs)" rule: frames_ok.cases) (auto simp: unlocked_all_def)

lemma frames_lock:
  assumes "frames_ok s fs"
  obtains "mux s = 1" | "mux s = 0" and "idle s" and "unlocked_all fs"
  using assms by (cases "(s, fs)" rule: frames_ok.cases) (auto simp: unlocked_all_def)

lemma main_ok:
  assumes "sched_ok s fs"
  shows "(\<exists>s'. ISR_SCHEDULER_MAIN s = Some (Returned s') \<and> sched_ok s' fs)
    \<or> (\<exists>event m s'. ISR_SCHEDULER_MAIN s = Some (Calls event m s') \<and> sched_ok s' (Task m # fs))"
proof -
  have t: "table_ok s" and f: "frames_ok s fs" using assms by (simp_all add: sched_ok_def)
  obtain ds where ds: "holds (nodes s) (ProcessNodeTable s) ds" "length ds < 2 ^ 15" "set ds \<subseteq> dom (processes s)"
    using t by (auto simp: table_ok_def)
  from f show ?thesis
  proof (cases rule: frames_lock)
    case 1
    then show ?thesis using main_locked t assms by blast
  next
    case 2
    show ?thesis
    proof (cases "ds = []")
      case True
      then show ?thesis using main_empty ds(1) assms by blast
    next
      case False
      from main_free [OF ds False 2(1,2)] obtain i d where d:
        "if Scheduler.counter d > priority d
         then \<exists>event s'. ISR_SCHEDULER_MAIN s = Some (Calls event VIRTUAL_ACCESS_MODE_KERNEL s')
            \<and> mux s' = 1 \<and> flagProcActive s' = 1 \<and> procIndex s' = i \<and> proc_info s' = ds ! unat i
            \<and> proc_info s' \<in> dom (processes s') \<and> (table_ok s \<longrightarrow> table_ok s')
         else \<exists>s'. ISR_SCHEDULER_MAIN s = Some (Returned s') \<and> mux s' = 0 \<and> idle s'
            \<and> procIndex s' = (if process_type d = TASK_TYPE_VOLATILE then 0 else i)
            \<and> processes s' = (processes s)(ds ! unat i \<mapsto> d\<lparr>counter := Scheduler.counter d + 1\<rparr>)
            \<and> (table_ok s \<longrightarrow> table_ok s')"
        by blast
      show ?thesis
      proof (cases "Scheduler.counter d > priority d")
        case True
        then show ?thesis using d t 2(3) by (auto simp: sched_ok_def)
      next
        case False
        then show ?thesis using d t frames_unlocked [OF 2(3)] by (auto simp: sched_ok_def)
      qed
    qed
  qed
qed

lemma restore_idle:
  "flagProcActive s = 0 \<Longrightarrow> idle (restore_access VIRTUAL_ACCESS_MODE_KERNEL s)"
  by (simp add: idle_def restore_access_def VirtualAccessSetMode_def segments_initial_def virtual_consts)

lemma sched_step_ok:
  assumes "sched_step c c'" and "sched_ok (fst c) (snd c)"
  shows "sched_ok (fst c') (snd c')"
  using assms
proof (induction rule: sched_step.induct)
  case (timer s s' fs)
  then show ?case using timer_ok [of s fs] by auto
next
  case (main_returns s s' fs)
  then show ?case using main_ok [of s fs] by auto
next
  case (main_calls s event m s' fs)
  then show ?case using main_ok [of s fs] by auto
next
  case (task_masks s m fs b)
  then show ?case by (simp add: sched_ok_def) (simp add: set_interrupts_def)
next
  case (task_returns s m fs)
  then show ?case by (simp add: sched_ok_def)
next
  case (task_ends s s' m fs)
  then have "table_ok s'" "flagProcActive s' = 0" "mux s' = 1"
    by (auto simp: end_of_task_cases sched_ok_def split: if_splits)
  then show ?case
    using task_ends.prems restore_idle [of s'] by (simp add: sched_ok_def) (simp add: restore_access_def)
next
  case (unlocks s fs)
  then show ?case by (simp add: sched_ok_def) (simp add: release_def MutexUnlock_def idle_def unlocked_all_def)
next
  case (reti s fs)
  then have u: "unlocked_all fs" "mux s = 0" "idle s" "table_ok s" by (auto simp: sched_ok_def)
  then have "frames_ok (set_interrupts True s) fs"
    unfolding frames_unlocked [OF u(1)] by (simp add: set_interrupts_def idle_def)
  then show ?case using u(4) by (simp add: sched_ok_def)
qed

lemma sched_steps_ok:
  assumes "sched_step\<^sup>*\<^sup>* c c'" and "sched_ok (fst c) (snd c)"
  shows "sched_ok (fst c') (snd c')"
  using assms by (induction rule: rtranclp_induct) (auto dest: sched_step_ok)

lemma reachable_ok:
  assumes "sched_step\<^sup>*\<^sup>* (s0, []) (s, fs)" and "sched_ready s0"
  shows "sched_ok s fs"
proof -
  have "sched_ok s0 []" using assms(2) by (simp add: sched_ready_def sched_ok_def idle_def)
  then show ?thesis using sched_steps_ok [OF assms(1)] by simp
qed

definition is_task :: "frame \<Rightarrow> bool" where
  "is_task f \<longleftrightarrow> (\<exists>m. f = Task m)"

lemma filter_unlocked: "unlocked_all fs \<Longrightarrow> filter is_task fs = [] \<and> filter (\<lambda>f. f \<noteq> Unlocked) fs = []"
  by (auto simp: unlocked_all_def is_task_def filter_empty_conv)

text \<open>
  C9. One task at a time. Whatever the order in which the timer's and the main interrupt come in, while
  a task runs or while the scheduler cleans up after it: at most one activation is before its
  unlock and at most one task function runs; the lock is held and \<open>flagProcActive\<close> is set exactly then;
  and while none is, the segments and the super block are those of the kernel.
\<close>

theorem one_task_at_a_time:
  assumes "sched_ready s0" and "sched_step\<^sup>*\<^sup>* (s0, []) (s, fs)"
  shows "length (filter (\<lambda>f. f \<noteq> Unlocked) fs) = unat (mux s) \<and> unat (mux s) \<le> 1
    \<and> length (filter is_task fs) = unat (flagProcActive s)
    \<and> (mux s = 0 \<longrightarrow> segs s = segments_initial \<and> procSuperBlock s = 0)"
proof -
  have "frames_ok s fs" using reachable_ok [OF assms(2,1)] by (simp add: sched_ok_def)
  then show ?thesis
    by (cases "(s, fs)" rule: frames_ok.cases) (auto simp: filter_unlocked is_task_def idle_def)
qed

text \<open>One process, due to run.\<close>

definition demo_process :: process where
  "demo_process =
     \<lparr>process_name = (\<lambda>_. 0), process_type = TASK_TYPE_TSR, privilege = TASK_PRIVILEGE_USER, priority = 0,
      counter = 1, flags = 0, process_heap_begin = 0x4000, process_heap_end = 0x4400, process_block = 0,
      time_slice = 0, process_function = 0\<rparr>"

definition demo_sched :: sched where
  "demo_sched =
     \<lparr>nodes = [1 \<mapsto> \<lparr>next_node = 0, node_data = 7\<rparr>], ProcessNodeTable = 1, processes = [7 \<mapsto> demo_process],
      system_timer_ms = 0, schedulerIsActive = 1, procIndex = 0, flagProcActive = 0, proc_info = 0, mux = 0,
      procSuperBlock = 0, segs = segments_initial,
      interrupt = EnableGlobalInterrupts interrupts_initial\<rparr>"

lemma demo_sched_table: "holds (nodes demo_sched) (ProcessNodeTable demo_sched) [7]"
  unfolding holds_def by (intro exI [of _ "[1]"]) (simp add: demo_sched_def data_at_def)

lemma demo_sched_ready: "sched_ready demo_sched"
proof -
  have "table_ok demo_sched"
    using demo_sched_table unfolding table_ok_def by (intro exI [of _ "[7]"]) (simp add: demo_sched_def)
  then show ?thesis by (simp add: sched_ready_def demo_sched_def)
qed

lemma demo_task_starts: "\<exists>s. sched_step\<^sup>*\<^sup>* (demo_sched, []) (s, [Task VIRTUAL_ACCESS_MODE_KERNEL])"
proof -
  have "set [7] \<subseteq> dom (processes demo_sched)" "mux demo_sched = 0" "idle demo_sched"
    by (simp_all add: demo_sched_def idle_def)
  moreover have "processes demo_sched 7 = Some demo_process" by (simp add: demo_sched_def)
  moreover have "next_index 1 (procIndex demo_sched) = 0" by (simp add: next_index_def demo_sched_def)
  ultimately obtain event s where "ISR_SCHEDULER_MAIN demo_sched = Some (Calls event VIRTUAL_ACCESS_MODE_KERNEL s)"
    using main_free [OF demo_sched_table] by (auto simp: demo_process_def)
  moreover have "interruptible demo_sched"
    by (simp add: interruptible_def demo_sched_def EnableGlobalInterrupts_def)
  ultimately show ?thesis using sched_step.main_calls by blast
qed

theorem one_task_at_a_time_witness:
  "\<exists>s. sched_step\<^sup>*\<^sup>* (demo_sched, []) (s, [Task VIRTUAL_ACCESS_MODE_KERNEL]) \<and> mux s = 1 \<and> flagProcActive s = 1"
proof -
  obtain s where s: "sched_step\<^sup>*\<^sup>* (demo_sched, []) (s, [Task VIRTUAL_ACCESS_MODE_KERNEL])"
    using demo_task_starts by blast
  have "unat (mux s) = 1" "unat (flagProcActive s) = 1"
    using one_task_at_a_time [OF demo_sched_ready s] by (simp_all add: is_task_def)
  then show ?thesis using s by (auto simp: word_unat_eq_iff)
qed



end
