(* ===== verification/Boot.thy ===== *)
theory Boot
  imports KernelBase FsDevice Shell Screen
begin

text \<open>
  Starting the kernel: \<open>kInit\<close> (kernel/kernel.c) prints the version, sets the prompt, formats the
  external memory and creates the first directories and files; the commands \<open>ls\<close> and \<open>cd\<close>
  (kernel/command), with the listing of kernel/fs/basefs/fsVirtual.c, look at what is there. The code
  between comment signs in \<open>kInit\<close> and \<open>functionCD\<close> is not modelled.

  A call of the file system is a bus program; \<open>pio\<close> makes it a statement, \<open>pfiles\<close> one that uses the
  table of open files. \<open>fuel\<close> bounds the walks over the extents of a directory, and \<open>stack\<close> is the
  contents of the buffers on the stack that the code does not initialise.
\<close>

section \<open>Calls\<close>

text \<open>The variables of the console, and the table of open files.\<close>

record kernel = console +
  kernel_files :: ftable

text \<open>Before anything is called, no file is open.\<close>

definition kernel_initial :: "nat \<Rightarrow> kernel" where
  "kernel_initial limit = console.extend (console_initial limit) (kernel.fields empty_table)"

definition pio :: "'a io \<Rightarrow> ('s, 'a) prog" where
  "pio p = (\<lambda>s. bindio p (\<lambda>x. Ret (Some (x, s))))"

definition pwalk :: "'a option io \<Rightarrow> ('s, 'a) prog" where
  "pwalk p = (\<lambda>s. bindio p (\<lambda>r. Ret (map_option (\<lambda>x. (x, s)) r)))"

definition pfiles :: "(ftable \<Rightarrow> ('a \<times> ftable) option io) \<Rightarrow> (kernel, 'a) prog" where
  "pfiles f = (\<lambda>s. bindio (f (kernel_files s)) (\<lambda>r.
     Ret (map_option (\<lambda>(x, ft). (x, s\<lparr>kernel_files := ft\<rparr>)) r)))"


section \<open>Initialisation\<close>

definition add_directory :: "nat \<Rightarrow> buffer \<Rightarrow> partition \<Rightarrow> handle \<Rightarrow> u8 list \<Rightarrow> ftable \<Rightarrow> (u8 \<times> ftable) option io" where
  "add_directory fuel stack part rootDirectory filename ft =
     bindio (fsDirectoryCreate part filename) (\<lambda>directoryHandle.
       fsDirectoryAddFile fuel ft stack part rootDirectory directoryHandle)"

definition add_file :: "nat \<Rightarrow> buffer \<Rightarrow> partition \<Rightarrow> handle \<Rightarrow> u8 list \<Rightarrow> u32 \<Rightarrow> ftable \<Rightarrow> (u8 \<times> ftable) option io" where
  "add_file fuel stack part rootDirectory filename sz ft =
     bindio (fsFileCreate part filename sz) (\<lambda>fileHandle.
       fsDirectoryAddFile fuel ft stack part rootDirectory fileHandle)"

text \<open>The part of \<open>kInit\<close> that works on the memory.\<close>

definition init_storage :: "nat \<Rightarrow> buffer \<Rightarrow> (kernel, unit) prog" where
  "init_storage fuel stack =
     pbind (pio (fsDeviceOpen 0x00000000)) (\<lambda>part.
     pbind (pio (fsDeviceFormat part 0 32768 32)) (\<lambda>part.
     pbind (pio (fsDeviceGetRootDirectory part)) (\<lambda>rootDirectory.
     pseq
      [pdo (pfiles (add_directory fuel stack part rootDirectory (str ''bin''))),
       pdo (pfiles (add_directory fuel stack part rootDirectory (str ''sys''))),
       pdo (pfiles (add_file fuel stack part rootDirectory (str ''file'') 128)),
       pdo (pfiles (add_file fuel stack part rootDirectory (str ''test'') 40))])))"

definition kInit :: "nat \<Rightarrow> buffer \<Rightarrow> (kernel, unit) prog" where
  "kInit fuel stack =
     pseq
      [kPrintVersion,
       ConsoleSetPrompt (literal ''x>'') 3,
       init_storage fuel stack]"


section \<open>Commands\<close>

text \<open>One line of the listing. The local arrays hold blanks, and NUL behind them.\<close>

definition list_entry :: "nat \<Rightarrow> buffer \<Rightarrow> partition \<Rightarrow> handle \<Rightarrow> u32 \<Rightarrow> (kernel, unit) prog" where
  "list_entry fuel stack part handle i =
     pbind (pfiles (\<lambda>ft. fsDirectoryFindByIndex fuel ft stack part handle i)) (\<lambda>entryHandle.
     pbind (pio (fsFileGetAttributes part entryHandle)) (\<lambda>fileAttr.
     let isDirectory = fileAttr ! 3 = ch CHR ''d'' in
     pbind (pseq [print (\<lambda>k. if k < 4 then fileAttr ! k else 0) 4, printSpace 1]) (\<lambda>_.
     pbind (pio (fsFileGetName part entryHandle (replicate 10 (ch CHR '' '')))) (\<lambda>filename.
     pseq
      [print (\<lambda>k. if k < 10 then filename ! k else 0) 11,
       printSpace 1,
       (if isDirectory then print (literal ''<dir>'') 6
        else pbind (pio (fsFileGetSize part entryHandle)) (\<lambda>fileSize. printInt fileSize)),
       printLn]))))"

definition vfsList :: "nat \<Rightarrow> buffer \<Rightarrow> partition \<Rightarrow> handle \<Rightarrow> (kernel, u8) prog" where
  "vfsList fuel stack part handle =
     pbind (pwalk (fsDirectoryGetTotalSize fuel part handle)) (\<lambda>directoryRefTotal.
       if directoryRefTotal = 0 then preturn 0
       else pbind (pfor [0..<unat directoryRefTotal] (\<lambda>i. list_entry fuel stack part handle (of_nat i)))
              (\<lambda>_. preturn 0))"

definition functionLS :: "nat \<Rightarrow> buffer \<Rightarrow> (kernel, unit) prog" where
  "functionLS fuel stack =
     pbind (pio (fsDeviceOpen 0x00000000)) (\<lambda>part.
     pbind (pio (fsDeviceGetRootDirectory part)) (\<lambda>rootDirectory.
       pdo (vfsList fuel stack part rootDirectory)))"

definition functionCD :: "nat \<Rightarrow> buffer \<Rightarrow> u8 list \<Rightarrow> (kernel, unit) prog" where
  "functionCD fuel stack param =
     pbind (pio (fsDeviceOpen 0x00000000)) (\<lambda>part.
     pbind (pio (fsDeviceGetRootDirectory part)) (\<lambda>rootDirectory.
     pbind (pfiles (\<lambda>ft. fsDirectoryFindByName fuel ft stack part rootDirectory param)) (\<lambda>found.
       if found = 0
       then pseq [print (literal ''Directory not found'') 20, printLn]
       else pskip)))"

definition registerCommandLS :: "nat \<Rightarrow> 'x console_scheme \<Rightarrow> 'x console_scheme" where
  "registerCommandLS function c = snd (ConsoleRegisterCommand (literal ''ls'') 3 function c)"

definition registerCommandCD :: "nat \<Rightarrow> 'x console_scheme \<Rightarrow> 'x console_scheme" where
  "registerCommandCD function c = snd (ConsoleRegisterCommand (literal ''cd'') 3 function c)"


section \<open>The volume that kInit leaves\<close>

lemma run_pio [run_simps]: "run rd wr (pio p) c s = (case run_io rd wr p s of (x, s') \<Rightarrow> (Some (x, c), s'))"
  by (simp add: run_def pio_def run_io_bind)

lemma run_pfiles [run_simps]:
  "run rd wr (pfiles f) c s = (case run_io rd wr (f (kernel_files c)) s of
     (None, s') \<Rightarrow> (None, s') | (Some (x, ft), s') \<Rightarrow> (Some (x, c\<lparr>kernel_files := ft\<rparr>), s'))"
  by (simp add: run_def pfiles_def run_io_bind split: prod.splits option.splits)

text \<open>The root directory of a volume lists files with these names, in this order.\<close>

definition lists :: "partition \<Rightarrow> nat \<Rightarrow> extents \<Rightarrow> (nat \<times> string) list \<Rightarrow> mem \<Rightarrow> bool" where
  "lists part M A fs m \<longleftrightarrow> volume part M A m \<and> directory part A m 1 \<and> next_of part m 1 = 0
     \<and> entries part m 1 = map (\<lambda>(k, _). of_nat k * sector_size part) fs
     \<and> (\<forall>(k, t) \<in> set fs. A k \<noteq> None \<and> name_of part m (of_nat k * sector_size part) = padded_name (str t))"

lemma padded_twice: "padded_name (padded_name name) = padded_name name"
proof -
  define w where "w = takeWhile (\<lambda>b. b \<noteq> 0) (take 10 name)"
  have w: "padded_name name = w @ replicate (10 - length w) (ch CHR '' '')"
    by (simp add: padded_name_def Let_def w_def)
  have "0 \<notin> set (padded_name name)"
    unfolding w w_def by (auto dest: set_takeWhileD simp: ch_def)
  then have tw: "takeWhile (\<lambda>b. b \<noteq> 0) (padded_name name) = padded_name name"
    by (auto simp: takeWhile_eq_all_conv)
  have len: "length (padded_name name) = 10"
    by (simp add: padded_name_def Let_def length_takeWhile_le [THEN le_trans])
  show ?thesis
    by (subst padded_name_def [of "padded_name name"]) (simp only: Let_def take_all_iff [THEN iffD2, OF eq_imp_le [OF len]] tw len, simp)
qed

lemma lists_step:
  assumes g: "geometry part M" and l: "lists part M A fs m" and t: "table_ok ft" and len: "length fs < 7"
    and k: "files_kept part A m m1" "sectors_only part 1 M m m1" and v: "volume part M (A(j \<mapsto> s)) m1" "A j = None"
    and n: "name_of part m1 (of_nat j * sector_size part) = padded_name (str name)"
  shows "\<exists>m'. exec (fsDirectoryAddFile fuel ft stack part (sector_size part) (of_nat j * sector_size part)) m1
        = (Some (1, ft), m')
    \<and> lists part M (A(j \<mapsto> s)) (fs @ [(j, name)]) m' \<and> sectors_only part 1 M m m'"
proof -
  have d: "directory part A m 1" "next_of part m 1 = 0"
    "entries part m 1 = map (\<lambda>(k, _). of_nat k * sector_size part) fs"
    using l by (simp_all add: lists_def)
  note kept = files_kept_directory [OF k(1) d(1)]
  have j1: "j \<noteq> 1" "A 1 = Some 30" using v(2) d(1) by (auto simp: directory_def)
  have d1: "directory part (A(j \<mapsto> s)) m1 1" using kept(1) j1 by (simp add: directory_def)
  have "length (entries part m1 1) = length fs" using kept(2) d(3) by simp
  then have r: "unat (refcount part m1 1) < 7" using len by (simp add: length_entries)
  obtain m' where m': "exec (fsDirectoryAddFile fuel ft stack part (of_nat 1 * sector_size part) (of_nat j * sector_size part)) m1
      = (Some (1, ft), m')" "volume part M (A(j \<mapsto> s)) m'"
    "dirs_updated part (A(j \<mapsto> s)) 1 (entries part m1 1 @ [of_nat j * sector_size part]) m1 m'"
    "names_kept part (A(j \<mapsto> s)) m1 m'" "sectors_only part 1 M m1 m'"
    using AddFile_appends [OF g v(1) t d1 r, of fuel stack "of_nat j * sector_size part"] by blast
  have e: "entries part m' 1 = map (\<lambda>(k, _). of_nat k * sector_size part) (fs @ [(j, name)])"
    using m'(3) kept(2) d(3) by (simp add: dirs_updated_def)
  then have "length (entries part m' 1) = Suc (length fs)" by simp
  then have "unat (refcount part m' 1) \<le> 7" using len by (simp add: length_entries)
  then have "directory part (A(j \<mapsto> s)) m' 1" using d1 by (simp add: directory_def)
  moreover have "next_of part m' 1 = 0" using m'(3) kept(3) d(2) j1 by (simp add: dirs_updated_def)
  moreover have "name_of part m' (of_nat i * sector_size part) = padded_name (str u)"
    if "(i, u) \<in> set (fs @ [(j, name)])" for i u
  proof (cases "i = j \<and> u = name")
    case True
    then show ?thesis using m'(4) n by (simp add: names_kept_def)
  next
    case False
    then have iu: "(i, u) \<in> set fs" using that by auto
    then obtain z where z: "A i = Some z" and nm: "name_of part m (of_nat i * sector_size part) = padded_name (str u)"
      using l by (auto simp: lists_def)
    then have "(A(j \<mapsto> s)) i \<noteq> None" by simp
    then show ?thesis using m'(4) files_kept_name [OF k(1) z] nm by (auto simp: names_kept_def)
  qed
  moreover have "(A(j \<mapsto> s)) i \<noteq> None" if "(i, u) \<in> set (fs @ [(j, name)])" for i u
    using that l by (auto simp: lists_def)
  ultimately have "lists part M (A(j \<mapsto> s)) (fs @ [(j, name)]) m'"
    using e m'(2) unfolding lists_def by blast
  then show ?thesis using m'(1) sectors_only_trans [OF k(2) m'(5)] by auto
qed

lemma add_directory_lists:
  assumes g: "geometry part M" and l: "lists part M A fs m" and t: "table_ok ft" and len: "length fs < 7"
    and b: "n \<le> unat (block_size part)" "n + extent_len part 30 \<le> M + 1"
    and j: "first_fit part A 30 n = Some j"
  shows "\<exists>m'. exec (add_directory fuel stack part (sector_size part) (str name) ft) m = (Some (1, ft), m')
    \<and> lists part M (A(j \<mapsto> 30)) (fs @ [(j, name)]) m' \<and> sectors_only part 1 M m m'"
proof -
  have "volume part M A m" using l by (simp add: lists_def)
  from fsDirectoryCreate_builds [OF g this b j, of "str name"] obtain m1 where
    1: "exec (fsDirectoryCreate part (str name)) m = (of_nat j * sector_size part, m1)"
    "volume part M (A(j \<mapsto> 30)) m1" "A j = None"
    "name_of part m1 (of_nat j * sector_size part) = padded_name (padded_name (str name))" "files_kept part A m m1"
    "sectors_only part 1 M m m1"
    by blast
  from lists_step [OF g l t len 1(5,6,2,3) 1(4) [unfolded padded_twice], of fuel stack] show ?thesis
    by (simp add: add_directory_def run_io_bind 1(1))
qed

lemma add_file_lists:
  assumes g: "geometry part M" and l: "lists part M A fs m" and t: "table_ok ft" and len: "length fs < 7"
    and b: "n \<le> unat (block_size part)" "n + extent_len part sz \<le> M + 1"
    and j: "first_fit part A sz n = Some j"
  shows "\<exists>m'. exec (add_file fuel stack part (sector_size part) (str name) sz ft) m = (Some (1, ft), m')
    \<and> lists part M (A(j \<mapsto> sz)) (fs @ [(j, name)]) m' \<and> sectors_only part 1 M m m'"
proof -
  have "volume part M A m" using l by (simp add: lists_def)
  from fsFileCreate_builds [OF g this b j, of "str name"] obtain m1 where
    1: "exec (fsFileCreate part (str name) sz) m = (of_nat j * sector_size part, m1)"
    "volume part M (A(j \<mapsto> sz)) m1" "A j = None" "files_kept part A m m1" "sectors_only part 1 M m m1"
    and h: "h_name (header_of part (of_nat j * sector_size part) m1) = padded_name (str name)"
    unfolding files_kept_def by auto
  have "name_of part m1 (of_nat j * sector_size part) = padded_name (str name)"
    by (simp add: name_header h padded_twice)
  from lists_step [OF g l t len 1(4,5,2,3) this, of fuel stack] show ?thesis
    by (simp add: add_file_def run_io_bind 1(1))
qed

definition boot_part :: partition where
  "boot_part = \<lparr>block_address = 0, block_size = 32768, sector_count = 1024, sector_size = 32\<rparr>"

text \<open>The device at address 0 is recognised, and so is its root directory.\<close>

definition opens :: "mem \<Rightarrow> bool" where
  "opens m \<longleftrightarrow> exec (fsDeviceOpen 0) m = (boot_part, m) \<and> exec (fsDeviceGetRootDirectory boot_part) m = (32, m)"

lemma opens_cong:
  assumes "\<And>c. c < 32 \<Longrightarrow> m' (of_nat c) = m (of_nat c)" and "opens m"
  shows "opens m'"
proof -
  have f: "get32 m' 12 = get32 m 12" "get32 m' 20 = get32 m 20"
    using assms(1) [of "12 + i" for i] assms(1) [of "20 + i" for i] by (auto intro!: get32_cong)
  have "m' 0 = m 0" "m' 1 = m 1" "m' 2 = m 2" using assms(1) [of 0] assms(1) [of 1] assms(1) [of 2] by simp_all
  then show ?thesis
    using assms(2) f unfolding opens_def exec_fsDeviceOpen exec_fsDeviceGetRootDirectory
    by (simp add: boot_part_def Let_def split: if_splits)
qed

lemma boot_geometry: "geometry boot_part 1024"
  by (simp add: geometry_def boot_part_def)

lemma opens_kept:
  assumes "sectors_only boot_part 1 1024 m m'" and "opens m"
  shows "opens m'"
  using opens_cong [OF _ assms(2)] sectors_only_device [OF boot_geometry assms(1)] by (simp add: boot_part_def)

lemma boot_sector_byte: "k < 1024 \<Longrightarrow> c < 32 \<Longrightarrow> unat (sector_at boot_part k + of_nat c) < 32768"
  using unat_sector_byte [OF boot_geometry, of k c] by (simp add: boot_part_def)

lemma boot_only:
  assumes "sectors_only boot_part l 1024 m m'" and "32768 \<le> unat a"
  shows "m' a = m a"
proof -
  have "a \<noteq> sector_at boot_part k + of_nat c" if "k < 1024" "c < unat (sector_size boot_part)" for k c
    using boot_sector_byte [of k c] that assms(2) by (auto simp: boot_part_def)
  then show ?thesis using assms(1) by (simp add: sectors_only_def)
qed

lemma boot_extents:
  "extent_len boot_part 30 = 2" "extent_len boot_part 128 = 6" "extent_len boot_part 40 = 3"
  by (simp_all add: extent_len_def sectors_needed_def boot_part_def)

lemma boot_fits:
  "first_fit boot_part [1 \<mapsto> 30] 30 4 = Some 3"
  "first_fit boot_part [1 \<mapsto> 30, 3 \<mapsto> 30] 30 6 = Some 5"
  "first_fit boot_part [1 \<mapsto> 30, 3 \<mapsto> 30, 5 \<mapsto> 30] 128 8 = Some 7"
  "first_fit boot_part [1 \<mapsto> 30, 3 \<mapsto> 30, 5 \<mapsto> 30, 7 \<mapsto> 128] 40 14 = Some 13"
  by (simp_all add: first_fit_def marker_of_def boot_extents upt_rec SECTOR_FREE_def SECTOR_USED_def
      SECTOR_HEADER_def DEVICE_MARKER_def ch_def)

lemma init_storage_builds:
  assumes "table_ok (kernel_files c)"
  shows "\<exists>m'. run mem_rd mem_wr (init_storage fuel stack) c m = (Some ((), c), m')
    \<and> lists boot_part 1024 [1 \<mapsto> 30, 3 \<mapsto> 30, 5 \<mapsto> 30, 7 \<mapsto> 128, 13 \<mapsto> 40]
        [(3, ''bin''), (5, ''sys''), (7, ''file''), (13, ''test'')] m' \<and> opens m'
    \<and> sectors_only boot_part 0 1024 m m'"
proof -
  obtain p where p: "exec (fsDeviceOpen 0) m = (p, m)" "block_address p = 0"
    by (auto simp: exec_fsDeviceOpen Let_def)
  have bp: "p\<lparr>block_size := 32768, sector_size := 32, sector_count := 1024\<rparr> = boot_part"
    using p(2) by (simp add: boot_part_def)
  have cnt: "unat (sector_count boot_part) = 1024" by (simp add: boot_part_def)
  obtain m0 where m0: "exec (fsDeviceFormat p 0 32768 32) m = (boot_part, m0)"
    "volume boot_part 1024 [1 \<mapsto> 30] m0" "dir_chain boot_part [1 \<mapsto> 30] m0 [1]" "entries boot_part m0 1 = []"
    "exec (fsDeviceGetRootDirectory boot_part) m0 = (32, m0)" "exec (fsDeviceOpen 0) m0 = (boot_part, m0)"
    "sectors_only boot_part 0 1024 m m0"
    using fsDeviceFormat_builds [where ss = 32 and part = p and end_addr = 32768 and begin_addr = 0 and m = m] cnt by (auto simp: bp p(2) simp del: One_nat_def)
  have l0: "lists boot_part 1024 [1 \<mapsto> 30] [] m0"
    using m0(2-4) by (simp add: lists_def dir_chain_def)
  note t = assms
  have b: "unat (block_size boot_part) = 32768" "sector_size boot_part = 32" by (simp_all add: boot_part_def)
  obtain m1 where m1: "exec (add_directory fuel stack boot_part 32 (str ''bin'') (kernel_files c)) m0 = (Some (1, kernel_files c), m1)" "sectors_only boot_part 1 1024 m0 m1"
    "lists boot_part 1024 [1 \<mapsto> 30, 3 \<mapsto> 30] [(3, ''bin'')] m1"
    using add_directory_lists [OF boot_geometry l0 t _ _ _ boot_fits(1), of fuel stack "''bin''"] by (auto simp: b boot_extents)
  obtain m2 where m2: "exec (add_directory fuel stack boot_part 32 (str ''sys'') (kernel_files c)) m1 = (Some (1, kernel_files c), m2)" "sectors_only boot_part 1 1024 m1 m2"
    "lists boot_part 1024 [1 \<mapsto> 30, 3 \<mapsto> 30, 5 \<mapsto> 30] [(3, ''bin''), (5, ''sys'')] m2"
    using add_directory_lists [OF boot_geometry m1(3) t _ _ _ boot_fits(2), of fuel stack "''sys''"] by (auto simp: b boot_extents)
  obtain m3 where m3: "exec (add_file fuel stack boot_part 32 (str ''file'') 128 (kernel_files c)) m2 = (Some (1, kernel_files c), m3)" "sectors_only boot_part 1 1024 m2 m3"
    "lists boot_part 1024 [1 \<mapsto> 30, 3 \<mapsto> 30, 5 \<mapsto> 30, 7 \<mapsto> 128] [(3, ''bin''), (5, ''sys''), (7, ''file'')] m3"
    using add_file_lists [OF boot_geometry m2(3) t _ _ _ boot_fits(3), of fuel stack "''file''"] by (auto simp: b boot_extents)
  obtain m4 where m4: "exec (add_file fuel stack boot_part 32 (str ''test'') 40 (kernel_files c)) m3 = (Some (1, kernel_files c), m4)" "sectors_only boot_part 1 1024 m3 m4"
    "lists boot_part 1024 [1 \<mapsto> 30, 3 \<mapsto> 30, 5 \<mapsto> 30, 7 \<mapsto> 128, 13 \<mapsto> 40]
      [(3, ''bin''), (5, ''sys''), (7, ''file''), (13, ''test'')] m4"
    using add_file_lists [OF boot_geometry m3(3) t _ _ _ boot_fits(4), of fuel stack "''test''"] by (auto simp: b boot_extents)
  have "run mem_rd mem_wr (init_storage fuel stack) c m = (Some ((), c), m4)"
    using p(1) m0(1,5) m1(1) m2(1) m3(1) m4(1) by (simp add: init_storage_def run_simps)
  note only = m1(2) m2(2) m3(2) m4(2)
  have "opens m0" using m0(5,6) by (simp add: opens_def)
  then have "opens m4" using opens_kept [OF only(4)] opens_kept [OF only(3)] opens_kept [OF only(2)] opens_kept [OF only(1)] by blast
  moreover have "sectors_only boot_part 0 1024 m m4"
    using only [THEN sectors_only_less, of 0] m0(7) by (meson sectors_only_trans zero_le)
  moreover note \<open>run mem_rd mem_wr (init_storage fuel stack) c m = (Some ((), c), m4)\<close>
  ultimately show ?thesis using m4(3) by blast
qed


section \<open>The whole of kInit\<close>

text \<open>The registers of the display are cells of the address space, see theory Screen.\<close>

context screen
begin

lemma printing_version: "printing kPrintVersion"
  unfolding kPrintVersion_def by (intro printing_rules printing_text)

end

text \<open>The display is still ready afterwards, if its cells are not those of the volume.\<close>

lemma kInit_runs:
  assumes "table_ok (kernel_files c)" and "display_ready base c m"
  shows "\<exists>c' m'. run mem_rd mem_wr (kInit fuel stack) c m = (Some ((), c'), m') \<and> kernel_files c' = kernel_files c
    \<and> kept_variables c' = kept_variables c \<and> display c' = base \<and> 0 < poll_limit c' \<and> (32768 \<le> unat base \<longrightarrow> m' base = 0x10)
    \<and> lists boot_part 1024 [1 \<mapsto> 30, 3 \<mapsto> 30, 5 \<mapsto> 30, 7 \<mapsto> 128, 13 \<mapsto> 40]
        [(3, ''bin''), (5, ''sys''), (7, ''file''), (13, ''test'')] m' \<and> opens m'"
proof -
  let ?good = "display_keeps base (\<lambda>_. True) (kept_variables c)"
  have g: "?good c m" using assms(2) by (simp add: display_keeps_def)
  obtain k1 m1 where 1: "run mem_rd mem_wr kPrintVersion c m = (Some ((), k1), m1)" "?good k1 m1"
    using any_memory.memory_screen.printing_version g unfolding printing_on_def by fastforce
  obtain k2 m2 where 2: "run mem_rd mem_wr (ConsoleSetPrompt (literal ''x>'') 3) k1 m1 = (Some ((), k2), m2)" "?good k2 m2"
    using any_memory.memory_screen.printing_prompt 1(2) unfolding printing_on_def by fastforce
  have k2: "kernel_files k2 = kernel_files c"
    using 2(2) by (cases k2, cases c) (simp add: display_keeps_def)
  obtain m' where 3: "run mem_rd mem_wr (init_storage fuel stack) k2 m2 = (Some ((), k2), m')"
    "lists boot_part 1024 [1 \<mapsto> 30, 3 \<mapsto> 30, 5 \<mapsto> 30, 7 \<mapsto> 128, 13 \<mapsto> 40]
        [(3, ''bin''), (5, ''sys''), (7, ''file''), (13, ''test'')] m'" "opens m'"
    "sectors_only boot_part 0 1024 m2 m'"
    using init_storage_builds [of k2 fuel stack m2] assms(1) k2 by auto
  show ?thesis
    using 3(2,3) k2 2(2) boot_only [OF 3(4), of base] by (auto simp: kInit_def run_simps 1(1) 2(1) 3(1) display_keeps_def display_ready_def)
qed

text \<open>
  What the kernel starts with. Whatever else the memory holds, \<open>kInit\<close> returns and leaves in it a volume of 1024
  sectors whose root directory lists \<open>bin\<close>, \<open>sys\<close>, \<open>file\<close> and \<open>test\<close>, in this order, with two empty directories of
  two sectors, a file of 128 bytes and one of 40, at the sectors 3, 5, 7 and 13, and nothing else.
  Opening the device finds the volume and its root; the table of open files is as before.
\<close>

theorem kInit_builds_volume:
  assumes "table_ok (kernel_files c)" and "display_ready base c m"
  shows "\<exists>c' m'. run mem_rd mem_wr (kInit fuel stack) c m = (Some ((), c'), m') \<and> kernel_files c' = kernel_files c
    \<and> lists boot_part 1024 [1 \<mapsto> 30, 3 \<mapsto> 30, 5 \<mapsto> 30, 7 \<mapsto> 128, 13 \<mapsto> 40]
        [(3, ''bin''), (5, ''sys''), (7, ''file''), (13, ''test'')] m' \<and> opens m'"
  using kInit_runs [OF assms] by blast

theorem kInit_builds_volume_witness:
  "entries boot_part (snd (run mem_rd mem_wr (kInit 0 (\<lambda>_. 0))
        ((kernel_initial 1)\<lparr>display := 0x40000\<rparr>) (\<lambda>_. 0x10))) 1
    = [96, 160, 224, 416]"
proof -
  let ?c = "(kernel_initial 1)\<lparr>display := 0x40000\<rparr>"
  have "table_ok (kernel_files ?c)" "display_ready 0x40000 ?c (\<lambda>_. 0x10)"
    using empty_table_ok
    by (simp_all add: display_ready_def kernel_initial_def console_initial_def console.defs kernel.defs)
  from kInit_builds_volume [OF this, of 0 "\<lambda>_. 0"] show ?thesis
    by (auto simp: lists_def boot_part_def)
qed

end
