(* ===== verification/Linking.thy ===== *)
theory Linking
  imports Drivers
begin

text \<open>
  What \<open>InitiateDeviceTable\<close> (kernel/device/device.c, modelled in theory Drivers) leaves: the device table
  lists the peripherals that answer, in the order of their slots, and each driver is linked to the
  first of them that it serves. The driver and the device table share one heap of list nodes (\<open>hold\<close> of theory
  KList); the peripherals are the cells of the address space.
\<close>

section \<open>What a peripheral tells\<close>

definition slot_address :: "nat \<Rightarrow> u32" where
  "slot_address d = PERIPHERAL_BEGIN + PERIPHERAL_STRIDE * of_nat d"

definition occupied :: "mem \<Rightarrow> nat \<Rightarrow> bool" where
  "occupied m d \<longleftrightarrow> m (slot_address d) \<noteq> 0xff"

definition slot_name :: "mem \<Rightarrow> nat \<Rightarrow> buffer" where
  "slot_name m d = blank_loop [0..<unat DEVICE_NAME_LEN] 0 (\<lambda>i. m (slot_address d + of_nat i + 1))"

definition describes :: "mem \<Rightarrow> nat \<Rightarrow> device \<Rightarrow> bool" where
  "describes m d v \<longleftrightarrow> device_id v = m (slot_address d) \<and> hardware_address v = slot_address d
     \<and> hardware_slot v = of_nat d \<and> (\<forall>i < unat DEVICE_NAME_LEN. device_name v i = slot_name m d i)"

lemma blank_loop_cong:
  assumes "\<forall>i \<in> A. n i = n' i" and "set is \<subseteq> A"
  shows "\<forall>i \<in> A. blank_loop is c n i = blank_loop is c n' i"
  using assms
proof (induction "is" arbitrary: c n n')
  case (Cons k ks)
  let ?c = "if n k = ch CHR '' '' then 1 else c"
  let ?b = "\<lambda>n. if ?c \<noteq> 0 then n(k := ch CHR '' '') else n"
  have "\<forall>i \<in> A. blank_loop ks ?c (?b n) i = blank_loop ks ?c (?b n') i"
    by (rule Cons.IH) (use Cons.prems in auto)
  moreover have "n' k = n k" using Cons.prems by simp
  ultimately show ?case by (simp add: Let_def)
qed simp

lemma fold_upd: "fold (\<lambda>i n. n(i := f i)) is n = (\<lambda>i. if i \<in> set is then f i else n i)"
  by (induction "is" arbitrary: n) (auto simp: fun_eq_iff)


section \<open>Discovery\<close>

lemma run_plift [run_simps]:
  "run rd wr (plift f) st s = (f st, s)"
  by (simp add: run_def plift_def)

lemma run_set_device [run_simps]:
  "devices st p = Some v \<Longrightarrow> run rd wr (set_device p f) st s = (Some ((), st\<lparr>devices := (devices st)(p \<mapsto> f v)\<rparr>), s)"
  by (simp add: set_device_def run_simps)

lemma run_read_name:
  assumes "devices st p = Some v"
  shows "run mem_rd mem_wr (pfor is (\<lambda>i. pbind (pread (a + of_nat i + 1)) (\<lambda>b.
      set_device p (\<lambda>v. v\<lparr>device_name := (device_name v)(i := b)\<rparr>)))) st m
    = (Some ((), st\<lparr>devices := (devices st)(p \<mapsto> v\<lparr>device_name :=
        fold (\<lambda>i n. n(i := m (a + of_nat i + 1))) is (device_name v)\<rparr>)\<rparr>), m)"
  using assms
proof (induction "is" arbitrary: st v)
  case Nil
  then show ?case by (simp add: run_simps map_upd_triv)
next
  case (Cons i "is")
  let ?v = "v\<lparr>device_name := (device_name v)(i := m (a + of_nat i + 1))\<rparr>"
  let ?st = "st\<lparr>devices := (devices st)(p \<mapsto> ?v)\<rparr>"
  let ?body = "\<lambda>i. pbind (pread (a + of_nat i + 1)) (\<lambda>b.
      set_device p (\<lambda>v. v\<lparr>device_name := (device_name v)(i := b)\<rparr>))"
  have "run mem_rd mem_wr (?body i) st m = (Some ((), ?st), m)"
    by (simp only: run_pbind run_pread mem_rd_def run_set_device [OF Cons.prems] case_prod_conv option.simps)
  then have "run mem_rd mem_wr (pfor (i # is) ?body) st m = run mem_rd mem_wr (pfor is ?body) ?st m"
    by (simp only: pfor.simps run_pbind case_prod_conv option.simps)
  moreover have "devices ?st p = Some ?v" by simp
  note Cons.IH [OF this]
  moreover have "?st\<lparr>devices := (devices ?st)(p \<mapsto> w)\<rparr> = st\<lparr>devices := (devices st)(p \<mapsto> w)\<rparr>" for w by simp
  moreover have "?v\<lparr>device_name := n\<rparr> = v\<lparr>device_name := n\<rparr>" for n by simp
  moreover have "device_name ?v = (device_name v)(i := m (a + of_nat i + 1))" by simp
  ultimately show ?case by (simp only: fold.simps comp_apply)
qed

text \<open>The C library's \<open>malloc\<close> has room for \<open>n\<close> devices.\<close>

definition device_room :: "tables \<Rightarrow> nat \<Rightarrow> bool" where
  "device_room st n \<longleftrightarrow> (\<forall>h. finite (dom h) \<and> card (dom h) < n \<longrightarrow>
     fst (malloc_device st h) \<noteq> 0 \<and> h (fst (malloc_device st h)) = None)"

definition tables_hold :: "tables \<Rightarrow> ptr list \<Rightarrow> ptr list \<Rightarrow> bool" where
  "tables_hold st ds vs \<longleftrightarrow> hold (nodes st) (DriverTableHead st) ds (DeviceTableHead st) vs"

text \<open>
  The state after the slots \<open>ks\<close>: the devices of the occupied ones are in the table, and nothing else
  has changed since \<open>st0\<close>.
\<close>

definition discovered :: "mem \<Rightarrow> tables \<Rightarrow> ptr list \<Rightarrow> nat list \<Rightarrow> tables \<Rightarrow> ptr list \<Rightarrow> bool" where
  "discovered m st0 ds ks st vs \<longleftrightarrow> tables_hold st ds vs \<and> distinct vs \<and> dom (devices st) = set vs
     \<and> list_all2 (\<lambda>d p. \<exists>v. devices st p = Some v \<and> describes m d v) (filter (occupied m) ks) vs
     \<and> drivers st = drivers st0 \<and> malloc_node st = malloc_node st0 \<and> malloc_device st = malloc_device st0"

lemma discovered_length: "discovered m st0 ds ks st vs \<Longrightarrow> length vs \<le> length ks"
proof -
  assume "discovered m st0 ds ks st vs"
  then have "length (filter (occupied m) ks) = length vs"
    unfolding discovered_def by (elim conjE) (rule list_all2_lengthD)
  then show ?thesis using length_filter_le [of "occupied m" ks] by simp
qed

lemma run_new_device:
  assumes h: "tables_hold st ds vs" and r: "malloc_room (malloc_node st) n" "length ds + length vs < n"
    and p: "malloc_device st (devices st) = (p, v)" "p \<noteq> 0"
  shows "\<exists>st'. run rd wr new_device st s = (Some (p, st'), s) \<and> tables_hold st' ds (vs @ [p])
    \<and> devices st' = (devices st)(p \<mapsto> v) \<and> drivers st' = drivers st
    \<and> malloc_node st' = malloc_node st \<and> malloc_device st' = malloc_device st"
proof -
  obtain head h' where "ListAddNode (malloc_node st) (nodes st) (DeviceTableHead st) p = Some (head, h')"
    "hold h' (DriverTableHead st) ds head (vs @ [p])"
    using hold_ListAddNode [OF r(1) h [unfolded tables_hold_def] r(2)] by blast
  then show ?thesis
    using p by (intro exI [of _ "st\<lparr>devices := (devices st)(p \<mapsto> v), nodes := h', DeviceTableHead := head\<rparr>"])
      (simp add: new_device_def run_simps tables_hold_def)
qed

lemma init_peripheral_discovers:
  assumes i: "discovered m st0 ds ks st vs" and r: "malloc_room (malloc_node st0) n" "length ds + length ks < n"
    and dr: "device_room st0 k" "length ks < k"
  shows "\<exists>st' vs'. run mem_rd mem_wr (init_peripheral d) st m = (Some ((), st'), m)
    \<and> discovered m st0 ds (ks @ [d]) st' vs'"
proof (cases "occupied m d")
  case False
  then have "run mem_rd mem_wr (init_peripheral d) st m = (Some ((), st), m)"
    by (simp add: init_peripheral_def run_simps mem_rd_def occupied_def slot_address_def Let_def)
  then show ?thesis using i False by (auto simp: discovered_def)
next
  case True
  note i' = i [unfolded discovered_def]
  have len: "length vs \<le> length ks" by (rule discovered_length [OF i])
  have "card (dom (devices st)) = length vs" using i' by (simp add: distinct_card)
  moreover obtain p v where p: "malloc_device st (devices st) = (p, v)" by fastforce
  moreover have "malloc_device st = malloc_device st0" "finite (dom (devices st))" using i' by simp_all
  ultimately have new: "p \<noteq> 0" "devices st p = None"
    using dr(1) [unfolded device_room_def, rule_format, of "devices st"] dr(2) len by simp_all
  obtain st1 where st1: "run mem_rd mem_wr new_device st m = (Some (p, st1), m)" "tables_hold st1 ds (vs @ [p])"
    "devices st1 = (devices st)(p \<mapsto> v)" "drivers st1 = drivers st"
    "malloc_node st1 = malloc_node st" "malloc_device st1 = malloc_device st"
    using run_new_device [of st ds vs n p v mem_rd mem_wr m] i' r len p new(1) by fastforce
  let ?a = "slot_address d" and ?is = "[0..<unat DEVICE_NAME_LEN]"
  let ?v1 = "v\<lparr>device_id := m ?a\<rparr>"
  let ?v2 = "?v1\<lparr>device_name := fold (\<lambda>i n. n(i := m (?a + of_nat i + 1))) ?is (device_name ?v1)\<rparr>"
  let ?v3 = "?v2\<lparr>device_name := blank_loop ?is 0 (device_name ?v2), hardware_address := ?a, hardware_slot := of_nat d\<rparr>"
  let ?st = "st1\<lparr>devices := (devices st1)(p \<mapsto> ?v3)\<rparr>"
  have "m ?a \<noteq> 0xff" using True by (simp add: occupied_def)
  then have ran: "run mem_rd mem_wr (init_peripheral d) st m = (Some ((), ?st), m)"
    unfolding init_peripheral_def slot_address_def [symmetric] Let_def
    by (simp add: run_pbind run_pread mem_rd_def st1(1) run_pseq_Cons run_pseq_Nil run_set_device st1(3)
        run_read_name [where v = ?v1])
  have "\<exists>v. devices ?st p = Some v \<and> describes m d v"
    using blank_loop_cong [of "{0..<unat DEVICE_NAME_LEN}" "device_name ?v2" "\<lambda>i. m (?a + of_nat i + 1)" ?is 0]
    by (auto simp: describes_def slot_name_def fold_upd)
  moreover have old: "list_all2 (\<lambda>d q. \<exists>v. devices ?st q = Some v \<and> describes m d v) (filter (occupied m) ks) vs"
  proof (rule list_all2_mono [OF conjunct1 [OF conjunct2 [OF conjunct2 [OF conjunct2 [OF i']]]]])
    fix d q assume "\<exists>v. devices st q = Some v \<and> describes m d v"
    then show "\<exists>v. devices ?st q = Some v \<and> describes m d v"
      using new(2) by (auto simp: st1(3))
  qed
  ultimately have "list_all2 (\<lambda>d q. \<exists>v. devices ?st q = Some v \<and> describes m d v) (filter (occupied m) (ks @ [d])) (vs @ [p])"
    using True by (simp only: filter_append filter.simps if_True) (intro list_all2_appendI old, simp)
  moreover have "tables_hold ?st ds (vs @ [p])" using st1(2) by (simp add: tables_hold_def)
  moreover have "distinct (vs @ [p])" "dom (devices ?st) = set (vs @ [p])"
    using i' new(2) st1(3) by auto
  ultimately have "discovered m st0 ds (ks @ [d]) ?st (vs @ [p])"
    unfolding discovered_def using i' st1(4-6) by simp
  then show ?thesis using ran by blast
qed

lemma discover_all:
  assumes "discovered m st0 ds [] st0 []" and r: "malloc_room (malloc_node st0) n" "length ds + k < n + 1"
    and dr: "device_room st0 k"
  shows "\<exists>st vs. run mem_rd mem_wr (pfor [0..<k] init_peripheral) st0 m = (Some ((), st), m)
    \<and> discovered m st0 ds [0..<k] st vs"
proof -
  have "\<exists>st' vs'. run mem_rd mem_wr (pfor [j..<k] init_peripheral) st m = (Some ((), st'), m)
      \<and> discovered m st0 ds [0..<k] st' vs'"
    if "discovered m st0 ds [0..<j] st vs" "j \<le> k" for j st vs
    using that
  proof (induction "k - j" arbitrary: j st vs)
    case 0
    then show ?case by (auto simp: run_simps)
  next
    case (Suc x)
    then have j: "j < k" by simp
    obtain st1 vs1 where 1: "run mem_rd mem_wr (init_peripheral j) st m = (Some ((), st1), m)"
      "discovered m st0 ds [0..<Suc j] st1 vs1"
      using init_peripheral_discovers [OF Suc.prems(1) r(1) _ dr, of j] j r(2) by auto
    have "x = k - Suc j" "Suc j \<le> k" using Suc.hyps(2) j by simp_all
    from Suc.hyps(1) [OF this(1) 1(2) this(2)] show ?case
      by (simp only: upt_conv_Cons [OF j] pfor.simps run_pbind 1(1) case_prod_conv option.simps)
  qed
  from this [of 0] show ?thesis using assms(1) by simp
qed


section \<open>Linking\<close>

text \<open>A driver after linking: the first device in the table that it serves is its device.\<close>

definition linked_driver :: "(ptr \<rightharpoonup> device) \<Rightarrow> ptr list \<Rightarrow> driver \<Rightarrow> driver" where
  "linked_driver devs vs drv =
     (case find (\<lambda>p. serves drv (the (devs p))) vs of None \<Rightarrow> drv | Some p \<Rightarrow> link (the (devs p)) drv)"

text \<open>What the two loops of the linking read: both tables, and no null pointer in either.\<close>

definition readable :: "tables \<Rightarrow> ptr list \<Rightarrow> ptr list \<Rightarrow> bool" where
  "readable st ds vs \<longleftrightarrow> driver_entries st ds \<and> device_entries st vs \<and> length ds < 256 \<and> length vs < 256
     \<and> distinct ds \<and> set ds \<subseteq> dom (drivers st) \<and> set vs \<subseteq> dom (devices st)"

lemma link_scan_links:
  assumes r: "readable st ds vs" and i: "i < length ds" and d: "drivers st (ds ! i) = Some drv"
    and j: "j \<le> length vs"
  shows "link_scan i [j..<length vs] st = Some
    (case find (\<lambda>p. serves drv (the (devices st p))) (drop j vs) of
       None \<Rightarrow> st | Some p \<Rightarrow> st\<lparr>drivers := (drivers st)(ds ! i \<mapsto> link (the (devices st p)) drv)\<rparr>)"
  using j
proof (induction "length vs - j" arbitrary: j)
  case 0
  then show ?case by simp
next
  case (Suc x)
  then have j: "j < length vs" by simp
  obtain p n where p: "ListGetNode (nodes st) (DeviceTableHead st) (of_nat j) = Some p" "p \<noteq> 0"
    "nodes st p = Some n" "node_data n = vs ! j"
    using ListGetNode_holds [of "nodes st" "DeviceTableHead st" vs j] r j
    by (auto simp: readable_def device_entries_def)
  obtain v where v: "devices st (vs ! j) = Some v" using r j by (auto simp: readable_def dest: nth_mem)
  have e: "GetDriverByIndex st (of_nat i) = Some (ds ! i)"
    using driver_table.entry_nth [of st ds i] r i by (simp add: readable_def)
  have u: "[j..<length vs] = j # [Suc j..<length vs]" "drop j vs = vs ! j # drop (Suc j) vs"
    using j by (simp_all add: upt_conv_Cons Cons_nth_drop_Suc)
  show ?case
    unfolding u using Suc.hyps(1) [of "Suc j"] Suc.hyps(2) j p v e d by simp
qed

lemma link_all_links:
  assumes "readable st ds vs" and "i \<le> length ds"
  shows "link_all [i..<length ds] st = Some (st\<lparr>drivers := (\<lambda>p.
    if p \<in> set (drop i ds) then map_option (linked_driver (devices st) vs) (drivers st p) else drivers st p)\<rparr>)"
  using assms
proof (induction "length ds - i" arbitrary: i st)
  case 0
  then show ?case by simp
next
  case (Suc x)
  then have i: "i < length ds" by simp
  note r = Suc.prems(1)
  obtain drv where drv: "drivers st (ds ! i) = Some drv" using r i by (auto simp: readable_def dest: nth_mem)
  let ?st = "st\<lparr>drivers := (drivers st)(ds ! i \<mapsto> linked_driver (devices st) vs drv)\<rparr>"
  have len: "unat (of_nat (length vs) :: u32) = length vs" using r by (simp add: readable_def unat_of_nat)
  have sz: "ListGetSize (nodes st) (DeviceTableHead st) = Some (of_nat (length vs))"
    using device_table.count_entries [of st vs] r by (simp add: readable_def)
  have scan: "link_scan i [0..<length vs] st = Some ?st"
    using link_scan_links [OF r i drv, of 0] drv
    by (simp add: linked_driver_def map_upd_triv split: option.splits)
  have r': "readable ?st ds vs" using r by (auto simp: readable_def device_entries_def)
  have IH: "link_all [Suc i..<length ds] ?st = Some (?st\<lparr>drivers := (\<lambda>p.
      if p \<in> set (drop (Suc i) ds) then map_option (linked_driver (devices ?st) vs) (drivers ?st p) else drivers ?st p)\<rparr>)"
    using Suc.hyps r' i by (intro Suc.hyps(1)) auto
  have u: "[i..<length ds] = i # [Suc i..<length ds]" "drop i ds = ds ! i # drop (Suc i) ds"
    using i by (simp_all add: upt_conv_Cons Cons_nth_drop_Suc)
  have "ds ! i \<notin> set (drop (Suc i) ds)"
    using r i by (auto simp: readable_def in_set_conv_nth nth_eq_iff_index_eq)
  then have f: "(\<lambda>p. if p \<in> set (drop (Suc i) ds) then map_option (linked_driver (devices ?st) vs) (drivers ?st p) else drivers ?st p)
    = (\<lambda>p. if p \<in> set (drop i ds) then map_option (linked_driver (devices st) vs) (drivers st p) else drivers st p)"
    unfolding u(2) using drv by (auto simp: fun_eq_iff)
  have upd: "?st\<lparr>drivers := g\<rparr> = st\<lparr>drivers := g\<rparr>" for g by simp
  have "link_all [i..<length ds] st = link_all [Suc i..<length ds] ?st"
    by (simp only: u(1) link_all.simps sz Option.bind.simps len scan)
  then show ?case by (simp only: IH f upd)
qed

lemma tables_hold_readable:
  assumes i: "discovered m st0 ds ks st vs" and f: "fresh_malloc (malloc_node st0)"
    and l: "length ds < 256" "length ks < 256" "distinct ds" "set ds \<subseteq> dom (drivers st0)"
  shows "readable st ds vs"
proof -
  have "length vs \<le> length ks" by (rule discovered_length [OF i])
  then show ?thesis
    using i f l hold_holds [of "nodes st" "DriverTableHead st" ds "DeviceTableHead st" vs]
    by (auto simp: readable_def discovered_def tables_hold_def driver_entries_def device_entries_def)
qed

text \<open>The devices in the table, and the drivers, after \<open>InitiateDeviceTable\<close>.\<close>

definition slots_listed :: "mem \<Rightarrow> tables \<Rightarrow> ptr list \<Rightarrow> bool" where
  "slots_listed m st vs \<longleftrightarrow> device_entries st vs
     \<and> list_all2 (\<lambda>d p. \<exists>v. devices st p = Some v \<and> describes m d v) (filter (occupied m) [0..<PERIPHERALS]) vs"

definition roomy :: "tables \<Rightarrow> bool" where
  "roomy st \<longleftrightarrow> malloc_room (malloc_node st) 7 \<and> device_room st 5"

lemma InitiateDeviceTable_runs:
  assumes h: "tables_hold st ds []" and e: "devices st = Map.empty" and r: "roomy st"
    and d: "length ds \<le> 2" "distinct ds" "set ds \<subseteq> dom (drivers st)"
  shows "\<exists>st' vs. run mem_rd mem_wr InitiateDeviceTable st m = (Some ((), st'), m) \<and> slots_listed m st' vs
    \<and> driver_entries st' ds
    \<and> (\<forall>p \<in> set ds. drivers st' p = map_option (linked_driver (devices st') vs) (drivers st p))"
proof -
  have "discovered m st ds [] st []" using h e by (simp add: discovered_def)
  then obtain st1 vs where 1: "run mem_rd mem_wr (pfor [0..<PERIPHERALS] init_peripheral) st m = (Some ((), st1), m)"
    "discovered m st ds [0..<PERIPHERALS] st1 vs"
    using discover_all [of m st ds 7 PERIPHERALS] r d(1) by (auto simp: roomy_def PERIPHERALS_def)
  have rd: "readable st1 ds vs"
    by (rule tables_hold_readable [OF 1(2)]) (use r d in \<open>auto simp: roomy_def malloc_room_def PERIPHERALS_def\<close>)
  let ?st = "st1\<lparr>drivers := (\<lambda>p. if p \<in> set ds then map_option (linked_driver (devices st1) vs) (drivers st1 p)
      else drivers st1 p)\<rparr>"
  have "GetNumberOfDrivers st1 = Some (of_nat (length ds))"
    using driver_table.count_entries [of st1 ds] rd by (simp add: readable_def)
  moreover have "unat (of_nat (length ds) :: u32) = length ds" using d(1) by (simp add: unat_of_nat)
  ultimately have "run mem_rd mem_wr InitiateDeviceTable st m = (Some ((), ?st), m)"
    using link_all_links [OF rd, of 0] 1(1) by (simp add: InitiateDeviceTable_def run_simps)
  moreover have "drivers st1 = drivers st" using 1(2) by (simp add: discovered_def)
  ultimately show ?thesis
    using rd 1(2)
    by (intro exI [of _ ?st] exI [of _ vs])
      (auto simp: slots_listed_def readable_def discovered_def device_entries_def)
qed


section \<open>From power-up\<close>

text \<open>
  No list node and no device exists, both tables are empty, and the two driver objects are zero.
\<close>

definition power_up :: "ptr \<Rightarrow> ptr \<Rightarrow> tables \<Rightarrow> bool" where
  "power_up d k st \<longleftrightarrow> nodes st = Map.empty \<and> devices st = Map.empty \<and> DriverTableHead st = 0 \<and> DeviceTableHead st = 0
     \<and> d \<noteq> k \<and> drivers st d = Some zero_driver \<and> drivers st k = Some zero_driver \<and> roomy st"

definition display_object :: driver where
  "display_object = put_hardware PERIPHERAL_BEGIN 0x10 8 (put_name ''display'' zero_driver)"

definition keyboard_object :: driver where
  "keyboard_object = put_hardware 0x90000 0x01 2 (put_name ''PS2'' zero_driver)"

lemma RegisterDriver_hold:
  assumes h: "tables_hold st ds vs" and r: "malloc_room (malloc_node st) n" "length ds + length vs < n" "n \<le> 100"
  shows "\<exists>x st'. RegisterDriver p st = Some (x, st') \<and> tables_hold st' (ds @ [p]) vs
    \<and> drivers st' = drivers st \<and> devices st' = devices st
    \<and> malloc_node st' = malloc_node st \<and> malloc_device st' = malloc_device st"
proof -
  have "hold (nodes st) (DeviceTableHead st) vs (DriverTableHead st) ds"
    using h hold_swap unfolding tables_hold_def by blast
  then obtain head h' where a: "ListAddNode (malloc_node st) (nodes st) (DriverTableHead st) p = Some (head, h')"
    "hold h' (DeviceTableHead st) vs head (ds @ [p])"
    using hold_ListAddNode [OF r(1)] r(2) by (metis add.commute)
  have "ListGetSize h' head = Some (of_nat (length (ds @ [p])))"
    by (rule ListGetSize_holds [OF conjunct2 [OF hold_holds [OF a(2)]]]) (use r in simp)
  then show ?thesis
    using a hold_swap [OF a(2)] by (simp add: RegisterDriver_def GetNumberOfDrivers_def tables_hold_def)
qed

lemma tables_hold_drivers [simp]: "tables_hold (st\<lparr>drivers := f\<rparr>) ds vs = tables_hold st ds vs"
  by (simp add: tables_hold_def)

lemma InitBakedDrivers_holds:
  assumes "power_up d k st"
  shows "\<exists>st'. InitBakedDrivers d k st = Some st' \<and> tables_hold st' [d, k] [] \<and> devices st' = Map.empty \<and> roomy st'
    \<and> drivers st' d = Some display_object \<and> drivers st' k = Some keyboard_object"
proof -
  note f = assms [unfolded power_up_def]
  have r: "malloc_room (malloc_node st) 7" using f by (simp add: roomy_def)
  let ?s1 = "st\<lparr>drivers := (drivers st)(d \<mapsto> put_name ''display'' zero_driver)\<rparr>"
  have h1: "tables_hold ?s1 [] []" using f by (simp add: tables_hold_def hold_def)
  obtain n2 s2 where s2: "RegisterDriver d ?s1 = Some (n2, s2)" "tables_hold s2 [d] []" "drivers s2 = drivers ?s1"
    "devices s2 = Map.empty" "malloc_node s2 = malloc_node st" "malloc_device s2 = malloc_device st"
    using RegisterDriver_hold [OF h1, of 7 d] r f by auto
  let ?s3 = "s2\<lparr>drivers := (drivers s2)(d \<mapsto> display_object)\<rparr>"
  let ?s4 = "?s3\<lparr>drivers := (drivers ?s3)(k \<mapsto> put_name ''PS2'' zero_driver)\<rparr>"
  obtain n5 s5 where s5: "RegisterDriver k ?s4 = Some (n5, s5)" "tables_hold s5 [d, k] []" "drivers s5 = drivers ?s4"
    "devices s5 = Map.empty" "malloc_node s5 = malloc_node st" "malloc_device s5 = malloc_device st"
    using RegisterDriver_hold [of ?s4 "[d]" "[]" 7 k] s2 r by auto
  have "initiateDisplayDriver d st = Some ?s3"
    using f s2(1,3) by (simp add: initiateDisplayDriver_def set_driver_def display_object_def)
  moreover have "initiatePS2Driver k ?s3 = Some (s5\<lparr>drivers := (drivers s5)(k \<mapsto> keyboard_object)\<rparr>)"
    using f s2(3) s5(1,3) by (simp add: initiatePS2Driver_def set_driver_def keyboard_object_def)
  ultimately show ?thesis
    using f s5 s2(3) by (auto simp: InitBakedDrivers_def roomy_def device_room_def)
qed

lemma linked_driver_fields [simp]:
  "device_name (driver_device (linked_driver devs vs drv)) = device_name (driver_device drv)"
  "device_id (driver_device (linked_driver devs vs drv)) = device_id (driver_device drv)"
  by (simp_all add: linked_driver_def link_def split: option.split)

text \<open>Where a linked driver finds its hardware: where it looked before, or in a slot with its identifier.\<close>

lemma linked_driver_address:
  assumes "slots_listed m st vs"
  shows "hardware_address (driver_device (linked_driver (devices st) vs drv)) = hardware_address (driver_device drv)
    \<or> (\<exists>d < PERIPHERALS. hardware_address (driver_device (linked_driver (devices st) vs drv)) = slot_address d
         \<and> m (slot_address d) = device_id (driver_device drv))"
proof (cases "find (\<lambda>p. serves drv (the (devices st p))) vs")
  case None
  then show ?thesis by (simp add: linked_driver_def)
next
  case (Some p)
  then obtain i where i: "i < length vs" "vs ! i = p" "serves drv (the (devices st p))"
    by (auto simp: find_Some_iff)
  have l: "list_all2 (\<lambda>d p. \<exists>v. devices st p = Some v \<and> describes m d v) (filter (occupied m) [0..<PERIPHERALS]) vs"
    using assms by (simp add: slots_listed_def)
  let ?d = "filter (occupied m) [0..<PERIPHERALS] ! i"
  have len: "i < length (filter (occupied m) [0..<PERIPHERALS])" using list_all2_lengthD [OF l] i(1) by simp
  obtain v where v: "devices st p = Some v" "describes m ?d v" using list_all2_nthD [OF l len] i(2) by blast
  have "?d < PERIPHERALS" using nth_mem [OF len] by auto
  moreover have "device_id v = device_id (driver_device drv)" using i(3) v(1) by (simp add: serves_def)
  ultimately show ?thesis
    using Some v by (auto simp: linked_driver_def link_def describes_def)
qed

text \<open>The names under which the console looks the drivers up.\<close>

lemma names_found:
  assumes e: "driver_entries st [d, k]" and d: "drivers st d = Some x" "drivers st k = Some y"
    and n: "device_name (driver_device x) = name_buffer ''display''" "device_name (driver_device y) = name_buffer ''PS2''"
  shows "GetDriverByName st (name_buffer ''display'') 8 = Some d" "GetDriverByName st (name_buffer ''PS2'') 4 = Some k"
proof -
  have dom: "set [d, k] \<subseteq> dom (drivers st)" using d by auto
  have l: "[0..<4] = [0, 1, 2, 3 :: nat]" by (simp add: upt_rec)
  have ne: "padded (name_buffer ''display'') 4 \<noteq> padded (name_buffer ''PS2'') 4"
    by (simp add: padded_def name_buffer_def l ch_def)
  show "GetDriverByName st (name_buffer ''display'') 8 = Some d" "GetDriverByName st (name_buffer ''PS2'') 4 = Some k"
    using GetDriverByName_is_first [OF e _ dom, of 8 "name_buffer ''display''"]
      GetDriverByName_is_first [OF e _ dom, of 4 "name_buffer ''PS2''"] ne by (simp_all add: d n)
qed

lemma objects_named:
  "device_name (driver_device display_object) = name_buffer ''display''"
  "device_name (driver_device keyboard_object) = name_buffer ''PS2''"
  by (auto simp: display_object_def keyboard_object_def put_hardware_def put_name_def zero_driver_def name_buffer_def)

lemma devices_linked:
  assumes "power_up d k st"
  shows "\<exists>st1 st' vs. InitBakedDrivers d k st = Some st1
    \<and> run mem_rd mem_wr InitiateDeviceTable st1 m = (Some ((), st'), m)
    \<and> slots_listed m st' vs
    \<and> GetDriverByName st' (name_buffer ''display'') 8 = Some d \<and> GetDriverByName st' (name_buffer ''PS2'') 4 = Some k
    \<and> drivers st' d = Some (linked_driver (devices st') vs display_object)
    \<and> drivers st' k = Some (linked_driver (devices st') vs keyboard_object) \<and> driver_entries st' [d, k]"
proof -
  obtain st1 where 1: "InitBakedDrivers d k st = Some st1" "tables_hold st1 [d, k] []" "devices st1 = Map.empty"
    "roomy st1" "drivers st1 d = Some display_object" "drivers st1 k = Some keyboard_object"
    using InitBakedDrivers_holds [OF assms] by blast
  have "distinct [d, k]" "set [d, k] \<subseteq> dom (drivers st1)" using assms 1(5,6) by (auto simp: power_up_def)
  then obtain st' vs where 2: "run mem_rd mem_wr InitiateDeviceTable st1 m = (Some ((), st'), m)"
    "slots_listed m st' vs" "driver_entries st' [d, k]"
    "\<forall>p \<in> set [d, k]. drivers st' p = map_option (linked_driver (devices st') vs) (drivers st1 p)"
    using InitiateDeviceTable_runs [OF 1(2,3,4), of m] by auto
  have dk: "drivers st' d = Some (linked_driver (devices st') vs display_object)"
    "drivers st' k = Some (linked_driver (devices st') vs keyboard_object)"
    using 2(4) 1(5,6) by simp_all
  have "GetDriverByName st' (name_buffer ''display'') 8 = Some d" "GetDriverByName st' (name_buffer ''PS2'') 4 = Some k"
    using names_found [OF 2(3) dk] objects_named by simp_all
  then show ?thesis using 1(1) 2(1,2,3) dk by blast
qed

text \<open>
  C21. Drivers and devices from power-up. Whatever the peripherals answer, registering the drivers and
  scanning the slots returns and leaves the memory alone. The device table lists the slots whose
  first byte is not 0xff, in their order, with identifier, blanked name, address and slot; the names ``display'' and ``PS2'' find
  the two drivers, and each of them is linked to the first device listed that it serves, or is as it was registered if it serves none.
\<close>

theorem drivers_linked:
  assumes "power_up d k st"
  shows "\<exists>st1 st' vs. InitBakedDrivers d k st = Some st1
    \<and> run mem_rd mem_wr InitiateDeviceTable st1 m = (Some ((), st'), m)
    \<and> slots_listed m st' vs
    \<and> GetDriverByName st' (name_buffer ''display'') 8 = Some d \<and> GetDriverByName st' (name_buffer ''PS2'') 4 = Some k
    \<and> drivers st' d = Some (linked_driver (devices st') vs display_object)
    \<and> drivers st' k = Some (linked_driver (devices st') vs keyboard_object)"
  using devices_linked [OF assms, of m] by blast

text \<open>An allocator that takes the first free address of the first nineteen.\<close>

definition first_free :: "(nat \<rightharpoonup> 'a) \<Rightarrow> nat" where
  "first_free h = (case find (\<lambda>p. h p = None) [1..<20] of None \<Rightarrow> 0 | Some p \<Rightarrow> p)"

lemma first_free_free: "first_free h \<noteq> 0 \<Longrightarrow> h (first_free h) = None"
proof (cases "find (\<lambda>p. h p = None) [1..<20]")
  case (Some p)
  then show ?thesis unfolding first_free_def by (auto dest: find_Some_iff [THEN iffD1])
qed (simp add: first_free_def)

lemma first_free_room:
  assumes "finite (dom h)" "card (dom h) < 19"
  shows "first_free h \<noteq> 0"
proof
  assume z: "first_free h = 0"
  have "find (\<lambda>p. h p = None) [1..<20] \<noteq> Some 0" by (auto simp: find_Some_iff)
  then have "find (\<lambda>p. h p = None) [1..<20] = None"
    using z by (auto simp: first_free_def split: option.splits)
  then have "set [1..<20] \<subseteq> dom h" by (auto simp: find_None_iff)
  from card_mono [OF assms(1) this] show False using assms(2) by simp
qed

definition bare_tables :: tables where
  "bare_tables = \<lparr>malloc_node = first_free, malloc_device = (\<lambda>h. (first_free h, driver_device zero_driver)),
     nodes = Map.empty, drivers = [1 \<mapsto> zero_driver, 2 \<mapsto> zero_driver], devices = Map.empty,
     DriverTableHead = 0, DeviceTableHead = 0\<rparr>"

lemma bare_tables_power_up: "power_up 1 2 bare_tables"
  by (simp add: power_up_def bare_tables_def roomy_def malloc_room_def fresh_malloc_def device_room_def
      first_free_room first_free_free)

text \<open>A peripheral in slot 2 that identifies itself as the display, and nothing else.\<close>

definition display_in_slot_2 :: mem where
  "display_in_slot_2 a = (if a = 0x60000 then 0x10 else if 0x60001 \<le> a \<and> a < 0x60008 then ch (''display'' ! unat (a - 0x60001))
     else if 0x60008 \<le> a \<and> a < 0x60020 then 0 else 0xff)"

theorem drivers_linked_witness:
  "\<exists>st1 st' vs. InitBakedDrivers 1 2 bare_tables = Some st1
    \<and> run mem_rd mem_wr InitiateDeviceTable st1 display_in_slot_2 = (Some ((), st'), display_in_slot_2)
    \<and> slots_listed display_in_slot_2 st' vs \<and> filter (occupied display_in_slot_2) [0..<5] = [2]"
proof -
  have "filter (occupied display_in_slot_2) [0..<5] = [2]"
    by (simp add: upt_rec occupied_def slot_address_def display_in_slot_2_def PERIPHERAL_BEGIN_def PERIPHERAL_STRIDE_def)
  then show ?thesis using drivers_linked [OF bare_tables_power_up, of display_in_slot_2] by blast
qed

end
