(* ===== verification/Session.thy ===== *)
theory Session
  imports Boot Linking
begin

text \<open>
  Commands at the prompt: the shell (theory Shell) with the commands \<open>ls\<close> and \<open>cd\<close> (theory Boot) on the volume
  that \<open>kInit\<close> leaves. Every key is handled to its end, on any screen that meets the contract of theory Screen; what
  \<open>ls\<close> prints is the list of what is on the volume. The display is a part of the address space
  behind the volume, so that printing does not change what the file system reads.
\<close>

section \<open>The shell prints\<close>

context screen
begin

lemma printing_scan: "printing (read_scan_code k)"
  unfolding read_scan_code_def by (intro printing_pbind printing_rules)

lemma printing_GetLastChar: "printing ConsoleGetLastChar"
  unfolding ConsoleGetLastChar_def Let_def case_prod_beta
  by (intro printing_pwith printing_pbind printing_scan printing_rules) (simp_all add: set_old_scan_code_def)

lemma printing_swap: "printing swapBuffers"
  unfolding swapBuffers_def by (intro printing_rules) simp

lemma printing_edge:
  "printing (pwith (\<lambda>c. if displayColumbs c \<le> ucast (console_position c)
     then pseq [printLn, pmod (console_position_update (\<lambda>_. 0)), pwith (\<lambda>c. ConsoleSetCursorPosition (console_position c))]
     else preturn ()))"
  by (intro printing_rules printing_text) simp

lemma printing_PrintChar: "printing (KeyFunctionPrintChar code)"
  unfolding KeyFunctionPrintChar_def Let_def
  by (intro printing_pwith printing_if printing_preturn printing_pseq_Cons printing_pseq_Nil printing_edge printing_text
      printing_pmod) simp_all

lemma printing_Backspace: "printing KeyFunctionBackspace"
  unfolding KeyFunctionBackspace_def
  by (intro printing_pwith printing_if printing_preturn printing_pseq_Cons printing_pseq_Nil printing_swap printing_pmod)
    simp_all

lemma printing_printPrompt: "printing printPrompt"
proof -
  have "printing (dwrite (0x10 + of_nat i) f)" if "i < unat n - 1" for i f and n :: u8
    using that by (intro printing_line [of _ n]) simp
  then show ?thesis
    unfolding printPrompt_def by (intro printing_rules printing_text) simp_all
qed

lemma printing_lookup:
  assumes "\<And>f s n. printing (call f s n)"
  shows "printing (commandFunctionLookup call pb)"
  unfolding commandFunctionLookup_def
proof (rule printing_pwith)
  fix c
  show "printing (case lookup_loop c [0..<CONSOLE_FUNCTION_TABLE_SIZE] pb 0 0 of
         (passed, params_begin, None) \<Rightarrow> preturn passed
       | (passed, params_begin, Some i) \<Rightarrow>
           pbind (if command_function (CommandRegistry c i) \<noteq> 0
                  then call (command_function (CommandRegistry c i))
                         (\<lambda>k. console_string c (unat params_begin + k))
                         (console_string_length c + 1 - params_begin)
                  else preturn ())
                 (\<lambda>_. preturn passed))"
    by (auto split: prod.splits option.splits intro!: printing_pbind printing_preturn assms)
qed

lemma printing_Return:
  assumes "\<And>f s n. printing (call f s n)"
  shows "printing (KeyFunctionReturn call)"
  unfolding KeyFunctionReturn_def commandSpecialChar_def
  by (intro printing_pseq_Cons printing_pseq_Nil printing_pbind printing_preturn printing_if printing_pwith
      printing_lookup assms printing_text printing_printPrompt printing_pmod)
    (simp_all add: save_line_def find_parameters_def ConsoleClearKeyboardString_def)

lemma printing_cliRunShell:
  assumes "\<And>f s n. printing (call f s n)"
  shows "printing (cliRunShell call)"
  unfolding cliRunShell_def handle_code_def
  by (intro printing_pbind printing_GetLastChar printing_if printing_preturn printing_pseq_Cons printing_pseq_Nil
      printing_PrintChar printing_Backspace printing_Return assms printing_pmod) simp_all

end


section \<open>The volume, seen through its bytes\<close>

definition same_volume :: "mem \<Rightarrow> mem \<Rightarrow> bool" where
  "same_volume m m' \<longleftrightarrow> (\<forall>a. unat a < 32768 \<longrightarrow> m' a = m a)"

lemma same_volume_refl [simp]: "same_volume m m"
  by (simp add: same_volume_def)

lemma same_byte: "same_volume m m' \<Longrightarrow> k < 1024 \<Longrightarrow> c < 32 \<Longrightarrow>
    m' (sector_at boot_part k + of_nat c) = m (sector_at boot_part k + of_nat c)"
  using boot_sector_byte [of k c] by (simp add: same_volume_def)

lemma same_get32:
  assumes "same_volume m m'" "k < 1024" "f + 4 \<le> 32"
  shows "get32 m' (sector_at boot_part k + of_nat f) = get32 m (sector_at boot_part k + of_nat f)"
proof (rule get32_cong)
  fix i :: nat assume "i < 4"
  then show "m' (sector_at boot_part k + of_nat f + of_nat i) = m (sector_at boot_part k + of_nat f + of_nat i)"
    using same_byte [OF assms(1,2), of "f + i"] assms(3) by (simp add: add.assoc)
qed

lemma same_header:
  assumes "same_volume m m'" "k < 1024"
  shows "header_of boot_part (of_nat k * sector_size boot_part) m' = header_of boot_part (of_nat k * sector_size boot_part) m"
  by (rule header_of_cong, unfold block_plus_sector, rule same_byte [OF assms])

lemma same_directory:
  assumes s: "same_volume m m'" and v: "volume boot_part 1024 A m" and d: "directory boot_part A m k"
  shows "directory boot_part A m' k" "entries boot_part m' k = entries boot_part m k" "next_of boot_part m' k = next_of boot_part m k"
proof -
  have sep: "separated boot_part 1024 A" and k: "A k = Some 30" "unat (refcount boot_part m k) \<le> 7"
    using v d by (simp_all add: volume_def directory_def)
  have kM: "k < 1024" by (rule separated_bound [OF sep k(1)])
  have r: "refcount boot_part m' k = refcount boot_part m k" by (simp add: refcount_header same_header [OF s kM])
  show "directory boot_part A m' k" using d r by (simp add: directory_def)
  show "next_of boot_part m' k = next_of boot_part m k" by (simp add: next_header same_header [OF s kM])
  show "entries boot_part m' k = entries boot_part m k"
  proof (rule entries_cong [OF r k(2)])
    fix i :: nat assume i: "i < 29"
    note e = own_extent [OF sep k(1)]
    have "k + 1 + i div payload boot_part < 1024" "1 + i mod payload boot_part < 32"
      using content_addr_bounds [OF boot_geometry e, of i] e i by (auto simp: boot_part_def)
    then show "m' (content_addr boot_part k i) = m (content_addr boot_part k i)"
      unfolding content_addr_def by (rule same_byte [OF s])
  qed
qed

lemma same_lists:
  assumes s: "same_volume m m'" and l: "lists boot_part 1024 A fs m"
  shows "lists boot_part 1024 A fs m'"
proof -
  have v: "volume boot_part 1024 A m" and d: "directory boot_part A m 1" using l by (simp_all add: lists_def)
  have sep: "separated boot_part 1024 A" using v by (simp add: volume_def)
  have "volume boot_part 1024 A m'"
  proof (rule volumeI [OF sep])
    show "m' (sector_at boot_part k) = marker_of boot_part A k" if "k < 1024" for k
      using same_byte [OF s that, of 0] v that by (simp add: volume_def)
    show "get32 m' (sector_at boot_part j + 11) = x" if "A j = Some x" for j x
      using same_get32 [OF s separated_bound [OF sep that], of 11] v that by (simp add: volume_def)
  qed
  moreover have "name_of boot_part m' (of_nat k * sector_size boot_part) = name_of boot_part m (of_nat k * sector_size boot_part)"
    if "A k \<noteq> None" for k
    using same_header [OF s, of k] separated_bound [OF sep, of k] that by (auto simp: name_header)
  ultimately show ?thesis
    using l same_directory [OF s v d] unfolding lists_def by (fastforce split: prod.splits)
qed

lemma same_opens:
  assumes "same_volume m m'" and "opens m"
  shows "opens m'"
proof (rule opens_cong [OF _ assms(2)])
  fix c :: nat assume "c < 32"
  then show "m' (of_nat c) = m (of_nat c)"
    using same_byte [OF assms(1), of 0 c] by (simp add: sector_at_def boot_part_def)
qed


section \<open>What ls and cd do\<close>

text \<open>A line of the listing: attributes, name, and the size or the word for a directory.\<close>

definition show_line :: "u8 list \<times> u8 list \<times> u32 \<Rightarrow> (kernel, unit) prog" where
  "show_line f = (case f of (attr, name, sz) \<Rightarrow> pseq
     [print (\<lambda>k. if k < 4 then attr ! k else 0) 4, printSpace 1,
      print (\<lambda>k. if k < 10 then name ! k else 0) 11, printSpace 1,
      (if attr ! 3 = ch CHR ''d'' then print (literal ''<dir>'') 6 else printInt sz), printLn])"

text \<open>The line of a file: what its header holds, and what the listing of the volume says of it.\<close>

definition file_line :: "mem \<Rightarrow> nat \<Rightarrow> u8 list \<times> u8 list \<times> u32" where
  "file_line m k = (get_bytes m (sector_at boot_part k + 15) 4,
     name_of boot_part m (of_nat k * sector_size boot_part), get32 m (sector_at boot_part k + 11))"

definition entry_line :: "mem \<Rightarrow> extents \<Rightarrow> nat \<times> string \<Rightarrow> u8 list \<times> u8 list \<times> u32" where
  "entry_line m A = (\<lambda>(k, t). (get_bytes m (sector_at boot_part k + 15) 4, padded_name (str t), the (A k)))"

lemma file_line_entry:
  assumes "lists boot_part 1024 A fs m" "f \<in> set fs"
  shows "file_line m (fst f) = entry_line m A f"
proof -
  obtain k t where f: "f = (k, t)" by fastforce
  obtain x where "A k = Some x" "get32 m (sector_at boot_part k + 11) = x"
    "name_of boot_part m (of_nat k * sector_size boot_part) = padded_name (str t)"
    using assms f by (fastforce simp: lists_def volume_def)
  then show ?thesis by (simp add: f file_line_def entry_line_def)
qed

lemma same_file_line:
  assumes s: "same_volume m m'" and k: "k < 1024"
  shows "file_line m' k = file_line m k"
proof -
  have "get_bytes m' (sector_at boot_part k + 15) 4 = get_bytes m (sector_at boot_part k + 15) 4"
    using same_byte [OF s k, of "15 + i" for i] by (auto simp: get_bytes_def add.assoc)
  then show ?thesis
    using same_get32 [OF s k, of 11] same_header [OF s k] by (simp add: file_line_def name_header)
qed

lemma run_pwalk [run_simps]:
  "run rd wr (pwalk p) c s = (case run_io rd wr p s of (r, s') \<Rightarrow> (map_option (\<lambda>x. (x, c)) r, s'))"
  by (simp add: run_def pwalk_def run_io_bind)

lemma more_files: "console.more c = kernel.fields ft \<longleftrightarrow> kernel_files c = ft" for c :: kernel
  by (cases c) (simp add: kernel.defs)

lemma kernel_files_upd_same: "kernel_files c = ft \<Longrightarrow> c\<lparr>kernel_files := ft\<rparr> = c"
  by (cases c) simp

text \<open>A display behind the volume.\<close>

locale volume_screen =
  fixes base :: u32 and m0 :: mem
  assumes above: "a < DISPLAY_REGISTERS \<Longrightarrow> 32768 \<le> unat (base + a)"

sublocale volume_screen \<subseteq> kept_screen base "same_volume m0"
  by unfold_locales (auto simp: same_volume_def dest: above)

context volume_screen
begin

abbreviation on_volume :: "u32 \<Rightarrow> (nat \<Rightarrow> command) \<Rightarrow> ftable \<Rightarrow> kernel \<Rightarrow> mem \<Rightarrow> bool" where
  "on_volume kb reg ft \<equiv> display_keeps base (same_volume m0) (kb, reg, kernel.fields ft)"

lemma on_volumeD: "on_volume kb reg ft c m \<Longrightarrow> kernel_files c = ft \<and> same_volume m0 m"
  by (simp add: display_keeps_def more_files)

text \<open>Two sequences whose statements do the same wherever the first part may have gone.\<close>

lemma run_pseq_cong:
  assumes "printing_on mem_rd mem_wr (on_volume kb reg ft) p" and "on_volume kb reg ft c m"
    and "\<And>c m. on_volume kb reg ft c m \<Longrightarrow> run mem_rd mem_wr (pseq ps) c m = run mem_rd mem_wr (pseq qs) c m"
  shows "run mem_rd mem_wr (pseq (p # ps)) c m = run mem_rd mem_wr (pseq (p # qs)) c m"
proof -
  obtain x c' m' where "run mem_rd mem_wr p c m = (Some (x, c'), m')" "on_volume kb reg ft c' m'"
    using assms(1,2) unfolding printing_on_def by blast
  then show ?thesis using assms(3) by (simp add: run_pseq_Cons)
qed

lemma run_pfor_pseq:
  assumes "\<And>i. i \<in> set is \<Longrightarrow> printing_on mem_rd mem_wr (on_volume kb reg ft) (g i)"
    and "\<And>i c m. i \<in> set is \<Longrightarrow> on_volume kb reg ft c m \<Longrightarrow> run mem_rd mem_wr (f i) c m = run mem_rd mem_wr (g i) c m"
    and "on_volume kb reg ft c m"
  shows "run mem_rd mem_wr (pfor is f) c m = run mem_rd mem_wr (pseq (map g is)) c m"
  using assms
proof (induction "is" arbitrary: c m)
  case Nil
  then show ?case by (simp add: run_simps)
next
  case (Cons i "is")
  obtain x c' m' where g: "run mem_rd mem_wr (g i) c m = (Some (x, c'), m')" "on_volume kb reg ft c' m'"
    using Cons.prems(1) [of i] Cons.prems(3) unfolding printing_on_def by (metis list.set_intros(1))
  have "run mem_rd mem_wr (pfor is f) c' m' = run mem_rd mem_wr (pseq (map g is)) c' m'"
    by (rule Cons.IH [OF _ _ g(2)]) (use Cons.prems in auto)
  then show ?case
    using g(1) Cons.prems(2) [of i c m] Cons.prems(3) by (simp add: run_pbind run_pseq_Cons)
qed

lemma printing_show_line: "printing_on mem_rd mem_wr (on_volume kb reg ft) (show_line f)"
  unfolding show_line_def case_prod_beta
  by (intro memory_screen.printing_pseq_Cons memory_screen.printing_pseq_Nil memory_screen.printing_if
      memory_screen.printing_text)

lemma printing_lines: "printing_on mem_rd mem_wr (on_volume kb reg ft) (pseq (map show_line fs))"
  by (induction fs) (auto intro: memory_screen.printing_pseq_Cons memory_screen.printing_pseq_Nil printing_show_line)

end

text \<open>The volume and a table of open files with a free slot.\<close>

locale root_volume = volume_screen base m0
  for base :: u32 and m0 :: mem +
  fixes A :: extents and fs :: "(nat \<times> string) list" and ft :: ftable
  assumes root_lists: "lists boot_part 1024 A fs m0" and root_opens: "opens m0" and files: "table_ok ft"
begin

lemma on_root:
  assumes "on_volume kb reg ft c m"
  shows "kernel_files c = ft" "lists boot_part 1024 A fs m" "opens m"
  using on_volumeD [OF assms] same_lists [OF _ root_lists] same_opens [OF _ root_opens] by blast+

lemma handles_bound: "(k, t) \<in> set fs \<Longrightarrow> 0 < k \<and> k < 1024"
proof -
  assume k: "(k, t) \<in> set fs"
  have sep: "separated boot_part 1024 A" using root_lists by (simp add: lists_def volume_def)
  obtain x where x: "A k = Some x" using root_lists k by (auto simp: lists_def)
  show ?thesis using separated_bound [OF sep x] separated_positive [OF sep x] by simp
qed

lemma root_walks:
  assumes c: "on_volume kb reg ft c m" and f: "1 \<le> fuel"
  defines "es \<equiv> map (\<lambda>(k, _). of_nat k * sector_size boot_part) fs"
  shows "exec (fsDirectoryGetTotalSize fuel boot_part 32) m = (Some (of_nat (length fs)), m)"
    and "exec (fsDirectoryFindByIndex fuel ft stack boot_part 32 index) m
      = (Some (if unat index < length fs then es ! unat index else 0, ft), m)"
    and "exec (fsDirectoryFindByName fuel ft stack boot_part 32 name) m
      = (Some (case find (\<lambda>h. name_of boot_part m h = padded_name name) es of Some h \<Rightarrow> h | None \<Rightarrow> 0, ft), m)"
    and "length fs \<le> 7"
proof -
  note l = on_root(2) [OF c]
  have v: "volume boot_part 1024 A m" and ch: "dir_chain boot_part A m [1]" and e: "all_entries boot_part m [1] = es"
    using l by (simp_all add: lists_def dir_chain_def all_entries_def es_def)
  have len: "length [1::nat] \<le> fuel" using f by simp
  have n: "length es = length fs" by (simp add: es_def)
  note w = walks_run [OF boot_geometry v files ch len, of stack index name, unfolded e n]
  show "exec (fsDirectoryGetTotalSize fuel boot_part 32) m = (Some (of_nat (length fs)), m)"
    "exec (fsDirectoryFindByIndex fuel ft stack boot_part 32 index) m
      = (Some (if unat index < length fs then es ! unat index else 0, ft), m)"
    "exec (fsDirectoryFindByName fuel ft stack boot_part 32 name) m
      = (Some (case find (\<lambda>h. name_of boot_part m h = padded_name name) es of Some h \<Rightarrow> h | None \<Rightarrow> 0, ft), m)"
    using w by (simp_all add: boot_part_def)
  have "unat (refcount boot_part m 1) \<le> 7" using l by (simp add: lists_def directory_def)
  moreover have "length (entries boot_part m 1) = length fs" using l by (simp add: lists_def)
  ultimately show "length fs \<le> 7" by (simp add: length_entries)
qed

lemma list_entry_shows:
  assumes c: "on_volume kb reg ft c m" and f: "1 \<le> fuel" and i: "i < length fs"
  shows "run mem_rd mem_wr (list_entry fuel stack boot_part 32 (of_nat i)) c m
    = run mem_rd mem_wr (show_line (file_line m0 (fst (fs ! i)))) c m"
proof -
  let ?k = "fst (fs ! i)" let ?h = "of_nat ?k * sector_size boot_part"
  let ?attr = "get_bytes m0 (sector_at boot_part ?k + 15) 4" and ?name = "name_of boot_part m0 ?h"
  have k: "?k < 1024" using handles_bound [of ?k "snd (fs ! i)"] i by simp
  have u: "unat (of_nat i :: u32) = i" using root_walks(4) [OF c f] i by (simp add: unat_of_nat)
  have find: "run mem_rd mem_wr (pfiles (\<lambda>ft. fsDirectoryFindByIndex fuel ft stack boot_part 32 (of_nat i))) c m = (Some (?h, c), m)"
    using root_walks(2) [OF c f, of stack "of_nat i"] u i on_root(1) [OF c]
    by (simp add: run_simps kernel_files_upd_same case_prod_beta)
  have line: "get_bytes m (sector_at boot_part ?k + 15) 4 = ?attr" "name_of boot_part m ?h = ?name"
    "get32 m (sector_at boot_part ?k + 11) = get32 m0 (sector_at boot_part ?k + 11)" if "on_volume kb reg ft c m" for c :: kernel and m
    using same_file_line [OF _ k, of m0 m] on_volumeD [OF that] by (simp_all add: file_line_def)
  have h: "block_address boot_part + ?h = sector_at boot_part ?k" by (simp add: sector_at_def)
  define show_size :: "(kernel, unit) prog" where "show_size = (if ?attr ! 3 = ch CHR ''d'' then print (literal ''<dir>'') 6
      else pbind (pio (fsFileGetSize boot_part ?h)) (\<lambda>fileSize. printInt fileSize))"
  let ?head = "[print (\<lambda>k. if k < 4 then ?attr ! k else 0) 4, printSpace 1]"
  let ?tail = "\<lambda>p. [print (\<lambda>k. if k < 10 then ?name ! k else 0) 11, printSpace 1, p, printLn]"
  let ?size = "if ?attr ! 3 = ch CHR ''d'' then print (literal ''<dir>'') 6
      else printInt (get32 m0 (sector_at boot_part ?k + 11))"
  have size: "run mem_rd mem_wr (pseq (show_size # ps)) c m = run mem_rd mem_wr (pseq (?size # ps)) c m"
    if "on_volume kb reg ft c m" for c :: kernel and m ps
    using line(3) [OF that] by (simp add: show_size_def run_pseq_Cons run_pbind run_pio exec_fsFileGetSize h)
  have tail: "run mem_rd mem_wr (pseq (?tail show_size)) c m = run mem_rd mem_wr (pseq (?tail ?size)) c m"
    if "on_volume kb reg ft c m" for c :: kernel and m
    by (rule run_pseq_cong [OF memory_screen.printing_print that], rule run_pseq_cong [OF memory_screen.printing_printSpace], assumption)
      (rule size)
  have "printing_on mem_rd mem_wr (on_volume kb reg ft) (pseq ?head)"
    by (intro memory_screen.printing_pseq_Cons memory_screen.printing_pseq_Nil memory_screen.printing_text)
  then obtain c1 m1 where hd: "run mem_rd mem_wr (pseq ?head) c m = (Some ((), c1), m1)" "on_volume kb reg ft c1 m1"
    using c unfolding printing_on_def by fastforce
  have attr: "run mem_rd mem_wr (pio (fsFileGetAttributes boot_part ?h)) c m = (Some (?attr, c), m)"
    by (simp add: run_pio exec_fsFileGetAttributes h line(1) [OF c])
  have name: "run mem_rd mem_wr (pio (fsFileGetName boot_part ?h (replicate 10 (ch CHR '' '')))) c1 m1 = (Some (?name, c1), m1)"
    by (simp add: run_pio exec_fsFileGetName line(2) [OF hd(2)])
  have "run mem_rd mem_wr (list_entry fuel stack boot_part 32 (of_nat i)) c m = run mem_rd mem_wr (pseq (?tail show_size)) c1 m1"
    unfolding list_entry_def Let_def run_pbind find attr hd(1) name option.case prod.case show_size_def by (rule refl)
  also have "\<dots> = run mem_rd mem_wr (pseq (?tail ?size)) c1 m1" by (rule tail [OF hd(2)])
  also have "\<dots> = run mem_rd mem_wr (pseq (?head @ ?tail ?size)) c m"
    using hd(1) by (simp only: pseq_append_run case_prod_conv option.simps)
  finally show ?thesis by (simp add: show_line_def file_line_def)
qed

lemma functionLS_shows:
  assumes c: "on_volume kb reg ft c m" and f: "1 \<le> fuel"
  shows "run mem_rd mem_wr (functionLS fuel stack) c m
    = run mem_rd mem_wr (pseq (map (\<lambda>f. show_line (file_line m0 (fst f))) fs)) c m"
proof -
  let ?g = "\<lambda>i. show_line (file_line m0 (fst (fs ! i)))"
  have o: "run mem_rd mem_wr (pio (fsDeviceOpen 0)) c m = (Some (boot_part, c), m)"
    "run mem_rd mem_wr (pio (fsDeviceGetRootDirectory boot_part)) c m = (Some (32, c), m)"
    using on_root(3) [OF c] by (simp_all add: opens_def run_pio)
  have n: "run mem_rd mem_wr (pwalk (fsDirectoryGetTotalSize fuel boot_part 32)) c m = (Some (of_nat (length fs), c), m)"
    using root_walks(1) [OF c f] by (simp add: run_pwalk)
  have u: "unat (of_nat (length fs) :: u32) = length fs" using root_walks(4) [OF c f] by (simp add: unat_of_nat)
  have z: "(of_nat (length fs) :: u32) = 0 \<longleftrightarrow> fs = []"
    using unat_eq_0 [of "of_nat (length fs) :: u32"] unfolding u length_0_conv by (rule sym)
  have "run mem_rd mem_wr (pfor [0..<length fs] (\<lambda>i. list_entry fuel stack boot_part 32 (of_nat i))) c m
      = run mem_rd mem_wr (pseq (map ?g [0..<length fs])) c m"
    by (rule run_pfor_pseq [OF printing_show_line _ c]) (use list_entry_shows f in auto)
  also have "map ?g [0..<length fs] = map (\<lambda>f. show_line (file_line m0 (fst f))) fs"
    by (rule nth_equalityI) simp_all
  finally have e: "run mem_rd mem_wr (pfor [0..<length fs] (\<lambda>i. list_entry fuel stack boot_part 32 (of_nat i))) c m
      = run mem_rd mem_wr (pseq (map (\<lambda>f. show_line (file_line m0 (fst f))) fs)) c m" .
  show ?thesis
  proof (cases "fs = []")
    case True
    then show ?thesis
      using o n by (simp add: functionLS_def vfsList_def run_pbind pdo_def run_preturn run_pseq_Nil)
  next
    case False
    then show ?thesis
      using o n e z by (simp add: functionLS_def vfsList_def run_pbind pdo_def run_preturn u split: prod.splits option.splits)
  qed
qed

lemma functionCD_shows:
  assumes c: "on_volume kb reg ft c m" and f: "1 \<le> fuel"
  shows "run mem_rd mem_wr (functionCD fuel stack param) c m
    = run mem_rd mem_wr (if \<exists>(k, t) \<in> set fs. padded_name (str t) = padded_name param then pskip
        else pseq [print (literal ''Directory not found'') 20, printLn]) c m"
proof -
  let ?es = "map (\<lambda>(k, _). of_nat k * sector_size boot_part) fs"
  let ?found = "case find (\<lambda>h. name_of boot_part m h = padded_name param) ?es of Some h \<Rightarrow> h | None \<Rightarrow> 0"
  have o: "run mem_rd mem_wr (pio (fsDeviceOpen 0)) c m = (Some (boot_part, c), m)"
    "run mem_rd mem_wr (pio (fsDeviceGetRootDirectory boot_part)) c m = (Some (32, c), m)"
    using on_root(3) [OF c] by (simp_all add: opens_def run_pio)
  have find: "run mem_rd mem_wr (pfiles (\<lambda>ft. fsDirectoryFindByName fuel ft stack boot_part 32 param)) c m = (Some (?found, c), m)"
    using root_walks(3) [OF c f, of stack param] on_root(1) [OF c] by (simp add: run_pfiles kernel_files_upd_same)
  have nz: "of_nat k * sector_size boot_part \<noteq> 0" if "(k, t) \<in> set fs" for k t
  proof -
    have "unat (of_nat k * (32 :: u32)) = k * 32" using handles_bound [OF that] by (simp add: unat_word_ariths unat_of_nat)
    then show ?thesis using handles_bound [OF that] by (auto simp: boot_part_def u32_eq_iff_unat)
  qed
  have names: "name_of boot_part m (of_nat k * sector_size boot_part) = padded_name (str t)" if "(k, t) \<in> set fs" for k t
    using on_root(2) [OF c] that by (auto simp: lists_def)
  have "?found = 0 \<longleftrightarrow> \<not> (\<exists>(k, t) \<in> set fs. padded_name (str t) = padded_name param)"
  proof (cases "find (\<lambda>h. name_of boot_part m h = padded_name param) ?es")
    case None
    then have no: "name_of boot_part m h \<noteq> padded_name param" if "h \<in> set ?es" for h
      using that unfolding find_None_iff by blast
    have "padded_name (str t) \<noteq> padded_name param" if k: "(k, t) \<in> set fs" for k t
    proof -
      have "of_nat k * sector_size boot_part \<in> set ?es" using k by force
      from no [OF this] names [OF k] show ?thesis by simp
    qed
    then have "\<not> (\<exists>(k, t) \<in> set fs. padded_name (str t) = padded_name param)" by blast
    then show ?thesis unfolding None option.case by simp
  next
    case (Some h)
    then have h: "h \<in> set ?es" "name_of boot_part m h = padded_name param" by (auto simp: find_Some_iff)
    then obtain k t where k: "(k, t) \<in> set fs" "h = of_nat k * sector_size boot_part" by auto
    then have "\<exists>(k, t) \<in> set fs. padded_name (str t) = padded_name param" using names h(2) by fastforce
    moreover have "h \<noteq> 0" unfolding k(2) by (rule nz [OF k(1)])
    ultimately show ?thesis unfolding Some option.case by simp
  qed
  moreover have "(if \<not> b then p else q) = (if b then q else p)" for b and p q :: "(kernel, unit) prog" by simp
  ultimately show ?thesis unfolding functionCD_def run_pbind o find option.case prod.case by (simp only: refl)
qed

text \<open>The commands that \<open>main\<close> registers, under any numbers.\<close>

lemma printing_LS: "1 \<le> fuel \<Longrightarrow> printing_on mem_rd mem_wr (on_volume kb reg ft) (functionLS fuel stack)"
proof -
  assume f: "1 \<le> fuel"
  have "printing_on mem_rd mem_wr (on_volume kb reg ft) (pseq (map (\<lambda>f. show_line (file_line m0 (fst f))) fs))"
    using printing_lines [of kb reg ft "map (\<lambda>f. file_line m0 (fst f)) fs"] by (simp add: comp_def)
  then show ?thesis using functionLS_shows [OF _ f] unfolding printing_on_def by simp
qed

lemma printing_CD: "1 \<le> fuel \<Longrightarrow> printing_on mem_rd mem_wr (on_volume kb reg ft) (functionCD fuel stack param)"
proof -
  assume f: "1 \<le> fuel"
  have "printing_on mem_rd mem_wr (on_volume kb reg ft) (if \<exists>(k, t) \<in> set fs. padded_name (str t) = padded_name param then pskip
        else pseq [print (literal ''Directory not found'') 20, printLn])"
    unfolding pskip_def by (intro memory_screen.printing_rules memory_screen.printing_text)
  then show ?thesis using functionCD_shows [OF _ f] unfolding printing_on_def by simp
qed

lemma functionLS_entries:
  assumes "on_volume kb reg ft c m" and "1 \<le> fuel"
  shows "run mem_rd mem_wr (functionLS fuel stack) c m
    = run mem_rd mem_wr (pseq (map (\<lambda>f. show_line (entry_line m0 A f)) fs)) c m"
  using functionLS_shows [OF assms] file_line_entry [OF root_lists] by (simp cong: map_cong)

lemma on_volume_same:
  assumes "on_volume kb reg ft c m"
  shows "kernel_files c = ft \<and> display_ready base c m \<and> lists boot_part 1024 A fs m \<and> opens m"
  using assms on_root [OF assms] by (simp add: display_keeps_def)

end

text \<open>The interpretations: a display in the first slot of the device bus, and the volume that \<open>kInit\<close> leaves.\<close>

interpretation first_slot: volume_screen PERIPHERAL_BEGIN m0 for m0
proof
  fix a :: u32 assume "a < DISPLAY_REGISTERS"
  then have "unat a < 0x110" by (simp add: DISPLAY_REGISTERS_def word_less_nat_alt)
  then show "32768 \<le> unat (PERIPHERAL_BEGIN + a)" by (simp add: PERIPHERAL_BEGIN_def unat_word_ariths)
qed

definition started_console :: kernel where
  "started_console = (kernel_initial 1)\<lparr>display := PERIPHERAL_BEGIN\<rparr>"

definition started_memory :: mem where
  "started_memory = snd (run mem_rd mem_wr (kInit 0 (\<lambda>_. 0)) started_console (\<lambda>_. 0x10))"

lemma started:
  "table_ok (kernel_files started_console)" "kernel_files started_console = empty_table"
  "lists boot_part 1024 [1 \<mapsto> 30, 3 \<mapsto> 30, 5 \<mapsto> 30, 7 \<mapsto> 128, 13 \<mapsto> 40]
     [(3, ''bin''), (5, ''sys''), (7, ''file''), (13, ''test'')] started_memory"
  "opens started_memory" "display_ready PERIPHERAL_BEGIN started_console started_memory"
proof -
  show t: "table_ok (kernel_files started_console)" "kernel_files started_console = empty_table"
    using empty_table_ok by (simp_all add: started_console_def kernel_initial_def console.defs kernel.defs console_initial_def)
  have d: "display started_console = PERIPHERAL_BEGIN" "poll_limit started_console = 1"
    by (simp_all add: started_console_def kernel_initial_def console.defs kernel.defs console_initial_def)
  then have "display_ready PERIPHERAL_BEGIN started_console (\<lambda>_. 0x10)" by (simp add: display_ready_def)
  from kInit_runs [OF t(1) this, of 0 "\<lambda>_. 0"]
  show "lists boot_part 1024 [1 \<mapsto> 30, 3 \<mapsto> 30, 5 \<mapsto> 30, 7 \<mapsto> 128, 13 \<mapsto> 40]
     [(3, ''bin''), (5, ''sys''), (7, ''file''), (13, ''test'')] started_memory"
    "opens started_memory" "display_ready PERIPHERAL_BEGIN started_console started_memory"
    by (auto simp: started_memory_def display_ready_def d PERIPHERAL_BEGIN_def)
qed

interpretation started: root_volume PERIPHERAL_BEGIN started_memory "[1 \<mapsto> 30, 3 \<mapsto> 30, 5 \<mapsto> 30, 7 \<mapsto> 128, 13 \<mapsto> 40]"
    "[(3, ''bin''), (5, ''sys''), (7, ''file''), (13, ''test'')]" empty_table
  by unfold_locales (use started in simp_all)


section \<open>What the commands show\<close>

definition behind_volume :: "u32 \<Rightarrow> bool" where
  "behind_volume base \<longleftrightarrow> (\<forall>a < DISPLAY_REGISTERS. 32768 \<le> unat (base + a))"

lemma root_volumeI:
  assumes "behind_volume base" "table_ok (kernel_files c)" "display_ready base c m"
    and "lists boot_part 1024 A fs m" "opens m"
  shows "root_volume base m A fs (kernel_files c)" "display_keeps base (same_volume m) (keyboard c, CommandRegistry c, kernel.fields (kernel_files c)) c m"
  using assms by (auto simp: behind_volume_def display_keeps_def more_files intro!: root_volume.intro volume_screen.intro root_volume_axioms.intro)

text \<open>
  C22. The command \<open>ls\<close>. On a volume whose root directory lists files, and with a display behind it, the command
  returns, and what it does is to show one line for each of them, in their order: the attributes, the name, and the size of the
  file or, for a directory, the word for it. The volume, the table of open files and the display are as before.
\<close>

theorem functionLS_lists:
  assumes "behind_volume base" and "table_ok (kernel_files c)" and "display_ready base c m"
    and "lists boot_part 1024 A fs m" and "opens m" and "1 \<le> fuel"
  shows "\<exists>c' m'. run mem_rd mem_wr (functionLS fuel stack) c m = (Some ((), c'), m')
    \<and> run mem_rd mem_wr (pseq (map (\<lambda>f. show_line (entry_line m A f)) fs)) c m = (Some ((), c'), m')
    \<and> kernel_files c' = kernel_files c \<and> display_ready base c' m' \<and> lists boot_part 1024 A fs m' \<and> opens m'"
proof -
  note r = root_volumeI [OF assms(1-5)]
  obtain c' m' where "run mem_rd mem_wr (functionLS fuel stack) c m = (Some ((), c'), m')"
    "display_keeps base (same_volume m) (keyboard c, CommandRegistry c, kernel.fields (kernel_files c)) c' m'"
    using root_volume.printing_LS [OF r(1) assms(6), where stack = stack] r(2) unfolding printing_on_def by fastforce
  then show ?thesis
    using root_volume.functionLS_entries [OF r assms(6), of stack] root_volume.on_volume_same [OF r(1)] by metis
qed

theorem functionLS_lists_witness:
  "\<exists>c' m'. run mem_rd mem_wr (functionLS 1 (\<lambda>_. 0)) started_console started_memory = (Some ((), c'), m')
    \<and> run mem_rd mem_wr (pseq (map (\<lambda>f. show_line (entry_line started_memory [1 \<mapsto> 30, 3 \<mapsto> 30, 5 \<mapsto> 30, 7 \<mapsto> 128, 13 \<mapsto> 40] f))
        [(3, ''bin''), (5, ''sys''), (7, ''file''), (13, ''test'')])) started_console started_memory = (Some ((), c'), m')
    \<and> opens m'"
proof -
  have "behind_volume PERIPHERAL_BEGIN" using first_slot.above by (simp add: behind_volume_def)
  from functionLS_lists [OF this started(1,5,3,4), of 1 "\<lambda>_. 0"] show ?thesis by auto
qed

text \<open>
  The command \<open>cd\<close> on such a volume returns and changes nothing but the display: it shows that the directory
  is not found if and only if no file of the root directory has the parameter, cut at a NUL and padded
  with blanks, as its name.
\<close>

theorem functionCD_finds:
  assumes "behind_volume base" and "table_ok (kernel_files c)" and "display_ready base c m"
    and "lists boot_part 1024 A fs m" and "opens m" and "1 \<le> fuel"
  shows "run mem_rd mem_wr (functionCD fuel stack param) c m =
    run mem_rd mem_wr (if \<exists>(k, t) \<in> set fs. padded_name (str t) = padded_name param then pskip
        else pseq [print (literal ''Directory not found'') 20, printLn]) c m
    \<and> (\<exists>c' m'. run mem_rd mem_wr (functionCD fuel stack param) c m = (Some ((), c'), m')
      \<and> kernel_files c' = kernel_files c \<and> display_ready base c' m' \<and> lists boot_part 1024 A fs m' \<and> opens m')"
proof -
  note r = root_volumeI [OF assms(1-5)]
  obtain c' m' where "run mem_rd mem_wr (functionCD fuel stack param) c m = (Some ((), c'), m')"
    "display_keeps base (same_volume m) (keyboard c, CommandRegistry c, kernel.fields (kernel_files c)) c' m'"
    using root_volume.printing_CD [OF r(1) assms(6), where stack = stack and param = param] r(2) unfolding printing_on_def by fastforce
  then show ?thesis
    using root_volume.functionCD_shows [OF r assms(6), of stack param] root_volume.on_volume_same [OF r(1)] by blast
qed

theorem functionCD_finds_witness:
  "run mem_rd mem_wr (functionCD 1 (\<lambda>_. 0) (str ''bin'')) started_console started_memory
    = (Some ((), started_console), started_memory)"
proof -
  have "behind_volume PERIPHERAL_BEGIN" using first_slot.above by (simp add: behind_volume_def)
  from functionCD_finds [OF this started(1,5,3,4), of 1 "\<lambda>_. 0" "str ''bin''"] show ?thesis by (simp add: run_simps pskip_def)
qed

end
