(* ===== verification/KernelMain.thy ===== *)
theory KernelMain
  imports Session KernelBase Interrupts Scheduler
begin

text \<open>
  The program: \<open>main\<close> (kernel/main.c) on the Retroboard REV2. \<open>start_up\<close> is the code in front of the loop, in its
  order; \<open>loop_turn\<close> is the body of the loop. The state of the whole kernel, the \<open>machine\<close>, is made of the states of
  its parts, and a function of a part works on its own one. The inductive relation
  \<open>main_step\<close> has the turns of the loop, the interrupts that come in between them, and the peripherals,
  which may change their cells at any time. Left out are the wait states that \<open>fsInit\<close> sets, the ports
  that \<open>bus_initiate\<close> resets (theory BusPins) and the delay.
\<close>

section \<open>The state\<close>

record machine =
  sys_console :: kernel
  sys_tables :: tables
  sys_sched :: sched          \<comment> \<open>with the interrupt registers\<close>
  sys_vectors :: vector_table
  totalAllocatedMemory :: u32

text \<open>A statement of a part of the state, as a statement of the whole.\<close>

definition in_console :: "(kernel, 'a) prog \<Rightarrow> (machine, 'a) prog" where
  "in_console = pzoom sys_console (\<lambda>c. sys_console_update (\<lambda>_. c))"

definition in_tables :: "(tables, 'a) prog \<Rightarrow> (machine, 'a) prog" where
  "in_tables = pzoom sys_tables (\<lambda>t. sys_tables_update (\<lambda>_. t))"

definition in_interrupts :: "(interrupt_state \<Rightarrow> interrupt_state) \<Rightarrow> (machine, unit) prog" where
  "in_interrupts f = pmod (sys_sched_update (interrupt_update f))"

lemmas part_runs = in_console_def in_tables_def in_interrupts_def run_pzoom


section \<open>Starting\<close>

text \<open>The address behind a driver's name. None: a null pointer is followed.\<close>

definition hardware_of :: "tables \<Rightarrow> string \<Rightarrow> u8 \<Rightarrow> u32 option" where
  "hardware_of st name len =
     do {
       p \<leftarrow> GetDriverByName st (name_buffer name) len;
       drv \<leftarrow> drivers st p;
       Some (hardware_address (driver_device drv))
     }"

definition link_console :: "(machine, unit) prog" where
  "link_console =
     pbind (in_tables (plift (\<lambda>st. do {
       keyboadDevice \<leftarrow> hardware_of st ''PS2'' 4;
       displayDevice \<leftarrow> hardware_of st ''display'' 8;
       Some ((keyboadDevice, displayDevice), st) })))
     (\<lambda>(keyboadDevice, displayDevice). in_console (cliInit keyboadDevice displayDevice))"

text \<open>The functions of the two commands, by the numbers under which they are registered.\<close>

definition LS_FUNCTION :: nat where "LS_FUNCTION = 1"
definition CD_FUNCTION :: nat where "CD_FUNCTION = 2"

definition start_kernel :: "ptr \<Rightarrow> ptr \<Rightarrow> nat \<Rightarrow> buffer \<Rightarrow> (machine, unit) prog" where
  "start_kernel display_driver keyboard_driver fuel stack =
     pseq
      [in_tables (plift (\<lambda>st. map_option (Pair ()) (InitBakedDrivers display_driver keyboard_driver st))),
       in_tables InitiateDeviceTable,
       pmod (sys_vectors_update KernelVectorTableInit),
       link_console,
       pbind (in_console AllocateExternalMemory) (\<lambda>n. pmod (totalAllocatedMemory_update (\<lambda>_. n))),
       in_console (kInit fuel stack),
       in_console (pmod (registerCommandLS LS_FUNCTION)),
       in_console (pmod (registerCommandCD CD_FUNCTION))]"

definition start_interrupts :: "(machine, unit) prog" where
  "start_interrupts =
     pseq
      [in_console printPrompt,
       in_interrupts (SetHardwareInterruptService HardwareService),
       in_interrupts InterruptStartHardware,
       pmod (sys_sched_update SchedulerStart),
       in_interrupts InterruptStartScheduler,
       in_interrupts InterruptStartTimeCounter,
       in_interrupts EnableGlobalInterrupts]"

definition start_up :: "ptr \<Rightarrow> ptr \<Rightarrow> nat \<Rightarrow> buffer \<Rightarrow> (machine, unit) prog" where
  "start_up display_driver keyboard_driver fuel stack =
     pseq [start_kernel display_driver keyboard_driver fuel stack, start_interrupts]"


section \<open>The loop\<close>

text \<open>
  What a function pointer in the registry does. \<open>functionCD\<close> is given the string, which the file
  system reads up to ten characters of.
\<close>

definition commands :: "nat \<Rightarrow> buffer \<Rightarrow> nat \<Rightarrow> buffer \<Rightarrow> u8 \<Rightarrow> (kernel, unit) prog" where
  "commands fuel stack f string len =
     (if f = LS_FUNCTION then functionLS fuel stack
      else if f = CD_FUNCTION then functionCD fuel stack (map string [0..<10])
      else pskip)"

definition loop_turn :: "nat \<Rightarrow> buffer \<Rightarrow> (machine, unit) prog" where
  "loop_turn fuel stack =
     pseq
      [in_interrupts DisableGlobalInterrupts,
       in_console (pdo (cliRunShell (commands fuel stack))),
       in_interrupts EnableGlobalInterrupts]"

text \<open>The program installs no other service for the hardware vectors than the one that does nothing.\<close>

definition hardware_service :: "service \<Rightarrow> (machine, unit) prog" where
  "hardware_service f = (if f = nullfunction then pskip else (\<lambda>s. Ret None))"

definition hardware_interrupt :: "(machine, unit) prog" where
  "hardware_interrupt = pwith (\<lambda>s. ISR_hardware_service_routine hardware_service (sys_vectors s))"

text \<open>
  Between two turns of the loop an interrupt is handled, or a handler that lies on the stack goes on;
  no turn begins while one lies there. The peripherals answer as they like,
  except that the first register of the display keeps its identifier.
\<close>

inductive main_step :: "nat \<Rightarrow> buffer \<Rightarrow> (machine \<times> frame list) \<times> mem \<Rightarrow> (machine \<times> frame list) \<times> mem \<Rightarrow> bool"
  for fuel :: nat and stack :: buffer where
  turn: "run mem_rd mem_wr (loop_turn fuel stack) s m = (Some ((), s'), m') \<Longrightarrow>
    main_step fuel stack ((s, []), m) ((s', []), m')"
| scheduler: "sched_step (sys_sched s, fs) (sc, fs') \<Longrightarrow>
    main_step fuel stack ((s, fs), m) ((s\<lparr>sys_sched := sc\<rparr>, fs'), m)"
| hardware: "interruptible (sys_sched s) \<Longrightarrow> run mem_rd mem_wr hardware_interrupt s m = (Some ((), s'), m') \<Longrightarrow>
    main_step fuel stack ((s, fs), m) ((s', fs), m')"
| peripherals: "\<forall>a. a < PERIPHERAL_BEGIN \<or> a = display (sys_console s) \<longrightarrow> m' a = m a \<Longrightarrow>
    main_step fuel stack ((s, fs), m) ((s, fs), m')"


section \<open>The steps of the start\<close>

lemma mem_back: "mem_rd (mem_wr m a b) a = (b, mem_wr m a b)"
  by (simp add: mem_rd_def mem_wr_def)

lemma cliInit_runs:
  "\<exists>c' m'. run mem_rd mem_wr (cliInit kb dp) c m = (Some ((), c'), m')
    \<and> display c' = dp \<and> poll_limit c' = poll_limit c \<and> m' dp = m dp
    \<and> kept_variables c' = (kb, CommandRegistry (blank_registry c), console.more c)"
  by (auto simp: cliInit_def read_scan_code_def dwrite_def run_simps mem_rd_def mem_wr_def ConsoleSetPrompt_def
      set_prompt_def set_old_scan_code_def ConsoleClearKeyboardString_def blank_registry_def cong: if_cong)

text \<open>In front of the peripherals there is memory, all of it.\<close>

lemma size_loop_memory:
  assumes "display_keeps base (\<lambda>_. True) e c m" and "k + n \<le> MAX_MEMORY_SIZE" and "MAX_MEMORY_SIZE \<le> unat base"
  shows "\<exists>c' m'. run mem_rd mem_wr (size_loop n (of_nat k) cnt t) c m = (Some (of_nat (k + n), c'), m')
    \<and> display_keeps base (\<lambda>_. True) e c' m'"
  using assms(1,2)
proof (induction n arbitrary: k cnt t c m)
  case 0
  then show ?case by (simp add: run_simps)
next
  case (Suc n)
  let ?good = "display_keeps base (\<lambda>_. True) e" and ?m = "mem_wr (mem_wr m (of_nat k) 0x55) (of_nat k) 0xAA"
  have "k < 2 ^ 32" using Suc.prems(2) by (simp add: MAX_MEMORY_SIZE_def)
  then have ne: "of_nat k \<noteq> base" using Suc.prems(2) assms(3) by (auto simp: unat_of_nat_u32)
  have g: "?good c ?m" using Suc.prems(1) ne by (simp add: display_keeps_def display_ready_def mem_wr_def)
  have next_k: "of_nat k + 1 = (of_nat (Suc k) :: u32)" by simp
  note IH = Suc.IH [where k = "Suc k"]
  show ?case
  proof (cases "cnt + 1 < 1024")
    case True
    then show ?thesis
      using IH [OF g, of "cnt + 1" t] Suc.prems(2) by (simp add: run_pbind run_pread run_pwrite mem_back next_k del: of_nat_Suc)
  next
    case False
    obtain place u where u: "int_to_string (of_nat k + 1) t = (place, u)" by force
    let ?show = "pseq [ConsoleSetCursor 0 0, print u 10, printLn, ConsoleSetCursor 0 place]"
    have "printing_on mem_rd mem_wr ?good ?show"
      by (intro any_memory.memory_screen.printing_pseq_Cons any_memory.memory_screen.printing_pseq_Nil
          any_memory.memory_screen.printing_text)
    then obtain c1 m1 where 1: "run mem_rd mem_wr ?show c ?m = (Some ((), c1), m1)" "?good c1 m1"
      using g unfolding printing_on_def by fastforce
    show ?thesis
      using IH [OF 1(2), of 0 u] Suc.prems(2) False
      by (simp add: run_pbind run_pread run_pwrite mem_back next_k u [unfolded next_k] 1(1) del: of_nat_Suc)
  qed
qed

lemma AllocateExternalMemory_memory:
  assumes g: "display_keeps base (\<lambda>_. True) e c m" and b: "MAX_MEMORY_SIZE \<le> unat base"
  shows "\<exists>c' m'. run mem_rd mem_wr AllocateExternalMemory c m = (Some (0x40001, c'), m')
    \<and> display_keeps base (\<lambda>_. True) e c' m'"
proof -
  let ?good = "display_keeps base (\<lambda>_. True) e"
  have "printing_on mem_rd mem_wr ?good ConsoleCursorDisable"
    unfolding ConsoleCursorDisable_def by (intro any_memory.memory_screen.printing_rules) simp
  then obtain c1 m1 where 1: "run mem_rd mem_wr ConsoleCursorDisable c m = (Some ((), c1), m1)" "?good c1 m1"
    using g unfolding printing_on_def by fastforce
  obtain c2 m2 where 2: "run mem_rd mem_wr (size_loop MAX_MEMORY_SIZE 0 0 (\<lambda>_. 0x20)) c1 m1 = (Some (0x40000, c2), m2)" "?good c2 m2"
    using size_loop_memory [OF 1(2), of 0 MAX_MEMORY_SIZE 0 "\<lambda>_. 0x20"] b by (auto simp: MAX_MEMORY_SIZE_def)
  let ?show = "pseq [printSpace 1, print (literal ''bytes free'') 11, printLn]"
  have "printing_on mem_rd mem_wr ?good ?show"
    by (intro any_memory.memory_screen.printing_pseq_Cons any_memory.memory_screen.printing_pseq_Nil
        any_memory.memory_screen.printing_text)
  then obtain c3 m3 where 3: "run mem_rd mem_wr ?show c2 m2 = (Some ((), c3), m3)" "?good c3 m3"
    using 2(2) unfolding printing_on_def by fastforce
  then show ?thesis
    by (simp add: AllocateExternalMemory_def run_pbind 1(1) 2(1) Let_def run_preturn)
qed

text \<open>Both commands are in the registry, and no others.\<close>

definition registered :: "(nat \<Rightarrow> command) \<Rightarrow> bool" where
  "registered reg \<longleftrightarrow> command_word (command_name (reg 0)) = str ''ls'' \<and> command_function (reg 0) = LS_FUNCTION
     \<and> command_word (command_name (reg 1)) = str ''cd'' \<and> command_function (reg 1) = CD_FUNCTION
     \<and> (\<forall>i \<in> {2..<8}. command_word (command_name (reg i)) = [])"

lemma commands_registered:
  assumes "CommandRegistry c = CommandRegistry (blank_registry c0)"
  shows "registered (CommandRegistry (registerCommandCD CD_FUNCTION (registerCommandLS LS_FUNCTION c)))"
proof -
  have b: "is_letter 32 = 0" "is_number 32 = 0" "is_letter (ch CHR ''l'') = 1"
    by (simp_all add: is_letter_def is_number_def is_uppercase_def is_lowercase_def ch_def)
  have l: "[0..<8] = [0, 1, 2, 3, 4, 5, 6, 7 :: nat]" "[0..<10] = [0, 1, 2, 3, 4, 5, 6, 7, 8, 9 :: nat]" by (simp_all add: upt_rec)
  have blank: "command_name (CommandRegistry c i) n = ch CHR '' ''" if "i < 8" "n < 10" for i n
    using that assms by (simp add: blank_registry_def CONSOLE_FUNCTION_TABLE_SIZE_def CONSOLE_FUNCTION_NAME_LENGTH_def)
  let ?ls = "\<lparr>command_name = (\<lambda>i. if i < 2 then literal ''ls'' i else command_name (CommandRegistry c 0) i), command_function = LS_FUNCTION\<rparr>"
  let ?cd = "\<lparr>command_name = (\<lambda>i. if i < 2 then literal ''cd'' i else command_name (CommandRegistry c 1) i), command_function = CD_FUNCTION\<rparr>"
  have 1: "registerCommandLS LS_FUNCTION c = c\<lparr>CommandRegistry := (CommandRegistry c)(0 := ?ls)\<rparr>"
    by (simp add: registerCommandLS_def ConsoleRegisterCommand_def CONSOLE_FUNCTION_TABLE_SIZE_def l(1) Let_def
        CONSOLE_FUNCTION_NAME_LENGTH_def blank b ch_def cong: if_cong)
  have "registerCommandCD CD_FUNCTION (registerCommandLS LS_FUNCTION c)
      = c\<lparr>CommandRegistry := (CommandRegistry c)(0 := ?ls, 1 := ?cd)\<rparr>"
    unfolding 1 using b
    by (simp add: registerCommandCD_def ConsoleRegisterCommand_def CONSOLE_FUNCTION_TABLE_SIZE_def l(1) Let_def
        CONSOLE_FUNCTION_NAME_LENGTH_def blank literal_def ch_def cong: if_cong)
  moreover have "command_word (command_name (CommandRegistry c i)) = []" if "i \<in> {2..<8}" for i
    using that by (simp add: command_word_def l(2) blank blank_def)
  ultimately show ?thesis
    by (simp add: registered_def command_word_def l(2) blank blank_def literal_def ch_def)
qed

text \<open>The slots of the device bus are behind the memory.\<close>

lemma slot_behind:
  assumes "j < PERIPHERALS"
  shows "behind_volume (slot_address j)" "MAX_MEMORY_SIZE \<le> unat (slot_address j)" "PERIPHERAL_BEGIN \<le> slot_address j"
proof -
  have "unat (of_nat j :: u32) = j" using assms by (simp add: PERIPHERALS_def unat_of_nat)
  then have u: "unat (slot_address j) = 0x40000 + 0x10000 * j"
    using assms by (simp add: slot_address_def PERIPHERAL_BEGIN_def PERIPHERAL_STRIDE_def PERIPHERALS_def unat_word_ariths)
  show "MAX_MEMORY_SIZE \<le> unat (slot_address j)" "PERIPHERAL_BEGIN \<le> slot_address j"
    using u by (simp_all add: MAX_MEMORY_SIZE_def word_le_nat_alt PERIPHERAL_BEGIN_def)
  show "behind_volume (slot_address j)"
    unfolding behind_volume_def
  proof (intro allI impI)
    fix a :: u32 assume "a < DISPLAY_REGISTERS"
    then have "unat a < 0x110" by (simp add: DISPLAY_REGISTERS_def word_less_nat_alt)
    then show "32768 \<le> unat (slot_address j + a)"
      using u assms by (simp add: unat_word_ariths PERIPHERALS_def)
  qed
qed

lemma display_slot:
  assumes "slots_listed m st vs" and "m PERIPHERAL_BEGIN = 0x10"
  defines "base \<equiv> hardware_address (driver_device (linked_driver (devices st) vs display_object))"
  shows "m base = 0x10 \<and> (\<exists>j < PERIPHERALS. base = slot_address j)"
proof -
  have o: "hardware_address (driver_device display_object) = slot_address 0" "device_id (driver_device display_object) = 0x10"
    "m (slot_address 0) = 0x10" "0 < PERIPHERALS"
    using assms(2) by (simp_all add: display_object_def put_hardware_def slot_address_def PERIPHERALS_def)
  show ?thesis using linked_driver_address [OF assms(1), of display_object] o unfolding base_def by auto
qed

section \<open>From reset to the prompt\<close>

text \<open>No process exists, and none runs.\<close>

definition quiet :: "sched \<Rightarrow> bool" where
  "quiet s \<longleftrightarrow> holds (nodes s) (ProcessNodeTable s) [] \<and> flagProcActive s = 0"

definition serving :: "interrupt_state \<Rightarrow> bool" where
  "serving i \<longleftrightarrow> timer_comp_a i = SchedulerTimer \<and> timer_comp_b i = SchedulerMain \<and> external_int i = HardwareService
     \<and> running (TCCR0B i) \<and> running (TCCR1B i) \<and> bit (EIMSK i) 2 \<and> global_interrupts i"

text \<open>What the C runtime and the board leave: nothing but the identifier of a display in the first slot is asked for.\<close>

definition at_reset :: "ptr \<Rightarrow> ptr \<Rightarrow> machine \<Rightarrow> mem \<Rightarrow> bool" where
  "at_reset d k s m \<longleftrightarrow> power_up d k (sys_tables s) \<and> FsDirectory.table_ok (kernel_files (sys_console s))
     \<and> 0 < poll_limit (sys_console s) \<and> quiet (sys_sched s) \<and> schedulerIsActive (sys_sched s) = 0
     \<and> m PERIPHERAL_BEGIN = 0x10"

text \<open>At the prompt: the invariant of the loop. The volume is that of \<open>m0\<close>; \<open>e\<close> are the variables that printing does not change.\<close>

definition at_prompt :: "u32 \<Rightarrow> mem \<Rightarrow> u32 \<times> (nat \<Rightarrow> command) \<Rightarrow> ftable \<Rightarrow> machine \<Rightarrow> mem \<Rightarrow> bool" where
  "at_prompt base m0 v ft s m \<longleftrightarrow> display_keeps base (same_volume m0) (fst v, snd v, kernel.fields ft) (sys_console s) m
     \<and> quiet (sys_sched s) \<and> serving (interrupt (sys_sched s))
     \<and> hardware_interrupt_table (sys_vectors s) = replicate HARDWARE_INTERRUPT_TABLE_SIZE nullfunction"

context volume_screen
begin

lemma volume_display: "screen mem_rd mem_wr (display_keeps base (same_volume m0) e)"
  by (rule memory_screen.screen_axioms)

end

lemma behind_screen: "behind_volume base \<Longrightarrow> screen mem_rd mem_wr (display_keeps base (same_volume m0) e)"
  by (rule volume_screen.volume_display, unfold_locales) (simp add: behind_volume_def)

lemma start_interrupts_runs:
  assumes g: "display_keeps base (same_volume m0) e (sys_console s) m" and "behind_volume base"
    and q: "quiet (sys_sched s)" "schedulerIsActive (sys_sched s) = 0"
  shows "\<exists>s' m'. run mem_rd mem_wr start_interrupts s m = (Some ((), s'), m')
    \<and> display_keeps base (same_volume m0) e (sys_console s') m' \<and> quiet (sys_sched s') \<and> serving (interrupt (sys_sched s'))
    \<and> sys_vectors s' = sys_vectors s \<and> totalAllocatedMemory s' = totalAllocatedMemory s"
proof -
  obtain c' m' where 1: "run mem_rd mem_wr printPrompt (sys_console s) m = (Some ((), c'), m')"
    "display_keeps base (same_volume m0) e c' m'"
    using screen.printing_printPrompt [OF behind_screen [OF assms(2)], of m0 e] g unfolding printing_on_def by fastforce
  let ?i = "SetInterruptService 1 SchedulerMain (SetInterruptService 0 SchedulerTimer
    (InterruptStartHardware (SetHardwareInterruptService HardwareService (interrupt (sys_sched s)))))"
  have "serving (EnableGlobalInterrupts (InterruptStartTimeCounter (InterruptStartScheduler ?i)))"
    by (simp add: serving_def EnableGlobalInterrupts_def InterruptStartTimeCounter_def InterruptStartScheduler_def
        SetInterruptService_def InterruptStartHardware_def SetHardwareInterruptService_def running_def bit_of_def bit_simps)
  then show ?thesis
    using 1 q by (simp add: start_interrupts_def run_simps part_runs SchedulerStart_def quiet_def)
qed

lemma start_kernel_runs:
  assumes r: "at_reset d k s m"
  defines "ft \<equiv> kernel_files (sys_console s)"
  shows "\<exists>s' m' base. run mem_rd mem_wr (start_kernel d k fuel stack) s m = (Some ((), s'), m')
    \<and> behind_volume base \<and> PERIPHERAL_BEGIN \<le> base \<and> display_ready base (sys_console s') m' \<and> kernel_files (sys_console s') = ft
    \<and> registered (CommandRegistry (sys_console s'))
    \<and> lists boot_part 1024 [1 \<mapsto> 30, 3 \<mapsto> 30, 5 \<mapsto> 30, 7 \<mapsto> 128, 13 \<mapsto> 40]
        [(3, ''bin''), (5, ''sys''), (7, ''file''), (13, ''test'')] m' \<and> opens m'
    \<and> totalAllocatedMemory s' = 0x40001 \<and> sys_sched s' = sys_sched s
    \<and> hardware_interrupt_table (sys_vectors s') = replicate HARDWARE_INTERRUPT_TABLE_SIZE nullfunction"
proof -
  note r' = r [unfolded at_reset_def]
  obtain t1 t2 vs where t: "InitBakedDrivers d k (sys_tables s) = Some t1"
    "run mem_rd mem_wr InitiateDeviceTable t1 m = (Some ((), t2), m)" "slots_listed m t2 vs"
    "GetDriverByName t2 (name_buffer ''display'') 8 = Some d" "GetDriverByName t2 (name_buffer ''PS2'') 4 = Some k"
    "drivers t2 d = Some (linked_driver (devices t2) vs display_object)"
    "drivers t2 k = Some (linked_driver (devices t2) vs keyboard_object)"
    using devices_linked [of d k "sys_tables s" m] r' by blast
  define base where "base = hardware_address (driver_device (linked_driver (devices t2) vs display_object))"
  define kb where "kb = hardware_address (driver_device (linked_driver (devices t2) vs keyboard_object))"
  have h: "hardware_of t2 ''PS2'' 4 = Some kb" "hardware_of t2 ''display'' 8 = Some base"
    by (simp_all add: hardware_of_def t(4-7) base_def kb_def)
  obtain j where j: "m base = 0x10" "j < PERIPHERALS" "base = slot_address j"
    using display_slot [OF t(3)] r' unfolding base_def by blast
  note b = slot_behind [OF j(2), folded j(3)]
  have b32: "32768 \<le> unat base" using b(2) by (simp add: MAX_MEMORY_SIZE_def)
  obtain c1 m1 where 1: "run mem_rd mem_wr (cliInit kb base) (sys_console s) m = (Some ((), c1), m1)"
    "display c1 = base" "poll_limit c1 = poll_limit (sys_console s)" "m1 base = m base"
    "kept_variables c1 = (kb, CommandRegistry (blank_registry (sys_console s)), console.more (sys_console s))"
    using cliInit_runs by blast
  have "display_keeps base (\<lambda>_. True) (kept_variables c1) c1 m1"
    using 1 r' j(1) by (simp add: display_keeps_def display_ready_def)
  from AllocateExternalMemory_memory [OF this b(2)] obtain c2 m2 where
    2: "run mem_rd mem_wr AllocateExternalMemory c1 m1 = (Some (0x40001, c2), m2)"
    "display_keeps base (\<lambda>_. True) (kept_variables c1) c2 m2" by blast
  have k2: "kernel_files c2 = ft"
    using 2(2) 1(5) more_files [of c2 ft] more_files [of "sys_console s" ft] by (simp add: display_keeps_def ft_def)
  have "FsDirectory.table_ok (kernel_files c2)" "display_ready base c2 m2"
    using 2(2) r' k2 by (simp_all add: display_keeps_def ft_def)
  from kInit_runs [OF this, of fuel stack] obtain c3 m3 where 3: "run mem_rd mem_wr (kInit fuel stack) c2 m2 = (Some ((), c3), m3)"
    "kernel_files c3 = ft" "kept_variables c3 = kept_variables c2" "display_ready base c3 m3"
    "lists boot_part 1024 [1 \<mapsto> 30, 3 \<mapsto> 30, 5 \<mapsto> 30, 7 \<mapsto> 128, 13 \<mapsto> 40]
        [(3, ''bin''), (5, ''sys''), (7, ''file''), (13, ''test'')] m3" "opens m3"
    using b32 k2 by (auto simp: display_ready_def)
  let ?c = "registerCommandCD CD_FUNCTION (registerCommandLS LS_FUNCTION c3)"
  have "CommandRegistry c3 = CommandRegistry (blank_registry (sys_console s))"
    using 1(5) 2(2) 3(3) by (simp add: display_keeps_def)
  note reg = commands_registered [OF this]
  have c: "display ?c = display c3" "poll_limit ?c = poll_limit c3" "kernel_files ?c = kernel_files c3"
    by (simp_all add: registerCommandCD_def registerCommandLS_def ConsoleRegisterCommand_def Let_def)
  let ?s = "s\<lparr>sys_console := ?c, sys_tables := t2, sys_vectors := KernelVectorTableInit (sys_vectors s), totalAllocatedMemory := 0x40001\<rparr>"
  have "run mem_rd mem_wr (start_kernel d k fuel stack) s m = (Some ((), ?s), m3)"
    by (simp add: start_kernel_def link_console_def part_runs run_pseq_Cons run_pseq_Nil run_pbind run_plift run_pmod
        t(1,2) h 1(1) 2(1) 3(1))
  then show ?thesis
    using b(1,3) 3(2,4-6) reg by (intro exI [of _ ?s] exI [of _ m3] exI [of _ base]) (simp add: c display_ready_def KernelVectorTableInit_def)
qed

lemma start_up_runs:
  assumes r: "at_reset d k s m"
  shows "\<exists>s' m' base. run mem_rd mem_wr (start_up d k fuel stack) s m = (Some ((), s'), m')
    \<and> behind_volume base \<and> PERIPHERAL_BEGIN \<le> base
    \<and> at_prompt base m' (keyboard (sys_console s'), CommandRegistry (sys_console s')) (kernel_files (sys_console s)) s' m'
    \<and> registered (CommandRegistry (sys_console s'))
    \<and> lists boot_part 1024 [1 \<mapsto> 30, 3 \<mapsto> 30, 5 \<mapsto> 30, 7 \<mapsto> 128, 13 \<mapsto> 40]
        [(3, ''bin''), (5, ''sys''), (7, ''file''), (13, ''test'')] m' \<and> opens m'
    \<and> totalAllocatedMemory s' = 0x40001"
proof -
  let ?ft = "kernel_files (sys_console s)"
  obtain s1 m1 base where 1: "run mem_rd mem_wr (start_kernel d k fuel stack) s m = (Some ((), s1), m1)"
    "behind_volume base" "PERIPHERAL_BEGIN \<le> base" "display_ready base (sys_console s1) m1" "kernel_files (sys_console s1) = ?ft"
    "registered (CommandRegistry (sys_console s1))"
    "lists boot_part 1024 [1 \<mapsto> 30, 3 \<mapsto> 30, 5 \<mapsto> 30, 7 \<mapsto> 128, 13 \<mapsto> 40]
        [(3, ''bin''), (5, ''sys''), (7, ''file''), (13, ''test'')] m1" "opens m1"
    "totalAllocatedMemory s1 = 0x40001" "sys_sched s1 = sys_sched s"
    "hardware_interrupt_table (sys_vectors s1) = replicate HARDWARE_INTERRUPT_TABLE_SIZE nullfunction"
    using start_kernel_runs [OF r, of fuel stack] by blast
  let ?e = "(keyboard (sys_console s1), CommandRegistry (sys_console s1), kernel.fields ?ft)"
  have "display_keeps base (same_volume m1) ?e (sys_console s1) m1"
    using 1(4,5) by (simp add: display_keeps_def more_files)
  moreover have "quiet (sys_sched s1)" "schedulerIsActive (sys_sched s1) = 0"
    using r 1(10) by (simp_all add: at_reset_def)
  ultimately obtain s' m' where 2: "run mem_rd mem_wr start_interrupts s1 m1 = (Some ((), s'), m')"
    "display_keeps base (same_volume m1) ?e (sys_console s') m'" "quiet (sys_sched s')" "serving (interrupt (sys_sched s'))"
    "sys_vectors s' = sys_vectors s1" "totalAllocatedMemory s' = totalAllocatedMemory s1"
    using start_interrupts_runs [OF _ 1(2)] by blast
  have v: "same_volume m1 m'" and e: "keyboard (sys_console s') = keyboard (sys_console s1)"
    "CommandRegistry (sys_console s') = CommandRegistry (sys_console s1)"
    using 2(2) by (simp_all add: display_keeps_def)
  have "run mem_rd mem_wr (start_up d k fuel stack) s m = (Some ((), s'), m')"
    by (simp add: start_up_def run_pseq_Cons run_pseq_Nil 1(1) 2(1))
  moreover have "at_prompt base m' (keyboard (sys_console s'), CommandRegistry (sys_console s')) ?ft s' m'"
    using 2 1(11) by (simp add: at_prompt_def display_keeps_def)
  ultimately show ?thesis
    using 1(2,3,6,9) 2(6) e same_lists [OF v 1(7)] same_opens [OF v 1(8)] by metis
qed


section \<open>The loop goes on\<close>

locale prompt = root_volume base m0 A fs ft
  for base :: u32 and m0 :: mem and A :: extents and fs :: "(nat \<times> string) list" and ft :: ftable +
  fixes v :: "u32 \<times> (nat \<Rightarrow> command)" and fuel :: nat and stack :: buffer
  assumes on_bus: "PERIPHERAL_BEGIN \<le> base" and fuel: "1 \<le> fuel"
begin

abbreviation here :: "machine \<Rightarrow> mem \<Rightarrow> bool" where
  "here \<equiv> at_prompt base m0 v ft"

lemma printing_commands: "printing_on mem_rd mem_wr (on_volume kb reg ft) (commands fuel stack f t n)"
  unfolding commands_def pskip_def
  by (intro memory_screen.printing_if memory_screen.printing_preturn printing_LS printing_CD fuel)

lemma loop_turn_runs:
  assumes "here s m"
  shows "\<exists>s' m'. run mem_rd mem_wr (loop_turn fuel stack) s m = (Some ((), s'), m') \<and> here s' m'"
proof -
  have "printing_on mem_rd mem_wr (on_volume (fst v) (snd v) ft) (cliRunShell (commands fuel stack))"
    by (intro screen.printing_cliRunShell volume_display printing_commands)
  then obtain x c' m' where "run mem_rd mem_wr (cliRunShell (commands fuel stack)) (sys_console s) m = (Some (x, c'), m')"
    "on_volume (fst v) (snd v) ft c' m'"
    using assms unfolding printing_on_def at_prompt_def by blast
  then show ?thesis
    using assms by (simp add: loop_turn_def run_simps part_runs at_prompt_def pdo_def quiet_def serving_def
        DisableGlobalInterrupts_def EnableGlobalInterrupts_def)
qed

lemma hardware_interrupt_runs:
  assumes "here s m"
  shows "run mem_rd mem_wr hardware_interrupt s m = (Some ((), s), m)"
proof -
  have skips: "run mem_rd mem_wr (pseq ps) s m = (Some ((), s), m)" if "set ps \<subseteq> {pskip}" for ps
    using that by (induction ps) (auto simp: run_simps pskip_def)
  show ?thesis
    using assms unfolding hardware_interrupt_def at_prompt_def
    by (simp add: run_pwith ISR_dispatches mem_rd_def HARDWARE_INTERRUPT_TABLE_SIZE_def)
       (rule skips, auto simp: hardware_service_def)
qed

lemma scheduler_quiet:
  assumes "sched_step (sc, []) (sc', fs')" and "quiet sc"
  shows "fs' = [] \<and> quiet sc' \<and> interrupt sc' = interrupt sc"
  using assms main_empty [of sc]
  by (auto elim!: sched_stepE simp: quiet_def ISR_SCHEDULER_TIMER_def Let_def)

lemma main_step_here:
  assumes "main_step fuel stack ((s, []), m) ((s', fs'), m')" and "here s m"
  shows "fs' = [] \<and> here s' m'"
  using assms(1)
proof (cases rule: main_step.cases)
  case turn
  then show ?thesis using loop_turn_runs [OF assms(2)] by auto
next
  case (scheduler sc)
  then show ?thesis
    using scheduler_quiet [of "sys_sched s" sc fs'] assms(2) by (auto simp: at_prompt_def)
next
  case hardware
  then show ?thesis using hardware_interrupt_runs [OF assms(2)] assms(2) by simp
next
  case peripherals
  have "a < PERIPHERAL_BEGIN" if "unat a < 32768" for a :: u32
    using that by (simp add: PERIPHERAL_BEGIN_def word_less_nat_alt)
  then show ?thesis
    using peripherals assms(2) by (auto simp: at_prompt_def display_keeps_def display_ready_def same_volume_def)
qed

lemma main_steps_here:
  assumes "(main_step fuel stack)\<^sup>*\<^sup>* ((s, []), m) ((s', fs'), m')" and "here s m"
  shows "fs' = [] \<and> here s' m'"
proof -
  have "snd (fst x) = [] \<and> here (fst (fst x)) (snd x)" if "(main_step fuel stack)\<^sup>*\<^sup>* ((s, []), m) x" for x
    using that
  proof (induction rule: rtranclp_induct)
    case base
    then show ?case using assms(2) by simp
  next
    case (step y z)
    then show ?case using main_step_here by (cases y; cases z) (metis fst_conv prod.collapse snd_conv)
  qed
  from this [OF assms(1)] show ?thesis by simp
qed

end

text \<open>The volume that \<open>kInit\<close> leaves, and what holds at the prompt.\<close>

definition first_extents :: extents where
  "first_extents = [1 \<mapsto> 30, 3 \<mapsto> 30, 5 \<mapsto> 30, 7 \<mapsto> 128, 13 \<mapsto> 40]"

definition first_files :: "(nat \<times> string) list" where
  "first_files = [(3, ''bin''), (5, ''sys''), (7, ''file''), (13, ''test'')]"

lemmas first_volume = first_extents_def [symmetric] first_files_def [symmetric]

definition prompt_ready :: "machine \<Rightarrow> mem \<Rightarrow> bool" where
  "prompt_ready s m \<longleftrightarrow> lists boot_part 1024 first_extents first_files m \<and> opens m
     \<and> behind_volume (display (sys_console s)) \<and> display_ready (display (sys_console s)) (sys_console s) m
     \<and> FsDirectory.table_ok (kernel_files (sys_console s)) \<and> registered (CommandRegistry (sys_console s))
     \<and> quiet (sys_sched s) \<and> serving (interrupt (sys_sched s))"

lemma promptI:
  assumes "behind_volume base" "PERIPHERAL_BEGIN \<le> base" "FsDirectory.table_ok ft" "1 \<le> fuel"
    and "lists boot_part 1024 A fs m" "opens m"
  shows "prompt base m A fs ft fuel"
  using assms by (auto simp: behind_volume_def intro!: prompt.intro prompt_axioms.intro root_volume.intro volume_screen.intro root_volume_axioms.intro)

interpretation started_prompt: prompt PERIPHERAL_BEGIN started_memory "[1 \<mapsto> 30, 3 \<mapsto> 30, 5 \<mapsto> 30, 7 \<mapsto> 128, 13 \<mapsto> 40]"
    "[(3, ''bin''), (5, ''sys''), (7, ''file''), (13, ''test'')]" empty_table v 1 stack for v stack
  by unfold_locales simp_all

lemma at_prompt_ready:
  assumes p: "prompt base m0 first_extents first_files ft fuel" and h: "at_prompt base m0 (kb, reg) ft s m"
    and r: "registered reg"
  shows "prompt_ready s m \<and> kernel_files (sys_console s) = ft \<and> same_volume m0 m"
proof -
  have v: "root_volume base m0 first_extents first_files ft" using p by (simp add: prompt_def)
  have s: "behind_volume base" using v by (simp add: root_volume_def volume_screen_def behind_volume_def)
  have t: "FsDirectory.table_ok ft" using v by (simp add: root_volume_def root_volume_axioms_def)
  have o: "display_keeps base (same_volume m0) (kb, reg, kernel.fields ft) (sys_console s) m" using h by (simp add: at_prompt_def)
  then show ?thesis
    using root_volume.on_volume_same [OF v o] h r s t
    by (simp add: prompt_ready_def at_prompt_def display_keeps_def display_ready_def)
qed

text \<open>The states of the kernel: from reset through \<open>start_up\<close>, and on by steps.\<close>

definition reachable :: "nat \<Rightarrow> buffer \<Rightarrow> machine \<times> frame list \<Rightarrow> mem \<Rightarrow> bool" where
  "reachable fuel stack x m \<longleftrightarrow> (\<exists>d k s0 m0 s1 m1. at_reset d k s0 m0
     \<and> run mem_rd mem_wr (start_up d k fuel stack) s0 m0 = (Some ((), s1), m1)
     \<and> (main_step fuel stack)\<^sup>*\<^sup>* ((s1, []), m1) (x, m))"

lemma reachable_here:
  assumes "reachable fuel stack (s, fs) m" and "1 \<le> fuel"
  obtains base m0 kb reg ft where "prompt base m0 first_extents first_files ft fuel" "fs = []"
    "at_prompt base m0 (kb, reg) ft s m" "registered reg"
proof -
  obtain d k s0 m0 s1 m1 where r: "at_reset d k s0 m0" "run mem_rd mem_wr (start_up d k fuel stack) s0 m0 = (Some ((), s1), m1)"
    "(main_step fuel stack)\<^sup>*\<^sup>* ((s1, []), m1) ((s, fs), m)"
    using assms(1) by (auto simp: reachable_def)
  let ?v = "(keyboard (sys_console s1), CommandRegistry (sys_console s1))" and ?ft = "kernel_files (sys_console s0)"
  obtain base where b: "behind_volume base" "PERIPHERAL_BEGIN \<le> base" "at_prompt base m1 ?v ?ft s1 m1"
    "registered (CommandRegistry (sys_console s1))"
    "lists boot_part 1024 first_extents first_files m1" "opens m1"
    using start_up_runs [OF r(1), of fuel stack, unfolded first_volume] r(2) by auto
  have t: "FsDirectory.table_ok ?ft" using r(1) by (simp add: at_reset_def)
  note p = promptI [OF b(1,2) t assms(2) b(5,6)]
  show ?thesis using prompt.main_steps_here [OF p r(3) b(3)] p b(4) that by blast
qed


section \<open>What the kernel does\<close>


text \<open>A machine at reset: a display in the first slot and no other peripheral.\<close>

definition reset_machine :: machine where
  "reset_machine = \<lparr>sys_console = kernel_initial 1, sys_tables = bare_tables,
     sys_sched = demo_sched\<lparr>ProcessNodeTable := 0, schedulerIsActive := 0, interrupt := interrupts_initial\<rparr>,
     sys_vectors = \<lparr>isr_read_waitstate = 0, hardware_interrupt_table = []\<rparr>, totalAllocatedMemory = 0\<rparr>"

definition reset_memory :: mem where
  "reset_memory a = (if a = PERIPHERAL_BEGIN then 0x10 else 0xff)"

lemma reset_machine_at_reset: "at_reset 1 2 reset_machine reset_memory"
  using empty_table_ok bare_tables_power_up
  by (simp add: holds_def at_reset_def reset_machine_def reset_memory_def quiet_def demo_sched_def kernel_initial_def
      console_initial_def console.defs kernel.defs)


lemma reachable_exists: "\<exists>s m. reachable 1 (\<lambda>_. 0) (s, []) m"
  using start_up_runs [OF reset_machine_at_reset, of 1 "\<lambda>_. 0"] reset_machine_at_reset unfolding reachable_def by blast





text \<open>
  C8. Typing \<open>ls\<close>. At the prompt (as \<open>kernel_keeps_volume\<close> shows: always), if the first word of the line is \<open>ls\<close>, in upper or lower case and
  with no punctuation behind it, the interpreter finds the command and shows the four files of the volume: for each its
  attributes, its name, and its size or the word for a directory, in this order.
\<close>

theorem prompt_runs_ls:
  assumes r: "prompt_ready s m" and "1 \<le> fuel"
    and "\<forall>n < 10. is_symbol (console_string (sys_console s) (n + 1)) \<noteq> 1" and "first_word (sys_console s) = str ''ls''"
  shows "\<exists>c' m'. run mem_rd mem_wr (commandFunctionLookup (commands fuel stack) pb) (sys_console s) m = (Some (1, c'), m')
    \<and> run mem_rd mem_wr (pseq (map (\<lambda>f. show_line (entry_line m first_extents f)) first_files)) (sys_console s) m
      = (Some ((), c'), m')"
proof -
  let ?c = "sys_console s"
  have "command_word (command_name (CommandRegistry ?c 0)) = first_word ?c" "command_function (CommandRegistry ?c 0) = LS_FUNCTION"
    using r assms(4) by (simp_all add: prompt_ready_def registered_def)
  moreover have "[0..<8] = 0 # [1..<8 :: nat]" by (simp add: upt_rec)
  ultimately have "commandFunctionLookup (commands fuel stack) pb ?c = pbind (functionLS fuel stack) (\<lambda>_. preturn 1) ?c"
    using commandFunctionLookup_words [OF assms(3), of "commands fuel stack" pb] assms(4)
    by (simp add: Let_def LS_FUNCTION_def commands_def)
  then have "run mem_rd mem_wr (commandFunctionLookup (commands fuel stack) pb) ?c m
      = run mem_rd mem_wr (pbind (functionLS fuel stack) (\<lambda>_. preturn 1)) ?c m"
    by (simp add: run_def)
  moreover have b: "behind_volume (display ?c)" "FsDirectory.table_ok (kernel_files ?c)" "display_ready (display ?c) ?c m"
    "lists boot_part 1024 first_extents first_files m" "opens m"
    using r by (simp_all add: prompt_ready_def)
  note v = root_volumeI [OF this]
  obtain c' m' where "run mem_rd mem_wr (functionLS fuel stack) ?c m = (Some ((), c'), m')"
    using root_volume.printing_LS [OF v(1) assms(2), where stack = stack] v(2) unfolding printing_on_def by fastforce
  ultimately show ?thesis
    using root_volume.functionLS_entries [OF v assms(2), where stack = stack] by (simp add: run_pbind run_preturn)
qed

text \<open>A line with the word \<open>ls\<close> in it.\<close>

definition ls_typed :: "machine \<Rightarrow> machine" where
  "ls_typed s = s\<lparr>sys_console := (sys_console s)\<lparr>console_string := (\<lambda>i. if i = 0 then ch CHR ''l'' else if i = 1 then ch CHR ''s'' else blank)\<rparr>\<rparr>"

theorem prompt_runs_ls_witness:
  "\<exists>s m c' m'. prompt_ready s m \<and> run mem_rd mem_wr (commandFunctionLookup (commands 1 (\<lambda>_. 0)) 0) (sys_console s) m = (Some (1, c'), m')"
proof -
  obtain s m where s: "prompt_ready s m"
    using start_up_runs [OF reset_machine_at_reset, of 1 "\<lambda>_. 0"] reachable_exists reachable_here at_prompt_ready by (metis le_refl)
  then have r: "prompt_ready (ls_typed s) m" by (simp add: prompt_ready_def ls_typed_def display_ready_def)
  have sym: "\<forall>n < 10. is_symbol (console_string (sys_console (ls_typed s)) (n + 1)) \<noteq> 1"
    by (simp add: ls_typed_def blank_def ch_def is_symbol_def)
  have "[0..<10] = [0, 1, 2, 3, 4, 5, 6, 7, 8, 9 :: nat]" by (simp add: upt_rec)
  then have w: "first_word (sys_console (ls_typed s)) = str ''ls''"
    by (simp add: ls_typed_def first_word_def command_word_def blank_def ch_def lowercase_def is_uppercase_def)
  from prompt_runs_ls [OF r _ sym w, of 1 "\<lambda>_. 0" 0] r show ?thesis by auto
qed

end
