(* ===== verification/Commands.thy ===== *)
theory Commands
  imports KernelMain Network
begin

text \<open>
  The commands that \<open>main\<close> does not register (kernel/command), the speaker and the timer
  (kernel/syscalls), and the interface of the virtual file system with its allocator, whose bodies are
  constants (kernel/vfs.c, kernel/syscalls/alloc/new.c). A command gets the string behind its name and a
  length. Which of them come back to the prompt, and what they leave, is the subject.
\<close>

section \<open>State\<close>

text \<open>The static variables of the commands and the parts of the kernel they call, beside the console.\<close>

record applications = console +
  app_nic :: nic
  app_tables :: tables
  app_sched :: sched
  page :: u8
  dump_mode :: u8           \<comment> \<open>\<open>mode\<close> in the code\<close>
  isInitiated :: u8
  globalAllocs :: u32
  globalAllocBytes :: u32

type_synonym 'a app = "(applications, 'a) prog"

definition on_network :: "'a net \<Rightarrow> 'a app" where
  "on_network m = pzoom app_nic (\<lambda>n. app_nic_update (\<lambda>_. n)) m"

text \<open>A line of text.\<close>

definition say :: "string \<Rightarrow> ('x, unit) con" where
  "say t = pseq [print (literal t) (of_nat (length t) + 1), printLn]"


section \<open>Virtual files and allocation\<close>

definition vfsOpen :: "buffer \<Rightarrow> u8 \<Rightarrow> u32" where "vfsOpen filename nameLength = 0"
definition vfsClose :: "u32 \<Rightarrow> u8" where "vfsClose index = 0"
definition vfsRead :: "u32 \<Rightarrow> u8 \<Rightarrow> u32 \<Rightarrow> u8" where "vfsRead index buf sz = 0"
definition vfsWrite :: "u32 \<Rightarrow> u8 \<Rightarrow> u32 \<Rightarrow> u8" where "vfsWrite index buf sz = 0"
definition vfsChdir :: "buffer \<Rightarrow> u8 \<Rightarrow> u8" where "vfsChdir directoryName nameLength = 0"
definition vfsMkdir :: "buffer \<Rightarrow> u8 \<Rightarrow> u8" where "vfsMkdir filename nameLength = 1"
definition vfsRmdir :: "buffer \<Rightarrow> u8 \<Rightarrow> u8" where "vfsRmdir filename nameLength = 0"
definition vfsLookup :: "buffer \<Rightarrow> u8 \<Rightarrow> u8" where "vfsLookup pathname pathLength = 0"

definition new :: "u32 \<Rightarrow> applications \<Rightarrow> u32 \<times> applications" where "new sz s = (0, s)"
definition delete :: "u32 \<Rightarrow> applications \<Rightarrow> applications" where "delete ptr s = s"
definition kAllocationsGetSize :: "applications \<Rightarrow> u32" where "kAllocationsGetSize s = globalAllocBytes s"


section \<open>Speaker and timer\<close>

text \<open>The waiting between two bytes has no effect on the state.\<close>

definition beep :: "u16 \<Rightarrow> u16 \<Rightarrow> ('s, unit) prog" where
  "beep duration frequency = pfor [0..<unat duration] (\<lambda>i. pwrite 0x60000 0xff)"

definition sysbeep :: "('s, unit) prog" where
  "sysbeep = beep 300 14000"

definition time_ms :: "sched \<Rightarrow> 64 word" where
  "time_ms s = system_timer_ms s"


section \<open>Commands that print\<close>

definition functionCLS :: "buffer \<Rightarrow> u8 \<Rightarrow> ('x, unit) con" where
  "functionCLS param param_length = pseq [ConsoleClearScreen (ch CHR '' ''), ConsoleSetCursor 0 0]"

definition functionDIAG :: "buffer \<Rightarrow> u8 \<Rightarrow> ('x, unit) con" where
  "functionDIAG param param_length = print (literal ''Fuck'') 5"

definition functionTASK :: "buffer \<Rightarrow> u8 \<Rightarrow> unit app" where
  "functionTASK param param_length =
     pwith (\<lambda>s.
       let taskIndex = TaskFind param param_length (app_sched s);
           (destroyed, sched) = TaskDestroy taskIndex (app_sched s)
       in pseq
        [pmod (app_sched_update (\<lambda>_. sched)),
         say (if destroyed = 0 then ''Task not found'' else ''Task stopped'')])"

text \<open>The tests are in the order of the code; the result has a sign.\<close>

definition functionLD :: "buffer \<Rightarrow> u8 \<Rightarrow> ('x, unit) con" where
  "functionLD param param_length =
     (let libState = LoadLibrary param param_length in
      pseq
       [(if libState = 0 then say ''File not found'' else pskip),
        (if libState = 1 then say ''Driver loaded'' else pskip),
        (if libState = -1 then say ''Invalid driver'' else pskip),
        (if libState = -2 then say ''Already loaded'' else pskip)])"

definition functionMEM :: "buffer \<Rightarrow> u8 \<Rightarrow> unit app" where
  "functionMEM param param_length =
     pseq
      [pwith (\<lambda>s. printInt (kAllocationsGetSize s)),
       printSpace 1,
       print (literal ''bytes'') 6,
       printLn]"


section \<open>The memory dump\<close>

definition PAGE_SIZE :: nat where "PAGE_SIZE = 20 * 8"

text \<open>
  The address is computed in an \<open>int\<close> of 16 bits. In hexadecimal mode eight digits go into a local
  array of two bytes, so that the stack is overwritten at the first byte: None.
\<close>

definition page_address :: "u8 \<Rightarrow> nat \<Rightarrow> u32" where
  "page_address p i = scast (ucast p * of_nat PAGE_SIZE + of_nat i :: 16 word)"

definition select_page :: "buffer \<Rightarrow> applications \<Rightarrow> applications" where
  "select_page param s =
     (let s = (if is_number (param 0) = 1 then s\<lparr>page := param 0 - ch CHR ''0''\<rparr> else s) in
      if is_letter (param 0) = 1
      then
        let s = (if param 0 = ch CHR ''d'' then s\<lparr>dump_mode := 0\<rparr> else s)
        in if param 0 = ch CHR ''h'' then s\<lparr>dump_mode := 1\<rparr> else s
      else s)"

primrec read_page :: "u8 \<Rightarrow> nat list \<Rightarrow> buffer \<Rightarrow> ('s, buffer) prog" where
  "read_page p [] buf = preturn buf"
| "read_page p (i # is) buf = pbind (pread (page_address p i)) (\<lambda>b. read_page p is (buf(i := b)))"

definition functionList :: "buffer \<Rightarrow> buffer \<Rightarrow> u8 \<Rightarrow> unit app" where
  "functionList stack param param_length =
     pseq
      [pmod (select_page param),
       pwith (\<lambda>s. pbind (read_page (page s) [0..<PAGE_SIZE] stack) (\<lambda>buf.
       pseq
        [pmod (page_update (\<lambda>p. p + 1)),
         (if dump_mode s = 1 then (\<lambda>s. Ret None)
          else pfor [0..<7] (\<lambda>i. pseq [print (\<lambda>k. buf (20 * i + k)) 21, printLn]))]))]"


section \<open>Commands for the network\<close>

text \<open>The address of the network card, if its driver is in the table. None: a null pointer is followed.\<close>

definition network_card :: "tables \<Rightarrow> u32 option option" where
  "network_card st =
     do {
       p \<leftarrow> GetDriverByName st (name_buffer ''network'') 7;
       if p = 0 then Some None
       else do { drv \<leftarrow> drivers st p; Some (Some (hardware_address (driver_device drv))) }
     }"

text \<open>What is behind the \<open>return\<close> is never executed; \<open>stack\<close> is what the buffer that is sent holds.\<close>

definition functionNet :: "buffer \<Rightarrow> buffer \<Rightarrow> u8 \<Rightarrow> unit app" where
  "functionNet stack param param_length =
     pwith (\<lambda>s.
     pbind
      (if isInitiated s = 0
       then case network_card (app_tables s) of
              None \<Rightarrow> (\<lambda>s. Ret None)
            | Some found \<Rightarrow> pbind (on_network (ntInit found)) (\<lambda>r.
                if r = 0 then preturn False
                else pbind (pmod (isInitiated_update (\<lambda>_. 1))) (\<lambda>_. preturn True))
       else preturn True)
      (\<lambda>initiated.
        if \<not> initiated then say ''Initiation failed''
        else
          pbind (on_network ntCheckInitiated) (\<lambda>ready.
            if ready = 0 then say ''Device driver error''
            else on_network (ntSend stack 32))))"

text \<open>One round of the loop of \<open>ftp recv\<close>, which never ends, and \<open>n\<close> of them.\<close>

definition ftp_round :: "buffer \<Rightarrow> u16 \<Rightarrow> (buffer \<times> u16) app" where
  "ftp_round buf displayUpdate =
     pbind (on_network (ntReceive buf 80)) (\<lambda>(numberOfBytes, buf).
       let displayUpdate = displayUpdate + 1 in
       if displayUpdate > 300
       then pbind (pseq [ConsoleSetCursor 0 0, print buf numberOfBytes]) (\<lambda>_. preturn (buf, 0))
       else preturn (buf, displayUpdate))"

primrec ftp_rounds :: "nat \<Rightarrow> buffer \<Rightarrow> u16 \<Rightarrow> (buffer \<times> u16) app" where
  "ftp_rounds 0 buf displayUpdate = preturn (buf, displayUpdate)"
| "ftp_rounds (Suc n) buf displayUpdate = pbind (ftp_round buf displayUpdate) (\<lambda>(buf, d). ftp_rounds n buf d)"

definition param_is :: "string \<Rightarrow> buffer \<Rightarrow> bool" where
  "param_is w param \<longleftrightarrow> (\<forall>i \<in> set [0..<length w]. param i = ch (w ! i))"

definition functionFTP :: "nat \<Rightarrow> buffer \<Rightarrow> buffer \<Rightarrow> u8 \<Rightarrow> unit app" where
  "functionFTP n stack param param_length =
     (if param_is ''send'' param then on_network (ntSend (literal ''String of text'') 15)
      else if param_is ''recv'' param
      then pseq
       [ConsoleCursorDisable,
        ConsoleClearScreen (ch CHR '' ''),
        pdo (ftp_rounds n stack 0)]
      else pskip)"

definition functionTest :: "buffer \<Rightarrow> buffer \<Rightarrow> u8 \<Rightarrow> unit app" where
  "functionTest stack param param_length =
     pwith (\<lambda>s. case network_card (app_tables s) of
         None \<Rightarrow> (\<lambda>s. Ret None)
       | Some None \<Rightarrow> say ''Driver not found''
       | Some (Some a) \<Rightarrow>
           pbind (foldr (\<lambda>i rest buf. pbind (pread (a + of_nat i)) (\<lambda>b. rest (buf(i := b)))) [0..<30] preturn stack)
             (\<lambda>buf. pseq [print buf 30, printLn]))"


section \<open>Commands that do not come back\<close>

definition functionDEMO :: "buffer \<Rightarrow> u8 \<Rightarrow> ('x, unit) con" where
  "functionDEMO param param_length = kHalt"

definition sprite :: "u8 list" where
  "sprite = [0x40, 0x28, 0x14, 0xfe, 0x14, 0x28, 0x40, 0x00]"

definition worldMap :: string where
  "worldMap =
      ''T T             ''
      @ ''TTT             ''
      @ ''  T             ''
      @ ''T  T            ''
      @ ''TT T            ''
      @ '' TT             ''
      @ ''T               ''
      @ ''                ''"

definition functionMandelbrot :: "buffer \<Rightarrow> u8 \<Rightarrow> ('x, unit) con" where
  "functionMandelbrot param param_length =
     pseq
      [dwrite 0x00000 (\<lambda>c. 1),
       dwrite 0x00001 (\<lambda>c. 0),
       dwrite 0x00002 (\<lambda>c. 0),
       pfor [0..<8] (\<lambda>r. pseq
        [dwrite 0x00001 (\<lambda>c. of_nat r),
         pfor [0..<128] (\<lambda>k. dwrite (0x00010 + of_nat k) (\<lambda>c. 0x00))]),
       dwrite 0x00001 (\<lambda>c. 0),
       dwrite 0x00002 (\<lambda>c. 0),
       pfor [0..<8] (\<lambda>l. pfor [0..<16] (\<lambda>w.
         if worldMap ! (w + l * 16) = CHR ''T''
         then pseq
          [dwrite 0x00001 (\<lambda>c. of_nat l),
           dwrite 0x00002 (\<lambda>c. of_nat w * 8),
           pfor [0..<8] (\<lambda>k. dwrite (0x00010 + of_nat k) (\<lambda>c. sprite ! k))]
         else pskip)),
       kHalt]"

text \<open>
  The cube. A float is its four bytes, the lowest first: 0, 9 and -0 are given; \<open>angle k j\<close> is the \<open>j\<close>-th
  rotation after \<open>k\<close> additions, which are the processor's. The loop never ends; the model has \<open>n\<close> rounds.
\<close>

definition vertexBuffer :: "int list" where
  "vertexBuffer =
     [-10, -10, -10, 10, -10, -10, 10, 10, -10, 3,
      10, 10, -10, -10, 10, -10, -10, -10, -10, 3,
      10, -10, -10, 10, -10, 10, 10, 10, 10, 2,
      10, 10, 10, 10, 10, -10, 10, -10, -10, 2,
      10, -10, 10, -10, -10, 10, -10, 10, 10, 3,
      -10, 10, 10, 10, 10, 10, 10, -10, 10, 3,
      -10, -10, 10, -10, -10, -10, -10, 10, -10, 2,
      -10, 10, -10, -10, 10, 10, -10, -10, 10, 2,
      -10, 10, -10, 10, 10, -10, 10, 10, 10, 2,
      10, 10, 10, -10, 10, 10, -10, 10, -10, 2,
      -10, -10, -10, -10, -10, 10, 10, -10, 10, 2,
      10, -10, 10, 10, -10, -10, -10, -10, -10, 2]"

definition float_bytes :: "u8 list \<Rightarrow> nat \<Rightarrow> u8" where
  "float_bytes bs i = bs ! i"

abbreviation "float_0 \<equiv> float_bytes [0x00, 0x00, 0x00, 0x00]"
abbreviation "float_9 \<equiv> float_bytes [0x00, 0x00, 0x10, 0x41]"
abbreviation "float_minus_0 \<equiv> float_bytes [0x00, 0x00, 0x00, 0x80]"

definition graph_round :: "(nat \<Rightarrow> nat \<Rightarrow> nat \<Rightarrow> u8) \<Rightarrow> nat \<Rightarrow> ('x, unit) con" where
  "graph_round angle k =
     pseq
      [glBegin 1,
       glUniformRotation (angle (Suc k) 0) (angle (Suc k) 1) (angle (Suc k) 2),
       glUniformTranslate float_minus_0 float_0 float_0,
       glDrawBuffer 0 (of_nat (length vertexBuffer div 10)),
       swapBuffers,
       glClear 0]"

definition functionGRAPH :: "(nat \<Rightarrow> nat \<Rightarrow> nat \<Rightarrow> u8) \<Rightarrow> nat \<Rightarrow> buffer \<Rightarrow> u8 \<Rightarrow> unit app" where
  "functionGRAPH angle n param param_length =
     pseq
      [pdo (glInit 4),
       glClear 0,
       glBufferData (\<lambda>i. of_int (vertexBuffer ! i)) (of_nat (length vertexBuffer)),
       pmod (app_sched_update (interrupt_update EnableGlobalInterrupts)),
       glUniformRotation float_0 float_0 float_0,
       glUniformScale float_9,
       pfor [0..<n] (graph_round angle)]"


section \<open>Registration\<close>

text \<open>\<open>sizeof\<close> of the array counts its NUL.\<close>

definition register :: "string \<Rightarrow> nat \<Rightarrow> 'x console_scheme \<Rightarrow> 'x console_scheme" where
  "register name function c = snd (ConsoleRegisterCommand (literal name) (of_nat (length name) + 1) function c)"

definition registerCommandCLS :: "nat \<Rightarrow> 'x console_scheme \<Rightarrow> 'x console_scheme" where
  "registerCommandCLS = register ''cls''"
definition registerCommandDIAG :: "nat \<Rightarrow> 'x console_scheme \<Rightarrow> 'x console_scheme" where
  "registerCommandDIAG = register ''diag''"
definition registerCommandDEMO :: "nat \<Rightarrow> 'x console_scheme \<Rightarrow> 'x console_scheme" where
  "registerCommandDEMO = register ''demo''"
definition registerCommandTASK :: "nat \<Rightarrow> 'x console_scheme \<Rightarrow> 'x console_scheme" where
  "registerCommandTASK = register ''stop''"
definition registerCommandMEM :: "nat \<Rightarrow> 'x console_scheme \<Rightarrow> 'x console_scheme" where
  "registerCommandMEM = register ''mem''"
definition registerCommandLD :: "nat \<Rightarrow> 'x console_scheme \<Rightarrow> 'x console_scheme" where
  "registerCommandLD = register ''ld''"
definition registerCommandList :: "nat \<Rightarrow> 'x console_scheme \<Rightarrow> 'x console_scheme" where
  "registerCommandList = register ''list''"
definition registerCommandFTP :: "nat \<Rightarrow> 'x console_scheme \<Rightarrow> 'x console_scheme" where
  "registerCommandFTP = register ''ftp''"
definition registerCommandNet :: "nat \<Rightarrow> 'x console_scheme \<Rightarrow> 'x console_scheme" where
  "registerCommandNet = register ''net''"
definition registerCommandTest :: "nat \<Rightarrow> 'x console_scheme \<Rightarrow> 'x console_scheme" where
  "registerCommandTest = register ''test''"
definition registerCommandGRAPHICS :: "nat \<Rightarrow> 'x console_scheme \<Rightarrow> 'x console_scheme" where
  "registerCommandGRAPHICS = register ''graph''"
definition registerCommandMandelbrot :: "nat \<Rightarrow> 'x console_scheme \<Rightarrow> 'x console_scheme" where
  "registerCommandMandelbrot = register ''brot''"

section \<open>What they leave\<close>

lemma say_length: "length t < 255 \<Longrightarrow> unat (of_nat (length t) + 1 :: u8) = length t + 1"
  by (simp add: unat_word_ariths unat_of_nat)

context screen
begin

lemma printing_say: "printing (say t)"
  unfolding say_def by (intro printing_pseq_Cons printing_pseq_Nil printing_text)

lemma printing_applications:
  "printing (functionCLS t n)" "printing (functionDIAG t n)" "printing (functionLD t n)"
  unfolding functionCLS_def functionDIAG_def functionLD_def Let_def pskip_def
  by (intro printing_pseq_Cons printing_pseq_Nil printing_text printing_if printing_preturn printing_say)+

end

lemma run_TASK: "run rd wr (functionTASK t n) s m = run rd wr (say ''Task stopped'') s m"
  by (simp add: functionTASK_def TaskDestroy_def run_pwith run_pseq_Cons run_pseq_Nil run_pmod Let_def
      split: prod.splits option.splits)

lemma run_LD: "run rd wr (functionLD t n) c m = run rd wr (say ''File not found'') c m"
  by (simp add: functionLD_def LoadLibrary_def Let_def run_pseq_Cons run_pseq_Nil run_pskip split: prod.splits option.splits)

lemma read_page_memory:
  "run mem_rd mem_wr (read_page p is buf) s m = (Some (\<lambda>i. if i \<in> set is then m (page_address p i) else buf i, s), m)"
  by (induction "is" arbitrary: buf) (auto simp: run_simps mem_rd_def fun_eq_iff)

lemma pfor_cong: "is = js \<Longrightarrow> (\<And>i. i \<in> set js \<Longrightarrow> f i = g i) \<Longrightarrow> pfor is f = pfor js g"
  by (induction js arbitrary: "is") simp_all

lemma print_cong: "(\<And>k. k < unat len - 1 \<Longrightarrow> t k = t' k) \<Longrightarrow> print t len = print t' len"
  unfolding print_def
  by (rule arg_cong [where f = "\<lambda>p. pseq [glBusyWait, dwrite 0x00001 console_line, p]"], rule pfor_cong) simp_all

text \<open>The rows of a page, as the memory holds them.\<close>

definition show_page :: "mem \<Rightarrow> u8 \<Rightarrow> unit app" where
  "show_page m p = pfor [0..<7] (\<lambda>i. pseq [print (\<lambda>k. m (page_address p (20 * i + k))) 21, printLn])"

lemma run_list:
  fixes s :: applications and param :: buffer
  defines "s1 \<equiv> select_page param s"
  shows "run mem_rd mem_wr (functionList stack param n) s m =
    (if dump_mode s1 = 1 then (None, m)
     else run mem_rd mem_wr (show_page m (page s1)) (s1\<lparr>page := page s1 + 1\<rparr>) m)"
proof -
  let ?buf = "\<lambda>i. if i \<in> set [0..<PAGE_SIZE] then m (page_address (page s1) i) else stack i"
  have row: "print (\<lambda>k. ?buf (20 * i + k)) 21 = print (\<lambda>k. m (page_address (page s1) (20 * i + k))) 21" if "i \<in> set [0..<7]" for i
    by (rule print_cong) (use that in \<open>auto simp: PAGE_SIZE_def\<close>)
  have "(pfor [0..<7] (\<lambda>i. pseq [print (\<lambda>k. ?buf (20 * i + k)) 21, printLn]) :: unit app) = show_page m (page s1)"
    unfolding show_page_def by (rule pfor_cong) (simp_all only: row)
  moreover have "page_update (\<lambda>p. p + 1) s1 = s1\<lparr>page := page s1 + 1\<rparr>" by (cases s1) simp
  ultimately show ?thesis
    unfolding functionList_def s1_def
    by (simp only: run_pseq_Cons run_pseq_Nil run_pmod run_pwith run_pbind read_page_memory option.case prod.case)
      (simp add: run_def split: prod.splits option.splits)
qed

lemma printing_MEM:
  assumes s: "screen rd wr good"
  shows "printing_on rd wr good (functionMEM t n)"
  unfolding functionMEM_def
  by (intro screen.printing_pseq_Cons [OF s] screen.printing_pseq_Nil [OF s] screen.printing_pwith [OF s] screen.printing_text [OF s])

lemma printing_show_page:
  assumes s: "screen rd wr good"
  shows "printing_on rd wr good (show_page m p)"
  unfolding show_page_def
  by (intro screen.printing_pfor [OF s] screen.printing_pseq_Cons [OF s] screen.printing_pseq_Nil [OF s] screen.printing_text [OF s])

lemma behind_runs:
  assumes "behind_volume base" and "display_ready base c m"
    and "printing_on mem_rd mem_wr (display_keeps base (same_volume m) (kept_variables c)) p"
  shows "\<exists>x c' m'. run mem_rd mem_wr p c m = (Some (x, c'), m') \<and> same_volume m m' \<and> display_ready base c' m'
    \<and> kept_variables c' = kept_variables c"
proof -
  have "display_keeps base (same_volume m) (kept_variables c) c m" using assms(2) by (simp add: display_keeps_def)
  then show ?thesis using assms(3) unfolding printing_on_def display_keeps_def by blast
qed

text \<open>A command that prints comes back, and leaves the volume and its own variables alone.\<close>

theorem applications_come_back:
  assumes "behind_volume base" and "display_ready base s m"
    and "p \<in> {functionCLS t n, functionDIAG t n, functionTASK t n, functionLD t n, functionMEM t n}"
  shows "\<exists>s' m'. run mem_rd mem_wr p s m = (Some ((), s'), m') \<and> same_volume m m' \<and> display_ready base s' m'
    \<and> kept_variables s' = kept_variables s"
proof -
  let ?good = "display_keeps base (same_volume m) (kept_variables s)"
  note scr = behind_screen [OF assms(1)]
  have "printing_on mem_rd mem_wr ?good (functionTASK t n)"
    using screen.printing_say [OF scr] unfolding printing_on_def run_TASK .
  then have "printing_on mem_rd mem_wr ?good p"
    using assms(3) screen.printing_applications [OF scr, of m "kept_variables s"] printing_MEM [OF scr] by auto
  then show ?thesis using behind_runs [OF assms(1,2)] by fastforce
qed

text \<open>
  The memory dump. A digit selects the page, \<open>d\<close> and \<open>h\<close> the mode. In text mode the command shows seven rows of
  twenty bytes as the memory holds them from 160 times the page on, goes on to the next page and leaves the volume alone; the
  last twenty bytes of the page are not shown. In hexadecimal mode it overwrites its stack.
\<close>

theorem functionList_shows_page:
  assumes "behind_volume base" and "display_ready base s m"
  shows "if dump_mode (select_page param s) = 1 then run mem_rd mem_wr (functionList stack param n) s m = (None, m)
    else \<exists>s' m'. run mem_rd mem_wr (functionList stack param n) s m = (Some ((), s'), m')
      \<and> run mem_rd mem_wr (show_page m (page (select_page param s))) ((select_page param s)\<lparr>page := page (select_page param s) + 1\<rparr>) m
        = (Some ((), s'), m')
      \<and> page s' = page (select_page param s) + 1 \<and> same_volume m m' \<and> display_ready base s' m'"
proof (cases "dump_mode (select_page param s) = 1")
  case True
  then show ?thesis by (simp add: run_list)
next
  case False
  let ?s1 = "select_page param s"
  let ?s2 = "?s1\<lparr>page := page ?s1 + 1\<rparr>"
  have "display ?s2 = display s" "poll_limit ?s2 = poll_limit s" by (simp_all add: select_page_def Let_def)
  then have r: "display_ready base ?s2 m" using assms(2) by (simp add: display_ready_def)
  obtain s' m' where 1: "run mem_rd mem_wr (show_page m (page ?s1)) ?s2 m = (Some ((), s'), m')" "same_volume m m'"
    "display_ready base s' m'" "kept_variables s' = kept_variables ?s2"
    using behind_runs [OF assms(1) r printing_show_page [OF behind_screen [OF assms(1)]]] by fastforce
  have "page s' = page ?s2" using 1(4) by (cases s', cases ?s2) simp
  then show ?thesis using False 1 by (simp add: run_list)
qed

definition idle_applications :: applications where
  "idle_applications = console.extend (console_initial 1)
     \<lparr>app_nic = \<lparr>nic_address = 0, nic_read_waitstate = 0, nic_write_waitstate = 0, ntIsInitiated = 0\<rparr>,
      app_tables = bare_tables, app_sched = demo_sched, page = 0, dump_mode = 0, isInitiated = 0, globalAllocs = 0, globalAllocBytes = 0\<rparr>"

lemma idle_ready: "display_ready PERIPHERAL_BEGIN (idle_applications\<lparr>display := PERIPHERAL_BEGIN\<rparr>) (\<lambda>_. 0x10)"
  by (simp add: idle_applications_def display_ready_def console_initial_def console.defs)

theorem functionList_shows_page_witness:
  "\<exists>s' m'. run mem_rd mem_wr (functionList (\<lambda>_. 0) (literal ''3'') 2) (idle_applications\<lparr>display := PERIPHERAL_BEGIN\<rparr>) (\<lambda>_. 0x10)
      = (Some ((), s'), m') \<and> page s' = 4"
proof -
  let ?s = "idle_applications\<lparr>display := PERIPHERAL_BEGIN\<rparr>"
  have b: "behind_volume PERIPHERAL_BEGIN" using first_slot.above by (simp add: behind_volume_def)
  have "is_number (ch CHR ''3'') = 1" "is_letter (ch CHR ''3'') = 0"
    by (simp_all add: is_number_def is_letter_def is_uppercase_def is_lowercase_def ch_def)
  then have "select_page (literal ''3'') ?s = ?s\<lparr>page := 3\<rparr>" by (simp add: select_page_def literal_def ch_def)
  moreover have "dump_mode ?s = 0" by (simp add: idle_applications_def console.defs)
  ultimately show ?thesis
    using functionList_shows_page [OF b idle_ready, of "literal ''3''" "\<lambda>_. 0" 2] by auto
qed


section \<open>Without a driver for the network\<close>

lemma network_not_baked:
  assumes e: "driver_entries st [d, k]" and d: "drivers st d = Some x" "drivers st k = Some y"
    and n: "device_name (driver_device x) = name_buffer ''display''" "device_name (driver_device y) = name_buffer ''PS2''"
  shows "network_card st = Some None"
proof -
  have dom: "set [d, k] \<subseteq> dom (drivers st)" using d by auto
  have l: "[0..<7] = [0, 1, 2, 3, 4, 5, 6 :: nat]" by (simp add: upt_rec)
  have "padded (name_buffer ''display'') 7 \<noteq> padded (name_buffer ''network'') 7"
    "padded (name_buffer ''PS2'') 7 \<noteq> padded (name_buffer ''network'') 7"
    by (simp_all add: padded_def name_buffer_def l ch_def)
  then show ?thesis
    using GetDriverByName_is_first [OF e _ dom, of 7 "name_buffer ''network''"] by (simp add: network_card_def d n)
qed

text \<open>
  The kernel that \<open>main\<close> starts has no driver for the network card, and \<open>ld\<close> loads none: whatever is plugged into the
  bus, \<open>net\<close> and \<open>test\<close> report it, and nothing is sent.
\<close>

theorem network_needs_driver:
  assumes "power_up d k st" and "InitBakedDrivers d k st = Some st1"
    and "run mem_rd mem_wr InitiateDeviceTable st1 m = (Some ((), app_tables s), m)" and "isInitiated s = 0"
  shows "run rd wr (functionNet stack t n) s x = run rd wr (say ''Initiation failed'') s x
    \<and> run rd wr (functionTest stack t n) s x = run rd wr (say ''Driver not found'') s x
    \<and> run rd wr (functionLD t n) s x = run rd wr (say ''File not found'') s x"
proof -
  obtain st' vs where l: "run mem_rd mem_wr InitiateDeviceTable st1 m = (Some ((), st'), m)" "driver_entries st' [d, k]"
    "drivers st' d = Some (linked_driver (devices st') vs display_object)"
    "drivers st' k = Some (linked_driver (devices st') vs keyboard_object)"
    using devices_linked [OF assms(1), of m] assms(2) by fastforce
  have "network_card st' = Some None"
    by (rule network_not_baked [OF l(2-4)]) (simp_all add: objects_named)
  moreover have "st' = app_tables s" using assms(3) l(1) by simp
  moreover have "app_nic_update (\<lambda>_. app_nic s) s = s" by (cases s) simp
  ultimately show ?thesis
    using assms(4) by (simp add: functionNet_def functionTest_def run_LD ntInit_def on_network_def run_pwith run_pbind run_pzoom run_preturn)
qed

theorem network_needs_driver_witness:
  "\<exists>s. run mem_rd mem_wr (functionNet (\<lambda>_. 0) (\<lambda>_. 0) 0) s (\<lambda>_. 0x10)
    = run mem_rd mem_wr (say ''Initiation failed'') s (\<lambda>_. 0x10) \<and> isInitiated s = 0"
proof -
  obtain st1 st' where l: "InitBakedDrivers 1 2 bare_tables = Some st1"
    "run mem_rd mem_wr InitiateDeviceTable st1 display_in_slot_2 = (Some ((), st'), display_in_slot_2)"
    using devices_linked [OF bare_tables_power_up, of display_in_slot_2] by blast
  let ?s = "idle_applications\<lparr>app_tables := st'\<rparr>"
  have i: "isInitiated ?s = 0" by (simp add: idle_applications_def console.defs)
  have "run mem_rd mem_wr InitiateDeviceTable st1 display_in_slot_2 = (Some ((), app_tables ?s), display_in_slot_2)" using l(2) by simp
  from network_needs_driver [OF bare_tables_power_up l(1) this i, of mem_rd mem_wr "\<lambda>_. 0" "\<lambda>_. 0" 0 "\<lambda>_. 0x10"]
  show ?thesis using i by blast
qed



section \<open>More commands than entries\<close>

definition taken :: "'x console_scheme \<Rightarrow> nat \<Rightarrow> bool" where
  "taken c i \<longleftrightarrow> is_letter (command_name (CommandRegistry c i) 0) = 1 \<or> is_number (command_name (CommandRegistry c i) 0) = 1"

text \<open>
  C37. A command too many. When all eight entries of the registry are taken, registering reports success all the same: the
  new function replaces the first one, and of the old name stays what the new one does not cover.
\<close>

theorem ninth_command_replaces_first:
  assumes "\<forall>i < 8. taken c i" and "length name < 10"
  defines "old \<equiv> command_name (CommandRegistry c 0)"
  shows "ConsoleRegisterCommand (literal name) (of_nat (length name) + 1) f c
    = (1, c\<lparr>CommandRegistry := (CommandRegistry c)(0 :=
        \<lparr>command_name = (\<lambda>i. if i < length name then literal name i else old i), command_function = f\<rparr>)\<rparr>)"
proof -
  have "find (\<lambda>i. \<not> taken c i) [0..<8] = None" using assms(1) by (simp add: find_None_iff)
  moreover have "unat (of_nat (length name) + 1 :: u8) = length name + 1" using assms(2) by (simp add: say_length)
  ultimately show ?thesis
    using assms(2) unfolding taken_def old_def
    by (simp add: ConsoleRegisterCommand_def CONSOLE_FUNCTION_TABLE_SIZE_def CONSOLE_FUNCTION_NAME_LENGTH_def Let_def
        min_def cong: if_cong)
qed

definition full_registry :: applications where
  "full_registry = idle_applications\<lparr>CommandRegistry := (\<lambda>i. \<lparr>command_name = literal ''diag'', command_function = i\<rparr>)\<rparr>"

theorem ninth_command_replaces_first_witness:
  "map (command_name (CommandRegistry (registerCommandLS 9 full_registry) 0)) [0..<4] = str ''lsag''"
proof -
  have "is_letter (ch CHR ''d'') = 1" by (simp add: is_letter_def is_uppercase_def is_lowercase_def ch_def)
  then have "\<forall>i < 8. taken full_registry i" by (simp add: taken_def full_registry_def literal_def)
  from ninth_command_replaces_first [OF this, of "''ls''" 9] show ?thesis
    by (simp add: registerCommandLS_def full_registry_def literal_def upt_rec)
qed

end
