(* ===== verification/RetroKeyboard.thy ===== *)
theory RetroKeyboard
  imports Keyboard Console
begin

text \<open>
  The keyboard driver (drivers/keyboard/PS2/main.c) as it is compiled for the Retro AVR X4 REV1: the
  decoder of that board's scan codes, its accesses to the controller and the loop that prints what is
  typed. The specification is the decoder of the Retroboard REV2: the two boards have the same keys.
\<close>

section \<open>The decoder\<close>

definition right_shift_X4 :: "u8 \<Rightarrow> u8 \<Rightarrow> bool" where
  "right_shift_X4 scancode_low scancode_high \<longleftrightarrow>
     scancode_low \<in> {0x19, 0x99, 0x49, 0x89, 0x09, 0x59, 0xc9, 0xd9} \<and> scancode_high = 0x23"

definition left_shift_X4 :: "u8 \<Rightarrow> u8 \<Rightarrow> bool" where
  "left_shift_X4 scancode_low scancode_high \<longleftrightarrow>
     scancode_low \<in> {0x1a, 0x9a, 0x4a, 0x8a, 0x0a, 0x5a, 0xca, 0xda} \<and> scancode_high = 0x6b"

definition decode_fb :: "u8 \<Rightarrow> u8" where
  "decode_fb scancode_high =
     (if scancode_high = 0x59 then 0x05
      else if scancode_high = 0x69 then ch CHR '']''
      else if scancode_high = 0x03 then 0xf5
      else if scancode_high = 0x41 then 0xf6
      else if scancode_high = 0x05 then 0xf7
      else if scancode_high = 0x81 then 0xfc
      else if scancode_high = 0x09 then ch CHR ''i''
      else if scancode_high = 0x63 then ch CHR ''s''
      else if scancode_high = 0x11 then ch CHR ''d''
      else if scancode_high = 0x53 then ch CHR ''f''
      else if scancode_high = 0x33 then ch CHR ''h''
      else if scancode_high = 0x71 then ch CHR ''j''
      else if scancode_high = 0x4b then ch CHR ''l''
      else 0x00)"

definition decode_f9 :: "u8 \<Rightarrow> u8" where
  "decode_f9 scancode_high =
     (if scancode_high = 0x23 then 0x12
      else if scancode_high = 0x9b then 0x01
      else if scancode_high = 0x6b then 0x02
      else if scancode_high = 0x3b then 0x04
      else if scancode_high = 0xcb then ch CHR ''-''
      else if scancode_high = 0xc1 then ch CHR ''`''
      else if scancode_high = 0xb9 then 0x07
      else if scancode_high = 0x49 then ch CHR ''/''
      else if scancode_high = 0x29 then 0x27
      else if scancode_high = 0x83 then 0xf2
      else if scancode_high = 0x43 then 0xf8
      else if scancode_high = 0x89 then ch CHR ''9''
      else if scancode_high = 0xf1 then ch CHR ''8''
      else if scancode_high = 0xb3 then ch CHR ''6''
      else if scancode_high = 0xd3 then ch CHR ''5''
      else if scancode_high = 0x91 then ch CHR ''3''
      else if scancode_high = 0xe3 then ch CHR ''2''
      else if scancode_high = 0xa1 then ch CHR ''1''
      else if scancode_high = 0x61 then ch CHR ''z''
      else if scancode_high = 0x13 then ch CHR ''x''
      else if scancode_high = 0x51 then ch CHR ''v''
      else if scancode_high = 0x31 then ch CHR ''b''
      else if scancode_high = 0x73 then ch CHR ''m''
      else if scancode_high = 0x0b then ch CHR ''k''
      else 0x00)"

definition decode_fa :: "u8 \<Rightarrow> u8" where
  "decode_fa scancode_high =
     (if scancode_high = 0x6b then 0x12
      else if scancode_high = 0xb9 then 0x03
      else if scancode_high = 0x51 then 0x20
      else if scancode_high = 0x23 then 0x09
      else if scancode_high = 0xab then ch CHR ''=''
      else if scancode_high = 0x3b then 0x10
      else if scancode_high = 0x0b then ch CHR '',''
      else if scancode_high = 0x49 then ch CHR ''.''
      else if scancode_high = 0xe9 then 0x5c
      else if scancode_high = 0x83 then 0xf1
      else if scancode_high = 0x01 then 0xf9
      else if scancode_high = 0x43 then 0xfa
      else if scancode_high = 0x89 then ch CHR ''0''
      else if scancode_high = 0xf1 then ch CHR ''7''
      else if scancode_high = 0x91 then ch CHR ''4''
      else if scancode_high = 0x13 then ch CHR ''c''
      else if scancode_high = 0x31 then ch CHR ''n''
      else if scancode_high = 0xa1 then ch CHR ''q''
      else if scancode_high = 0xe3 then ch CHR ''w''
      else if scancode_high = 0xd3 then ch CHR ''r''
      else if scancode_high = 0xb3 then ch CHR ''y''
      else if scancode_high = 0xcb then ch CHR ''p''
      else 0x00)"

definition decode_f8 :: "u8 \<Rightarrow> u8" where
  "decode_f8 scancode_high =
     (if scancode_high = 0xbb then 0x06
      else if scancode_high = 0xa3 then 0x08
      else if scancode_high = 0xc9 then ch CHR '';''
      else if scancode_high = 0xa9 then ch CHR ''[''
      else if scancode_high = 0x81 then 0xf3
      else if scancode_high = 0xc3 then 0xf4
      else if scancode_high = 0xb7 then 0xfb
      else if scancode_high = 0x93 then ch CHR ''e''
      else if scancode_high = 0xd1 then ch CHR ''t''
      else if scancode_high = 0xf3 then ch CHR ''u''
      else if scancode_high = 0x8b then ch CHR ''o''
      else if scancode_high = 0xe1 then ch CHR ''a''
      else if scancode_high = 0xb1 then ch CHR ''g''
      else 0x00)"

definition kbDecodeScanCode_X4 :: "u8 \<Rightarrow> u8 \<Rightarrow> u8" where
  "kbDecodeScanCode_X4 scancode_low scancode_high =
     (if right_shift_X4 scancode_low scancode_high then 0x11
      else if left_shift_X4 scancode_low scancode_high then 0x11
      else if scancode_low = 0xfb then decode_fb scancode_high
      else if scancode_low = 0xf9 then decode_f9 scancode_high
      else if scancode_low = 0xfa then decode_fa scancode_high
      else if scancode_low = 0xf8 then decode_f8 scancode_high
      else 0x00)"


section \<open>The controller\<close>

definition read_ps2_device :: "u32 \<Rightarrow> u32 \<Rightarrow> ('s, u8) prog" where
  "read_ps2_device hw address = pread (hw + address)"

definition write_ps2_device :: "u32 \<Rightarrow> u32 \<Rightarrow> u8 \<Rightarrow> ('s, unit) prog" where
  "write_ps2_device hw address b = pwrite (hw + address) b"

text \<open>On this board the low byte is at the second address; it is still read first.\<close>

definition read_scan_code_X4 :: "u32 \<Rightarrow> ('s, u8 \<times> u8) prog" where
  "read_scan_code_X4 hw =
     pbind (read_ps2_device hw 0x00001) (\<lambda>low. pbind (read_ps2_device hw 0x00000) (\<lambda>high. preturn (low, high)))"

text \<open>
  The first \<open>n\<close> rounds of the loop of \<open>kbPrintInput\<close>, which never ends. A new scan code is written as
  eight digits into an array of two bytes: the stack is overwritten, None.
\<close>

primrec kbPrintInput :: "('s, u8 \<times> u8) prog \<Rightarrow> nat \<Rightarrow> u8 \<Rightarrow> u8 \<Rightarrow> ('s, unit) prog" where
  "kbPrintInput codes 0 oldLow oldHigh = preturn ()"
| "kbPrintInput codes (Suc n) oldLow oldHigh =
     pbind codes (\<lambda>(low, high).
       if low = oldLow \<and> high = oldHigh then kbPrintInput codes n oldLow oldHigh
       else (\<lambda>s. Ret None))"


section \<open>The keys\<close>

definition key_table_X4 :: "((u8 \<times> u8) \<times> u8) list" where
  "key_table_X4 =
     [((0xfb, 0x59), 0x05), ((0xfb, 0x69), ch CHR '']''), ((0xfb, 0x03), 0xf5),
      ((0xfb, 0x41), 0xf6), ((0xfb, 0x05), 0xf7), ((0xfb, 0x81), 0xfc),
      ((0xfb, 0x09), ch CHR ''i''), ((0xfb, 0x63), ch CHR ''s''), ((0xfb, 0x11), ch CHR ''d''),
      ((0xfb, 0x53), ch CHR ''f''), ((0xfb, 0x33), ch CHR ''h''), ((0xfb, 0x71), ch CHR ''j''),
      ((0xfb, 0x4b), ch CHR ''l''), ((0xf9, 0x9b), 0x01), ((0xf9, 0x6b), 0x02),
      ((0xf9, 0x3b), 0x04), ((0xf9, 0xcb), ch CHR ''-''), ((0xf9, 0xc1), ch CHR ''`''),
      ((0xf9, 0xb9), 0x07), ((0xf9, 0x49), ch CHR ''/''), ((0xf9, 0x29), 0x27),
      ((0xf9, 0x83), 0xf2), ((0xf9, 0x43), 0xf8), ((0xf9, 0x89), ch CHR ''9''),
      ((0xf9, 0xf1), ch CHR ''8''), ((0xf9, 0xb3), ch CHR ''6''), ((0xf9, 0xd3), ch CHR ''5''),
      ((0xf9, 0x91), ch CHR ''3''), ((0xf9, 0xe3), ch CHR ''2''), ((0xf9, 0xa1), ch CHR ''1''),
      ((0xf9, 0x61), ch CHR ''z''), ((0xf9, 0x13), ch CHR ''x''), ((0xf9, 0x51), ch CHR ''v''),
      ((0xf9, 0x31), ch CHR ''b''), ((0xf9, 0x73), ch CHR ''m''), ((0xf9, 0x0b), ch CHR ''k''),
      ((0xfa, 0xb9), 0x03), ((0xfa, 0x51), 0x20), ((0xfa, 0x23), 0x09),
      ((0xfa, 0xab), ch CHR ''=''), ((0xfa, 0x3b), 0x10), ((0xfa, 0x0b), ch CHR '',''),
      ((0xfa, 0x49), ch CHR ''.''), ((0xfa, 0xe9), 0x5c), ((0xfa, 0x83), 0xf1),
      ((0xfa, 0x01), 0xf9), ((0xfa, 0x43), 0xfa), ((0xfa, 0x89), ch CHR ''0''),
      ((0xfa, 0xf1), ch CHR ''7''), ((0xfa, 0x91), ch CHR ''4''), ((0xfa, 0x13), ch CHR ''c''),
      ((0xfa, 0x31), ch CHR ''n''), ((0xfa, 0xa1), ch CHR ''q''), ((0xfa, 0xe3), ch CHR ''w''),
      ((0xfa, 0xd3), ch CHR ''r''), ((0xfa, 0xb3), ch CHR ''y''), ((0xfa, 0xcb), ch CHR ''p''),
      ((0xf8, 0xbb), 0x06), ((0xf8, 0xa3), 0x08), ((0xf8, 0xc9), ch CHR '';''),
      ((0xf8, 0xa9), ch CHR ''[''), ((0xf8, 0x81), 0xf3), ((0xf8, 0xc3), 0xf4),
      ((0xf8, 0xb7), 0xfb), ((0xf8, 0x93), ch CHR ''e''), ((0xf8, 0xd1), ch CHR ''t''),
      ((0xf8, 0xf3), ch CHR ''u''), ((0xf8, 0x8b), ch CHR ''o''), ((0xf8, 0xe1), ch CHR ''a''),
      ((0xf8, 0xb1), ch CHR ''g'')]"

definition key_of_X4 :: "u8 \<Rightarrow> (u8 \<times> u8) option" where
  "key_of_X4 c = map_of (map (\<lambda>(k, c). (c, k)) key_table_X4) c"

lemmas decode_X4_defs = decode_fb_def decode_f9_def decode_fa_def decode_f8_def

lemma decode_groups_X4:
  "decode_fb h = 0 \<or> shift_code (decode_fb h) \<or> key_of_X4 (decode_fb h) = Some (0xfb, h)"
  "decode_f9 h = 0 \<or> shift_code (decode_f9 h) \<or> key_of_X4 (decode_f9 h) = Some (0xf9, h)"
  "decode_fa h = 0 \<or> shift_code (decode_fa h) \<or> key_of_X4 (decode_fa h) = Some (0xfa, h)"
  "decode_f8 h = 0 \<or> shift_code (decode_f8 h) \<or> key_of_X4 (decode_f8 h) = Some (0xf8, h)"
  by (simp_all add: decode_X4_defs key_of_X4_def key_table_X4_def shift_code_def ch_def)

lemma decode_key_X4:
  "kbDecodeScanCode_X4 l h = 0 \<or> shift_code (kbDecodeScanCode_X4 l h) \<or> key_of_X4 (kbDecodeScanCode_X4 l h) = Some (l, h)"
proof -
  have "shift_code 0x11" by (simp add: shift_code_def)
  then show ?thesis
    using decode_groups_X4 [of h] by (auto simp: kbDecodeScanCode_X4_def)
qed

lemma key_table_X4_decodes:
  "list_all (\<lambda>((l, h), c). kbDecodeScanCode_X4 l h = c \<and> c \<noteq> 0 \<and> \<not> shift_code c) key_table_X4"
  by (simp add: key_table_X4_def kbDecodeScanCode_X4_def decode_X4_defs left_shift_X4_def
      right_shift_X4_def shift_code_def ch_def)

lemma key_X4_iff: "kbDecodeScanCode_X4 l h = c \<and> c \<notin> {0, 0x11, 0x12} \<longleftrightarrow> key_of_X4 c = Some (l, h)"
proof
  assume "kbDecodeScanCode_X4 l h = c \<and> c \<notin> {0, 0x11, 0x12}"
  then show "key_of_X4 c = Some (l, h)" using decode_key_X4 [of l h] by (auto simp: shift_code_def)
next
  assume "key_of_X4 c = Some (l, h)"
  then have "((l, h), c) \<in> set key_table_X4" unfolding key_of_X4_def by (auto dest!: map_of_SomeD)
  then show "kbDecodeScanCode_X4 l h = c \<and> c \<notin> {0, 0x11, 0x12}"
    using key_table_X4_decodes by (auto simp: shift_code_def list_all_iff)
qed

lemma key_iff: "kbDecodeScanCode l h = c \<and> c \<notin> {0, 0x11, 0x12} \<longleftrightarrow> key_of c = Some (l, h)"
proof
  assume "kbDecodeScanCode l h = c \<and> c \<notin> {0, 0x11, 0x12}"
  then show "key_of c = Some (l, h)" using decode_key [of l h] by (auto simp: shift_code_def)
next
  assume "key_of c = Some (l, h)"
  then have "((l, h), c) \<in> set key_table" unfolding key_of_def by (auto dest!: map_of_SomeD)
  then show "kbDecodeScanCode l h = c \<and> c \<notin> {0, 0x11, 0x12}"
    using key_decodes by (auto simp: shift_code_def)
qed

text \<open>The codes of F1 to F12.\<close>

definition function_keys :: "u8 list" where
  "function_keys = [0xf1, 0xf2, 0xf3, 0xf4, 0xf5, 0xf6, 0xf7, 0xf8, 0xf9, 0xfa, 0xfb, 0xfc]"

lemma tables_agree:
  "list_all (\<lambda>c. key_of_X4 c \<noteq> None) (map snd key_table @ function_keys)"
  "list_all (\<lambda>c. key_of c \<noteq> None \<or> list_ex ((=) c) function_keys) (map snd key_table_X4)"
  "list_all (\<lambda>c. key_of c = None \<and> c \<noteq> 0 \<and> c \<noteq> 0x11 \<and> c \<noteq> 0x12) function_keys"
  by (simp_all add: key_of_def key_of_X4_def key_table_def key_table_X4_def function_keys_def ch_def)

lemma in_table: "key_of c = Some k \<Longrightarrow> c \<in> set (map snd key_table)"
  "key_of_X4 c = Some k \<Longrightarrow> c \<in> set (map snd key_table_X4)"
  by (force simp: key_of_def key_of_X4_def dest!: map_of_SomeD)+

lemma known_keys: "key_of c \<noteq> None \<longleftrightarrow> key_of_X4 c \<noteq> None \<and> c \<notin> set function_keys"
  "c \<in> set function_keys \<Longrightarrow> key_of_X4 c \<noteq> None \<and> c \<notin> {0, 0x11, 0x12}"
  using tables_agree in_table [of c] by (auto simp: list_all_iff list_ex_iff)

lemma reachable_key:
  "c \<notin> {0, 0x11, 0x12} \<Longrightarrow> (\<exists>l h. kbDecodeScanCode l h = c) \<longleftrightarrow> key_of c \<noteq> None"
  "c \<notin> {0, 0x11, 0x12} \<Longrightarrow> (\<exists>l h. kbDecodeScanCode_X4 l h = c) \<longleftrightarrow> key_of_X4 c \<noteq> None"
  by (metis key_iff not_None_eq surj_pair) (metis key_X4_iff not_None_eq surj_pair)

text \<open>C31.
  The two boards have the same keyboard: a code that is not a shift code is decoded on the Retroboard REV2
  exactly if it is decoded on the Retro AVR X4 and is not one of the function keys F1 to F12, which only the
  second one knows; on the X4 too a code belongs to one pair of bytes; and the code of a pressed and of a
  released shift key is decoded on both.
\<close>

theorem kbDecodeScanCode_boards:
  assumes "c \<notin> {0, 0x11, 0x12}"
  shows "((\<exists>l h. kbDecodeScanCode l h = c) \<longleftrightarrow> (\<exists>l h. kbDecodeScanCode_X4 l h = c) \<and> c \<notin> set function_keys)
   \<and> (\<exists>\<^sub>\<le>\<^sub>1 k. kbDecodeScanCode_X4 (fst k) (snd k) = c)
   \<and> list_all (\<lambda>f. \<exists>l h. kbDecodeScanCode_X4 l h = f) function_keys
   \<and> kbDecodeScanCode 0x98 0xc4 = 0x11 \<and> kbDecodeScanCode_X4 0x1a 0x6b = 0x11
   \<and> kbDecodeScanCode 0x9f 0xc4 = 0x12 \<and> kbDecodeScanCode_X4 0xfa 0x6b = 0x12"
proof -
  have "\<exists>\<^sub>\<le>\<^sub>1 k. kbDecodeScanCode_X4 (fst k) (snd k) = c"
    using key_X4_iff [of _ _ c] assms by (auto intro!: Uniq_I)
  moreover have "list_all (\<lambda>f. \<exists>l h. kbDecodeScanCode_X4 l h = f) function_keys"
    unfolding list_all_iff using known_keys(2) reachable_key(2) by blast
  moreover have "kbDecodeScanCode 0x98 0xc4 = 0x11 \<and> kbDecodeScanCode_X4 0x1a 0x6b = 0x11
      \<and> kbDecodeScanCode 0x9f 0xc4 = 0x12 \<and> kbDecodeScanCode_X4 0xfa 0x6b = 0x12"
    by (simp add: kbDecodeScanCode_def kbDecodeScanCode_X4_def left_shift_down_def right_shift_down_def
        left_shift_X4_def right_shift_X4_def decode_9f_def decode_fa_def)
  ultimately show ?thesis
    using known_keys(1) [of c] reachable_key [OF assms] by blast
qed

theorem kbDecodeScanCode_boards_witness:
  "(\<exists>l h. kbDecodeScanCode_X4 l h = ch CHR ''a'') \<and> \<not> (\<exists>l h. kbDecodeScanCode l h = (0xf5 :: u8))"
proof -
  have "kbDecodeScanCode 0x1f 0x87 = ch CHR ''a''"
    by (simp add: kbDecodeScanCode_def left_shift_down_def right_shift_down_def decode_1f_def)
  moreover have "ch CHR ''a'' \<notin> {0, 0x11, 0x12}" "(0xf5 :: u8) \<notin> {0, 0x11, 0x12}" "(0xf5 :: u8) \<in> set function_keys"
    by (simp_all add: ch_def function_keys_def)
  ultimately show ?thesis
    using kbDecodeScanCode_boards [of "ch CHR ''a''"] kbDecodeScanCode_boards [of "0xf5"] by blast
qed

end
