(* ===== verification/Utilities.thy ===== *)
theory Utilities
  imports Commands
begin

text \<open>
  The file utilities (kernel/command: rm, mk, mkdir, rn, type, attrib, cap, copy). They are written on a
  file system that keeps the device and the working directory itself; its code is not in the repository,
  only the calls are. So the calls are an argument: a record of functions on a volume, of any type. What a
  theorem needs of them is a hypothesis. The subject is what the utilities do with the calls.
\<close>

section \<open>The calls\<close>

record FSAttribute =
  executable :: u8
  readable :: u8
  writeable :: u8
  attr_type :: u8

record 'v volume_calls =
  file_exists :: "buffer \<Rightarrow> u8 \<Rightarrow> 'v \<Rightarrow> u32 \<times> 'v"          \<comment> \<open>\<open>fsFileExists\<close>\<close>
  directory_exists :: "buffer \<Rightarrow> u8 \<Rightarrow> 'v \<Rightarrow> u32 \<times> 'v"     \<comment> \<open>\<open>fsDirectoryExists\<close>\<close>
  get_attributes :: "u32 \<Rightarrow> FSAttribute \<Rightarrow> 'v \<Rightarrow> (u8 \<times> FSAttribute) \<times> 'v"
  set_attributes :: "u32 \<Rightarrow> FSAttribute \<Rightarrow> 'v \<Rightarrow> u8 \<times> 'v"
  get_size :: "u32 \<Rightarrow> 'v \<Rightarrow> u32 \<times> 'v"
  set_name :: "u32 \<Rightarrow> buffer \<Rightarrow> u8 \<Rightarrow> 'v \<Rightarrow> 'v"
  open_file :: "u32 \<Rightarrow> 'v \<Rightarrow> u32 \<times> 'v"
  read_file :: "u32 \<Rightarrow> buffer \<Rightarrow> u32 \<Rightarrow> 'v \<Rightarrow> buffer \<times> 'v"
  write_file :: "u32 \<Rightarrow> buffer \<Rightarrow> u32 \<Rightarrow> 'v \<Rightarrow> 'v"
  close_file :: "u32 \<Rightarrow> 'v \<Rightarrow> 'v"
  create_file :: "buffer \<Rightarrow> u8 \<Rightarrow> u32 \<Rightarrow> 'v \<Rightarrow> u32 \<times> 'v"
  delete_file :: "buffer \<Rightarrow> u8 \<Rightarrow> 'v \<Rightarrow> u32 \<times> 'v"
  create_directory :: "buffer \<Rightarrow> u8 \<Rightarrow> 'v \<Rightarrow> u32 \<times> 'v"
  delete_directory :: "buffer \<Rightarrow> u8 \<Rightarrow> 'v \<Rightarrow> u32 \<times> 'v"
  add_file :: "u32 \<Rightarrow> u32 \<Rightarrow> 'v \<Rightarrow> 'v"                     \<comment> \<open>\<open>fsDirectoryAddFile\<close>\<close>
  remove_file :: "u32 \<Rightarrow> u32 \<Rightarrow> 'v \<Rightarrow> u8 \<times> 'v"             \<comment> \<open>\<open>fsDirectoryRemoveFile\<close>\<close>
  working_address :: "'v \<Rightarrow> u32 \<times> 'v"                       \<comment> \<open>\<open>fsWorkingDirectoryGetAddress\<close>\<close>
  working_name :: "buffer \<Rightarrow> 'v \<Rightarrow> (u8 \<times> buffer) \<times> 'v"    \<comment> \<open>\<open>fsWorkingDirectoryGetName\<close>\<close>
  working_stack :: "'v \<Rightarrow> u8 \<times> 'v"                          \<comment> \<open>\<open>fsWorkingDirectoryGetStack\<close>\<close>
  change_working :: "buffer \<Rightarrow> u8 \<Rightarrow> 'v \<Rightarrow> 'v"              \<comment> \<open>\<open>fsWorkingDirectoryChange\<close>\<close>
  set_working_address :: "u32 \<Rightarrow> 'v \<Rightarrow> 'v"
  set_working_name :: "u32 \<Rightarrow> 'v \<Rightarrow> 'v"
  set_working_stack :: "u8 \<Rightarrow> 'v \<Rightarrow> 'v"
  clear_working :: "'v \<Rightarrow> 'v"
  working_to_parent :: "'v \<Rightarrow> u8 \<times> 'v"
  device_capacity :: "'v \<Rightarrow> u32 \<times> 'v"
  device_context :: "'v \<Rightarrow> u32 \<times> 'v"
  set_device_context :: "u32 \<Rightarrow> 'v \<Rightarrow> 'v"
  root_letter :: "'v \<Rightarrow> u8 \<times> 'v"
  set_root_letter :: "u8 \<Rightarrow> 'v \<Rightarrow> 'v"
  format_volume :: "u32 \<Rightarrow> u32 \<Rightarrow> 'v \<Rightarrow> 'v"                 \<comment> \<open>\<open>fsFormat\<close>\<close>
  construct_table :: "u32 \<Rightarrow> u32 \<Rightarrow> u32 \<Rightarrow> 'v \<Rightarrow> 'v"        \<comment> \<open>\<open>fsDeviceConstructAllocationTable\<close>\<close>
  read_byte :: "u32 \<Rightarrow> 'v \<Rightarrow> u8 \<times> 'v"
  write_byte :: "u32 \<Rightarrow> u8 \<Rightarrow> 'v \<Rightarrow> 'v"
  fs_sector_size :: u32
  ATTRIBUTE_OFFSET_SPECIAL :: u32
  FORMAT_CAPACITY_8K :: u32
  FORMAT_CAPACITY_16K :: u32
  FORMAT_CAPACITY_32K :: u32
  FORMAT_SECTOR_EMPTY :: u8

record 'v utilities = console +
  volume :: 'v

type_synonym ('v, 'a) utility = "('v utilities, 'a) prog"

definition ask :: "('v \<Rightarrow> 'a \<times> 'v) \<Rightarrow> ('v, 'a) utility" where
  "ask f = pwith (\<lambda>s. let (x, v) = f (volume s) in pbind (pmod (volume_update (\<lambda>_. v))) (\<lambda>_. preturn x))"

definition tell :: "('v \<Rightarrow> 'v) \<Rightarrow> ('v, unit) utility" where
  "tell f = pmod (volume_update f)"

abbreviation space :: u8 where "space \<equiv> ch CHR '' ''"


section \<open>Removing and creating\<close>

text \<open>A test that several commands begin with. \<open>junk\<close> is what a structure on the stack holds before.\<close>

definition no_name :: "buffer \<Rightarrow> u8 \<Rightarrow> bool" where
  "no_name param param_length \<longleftrightarrow> param_length = 0 \<or> param 0 = space"

definition functionRM :: "'v volume_calls \<Rightarrow> FSAttribute \<Rightarrow> buffer \<Rightarrow> u8 \<Rightarrow> ('v, unit) utility" where
  "functionRM fs junk param param_length =
     (if no_name param param_length then say ''Invalid filename''
      else
       pbind (ask (file_exists fs param param_length)) (\<lambda>fileAddress.
       pbind (if fileAddress = 0 then ask (directory_exists fs param param_length) else preturn 0) (\<lambda>directoryAddress.
        if fileAddress = 0 \<and> directoryAddress = 0 then say ''File not found''
        else
         pbind (ask (get_attributes fs (if fileAddress = 0 then directoryAddress else fileAddress) junk)) (\<lambda>(_, attrib).
          if writeable attrib \<noteq> ch CHR ''w'' then say ''Access denied''
          else if fileAddress \<noteq> 0 then
            pbind (ask (delete_file fs param param_length)) (\<lambda>fileRefAddress.
             if fileRefAddress \<noteq> 0 then
               pbind (ask (working_address fs)) (\<lambda>wd.
               pbind (ask (remove_file fs wd fileRefAddress)) (\<lambda>removed.
                if removed = 1 then say ''File removed'' else pskip))
             else say ''File not found'')
          else
            pbind (ask (delete_directory fs param param_length)) (\<lambda>fileRefAddress.
             if fileRefAddress \<noteq> 0 then
               pbind (ask (working_address fs)) (\<lambda>wd.
               pbind (ask (remove_file fs wd fileRefAddress)) (\<lambda>_. say ''Directory removed''))
             else say ''File not found'')))))"

definition functionMK :: "'v volume_calls \<Rightarrow> buffer \<Rightarrow> u8 \<Rightarrow> ('v, unit) utility" where
  "functionMK fs param param_length =
     (if no_name param param_length then say ''Invalid filename''
      else
       pbind (ask (create_file fs param param_length 100)) (\<lambda>fileAddress.
       pbind (ask (working_address fs)) (\<lambda>wd.
        pseq
         [tell (add_file fs wd fileAddress),
          say (if fileAddress = 0 then ''Error creating file'' else ''File created'')])))"

definition functionMKDIR :: "'v volume_calls \<Rightarrow> buffer \<Rightarrow> u8 \<Rightarrow> ('v, unit) utility" where
  "functionMKDIR fs param param_length =
     (if no_name param param_length then say ''Invalid name''
      else
       pbind (ask (create_directory fs param param_length)) (\<lambda>directoryAddress.
       pbind (ask (working_address fs)) (\<lambda>wd.
        pseq
         [tell (add_file fs wd directoryAddress),
          (if directoryAddress \<noteq> 0 then say ''Directory created'' else pskip)])))"


section \<open>Renaming\<close>

text \<open>
  The first loop copies up to and with the first space, at most \<open>n\<close> characters; the second goes on for three
  characters more than the length of the first. Both arrays have ten bytes: a longer copy overwrites the
  stack, None.
\<close>

definition rn_source_length :: "buffer \<Rightarrow> nat \<Rightarrow> nat" where
  "rn_source_length param n =
     (case find (\<lambda>i. param i = space) [0..<n] of Some i \<Rightarrow> i + 1 | None \<Rightarrow> n)"

definition rn_target_length :: "nat \<Rightarrow> nat \<Rightarrow> nat" where
  "rn_target_length sourceNameLen n =
     (case find (\<lambda>i. sourceNameLen + 1 < i) [0..<n] of Some i \<Rightarrow> i + 1 | None \<Rightarrow> n)"

definition rn_name :: "buffer \<Rightarrow> (nat \<Rightarrow> u8) \<Rightarrow> nat \<Rightarrow> buffer" where
  "rn_name stack t n = (\<lambda>i. if i < n then t i else stack i)"

definition functionRN :: "'v volume_calls \<Rightarrow> buffer \<Rightarrow> buffer \<Rightarrow> u8 \<Rightarrow> ('v, unit) utility" where
  "functionRN fs stack param param_length =
     (let sourceNameLen = rn_source_length param (unat param_length);
          targetNameLen = rn_target_length sourceNameLen (unat param_length);
          sourceName = rn_name stack param sourceNameLen;
          targetName = rn_name stack (\<lambda>i. param (i + sourceNameLen)) targetNameLen
      in if 10 < sourceNameLen \<or> 10 < targetNameLen then (\<lambda>s. Ret None)
         else
          pbind (ask (file_exists fs sourceName (of_nat sourceNameLen))) (\<lambda>fileAddress.
           if fileAddress = 0 then say ''File not found''
           else pseq
            [tell (set_name fs fileAddress targetName (of_nat targetNameLen)),
             say ''File renamed'']))"


section \<open>Showing\<close>

text \<open>The file stays open when its size is 0.\<close>

definition functionType :: "'v volume_calls \<Rightarrow> buffer \<Rightarrow> buffer \<Rightarrow> u8 \<Rightarrow> ('v, unit) utility" where
  "functionType fs stack param param_length =
     pbind (ask (file_exists fs param param_length)) (\<lambda>fileAddress.
      if fileAddress = 0 then pskip
      else
       pbind (ask (open_file fs fileAddress)) (\<lambda>index.
       pbind (ask (get_size fs fileAddress)) (\<lambda>fileSize.
        if fileSize = 0 then pskip
        else
         pbind (ask (read_file fs index stack fileSize)) (\<lambda>fileBuffer.
          pseq
           [tell (close_file fs index),
            pfor [0..<unat fileSize] (\<lambda>i. if fileBuffer i = 0x0a then printLn else printChar (fileBuffer i)),
            (if fileSize < 20 then printLn else pskip)]))))"

definition functionCAP :: "'v volume_calls \<Rightarrow> buffer \<Rightarrow> buffer \<Rightarrow> u8 \<Rightarrow> ('v, unit) utility" where
  "functionCAP fs stack param param_length =
     pbind (ask (device_capacity fs)) (\<lambda>deviceCapacity.
      if deviceCapacity < 1024 then say ''Device not ready''
      else
       let numberOfKBytes = deviceCapacity div 1024;
           (place, integer) = int_to_string numberOfKBytes stack
       in pseq
        [print integer (place + 1),
         printChar (ch CHR ''k''),
         printSpace 1,
         say ''bytes''])"


section \<open>Attributes\<close>

definition attrib_name_length :: "buffer \<Rightarrow> u8 \<Rightarrow> nat" where
  "attrib_name_length param param_length =
     (case find (\<lambda>i. param i = space) [0..<unat param_length] of Some i \<Rightarrow> i | None \<Rightarrow> unat param_length - 1)"

text \<open>The assignments for what is behind the name, in order.\<close>

definition applied_attribute :: "u8 \<Rightarrow> u8 \<Rightarrow> FSAttribute \<Rightarrow> FSAttribute" where
  "applied_attribute sign letter a =
     (let minus = sign = ch CHR ''-''; plus = sign = ch CHR ''+'';
          a = (if minus \<and> letter = ch CHR ''x'' then a\<lparr>executable := space\<rparr> else a);
          a = (if minus \<and> letter = ch CHR ''r'' then a\<lparr>readable := space\<rparr> else a);
          a = (if minus \<and> letter = ch CHR ''w'' then a\<lparr>writeable := space\<rparr> else a);
          a = (if plus \<and> letter = ch CHR ''x'' then a\<lparr>executable := ch CHR ''x''\<rparr> else a);
          a = (if plus \<and> letter = ch CHR ''r'' then a\<lparr>readable := ch CHR ''r''\<rparr> else a)
      in if plus \<and> letter = ch CHR ''w'' then a\<lparr>writeable := ch CHR ''w''\<rparr> else a)"

definition attribute_changed :: "FSAttribute \<Rightarrow> FSAttribute \<Rightarrow> bool" where
  "attribute_changed a b \<longleftrightarrow>
     executable a \<noteq> executable b \<or> readable a \<noteq> readable b \<or> writeable a \<noteq> writeable b \<or> attr_type a \<noteq> attr_type b"

definition show_letter :: "u8 \<Rightarrow> ('x, unit) con" where
  "show_letter a = (if a \<noteq> 0 then printChar a else printSpace 1)"

text \<open>What is done with the attributes that were read; \<open>n\<close> is the length of the name.\<close>

definition change_attributes :: "'v volume_calls \<Rightarrow> buffer \<Rightarrow> u8 \<Rightarrow> nat \<Rightarrow> u32 \<Rightarrow> FSAttribute \<Rightarrow> ('v, unit) utility" where
  "change_attributes fs param param_length n fileAddress current =
     (let attribute = applied_attribute (param (n + 1)) (param (n + 2)) current in
      if attr_type current = ch CHR ''d'' \<and> attr_type attribute \<noteq> ch CHR ''d''
         \<or> attr_type current = ch CHR ''d'' \<and> executable attribute \<noteq> space
      then say ''Attribute error''
      else
       pbind (if attribute_changed attribute current then ask (set_attributes fs fileAddress attribute) else preturn 1) (\<lambda>set.
        if set = 0 then say ''Attribute error''
        else pseq
         [show_letter (executable attribute),
          show_letter (readable attribute),
          show_letter (writeable attribute),
          show_letter (attr_type attribute),
          printSpace 1,
          print param param_length,
          printLn]))"

definition functionATTRIB :: "'v volume_calls \<Rightarrow> FSAttribute \<Rightarrow> buffer \<Rightarrow> u8 \<Rightarrow> ('v, unit) utility" where
  "functionATTRIB fs junk param param_length =
     (let n = attrib_name_length param param_length in
      pbind (ask (file_exists fs param (of_nat n))) (\<lambda>fileAddress.
      pbind (if fileAddress = 0 then ask (directory_exists fs param (of_nat n)) else preturn fileAddress) (\<lambda>fileAddress.
       if fileAddress = 0 then say ''File not found''
       else
        pbind (ask (get_attributes fs fileAddress junk)) (\<lambda>(got, current).
         if got = 0 then say ''File not found''
         else change_attributes fs param param_length n fileAddress current))))"


section \<open>Copying\<close>

text \<open>
  What is read of the source: its name, the attributes, the size and the bytes; and what is remembered of
  the working directory.
\<close>

record copy_job =
  sourceFilename :: buffer
  sourceNameLength :: u8
  destFilename :: buffer
  destNameLength :: u8
  sourceAttrib :: FSAttribute
  fileSize :: u32
  sourceBuffer :: buffer
  isInWorkingDirectory :: bool
  currentWorkingDirectory :: buffer
  currentWorkingDirectoryLength :: u8
  currentWorkingDirectoryAddress :: u32

definition restore_working :: "'v volume_calls \<Rightarrow> copy_job \<Rightarrow> ('v, unit) utility" where
  "restore_working fs j =
     pseq
      [tell (change_working fs (currentWorkingDirectory j) (currentWorkingDirectoryLength j)),
       tell (set_working_address fs (currentWorkingDirectoryAddress j)),
       tell (set_working_name fs (currentWorkingDirectoryAddress j))]"

text \<open>The sequence that makes the copy, the same at five places.\<close>

definition paste :: "'v volume_calls \<Rightarrow> copy_job \<Rightarrow> buffer \<Rightarrow> u8 \<Rightarrow> ('v, unit) utility" where
  "paste fs j name nameLength =
     pbind (ask (create_file fs name nameLength (fileSize j))) (\<lambda>destFileAddress.
     pbind (ask (working_address fs)) (\<lambda>wd.
     pbind (tell (add_file fs wd destFileAddress)) (\<lambda>_.
     pbind (ask (set_attributes fs destFileAddress (sourceAttrib j))) (\<lambda>_.
     pbind (ask (open_file fs destFileAddress)) (\<lambda>index.
      pseq
       [tell (write_file fs index (sourceBuffer j) (fileSize j)),
        tell (close_file fs index),
        say ''File copied''])))))"

definition restore_or_clear :: "'v volume_calls \<Rightarrow> copy_job \<Rightarrow> ('v, unit) utility" where
  "restore_or_clear fs j = (if isInWorkingDirectory j then restore_working fs j else tell (clear_working fs))"

definition copy_to_directory :: "'v volume_calls \<Rightarrow> copy_job \<Rightarrow> u32 \<Rightarrow> ('v, unit) utility" where
  "copy_to_directory fs j destinationDirAddress =
     pbind (pseq
      [tell (change_working fs (destFilename j) (destNameLength j)),
       tell (set_working_address fs destinationDirAddress),
       tell (set_working_name fs destinationDirAddress)]) (\<lambda>_.
     pbind (ask (file_exists fs (sourceFilename j) (sourceNameLength j))) (\<lambda>a.
      pseq
       [(if a \<noteq> 0 then say ''Destination error'' else paste fs j (sourceFilename j) (sourceNameLength j)),
        restore_or_clear fs j]))"

definition copy_to_root :: "'v volume_calls \<Rightarrow> copy_job \<Rightarrow> ('v, unit) utility" where
  "copy_to_root fs j =
     pbind (ask (working_stack fs)) (\<lambda>currentDirStackPtr.
     pbind (tell (clear_working fs)) (\<lambda>_.
     pbind (ask (file_exists fs (sourceFilename j) (sourceNameLength j))) (\<lambda>a.
     pbind (ask (directory_exists fs (sourceFilename j) (sourceNameLength j))) (\<lambda>b.
      pseq
       [(if a \<noteq> 0 \<or> b \<noteq> 0 then say ''Destination error'' else paste fs j (sourceFilename j) (sourceNameLength j)),
        tell (set_working_stack fs currentDirStackPtr),
        tell (set_working_address fs (currentWorkingDirectoryAddress j)),
        tell (set_working_name fs (currentWorkingDirectoryAddress j))]))))"

definition copy_to_parent :: "'v volume_calls \<Rightarrow> copy_job \<Rightarrow> ('v, unit) utility" where
  "copy_to_parent fs j =
     pbind (ask (working_to_parent fs)) (\<lambda>moved.
     pbind (if moved = 1 then paste fs j (sourceFilename j) (sourceNameLength j) else pskip) (\<lambda>_.
     pbind (ask (working_stack fs)) (\<lambda>stackPtr.
      pseq [tell (set_working_stack fs stackPtr), restore_working fs j])))"

definition copy_to_device :: "'v volume_calls \<Rightarrow> copy_job \<Rightarrow> ('v, unit) utility" where
  "copy_to_device fs j =
     pbind (ask (device_context fs)) (\<lambda>currentDeviceAddress.
     pbind (ask (root_letter fs)) (\<lambda>deviceLetter.
      pseq
       [tell (set_root_letter fs (destFilename j 0)),
        tell (clear_working fs),
        paste fs j (sourceFilename j) (sourceNameLength j),
        tell (set_device_context fs currentDeviceAddress),
        tell (set_root_letter fs deviceLetter),
        restore_or_clear fs j]))"

text \<open>The cases behind the test for a directory, in order.\<close>

definition copy_elsewhere :: "'v volume_calls \<Rightarrow> copy_job \<Rightarrow> ('v, unit) utility" where
  "copy_elsewhere fs j =
     (if destFilename j 0 = ch CHR ''/'' \<and> destFilename j 1 = space then copy_to_root fs j
      else if destFilename j 0 = ch CHR ''.'' \<and> destFilename j 1 = ch CHR ''.'' then copy_to_parent fs j
      else
       pbind (ask (file_exists fs (destFilename j) (destNameLength j))) (\<lambda>destinationFileAddress.
        if destinationFileAddress \<noteq> 0 then pseq [say ''Destination error'', restore_working fs j]
        else if destFilename j 1 = ch CHR '':'' \<and> destFilename j 2 = space then copy_to_device fs j
        else pseq [paste fs j (destFilename j) (destNameLength j), restore_working fs j]))"

definition copy_dispatch :: "'v volume_calls \<Rightarrow> copy_job \<Rightarrow> ('v, unit) utility" where
  "copy_dispatch fs j =
     pbind (ask (directory_exists fs (destFilename j) (destNameLength j))) (\<lambda>destinationDirAddress.
      if destinationDirAddress \<noteq> 0 then
       pbind (ask (read_byte fs (destinationDirAddress + ATTRIBUTE_OFFSET_SPECIAL fs))) (\<lambda>fileAttrib.
        if fileAttrib = ch CHR ''d'' then copy_to_directory fs j destinationDirAddress
        else copy_elsewhere fs j)
      else copy_elsewhere fs j)"

text \<open>
  The two names go into arrays of ten bytes. A name that does not fit overwrites the stack: None. The
  loop that blanks the buffer counts in eight bits: for a file of 256 bytes or more it never ends, None.
\<close>

definition split_fits :: "buffer \<Rightarrow> nat \<Rightarrow> bool" where
  "split_fits source n \<longleftrightarrow>
     (case find (\<lambda>i. source i = space) [0..<n] of
        None \<Rightarrow> n \<le> 10
      | Some k \<Rightarrow> k < 10 \<and>
          (case find (\<lambda>i. source i = space) [k + 1..<n] of None \<Rightarrow> n \<le> k + 11 | Some i \<Rightarrow> i < k + 11))"

definition split_names :: "buffer \<Rightarrow> buffer \<Rightarrow> u8 \<Rightarrow> split_state" where
  "split_names stack param param_length =
     (let blank = (\<lambda>i. if i < 10 then space else stack i)
      in snd (StringSplit param param_length
           \<lparr>splitA = blank, splitALen = 0, splitB = blank, splitBLen = 0\<rparr> space))"

text \<open>The source is read, and the working directory remembered.\<close>

definition copy_read :: "'v volume_calls \<Rightarrow> buffer \<Rightarrow> split_state \<Rightarrow> FSAttribute \<Rightarrow> u32 \<Rightarrow> u32 \<Rightarrow> ('v, unit) utility" where
  "copy_read fs stack st attrib sourceAddress sz =
     pbind (ask (open_file fs sourceAddress)) (\<lambda>indexsrc.
      if 255 < sz then (\<lambda>s. Ret None)
      else
       pbind (ask (read_file fs indexsrc (\<lambda>i. if i < unat sz then space else stack i) sz)) (\<lambda>buf.
       pbind (tell (close_file fs indexsrc)) (\<lambda>_.
       pbind (ask (working_stack fs)) (\<lambda>stackPtr.
       pbind (ask (working_name fs (\<lambda>i. if i < 20 then space else stack i))) (\<lambda>(nameLength, name).
       pbind (ask (working_address fs)) (\<lambda>address.
        copy_dispatch fs
         \<lparr>sourceFilename = splitA st, sourceNameLength = splitALen st,
          destFilename = splitB st, destNameLength = splitBLen st,
          sourceAttrib = attrib, fileSize = sz, sourceBuffer = buf,
          isInWorkingDirectory = (stackPtr = 0),
          currentWorkingDirectory = name, currentWorkingDirectoryLength = nameLength,
          currentWorkingDirectoryAddress = address\<rparr>))))))"

definition functionCOPY :: "'v volume_calls \<Rightarrow> FSAttribute \<Rightarrow> FSAttribute \<Rightarrow> buffer \<Rightarrow> buffer \<Rightarrow> u8 \<Rightarrow> ('v, unit) utility" where
  "functionCOPY fs junk junk' stack param param_length =
     (if \<not> split_fits param (unat param_length) then (\<lambda>s. Ret None)
      else
       let st = split_names stack param param_length in
       if splitB st 0 = space \<or> splitA st 0 = space then say ''Invalid filename''
       else
        pbind (ask (file_exists fs (splitA st) (splitALen st))) (\<lambda>sourceAddress.
        pbind (ask (get_attributes fs sourceAddress junk)) (\<lambda>(_, sourceAttrib).
        pbind (ask (get_attributes fs sourceAddress junk')) (\<lambda>(_, attrib).
         if sourceAddress = 0 \<or> attr_type attrib = ch CHR ''d'' then say ''File not found''
         else
          pbind (ask (get_size fs sourceAddress)) (\<lambda>fileSize.
           copy_read fs stack st sourceAttrib sourceAddress fileSize)))))"


section \<open>Registration\<close>

definition registerCommandRM :: "nat \<Rightarrow> 'x console_scheme \<Rightarrow> 'x console_scheme" where
  "registerCommandRM = register ''rm''"
definition registerCommandMK :: "nat \<Rightarrow> 'x console_scheme \<Rightarrow> 'x console_scheme" where
  "registerCommandMK = register ''mk''"
definition registerCommandMKDIR :: "nat \<Rightarrow> 'x console_scheme \<Rightarrow> 'x console_scheme" where
  "registerCommandMKDIR = register ''mkdir''"
definition registerCommandRN :: "nat \<Rightarrow> 'x console_scheme \<Rightarrow> 'x console_scheme" where
  "registerCommandRN = register ''rn''"
definition registerCommandType :: "nat \<Rightarrow> 'x console_scheme \<Rightarrow> 'x console_scheme" where
  "registerCommandType = register ''type''"
definition registerCommandCAP :: "nat \<Rightarrow> 'x console_scheme \<Rightarrow> 'x console_scheme" where
  "registerCommandCAP = register ''cap''"
definition registerCommandAttribute :: "nat \<Rightarrow> 'x console_scheme \<Rightarrow> 'x console_scheme" where
  "registerCommandAttribute = register ''attrib''"
definition registerCommandCOPY :: "nat \<Rightarrow> 'x console_scheme \<Rightarrow> 'x console_scheme" where
  "registerCommandCOPY = register ''copy''"

end
