(* ===== verification/UtilitySpec.thy ===== *)
theory UtilitySpec
  imports Utilities
begin

text \<open>
  What the file utilities do to the files. The files of a volume are seen through an observer \<open>view\<close>
  (the address of a file to its attributes and bytes), and what the calls of the file system
  do to it is the predicate \<open>file_laws\<close>, a hypothesis of the theorems. Total correctness over the volume has
  one rule for each statement.
\<close>

section \<open>Runs over a volume\<close>

definition shown :: "u32 \<Rightarrow> mem \<Rightarrow> 'v utilities \<Rightarrow> mem \<Rightarrow> bool" where
  "shown base m0 c m \<longleftrightarrow> same_volume m0 m \<and> display_ready base c m"

definition yields :: "u32 \<Rightarrow> mem \<Rightarrow> ('v \<Rightarrow> bool) \<Rightarrow> ('v, 'a) utility \<Rightarrow> ('a \<Rightarrow> 'v \<Rightarrow> bool) \<Rightarrow> bool" where
  "yields base m0 P p Q \<longleftrightarrow> (\<forall>c m. P (volume c) \<longrightarrow> shown base m0 c m \<longrightarrow>
     (\<exists>x c' m'. run mem_rd mem_wr p c m = (Some (x, c'), m') \<and> Q x (volume c') \<and> shown base m0 c' m'))"

lemma yieldsD:
  assumes "yields base m0 P p Q" and "P (volume c)" and "shown base m0 c m"
  obtains x c' m' where "run mem_rd mem_wr p c m = (Some (x, c'), m')" "Q x (volume c')" "shown base m0 c' m'"
  using assms unfolding yields_def by blast

named_theorems yields_rules \<open>total correctness over a volume\<close>

lemma yields_pbind [yields_rules]:
  assumes "yields base m0 P p R" and "\<And>x. yields base m0 (R x) (f x) Q"
  shows "yields base m0 P (pbind p f) Q"
  unfolding yields_def run_pbind
proof (intro allI impI)
  fix c m assume "P (volume c)" "shown base m0 c m"
  with assms(1) obtain x c' m' where 1: "run mem_rd mem_wr p c m = (Some (x, c'), m')" "R x (volume c')" "shown base m0 c' m'"
    by (rule yieldsD)
  obtain y c'' m'' where 2: "run mem_rd mem_wr (f x) c' m' = (Some (y, c''), m'')" "Q y (volume c'')" "shown base m0 c'' m''"
    by (rule yieldsD [OF assms(2) 1(2,3)])
  then show "\<exists>x c' m'. (case run mem_rd mem_wr p c m of (None, s1) \<Rightarrow> (None, s1)
      | (Some (x, c1), s1) \<Rightarrow> run mem_rd mem_wr (f x) c1 s1) = (Some (x, c'), m') \<and> Q x (volume c') \<and> shown base m0 c' m'"
    by (simp add: 1(1))
qed

lemma yields_preturn: "(\<And>v. P v \<Longrightarrow> Q x v) \<Longrightarrow> yields base m0 P (preturn x) Q"
  by (auto simp: yields_def run_simps)

lemma shown_volume: "shown base m0 c m \<Longrightarrow> shown base m0 (c\<lparr>volume := v\<rparr>) m"
  by (simp add: shown_def display_ready_def)

lemma run_ask: "run rd wr (ask f) c s = (Some (fst (f (volume c)), c\<lparr>volume := snd (f (volume c))\<rparr>), s)"
  by (simp add: ask_def run_simps case_prod_beta Let_def)

lemma run_tell: "run rd wr (tell f) c s = (Some ((), c\<lparr>volume := f (volume c)\<rparr>), s)"
  by (cases c) (simp add: tell_def run_simps)

lemma run_pbind_ask:
  "run rd wr (pbind (ask f) g) c s = run rd wr (g (fst (f (volume c)))) (c\<lparr>volume := snd (f (volume c))\<rparr>) s"
  by (simp add: run_pbind run_ask)

lemma run_none: "run rd wr (\<lambda>s. Ret None) c s = (None, s)"
  by (simp add: run_def)

lemma yields_ask: "(\<And>v. P v \<Longrightarrow> Q (fst (f v)) (snd (f v))) \<Longrightarrow> yields base m0 P (ask f) Q"
  by (simp add: yields_def run_ask shown_volume)

lemma yields_tell: "(\<And>v. P v \<Longrightarrow> Q () (f v)) \<Longrightarrow> yields base m0 P (tell f) Q"
  by (simp add: yields_def run_tell shown_volume)

lemma yields_if [yields_rules]:
  "(b \<Longrightarrow> yields base m0 P p Q) \<Longrightarrow> (\<not> b \<Longrightarrow> yields base m0 P q Q) \<Longrightarrow> yields base m0 P (if b then p else q) Q"
  by simp

lemma yields_weaken:
  "yields base m0 P p Q \<Longrightarrow> (\<And>v. P' v \<Longrightarrow> P v) \<Longrightarrow> (\<And>x v. Q x v \<Longrightarrow> Q' x v) \<Longrightarrow> yields base m0 P' p Q'"
  unfolding yields_def by meson

lemma yields_assume: "(\<And>v. P v \<Longrightarrow> yields base m0 (\<lambda>v'. v' = v) p Q) \<Longrightarrow> yields base m0 P p Q"
  unfolding yields_def by blast

lemma yields_printing:
  assumes "behind_volume base" and "\<And>e. printing_on mem_rd mem_wr (display_keeps base (same_volume m0) e) p"
  shows "yields base m0 P p (\<lambda>_. P)"
  unfolding yields_def shown_def
proof (intro allI impI, elim conjE)
  fix c :: "'a utilities" and m assume 1: "P (volume c)" "same_volume m0 m" "display_ready base c m"
  then have "display_keeps base (same_volume m0) (kept_variables c) c m" by (simp add: display_keeps_def)
  then obtain x c' m' where 2: "run mem_rd mem_wr p c m = (Some (x, c'), m')"
    "display_keeps base (same_volume m0) (kept_variables c) c' m'"
    using assms(2) unfolding printing_on_def by blast
  then have "volume c' = volume c" by (cases c', cases c) (simp add: display_keeps_def)
  then show "\<exists>x c' m'. run mem_rd mem_wr p c m = (Some (x, c'), m') \<and> P (volume c') \<and> same_volume m0 m' \<and> display_ready base c' m'"
    using 1 2 by (auto simp: display_keeps_def)
qed

lemma yields_say:
  assumes "behind_volume base"
  shows "yields base m0 P (say t) (\<lambda>_. P)"
  by (rule yields_printing [OF assms screen.printing_say [OF behind_screen [OF assms]]])

lemma yields_skip: "yields base m0 P pskip (\<lambda>_. P)"
  unfolding pskip_def by (rule yields_preturn)

lemma yields_pseq_Nil: "yields base m0 P (pseq []) (\<lambda>_. P)"
  unfolding pseq.simps by (rule yields_preturn)

lemma yields_pseq_Cons:
  "yields base m0 P p (\<lambda>_. R) \<Longrightarrow> yields base m0 R (pseq ps) Q \<Longrightarrow> yields base m0 P (pseq (p # ps)) Q"
  unfolding pseq.simps by (rule yields_pbind)


section \<open>What the calls do to the files\<close>

type_synonym files = "u32 \<Rightarrow> (FSAttribute \<times> u8 list) option"

definition answers :: "('v \<Rightarrow> files) \<Rightarrow> ('v \<Rightarrow> 'a \<times> 'v) \<Rightarrow> bool" where
  "answers view f \<longleftrightarrow> (\<forall>v. view (snd (f v)) = view v)"

definition keeps_files :: "('v \<Rightarrow> files) \<Rightarrow> ('v \<Rightarrow> 'v) \<Rightarrow> bool" where
  "keeps_files view f \<longleftrightarrow> (\<forall>v. view (f v) = view v)"

text \<open>The calls that find, read and list files, and those for the working directory, change no file.\<close>

definition leaves_files :: "'v volume_calls \<Rightarrow> ('v \<Rightarrow> files) \<Rightarrow> bool" where
  "leaves_files fs view \<longleftrightarrow>
     (\<forall>p n. answers view (file_exists fs p n) \<and> answers view (directory_exists fs p n)) \<and>
     (\<forall>a t. answers view (get_attributes fs a t)) \<and>
     (\<forall>a. answers view (get_size fs a) \<and> answers view (open_file fs a) \<and> answers view (read_byte fs a)) \<and>
     (\<forall>i b n. answers view (read_file fs i b n)) \<and>
     (\<forall>b. answers view (working_name fs b)) \<and>
     answers view (working_address fs) \<and> answers view (working_stack fs) \<and>
     answers view (working_to_parent fs) \<and> answers view (device_context fs) \<and> answers view (root_letter fs) \<and>
     (\<forall>d a. answers view (remove_file fs d a) \<and> keeps_files view (add_file fs d a)) \<and>
     (\<forall>i. keeps_files view (close_file fs i)) \<and>
     (\<forall>p n. keeps_files view (change_working fs p n)) \<and>
     (\<forall>a. keeps_files view (set_working_address fs a) \<and> keeps_files view (set_working_name fs a)
        \<and> keeps_files view (set_device_context fs a)) \<and>
     (\<forall>k. keeps_files view (set_working_stack fs k) \<and> keeps_files view (set_root_letter fs k)) \<and>
     keeps_files view (clear_working fs)"

text \<open>
  Finding a file and reading it; creating, changing and deleting one. A file is written through the index it is
  open at; \<open>at_index\<close> gives its address. Writing replaces the contents.
\<close>

definition finds_files :: "'v volume_calls \<Rightarrow> ('v \<Rightarrow> files) \<Rightarrow> ('v \<Rightarrow> u32 \<Rightarrow> u32) \<Rightarrow> bool" where
  "finds_files fs view at_index \<longleftrightarrow>
     (\<forall>v. view v 0 = None) \<and>
     (\<forall>p n v. fst (file_exists fs p n v) \<noteq> 0 \<longrightarrow> view v (fst (file_exists fs p n v)) \<noteq> None) \<and>
     (\<forall>p n v. fst (directory_exists fs p n v) \<noteq> 0 \<longrightarrow> view v (fst (directory_exists fs p n v)) \<noteq> None) \<and>
     (\<forall>a v t d junk. view v a = Some (t, d) \<longrightarrow> fst (get_attributes fs a junk v) = (1, t)) \<and>
     (\<forall>a v t d. view v a = Some (t, d) \<longrightarrow> fst (get_size fs a v) = of_nat (length d) \<and> length d < 2 ^ 32) \<and>
     (\<forall>a v. at_index (snd (open_file fs a v)) (fst (open_file fs a v)) = a) \<and>
     (\<forall>i b n v t d. view v (at_index v i) = Some (t, d) \<longrightarrow> unat n = length d \<longrightarrow>
        map (fst (read_file fs i b n v)) [0..<length d] = d)"

definition changes_files :: "'v volume_calls \<Rightarrow> ('v \<Rightarrow> files) \<Rightarrow> ('v \<Rightarrow> u32 \<Rightarrow> u32) \<Rightarrow> bool" where
  "changes_files fs view at_index \<longleftrightarrow>
     (\<forall>p n k v. (case create_file fs p n k v of (a, v') \<Rightarrow>
        if a = 0 then view v' = view v
        else view v a = None \<and> (\<exists>e. view v' = (view v)(a \<mapsto> e)))) \<and>
     (\<forall>a t v. view (snd (set_attributes fs a t v)) =
        (case view v a of None \<Rightarrow> view v | Some (_, d) \<Rightarrow> (view v)(a \<mapsto> (t, d)))) \<and>
     (\<forall>i b n v. view (write_file fs i b n v) =
        (case view v (at_index v i) of None \<Rightarrow> view v
         | Some (t, _) \<Rightarrow> (view v)(at_index v i \<mapsto> (t, map b [0..<unat n])))) \<and>
     (\<forall>p n v. fst (delete_file fs p n v) = fst (file_exists fs p n v) \<and>
        view (snd (delete_file fs p n v)) = (view v)(fst (file_exists fs p n v) := None)) \<and>
     (\<forall>p n v. fst (delete_directory fs p n v) = fst (directory_exists fs p n v) \<and>
        view (snd (delete_directory fs p n v)) = (view v)(fst (directory_exists fs p n v) := None))"

definition file_laws :: "'v volume_calls \<Rightarrow> ('v \<Rightarrow> files) \<Rightarrow> ('v \<Rightarrow> u32 \<Rightarrow> u32) \<Rightarrow> bool" where
  "file_laws fs view at_index \<longleftrightarrow> leaves_files fs view \<and> finds_files fs view at_index \<and> changes_files fs view at_index"

lemma answersD: "answers view f \<Longrightarrow> view (snd (f v)) = view v"
  by (simp add: answers_def)

lemma keepsD: "keeps_files view f \<Longrightarrow> view (f v) = view v"
  by (simp add: keeps_files_def)

lemma leaves_simps:
  assumes "file_laws fs view at_index"
  shows "view (snd (file_exists fs p n v)) = view v"
    "view (snd (directory_exists fs p n v)) = view v"
    "view (snd (get_attributes fs a t v)) = view v"
    "view (snd (get_size fs a v)) = view v"
    "view (snd (open_file fs a v)) = view v"
    "view (snd (read_byte fs a v)) = view v"
    "view (snd (read_file fs i b k v)) = view v"
    "view (snd (working_name fs b v)) = view v"
    "view (snd (working_address fs v)) = view v"
    "view (snd (working_stack fs v)) = view v"
    "view (snd (working_to_parent fs v)) = view v"
    "view (snd (device_context fs v)) = view v"
    "view (snd (root_letter fs v)) = view v"
    "view (snd (remove_file fs d a v)) = view v"
    "view (add_file fs d a v) = view v"
    "view (close_file fs i v) = view v"
    "view (change_working fs p n v) = view v"
    "view (set_working_address fs a v) = view v"
    "view (set_working_name fs a v) = view v"
    "view (set_device_context fs a v) = view v"
    "view (set_working_stack fs x v) = view v"
    "view (set_root_letter fs x v) = view v"
    "view (clear_working fs v) = view v"
  using assms unfolding file_laws_def leaves_files_def answers_def keeps_files_def by metis+

lemma finds_laws:
  assumes "file_laws fs view at_index"
  shows "view v 0 = None"
    "fst (file_exists fs p n v) \<noteq> 0 \<Longrightarrow> view v (fst (file_exists fs p n v)) \<noteq> None"
    "fst (directory_exists fs p n v) \<noteq> 0 \<Longrightarrow> view v (fst (directory_exists fs p n v)) \<noteq> None"
    "view v a = Some (t, d) \<Longrightarrow> fst (get_attributes fs a junk v) = (1, t)"
    "view v a = Some (t, d) \<Longrightarrow> unat (fst (get_size fs a v)) = length d"
    "at_index (snd (open_file fs a v)) (fst (open_file fs a v)) = a"
    "view v (at_index v i) = Some (t, d) \<Longrightarrow> unat k = length d \<Longrightarrow> map (fst (read_file fs i b k v)) [0..<length d] = d"
  using assms unfolding file_laws_def finds_files_def by (simp_all add: unat_of_nat)

lemma create_law:
  assumes "file_laws fs view at_index"
  shows "fst (create_file fs p n k v) = 0 \<Longrightarrow> view (snd (create_file fs p n k v)) = view v"
    "fst (create_file fs p n k v) \<noteq> 0 \<Longrightarrow> view v (fst (create_file fs p n k v)) = None
      \<and> (\<exists>e. view (snd (create_file fs p n k v)) = (view v)(fst (create_file fs p n k v) \<mapsto> e))"
proof -
  have "\<forall>p n k v. (case create_file fs p n k v of (a, v') \<Rightarrow>
      if a = 0 then view v' = view v
      else view v a = None \<and> (\<exists>e. view v' = (view v)(a \<mapsto> e)))"
    using assms unfolding file_laws_def changes_files_def by (elim conjE) assumption
  then have "case create_file fs p n k v of (a, v') \<Rightarrow>
      if a = 0 then view v' = view v
      else view v a = None \<and> (\<exists>e. view v' = (view v)(a \<mapsto> e))" by (elim allE)
  then show "fst (create_file fs p n k v) = 0 \<Longrightarrow> view (snd (create_file fs p n k v)) = view v"
    "fst (create_file fs p n k v) \<noteq> 0 \<Longrightarrow> view v (fst (create_file fs p n k v)) = None
      \<and> (\<exists>e. view (snd (create_file fs p n k v)) = (view v)(fst (create_file fs p n k v) \<mapsto> e))"
    by (cases "create_file fs p n k v"; simp)+
qed

lemma change_simps:
  assumes "file_laws fs view at_index"
  shows "view (snd (set_attributes fs a t v)) =
      (case view v a of None \<Rightarrow> view v | Some (_, d) \<Rightarrow> (view v)(a \<mapsto> (t, d)))"
    "view (write_file fs i b k v) =
      (case view v (at_index v i) of None \<Rightarrow> view v
       | Some (t, _) \<Rightarrow> (view v)(at_index v i \<mapsto> (t, map b [0..<unat k])))"
    "fst (delete_file fs p n v) = fst (file_exists fs p n v)"
    "view (snd (delete_file fs p n v)) = (view v)(fst (file_exists fs p n v) := None)"
    "fst (delete_directory fs p n v) = fst (directory_exists fs p n v)"
    "view (snd (delete_directory fs p n v)) = (view v)(fst (directory_exists fs p n v) := None)"
  using assms unfolding file_laws_def changes_files_def by blast+


section \<open>Copying a file\<close>

text \<open>Statements that keep the assertion.\<close>

lemma pbind_ask:
  "(\<And>v. P v \<Longrightarrow> P (snd (f v))) \<Longrightarrow> (\<And>x. yields base m0 P (g x) Q) \<Longrightarrow> yields base m0 P (pbind (ask f) g) Q"
  by (rule yields_pbind [where R = "\<lambda>_. P"]) (simp_all add: yields_ask)

lemma pbind_tell:
  "(\<And>v. P v \<Longrightarrow> P (f v)) \<Longrightarrow> (\<And>x. yields base m0 P (g x) Q) \<Longrightarrow> yields base m0 P (pbind (tell f) g) Q"
  by (rule yields_pbind [where R = "\<lambda>_. P"]) (simp_all add: yields_tell)

lemma pseq_tell:
  "(\<And>v. P v \<Longrightarrow> P (f v)) \<Longrightarrow> yields base m0 P (pseq ps) Q \<Longrightarrow> yields base m0 P (pseq (tell f # ps)) Q"
  unfolding pseq.simps by (rule pbind_tell)

lemma pseq_say:
  "behind_volume base \<Longrightarrow> yields base m0 P (pseq ps) Q \<Longrightarrow> yields base m0 P (pseq (say t # ps)) Q"
  by (rule yields_pseq_Cons [OF yields_say])

lemma pseq_one: "yields base m0 P p (\<lambda>_. Q) \<Longrightarrow> yields base m0 P (pseq [p]) (\<lambda>_. Q)"
  by (rule yields_pseq_Cons [OF _ yields_pseq_Nil])

text \<open>What a copy may leave: the files as they were, or one more at a free address.\<close>

definition copied :: "files \<Rightarrow> FSAttribute \<times> u8 list \<Rightarrow> files \<Rightarrow> bool" where
  "copied E e F \<longleftrightarrow> F = E \<or> (\<exists>new. E new = None \<and> F = E(new \<mapsto> e))"

text \<open>The file that a call made: none when its address is 0. With \<open>room\<close> there is one.\<close>

definition made :: "bool \<Rightarrow> files \<Rightarrow> u32 \<Rightarrow> files \<Rightarrow> bool" where
  "made room E a F \<longleftrightarrow> (if a = 0 then F = E \<and> \<not> room else E a = None \<and> (\<exists>x. F = E(a \<mapsto> x)))"

lemma yields_create:
  assumes "file_laws fs view at_index" and "\<And>v. room \<Longrightarrow> view v = E \<Longrightarrow> fst (create_file fs name n k v) \<noteq> 0"
  shows "yields base m0 (\<lambda>v. view v = E) (ask (create_file fs name n k)) (\<lambda>a v. made room E a (view v))"
  by (rule yields_ask) (use create_law [OF assms(1)] assms(2) in \<open>auto simp: made_def\<close>)

text \<open>Attributes and contents of a new file.\<close>

lemma yields_fill:
  fixes base :: u32 and m0 :: mem and E :: files
  assumes laws: "file_laws fs view at_index" and e: "e = (t, map b [0..<unat k])"
    and rest: "\<And>i. yields base m0 (\<lambda>v. copied E e (view v) \<and> (room \<longrightarrow> view v \<noteq> E)) (pseq (ps i)) Q"
  shows "yields base m0 (\<lambda>v. made room E a (view v))
    (pbind (ask (set_attributes fs a t)) (\<lambda>_. pbind (ask (open_file fs a)) (\<lambda>i. pseq (tell (write_file fs i b k) # ps i)))) Q"
proof -
  note L = leaves_simps [OF laws] and C = change_simps [OF laws] and F = finds_laws [OF laws]
  define marked where "marked F \<longleftrightarrow> (if a = 0 then F = E \<and> \<not> room else E a = None \<and> (\<exists>d. F = E(a \<mapsto> (t, d))))" for F
  have 1: "yields base m0 (\<lambda>v. made room E a (view v)) (ask (set_attributes fs a t)) (\<lambda>_ v. marked (view v))"
    by (rule yields_ask) (use F(1) in \<open>auto simp: made_def marked_def C(1) split: option.splits if_splits\<close>)
  have 2: "yields base m0 (\<lambda>v. marked (view v)) (ask (open_file fs a)) (\<lambda>i v. marked (view v) \<and> at_index v i = a)"
    by (rule yields_ask) (simp add: L F(6))
  have 3: "yields base m0 (\<lambda>v. marked (view v) \<and> at_index v i = a) (tell (write_file fs i b k))
      (\<lambda>_ v. copied E e (view v) \<and> (room \<longrightarrow> view v \<noteq> E))" for i
    by (rule yields_tell)
      (use F(1) in \<open>auto simp: marked_def copied_def C(2) e fun_eq_iff split: option.splits if_splits\<close>)
  show ?thesis
    by (rule yields_pbind [OF 1], rule yields_pbind [OF 2], rule yields_pseq_Cons [OF 3 rest])
qed

lemma yields_paste_room:
  fixes base :: u32 and m0 :: mem and E :: files
  assumes b: "behind_volume base" and laws: "file_laws fs view at_index"
    and e: "e = (sourceAttrib j, map (sourceBuffer j) [0..<unat (fileSize j)])"
    and room: "\<And>v. room \<Longrightarrow> view v = E \<Longrightarrow> fst (create_file fs name nameLength (fileSize j) v) \<noteq> 0"
  shows "yields base m0 (\<lambda>v. view v = E) (paste fs j name nameLength)
    (\<lambda>_ v. copied E e (view v) \<and> (room \<longrightarrow> view v \<noteq> E))"
  unfolding paste_def
  by (rule yields_pbind [OF yields_create [OF laws room]], assumption, assumption,
      rule pbind_ask, simp add: leaves_simps [OF laws], rule pbind_tell, simp add: leaves_simps [OF laws],
      rule yields_fill [OF laws e], rule pseq_tell, simp add: leaves_simps [OF laws], intro pseq_say b yields_pseq_Nil)

lemma yields_paste:
  assumes "behind_volume base" and "file_laws fs view at_index"
    and "e = (sourceAttrib j, map (sourceBuffer j) [0..<unat (fileSize j)])"
  shows "yields base m0 (\<lambda>v. view v = E) (paste fs j name nameLength) (\<lambda>_ v. copied E e (view v))"
  by (rule yields_weaken [OF yields_paste_room [OF assms, where room = False]]) simp_all

text \<open>Every case of the command, from a state with the files \<open>E\<close>.\<close>

lemma yields_copies:
  fixes base :: u32 and m0 :: mem and E :: files
  assumes b: "behind_volume base" and laws: "file_laws fs view at_index"
    and e: "e = (sourceAttrib j, map (sourceBuffer j) [0..<unat (fileSize j)])"
  shows "yields base m0 (\<lambda>v. view v = E) (copy_dispatch fs j) (\<lambda>_ v. copied E e (view v))"
proof -
  note L = leaves_simps [OF laws]
  note paste = yields_paste [OF b laws e]
  have said: "yields base m0 (\<lambda>v. view v = E) (say t) (\<lambda>_ v. copied E e (view v))" for t
    by (rule yields_weaken [OF yields_say [OF b]]) (auto simp: copied_def)
  have skip: "yields base m0 (\<lambda>v. view v = E) pskip (\<lambda>_ v. copied E e (view v))"
    by (rule yields_weaken [OF yields_skip]) (auto simp: copied_def)
  have restore: "yields base m0 (\<lambda>v. copied E e (view v)) (restore_working fs j) (\<lambda>_ v. copied E e (view v))"
    unfolding restore_working_def by (intro pseq_tell yields_pseq_Nil) (simp_all add: L)
  have revert: "yields base m0 (\<lambda>v. copied E e (view v)) (restore_or_clear fs j) (\<lambda>_ v. copied E e (view v))"
    unfolding restore_or_clear_def by (intro yields_if restore yields_tell) (simp_all add: L)
  have pasted: "yields base m0 (\<lambda>v. view v = E) (if c then say t else paste fs j name n) (\<lambda>_ v. copied E e (view v))" for c t name n
    by (intro yields_if paste said)
  have directory: "yields base m0 (\<lambda>v. view v = E) (copy_to_directory fs j a) (\<lambda>_ v. copied E e (view v))" for a
  proof -
    have "yields base m0 (\<lambda>v. view v = E)
      (pseq [tell (change_working fs p n), tell (set_working_address fs b), tell (set_working_name fs b)]) (\<lambda>_ v. view v = E)" for p n b
      by (intro pseq_tell yields_pseq_Nil) (simp_all add: L)
    then show ?thesis
      unfolding copy_to_directory_def
      by (rule yields_pbind) (rule pbind_ask, simp add: L, rule yields_pseq_Cons [OF pasted pseq_one [OF revert]])
  qed
  have root: "yields base m0 (\<lambda>v. view v = E) (copy_to_root fs j) (\<lambda>_ v. copied E e (view v))"
  proof -
    have "yields base m0 (\<lambda>v. copied E e (view v))
      (pseq [tell (set_working_stack fs k), tell (set_working_address fs b), tell (set_working_name fs b)]) (\<lambda>_ v. copied E e (view v))" for k b
      by (intro pseq_tell yields_pseq_Nil) (simp_all add: L)
    from yields_pseq_Cons [OF pasted this] show ?thesis
      unfolding copy_to_root_def by (intro pbind_ask pbind_tell) (simp_all add: L)
  qed
  have parent: "yields base m0 (\<lambda>v. view v = E) (copy_to_parent fs j) (\<lambda>_ v. copied E e (view v))"
  proof -
    have "yields base m0 (\<lambda>v. copied E e (view v)) (pseq [tell (set_working_stack fs k), restore_working fs j]) (\<lambda>_ v. copied E e (view v))" for k
      by (intro pseq_tell pseq_one restore) (simp add: L)
    then have tail: "yields base m0 (\<lambda>v. copied E e (view v))
        (pbind (ask (working_stack fs)) (\<lambda>k. pseq [tell (set_working_stack fs k), restore_working fs j])) (\<lambda>_ v. copied E e (view v))"
      by (intro pbind_ask) (simp_all add: L)
    have "yields base m0 (\<lambda>v. view v = E) (if c then paste fs j name n else pskip) (\<lambda>_ v. copied E e (view v))" for c name n
      by (intro yields_if paste skip)
    then have "yields base m0 (\<lambda>v. view v = E) (pbind (if c then paste fs j name n else pskip)
        (\<lambda>_. pbind (ask (working_stack fs)) (\<lambda>k. pseq [tell (set_working_stack fs k), restore_working fs j]))) (\<lambda>_ v. copied E e (view v))" for c name n
      using tail by (rule yields_pbind)
    then show ?thesis unfolding copy_to_parent_def by (intro pbind_ask) (simp_all add: L)
  qed
  have device: "yields base m0 (\<lambda>v. view v = E) (copy_to_device fs j) (\<lambda>_ v. copied E e (view v))"
  proof -
    have "yields base m0 (\<lambda>v. copied E e (view v))
      (pseq [tell (set_device_context fs a), tell (set_root_letter fs k), restore_or_clear fs j]) (\<lambda>_ v. copied E e (view v))" for a k
      by (intro pseq_tell pseq_one revert) (simp_all add: L)
    from yields_pseq_Cons [OF paste this] show ?thesis
      unfolding copy_to_device_def by (intro pbind_ask pseq_tell) (simp_all add: L)
  qed
  have ends: "yields base m0 (\<lambda>v. view v = E) (pseq [p, restore_working fs j]) (\<lambda>_ v. copied E e (view v))"
    if "yields base m0 (\<lambda>v. view v = E) p (\<lambda>_ v. copied E e (view v))" for p
    by (rule yields_pseq_Cons [OF that pseq_one [OF restore]])
  have elsewhere: "yields base m0 (\<lambda>v. view v = E) (copy_elsewhere fs j) (\<lambda>_ v. copied E e (view v))"
    unfolding copy_elsewhere_def
    by (intro yields_if root parent pbind_ask device ends said paste) (simp_all add: L)
  show ?thesis
    unfolding copy_dispatch_def by (intro pbind_ask yields_if elsewhere directory) (simp_all add: L)
qed

text \<open>Calls with a known answer.\<close>

lemma pbind_ask_value:
  "(\<And>v. P v \<Longrightarrow> fst (f v) = x \<and> P (snd (f v))) \<Longrightarrow> yields base m0 P (g x) Q \<Longrightarrow> yields base m0 P (pbind (ask f) g) Q"
  by (rule yields_pbind [where R = "\<lambda>y v. y = x \<and> P v"], rule yields_ask) (auto simp: yields_def)

lemma pbind_ask_from:
  "P (snd (f v0)) \<Longrightarrow> yields base m0 P (g (fst (f v0))) Q \<Longrightarrow> yields base m0 (\<lambda>v. v = v0) (pbind (ask f) g) Q"
  by (rule yields_pbind [where R = "\<lambda>y v. y = fst (f v0) \<and> P v"], rule yields_ask) (auto simp: yields_def)

lemma yields_pure: "(C \<Longrightarrow> yields base m0 P p Q) \<Longrightarrow> yields base m0 (\<lambda>v. C \<and> P v) p Q"
  unfolding yields_def by blast

text \<open>The source of a copy.\<close>

definition copy_source :: "'v volume_calls \<Rightarrow> split_state \<Rightarrow> 'v \<Rightarrow> u32" where
  "copy_source fs st v = fst (file_exists fs (splitA st) (splitALen st) v)"

definition copy_named :: "split_state \<Rightarrow> bool" where
  "copy_named st \<longleftrightarrow> splitB st 0 \<noteq> space \<and> splitA st 0 \<noteq> space"

lemma length_u32: "255 < (k :: u32) \<longleftrightarrow> 255 < unat k"
  by (simp add: word_less_nat_alt)

lemma copy_too_long:
  assumes laws: "file_laws fs view at_index"
    and st: "st = split_names stack param n" "split_fits param (unat n)" "copy_named st"
    and e: "view (volume s) (copy_source fs st (volume s)) = Some (t, d)" "attr_type t \<noteq> ch CHR ''d''" "255 < length d"
  shows "run rd wr (functionCOPY fs junk junk' stack param n) s m = (None, m)"
proof -
  note L = leaves_simps [OF laws] and F = finds_laws [OF laws]
  let ?a = "copy_source fs st (volume s)"
  have a: "?a \<noteq> 0" using e(1) F(1) by (metis option.distinct(1))
  let ?v1 = "snd (file_exists fs (splitA st) (splitALen st) (volume s))"
  let ?v2 = "snd (get_attributes fs ?a junk ?v1)"
  let ?v3 = "snd (get_attributes fs ?a junk' ?v2)"
  have v: "view ?v1 ?a = Some (t, d)" "view ?v2 ?a = Some (t, d)" "view ?v3 ?a = Some (t, d)"
    using e(1) by (simp_all add: L)
  have "fst (get_attributes fs ?a junk ?v1) = (1, t)" "fst (get_attributes fs ?a junk' ?v2) = (1, t)"
    using F(4) v by blast+
  moreover have "255 < fst (get_size fs ?a ?v3)"
    unfolding length_u32 using F(5) [OF v(3)] e(3) by simp
  moreover have "fst (file_exists fs (splitA st) (splitALen st) (volume s)) = ?a" by (simp add: copy_source_def)
  ultimately show ?thesis
    using st a e(2) unfolding functionCOPY_def copy_read_def copy_named_def
    by (simp add: run_pbind_ask run_none Let_def)
qed

lemma yields_read:
  assumes laws: "file_laws fs view at_index" and e: "E a = Some (t, d)" and k: "unat k = length d"
    and tail: "\<And>i b. map b [0..<unat k] = d \<Longrightarrow> yields base m0 (\<lambda>v. view v = E) (g i b) Q"
  shows "yields base m0 (\<lambda>v. view v = E)
    (pbind (ask (open_file fs a)) (\<lambda>i. pbind (ask (read_file fs i b0 k)) (g i))) Q"
proof (rule yields_pbind)
  note L = leaves_simps [OF laws] and F = finds_laws [OF laws]
  show "yields base m0 (\<lambda>v. view v = E) (ask (open_file fs a)) (\<lambda>i v. view v = E \<and> at_index v i = a)"
    by (rule yields_ask) (simp add: L F(6))
  fix i
  show "yields base m0 (\<lambda>v. view v = E \<and> at_index v i = a) (pbind (ask (read_file fs i b0 k)) (g i)) Q"
  proof (rule yields_pbind)
    show "yields base m0 (\<lambda>v. view v = E \<and> at_index v i = a) (ask (read_file fs i b0 k)) (\<lambda>b v. map b [0..<unat k] = d \<and> view v = E)"
      by (rule yields_ask) (use F(7) e k in \<open>simp add: L\<close>)
  qed (rule yields_pure [OF tail])
qed

lemma yields_copy_read:
  assumes laws: "file_laws fs view at_index"
    and e: "E a = Some (t, d)" "unat k = length d" "length d \<le> 255"
    and dispatch: "\<And>j. sourceAttrib j = t \<Longrightarrow> map (sourceBuffer j) [0..<unat (fileSize j)] = d \<Longrightarrow>
      destFilename j = splitB st \<Longrightarrow> destNameLength j = splitBLen st \<Longrightarrow>
      yields base m0 (\<lambda>v. view v = E) (copy_dispatch fs j) Q"
  shows "yields base m0 (\<lambda>v. view v = E) (copy_read fs stack st t a k) Q"
proof -
  note L = leaves_simps [OF laws]
  have "\<not> 255 < k" using e(2,3) by (simp add: length_u32)
  then show ?thesis
    unfolding copy_read_def case_prod_beta
    by (simp, intro yields_read [where E = E and a = a and t = t and d = d, OF laws e(1,2)] pbind_tell pbind_ask dispatch) (simp_all add: L)
qed

lemma yields_copy:
  fixes base :: u32 and m0 :: mem
  assumes b: "behind_volume base" and laws: "file_laws fs view at_index"
    and st: "st = split_names stack param n" "split_fits param (unat n)" "copy_named st"
    and e: "view v0 (copy_source fs st v0) = Some (t, d)" "attr_type t \<noteq> ch CHR ''d''" "length d \<le> 255"
    and dispatch: "\<And>j. sourceAttrib j = t \<Longrightarrow> map (sourceBuffer j) [0..<unat (fileSize j)] = d \<Longrightarrow>
      destFilename j = splitB st \<Longrightarrow> destNameLength j = splitBLen st \<Longrightarrow>
      yields base m0 (\<lambda>v. view v = view v0) (copy_dispatch fs j) Q"
  shows "yields base m0 (\<lambda>v. v = v0) (functionCOPY fs junk junk' stack param n) Q"
proof -
  note L = leaves_simps [OF laws] and F = finds_laws [OF laws]
  let ?a = "copy_source fs st v0"
  let ?P = "\<lambda>v. view v = view v0"
  have a0: "?a \<noteq> 0" using e(1) F(1) by (metis option.distinct(1))
  have attrs: "fst (get_attributes fs ?a x v) = (1, t)" if "view v = view v0" for v x
    using F(4) e(1) that by metis
  have size: "unat (fst (get_size fs ?a v)) = length d" if "view v = view v0" for v
    using F(5) e(1) that by metis
  have read: "yields base m0 ?P (pbind (ask (get_size fs ?a)) (copy_read fs stack st t ?a)) Q"
    by (rule yields_pbind [where R = "\<lambda>k v. unat k = length d \<and> ?P v"], rule yields_ask, simp add: size L,
        rule yields_pure, rule yields_copy_read [OF laws e(1) _ e(3) dispatch])
  have "yields base m0 ?P (pbind (ask (get_attributes fs ?a junk)) (\<lambda>(_, t1).
      pbind (ask (get_attributes fs ?a junk')) (\<lambda>(_, t2).
      if ?a = 0 \<or> attr_type t2 = ch CHR ''d'' then say ''File not found''
      else pbind (ask (get_size fs ?a)) (copy_read fs stack st t1 ?a)))) Q"
    by (rule pbind_ask_value, simp add: attrs L, simp, rule pbind_ask_value, simp add: attrs L, simp add: a0 e(2) read)
  then show ?thesis
    using st(2,3) unfolding functionCOPY_def Let_def st(1) [symmetric] copy_named_def copy_source_def
    by (simp, intro pbind_ask_from [where P = ?P]) (simp_all add: L)
qed

text \<open>A new name in the working directory, and room for a file.\<close>

definition plain_destination :: "buffer \<Rightarrow> bool" where
  "plain_destination q \<longleftrightarrow> \<not> (q 0 = ch CHR ''/'' \<and> q 1 = space) \<and> \<not> (q 0 = ch CHR ''.'' \<and> q 1 = ch CHR ''.'')
     \<and> \<not> (q 1 = ch CHR '':'' \<and> q 2 = space)"

definition new_name :: "'v volume_calls \<Rightarrow> ('v \<Rightarrow> files) \<Rightarrow> files \<Rightarrow> buffer \<Rightarrow> u8 \<Rightarrow> bool" where
  "new_name fs view E q k \<longleftrightarrow> (\<forall>v. view v = E \<longrightarrow> fst (directory_exists fs q k v) = 0 \<and> fst (file_exists fs q k v) = 0
     \<and> (\<forall>sz. fst (create_file fs q k sz v) \<noteq> 0))"

lemma yields_new_copy:
  fixes base :: u32 and m0 :: mem
  assumes b: "behind_volume base" and laws: "file_laws fs view at_index"
    and e: "e = (sourceAttrib j, map (sourceBuffer j) [0..<unat (fileSize j)])"
    and new: "plain_destination (destFilename j)" "new_name fs view E (destFilename j) (destNameLength j)"
  shows "yields base m0 (\<lambda>v. view v = E) (copy_dispatch fs j) (\<lambda>_ v. \<exists>new. E new = None \<and> view v = E(new \<mapsto> e))"
proof -
  note L = leaves_simps [OF laws]
  let ?K = "\<lambda>v. copied E e (view v) \<and> view v \<noteq> E"
  have room: "\<And>v. view v = E \<Longrightarrow> fst (create_file fs (destFilename j) (destNameLength j) (fileSize j) v) \<noteq> 0"
    using new(2) by (simp add: new_name_def)
  have paste: "yields base m0 (\<lambda>v. view v = E) (paste fs j (destFilename j) (destNameLength j)) (\<lambda>_. ?K)"
    by (rule yields_weaken [OF yields_paste_room [OF b laws e, where room = True]]) (use room in simp_all)
  have "yields base m0 ?K (restore_working fs j) (\<lambda>_. ?K)"
    unfolding restore_working_def by (intro pseq_tell yields_pseq_Nil) (simp_all add: L)
  then have 1: "yields base m0 (\<lambda>v. view v = E) (pseq [paste fs j (destFilename j) (destNameLength j), restore_working fs j]) (\<lambda>_. ?K)"
    by (rule yields_pseq_Cons [OF paste pseq_one])
  have plain: "(destFilename j 0 = ch CHR ''/'' \<and> destFilename j 1 = space) = False"
    "(destFilename j 0 = ch CHR ''.'' \<and> destFilename j 1 = ch CHR ''.'') = False"
    "(destFilename j 1 = ch CHR '':'' \<and> destFilename j 2 = space) = False"
    using new(1) unfolding plain_destination_def by blast+
  have "yields base m0 (\<lambda>v. view v = E) (copy_elsewhere fs j) (\<lambda>_. ?K)"
    unfolding copy_elsewhere_def
    by (simp only: plain if_False, intro pbind_ask_value [where x = 0]) (use new(2) 1 in \<open>auto simp: new_name_def L\<close>)
  then have "yields base m0 (\<lambda>v. view v = E) (copy_dispatch fs j) (\<lambda>_. ?K)"
    unfolding copy_dispatch_def by (intro pbind_ask_value [where x = 0]) (use new(2) in \<open>auto simp: new_name_def L\<close>)
  then show ?thesis by (rule yields_weaken) (auto simp: copied_def)
qed

text \<open>What is no file that can be copied.\<close>

lemma yields_no_copy:
  assumes b: "behind_volume base" and laws: "file_laws fs view at_index"
    and st: "st = split_names stack param n" "split_fits param (unat n)"
    and no: "\<not> copy_named st \<or> view v0 (copy_source fs st v0) = None
      \<or> (\<exists>t d. view v0 (copy_source fs st v0) = Some (t, d) \<and> attr_type t = ch CHR ''d'')"
  shows "yields base m0 (\<lambda>v. v = v0) (functionCOPY fs junk junk' stack param n) (\<lambda>_ v. view v = view v0)"
proof (cases "copy_named st")
  case False
  have "yields base m0 (\<lambda>v. v = v0) (say ''Invalid filename'') (\<lambda>_ v. view v = view v0)"
    by (rule yields_weaken [OF yields_say [OF b]]) simp_all
  then show ?thesis using False st unfolding functionCOPY_def Let_def copy_named_def by auto
next
  case True
  note L = leaves_simps [OF laws] and F = finds_laws [OF laws]
  let ?a = "copy_source fs st v0"
  let ?P = "\<lambda>v. view v = view v0"
  have no: "?a = 0 \<or> (\<exists>t d. view v0 ?a = Some (t, d) \<and> attr_type t = ch CHR ''d'')"
    using no True F(2) [of "splitA st" "splitALen st" v0] by (auto simp: copy_source_def)
  have told: "yields base m0 ?P (if ?a = 0 \<or> attr_type t2 = ch CHR ''d'' then say ''File not found'' else p) (\<lambda>_. ?P)"
    if "?a = 0 \<or> attr_type t2 = ch CHR ''d''" for t2 p
    using yields_say [OF b] that by simp
  have seen: "?a = 0 \<or> attr_type (snd (fst (get_attributes fs ?a junk' v))) = ch CHR ''d''" if "?P v" for v
    using no F(4) [of v ?a] that by (metis snd_conv)
  have second: "yields base m0 ?P (pbind (ask (get_attributes fs ?a junk'))
      (\<lambda>p. if ?a = 0 \<or> attr_type (snd p) = ch CHR ''d'' then say ''File not found'' else q p)) (\<lambda>_. ?P)" for q
    by (rule yields_pbind [where R = "\<lambda>p v. (?a = 0 \<or> attr_type (snd p) = ch CHR ''d'') \<and> ?P v"], rule yields_ask,
        use seen in \<open>simp add: L\<close>, rule yields_pure, rule told)
  have "yields base m0 ?P (pbind (ask (get_attributes fs ?a junk)) (\<lambda>p1. pbind (ask (get_attributes fs ?a junk'))
      (\<lambda>p. if ?a = 0 \<or> attr_type (snd p) = ch CHR ''d'' then say ''File not found'' else q p1 p))) (\<lambda>_. ?P)" for q
    by (intro pbind_ask second) (simp add: L)
  then show ?thesis
    using True st(2) unfolding functionCOPY_def Let_def st(1) [symmetric] copy_named_def copy_source_def case_prod_beta
    by (simp, intro pbind_ask_from [where P = ?P]) (simp_all add: L)
qed

lemma yields_COPY:
  assumes b: "behind_volume base" and laws: "file_laws fs view at_index"
    and st: "st = split_names stack param n" "split_fits param (unat n)"
    and short: "\<not> (copy_named st \<and> (\<exists>t d. view v0 (copy_source fs st v0) = Some (t, d) \<and> attr_type t \<noteq> ch CHR ''d'' \<and> 255 < length d))"
  shows "yields base m0 (\<lambda>v. v = v0) (functionCOPY fs junk junk' stack param n)
    (\<lambda>_ v. view v = view v0 \<or> (\<exists>e. copy_named st \<and> view v0 (copy_source fs st v0) = Some e \<and> copied (view v0) e (view v)))"
proof -
  let ?e = "view v0 (copy_source fs st v0)"
  consider t d where "copy_named st" "?e = Some (t, d)" "attr_type t \<noteq> ch CHR ''d''" "length d \<le> 255"
    | "\<not> copy_named st \<or> ?e = None \<or> (\<exists>t d. ?e = Some (t, d) \<and> attr_type t = ch CHR ''d'')"
    using short by (metis not_le_imp_less not_None_eq surj_pair)
  then show ?thesis
  proof cases
    case 1
    have "yields base m0 (\<lambda>v. v = v0) (functionCOPY fs junk junk' stack param n) (\<lambda>_ v. copied (view v0) (t, d) (view v))"
      by (rule yields_copy [OF b laws st 1(1,2,3,4)]) (use 1(2) in \<open>auto intro!: yields_copies [OF b laws]\<close>)
    then show ?thesis by (rule yields_weaken) (use 1 in auto)
  next
    case 2
    show ?thesis by (rule yields_weaken [OF yields_no_copy [OF b laws st 2]]) auto
  qed
qed

section \<open>Removing a file and changing its attributes\<close>

text \<open>The calls that look something up leave the whole volume as it is.\<close>

definition queries_only :: "'v volume_calls \<Rightarrow> bool" where
  "queries_only fs \<longleftrightarrow>
     (\<forall>p n v. snd (file_exists fs p n v) = v \<and> snd (directory_exists fs p n v) = v) \<and>
     (\<forall>a t v. snd (get_attributes fs a t v) = v) \<and> (\<forall>v. snd (working_address fs v) = v)"

text \<open>The file with a name, or else the directory.\<close>

definition target :: "'v volume_calls \<Rightarrow> buffer \<Rightarrow> u8 \<Rightarrow> 'v \<Rightarrow> u32" where
  "target fs p n v = (if fst (file_exists fs p n v) \<noteq> 0 then fst (file_exists fs p n v) else fst (directory_exists fs p n v))"

definition removed :: "'v volume_calls \<Rightarrow> ('v \<Rightarrow> files) \<Rightarrow> buffer \<Rightarrow> u8 \<Rightarrow> 'v \<Rightarrow> files" where
  "removed fs view p n v =
     (case view v (target fs p n v) of
        Some (t, d) \<Rightarrow> if \<not> no_name p n \<and> writeable t = ch CHR ''w'' then (view v)(target fs p n v := None) else view v
      | None \<Rightarrow> view v)"

lemma target_known:
  assumes "file_laws fs view at_index" and "target fs p n v \<noteq> 0"
  obtains t d where "view v (target fs p n v) = Some (t, d)"
proof -
  have "view v (target fs p n v) \<noteq> None"
    using finds_laws(2) [OF assms(1), of p n v] finds_laws(3) [OF assms(1), of p n v] assms(2)
    by (cases "fst (file_exists fs p n v) = 0") (simp_all add: target_def)
  then show thesis using that by fast
qed

lemma preturn_pbind: "pbind (preturn x) f = f x"
  by (simp add: pbind_def preturn_def fun_eq_iff)

lemma yields_from:
  "yields base m0 (\<lambda>v. v = snd (f v0)) (g (fst (f v0))) Q \<Longrightarrow> yields base m0 (\<lambda>v. v = v0) (pbind (ask f) g) Q"
  by (rule pbind_ask_from) simp_all

lemma yields_say_at: "behind_volume base \<Longrightarrow> R v0 \<Longrightarrow> yields base m0 (\<lambda>v. v = v0) (say t) (\<lambda>_. R)"
  by (rule yields_weaken [OF yields_say]) auto

lemma yields_skip_at: "R v0 \<Longrightarrow> yields base m0 (\<lambda>v. v = v0) pskip (\<lambda>_. R)"
  by (rule yields_weaken [OF yields_skip]) auto

lemma yields_remove:
  assumes b: "behind_volume base" and laws: "file_laws fs view at_index" and q: "queries_only fs"
  shows "yields base m0 (\<lambda>v. v = v0) (functionRM fs junk p n) (\<lambda>_ v. view v = removed fs view p n v0)"
proof -
  note L = leaves_simps [OF laws] and F = finds_laws [OF laws] and C = change_simps [OF laws]
  have q: "snd (file_exists fs p n v) = v" "snd (directory_exists fs p n v) = v" "snd (get_attributes fs a t v) = v"
    "snd (working_address fs v) = v" for v a t
    using q by (simp_all add: queries_only_def)
  let ?a = "fst (file_exists fs p n v0)" and ?b = "fst (directory_exists fs p n v0)"
  have t: "?a \<noteq> 0 \<Longrightarrow> target fs p n v0 = ?a" "?a = 0 \<Longrightarrow> target fs p n v0 = ?b" by (simp_all add: target_def)
  consider "no_name p n" | "\<not> no_name p n" "?a = 0" "?b = 0" | "\<not> no_name p n" "?a \<noteq> 0" | "\<not> no_name p n" "?a = 0" "?b \<noteq> 0"
    by blast
  then show ?thesis
  proof cases
    case 1
    then show ?thesis
      by (auto simp: functionRM_def removed_def split: option.splits intro!: yields_say_at b)
  next
    case 2
    then show ?thesis
      using F(1) [of v0]
      by (auto simp: functionRM_def removed_def t q split: option.splits intro!: yields_from yields_say_at b)
  next
    case 3
    then obtain x d where e: "view v0 ?a = Some (x, d)" using target_known [OF laws, of p n v0] by (metis t(1))
    show ?thesis
      using 3 F(4) [OF e]
      by (auto simp: functionRM_def removed_def t q e C L preturn_pbind intro!: yields_from yields_say_at yields_skip_at b)
  next
    case 4
    then obtain x d where e: "view v0 ?b = Some (x, d)" using target_known [OF laws, of p n v0] by (metis t(2))
    show ?thesis
      using 4 F(4) [OF e]
      by (auto simp: functionRM_def removed_def t q e C L preturn_pbind intro!: yields_from yields_say_at yields_skip_at b)
  qed
qed

definition attributed :: "'v volume_calls \<Rightarrow> ('v \<Rightarrow> files) \<Rightarrow> buffer \<Rightarrow> u8 \<Rightarrow> 'v \<Rightarrow> files" where
  "attributed fs view p n v =
     (let k = attrib_name_length p n; a = target fs p (of_nat k) v in
      case view v a of
        Some (t, d) \<Rightarrow>
          let t' = applied_attribute (p (k + 1)) (p (k + 2)) t in
          if attr_type t = ch CHR ''d'' \<and> executable t' \<noteq> space then view v else (view v)(a \<mapsto> (t', d))
      | None \<Rightarrow> view v)"

lemma applied_type [simp]: "attr_type (applied_attribute sign letter t) = attr_type t"
  by (simp add: applied_attribute_def Let_def)

lemma attribute_unchanged: "\<not> attribute_changed t' t \<Longrightarrow> t' = t"
  by (cases t, cases t') (simp add: attribute_changed_def)

lemma yields_shown_attributes:
  assumes "behind_volume base"
  shows "yields base m0 P (pseq [show_letter x, show_letter r, show_letter w, show_letter t, printSpace 1, print p n, printLn]) (\<lambda>_. P)"
proof (rule yields_printing [OF assms])
  fix e
  note scr = behind_screen [OF assms, of m0 e]
  show "printing_on mem_rd mem_wr (display_keeps base (same_volume m0) e)
    (pseq [show_letter x, show_letter r, show_letter w, show_letter t, printSpace 1, print p n, printLn])"
    unfolding show_letter_def
    by (intro screen.printing_pseq_Cons [OF scr] screen.printing_pseq_Nil [OF scr] screen.printing_if [OF scr] screen.printing_text [OF scr])
qed

lemma yields_attribute:
  assumes b: "behind_volume base" and laws: "file_laws fs view at_index" and q: "queries_only fs"
  shows "yields base m0 (\<lambda>v. v = v0) (functionATTRIB fs junk p n) (\<lambda>_ v. view v = attributed fs view p n v0)"
proof -
  note L = leaves_simps [OF laws] and F = finds_laws [OF laws] and C = change_simps [OF laws]
  have q: "snd (file_exists fs p k v) = v" "snd (directory_exists fs p k v) = v" "snd (get_attributes fs a t v) = v" for k v a t
    using q by (simp_all add: queries_only_def)
  define k where "k = attrib_name_length p n"
  let ?a = "target fs p (of_nat k) v0"
  let ?R = "\<lambda>v. view v = attributed fs view p n v0"
  have change: "yields base m0 (\<lambda>v. v = v0) (change_attributes fs p n k ?a t) (\<lambda>_. ?R)" if e: "view v0 ?a = Some (t, d)" for t d
  proof (cases "attr_type t = ch CHR ''d'' \<and> executable (applied_attribute (p (k + 1)) (p (k + 2)) t) \<noteq> space")
    case True
    then show ?thesis
      using e by (auto simp: change_attributes_def attributed_def Let_def simp flip: k_def intro!: yields_say_at b)
  next
    case False
    let ?t = "applied_attribute (p (k + 1)) (p (k + 2)) t"
    have R: "?R v \<longleftrightarrow> view v = (view v0)(?a \<mapsto> (?t, d))" for v
      using e False by (auto simp: attributed_def Let_def simp flip: k_def)
    have same: "(view v0)(?a \<mapsto> (t, d)) = view v0" using e by auto
    have changed: "yields base m0 (\<lambda>v. v = v0) (if attribute_changed ?t t then ask (set_attributes fs ?a ?t) else preturn 1) (\<lambda>_. ?R)"
      unfolding R
      by (intro yields_if yields_ask yields_preturn) (auto simp: C e same dest: attribute_unchanged)
    have no: "(attr_type t = ch CHR ''d'' \<and> attr_type ?t \<noteq> ch CHR ''d'' \<or> attr_type t = ch CHR ''d'' \<and> executable ?t \<noteq> space) = False"
      using False by simp
    show ?thesis
      unfolding change_attributes_def Let_def no if_False
      by (rule yields_pbind [OF changed]) (intro yields_if yields_say b yields_shown_attributes)
  qed
  have none: "yields base m0 (\<lambda>v. v = v0) (say t) (\<lambda>_. ?R)" if "?a = 0" for t
    using F(1) [of v0] that by (intro yields_say_at b) (simp add: attributed_def Let_def flip: k_def)
  have "yields base m0 (\<lambda>v. v = v0) (if ?a = 0 then say ''File not found''
      else pbind (ask (get_attributes fs ?a junk)) (\<lambda>(got, current). if got = 0 then say ''File not found''
        else change_attributes fs p n k ?a current)) (\<lambda>_. ?R)"
  proof (cases "?a = 0")
    case True
    then show ?thesis using none by simp
  next
    case False
    with target_known [OF laws] obtain t d where e: "view v0 ?a = Some (t, d)" by metis
    show ?thesis using False change [OF e] F(4) [OF e] by (auto simp: q intro!: yields_from)
  qed
  note main = this
  show ?thesis
  proof (cases "fst (file_exists fs p (of_nat k) v0) = 0")
    case True
    then have a: "?a = fst (directory_exists fs p (of_nat k) v0)" by (simp add: target_def)
    show ?thesis
      unfolding functionATTRIB_def k_def [symmetric] Let_def
      by (intro yields_from) (simp add: True q, intro yields_from, use main [unfolded a] in \<open>simp add: q\<close>)
  next
    case False
    then have a: "?a = fst (file_exists fs p (of_nat k) v0)" by (simp add: target_def)
    show ?thesis
      unfolding functionATTRIB_def k_def [symmetric] Let_def
      by (intro yields_from) (use main [unfolded a] False in \<open>simp add: q preturn_pbind\<close>)
  qed
qed


section \<open>The utilities\<close>

lemma yields_run:
  assumes "yields base m (\<lambda>v. v = volume s) p Q" and "display_ready base s m"
  shows "\<exists>x s' m'. run mem_rd mem_wr p s m = (Some (x, s'), m') \<and> Q x (volume s') \<and> same_volume m m' \<and> display_ready base s' m'"
proof -
  have "shown base m s m" using assms(2) by (simp add: shown_def same_volume_def)
  from yieldsD [OF assms(1) refl this] show ?thesis by (metis shown_def)
qed





text \<open>Calls of the three utilities, with the contents of their stacks.\<close>

datatype utility_call =
  Remove FSAttribute buffer u8
| Change_attribute FSAttribute buffer u8
| Copy FSAttribute FSAttribute buffer buffer u8

fun run_utility :: "'v volume_calls \<Rightarrow> utility_call \<Rightarrow> ('v, unit) utility" where
  "run_utility fs (Remove junk param n) = functionRM fs junk param n"
| "run_utility fs (Change_attribute junk param n) = functionATTRIB fs junk param n"
| "run_utility fs (Copy junk junk' stack param n) = functionCOPY fs junk junk' stack param n"

fun names_fit :: "utility_call \<Rightarrow> bool" where
  "names_fit (Copy junk junk' stack param n) = split_fits param (unat n)"
| "names_fit _ = True"

text \<open>The attributes of a file: letters or blanks, and no executable directory. A file has at most 255 bytes.\<close>

definition attribute_typed :: "FSAttribute \<Rightarrow> bool" where
  "attribute_typed t \<longleftrightarrow> executable t \<in> {space, ch CHR ''x''} \<and> readable t \<in> {space, ch CHR ''r''}
     \<and> writeable t \<in> {space, ch CHR ''w''} \<and> attr_type t \<in> {space, ch CHR ''d''}
     \<and> (attr_type t = ch CHR ''d'' \<longrightarrow> executable t = space)"

definition well_typed :: "files \<Rightarrow> bool" where
  "well_typed E \<longleftrightarrow> (\<forall>a. case E a of None \<Rightarrow> True | Some (t, d) \<Rightarrow> attribute_typed t \<and> length d \<le> 255)"

lemma well_typedD: "well_typed E \<Longrightarrow> E a = Some (t, d) \<Longrightarrow> attribute_typed t \<and> length d \<le> 255"
  by (simp add: well_typed_def split: option.splits prod.splits)

lemma typed_update: "well_typed E \<Longrightarrow> attribute_typed t \<Longrightarrow> length d \<le> 255 \<Longrightarrow> well_typed (E(a \<mapsto> (t, d)))"
  by (simp add: well_typed_def)

lemma typed_removed: "well_typed (view v) \<Longrightarrow> well_typed (removed fs view p n v)"
  by (simp add: removed_def well_typed_def split: option.split)

lemma applied_letters:
  "executable (applied_attribute sign letter t) \<in> {executable t, space, ch CHR ''x''}"
  "readable (applied_attribute sign letter t) \<in> {readable t, space, ch CHR ''r''}"
  "writeable (applied_attribute sign letter t) \<in> {writeable t, space, ch CHR ''w''}"
  by (simp_all add: applied_attribute_def Let_def)

lemma stays_choice: "y \<in> {x, a, b} \<Longrightarrow> x \<in> {a, b} \<Longrightarrow> y \<in> {a, b}"
  by blast

lemma typed_applied:
  assumes "attribute_typed t" and "attr_type t = ch CHR ''d'' \<longrightarrow> executable (applied_attribute sign letter t) = space"
  shows "attribute_typed (applied_attribute sign letter t)"
  using assms stays_choice [OF applied_letters(1) [of sign letter t]] stays_choice [OF applied_letters(2) [of sign letter t]]
    stays_choice [OF applied_letters(3) [of sign letter t]]
  unfolding attribute_typed_def applied_type by iprover

lemma typed_attributed:
  assumes "well_typed (view v)"
  shows "well_typed (attributed fs view p n v)"
proof (cases "view v (target fs p (of_nat (attrib_name_length p n)) v)")
  case None
  then show ?thesis using assms by (simp add: attributed_def Let_def)
next
  case (Some e)
  obtain t d where e: "e = (t, d)" by (cases e)
  with Some well_typedD [OF assms] have "attribute_typed t" "length d \<le> 255" by simp_all
  then show ?thesis
    using assms Some e by (auto simp: attributed_def Let_def intro!: typed_update typed_applied)
qed

lemma typed_copied: "well_typed E \<Longrightarrow> E a = Some e \<Longrightarrow> copied E e F \<Longrightarrow> well_typed F"
  using well_typedD [of E a] by (cases e) (auto simp: copied_def intro!: typed_update)

lemma yields_utility:
  assumes b: "behind_volume base" and laws: "file_laws fs view at_index" and q: "queries_only fs" and fit: "names_fit u"
  shows "yields base m0 (\<lambda>v. well_typed (view v)) (run_utility fs u) (\<lambda>_ v. well_typed (view v))"
proof (rule yields_assume)
  fix v assume v: "well_typed (view v)"
  show "yields base m0 (\<lambda>v'. v' = v) (run_utility fs u) (\<lambda>_ v. well_typed (view v))"
  proof (cases u)
    case (Remove junk p n)
    then show ?thesis
      using yields_weaken [OF yields_remove [OF b laws q]] typed_removed [of view v, OF v] by simp
  next
    case (Change_attribute junk p n)
    then show ?thesis
      using yields_weaken [OF yields_attribute [OF b laws q]] typed_attributed [of view v, OF v] by simp
  next
    case (Copy junk junk' stack p n)
    have "\<not> 255 < length d" if "view v a = Some (t, d)" for a t d using well_typedD [OF v that] by simp
    then have "yields base m0 (\<lambda>v'. v' = v) (run_utility fs u) (\<lambda>_ v'. view v' = view v \<or>
        (\<exists>e. copy_named (split_names stack p n) \<and> view v (copy_source fs (split_names stack p n) v) = Some e
          \<and> copied (view v) e (view v')))"
      unfolding Copy run_utility.simps using fit Copy by (intro yields_COPY [OF b laws refl]) auto
    then show ?thesis by (rule yields_weaken) (use v typed_copied [OF v] in auto)
  qed
qed

lemma yields_utilities:
  assumes "behind_volume base" and "file_laws fs view at_index" and "queries_only fs" and "list_all names_fit us"
  shows "yields base m0 (\<lambda>v. well_typed (view v)) (pseq (map (run_utility fs) us)) (\<lambda>_ v. well_typed (view v))"
  using assms(4)
proof (induction us)
  case Nil
  then show ?case using yields_pseq_Nil by simp
next
  case (Cons u us)
  then show ?case
    using yields_pseq_Cons [OF yields_utility [OF assms(1-3)] Cons.IH] by simp
qed



section \<open>A volume that obeys the laws\<close>

text \<open>The name of a file is one character, and the code of the character is its address.\<close>

record small_volume =
  small_files :: "u32 \<Rightarrow> (FSAttribute \<times> u32 \<times> buffer) option"
  small_open :: u32
  small_bytes :: "u32 \<Rightarrow> u8"

definition small_find :: "bool \<Rightarrow> buffer \<Rightarrow> u8 \<Rightarrow> small_volume \<Rightarrow> u32 \<times> small_volume" where
  "small_find dir p n v =
     (case small_files v (ucast (p 0)) of
        None \<Rightarrow> (0, v)
      | Some (t, _) \<Rightarrow> (if (attr_type t = ch CHR ''d'') = dir then ucast (p 0) else 0, v))"

definition small_view :: "small_volume \<Rightarrow> files" where
  "small_view v a = (if a = 0 then None else map_option (\<lambda>(t, k, b). (t, map b [0..<unat k])) (small_files v a))"

definition put_file :: "u32 \<Rightarrow> (FSAttribute \<times> u32 \<times> buffer) option \<Rightarrow> small_volume \<Rightarrow> small_volume" where
  "put_file a e v = v\<lparr>small_files := (small_files v)(a := e)\<rparr>"

definition small_delete :: "bool \<Rightarrow> buffer \<Rightarrow> u8 \<Rightarrow> small_volume \<Rightarrow> u32 \<times> small_volume" where
  "small_delete dir p n v = (let a = fst (small_find dir p n v) in (a, put_file a None v))"

definition blank_attribute :: FSAttribute where
  "blank_attribute = \<lparr>executable = space, readable = ch CHR ''r'', writeable = ch CHR ''w'', attr_type = space\<rparr>"

definition small_calls :: "small_volume volume_calls" where
  "small_calls =
     \<lparr>file_exists = small_find False,
      directory_exists = small_find True,
      get_attributes = (\<lambda>a t v. ((case small_files v a of None \<Rightarrow> (0, t) | Some (t, _) \<Rightarrow> (1, t)), v)),
      set_attributes = (\<lambda>a t v. case small_files v a of None \<Rightarrow> (0, v) | Some (_, c) \<Rightarrow> (1, put_file a (Some (t, c)) v)),
      get_size = (\<lambda>a v. ((case small_files v a of None \<Rightarrow> 0 | Some (_, k, _) \<Rightarrow> k), v)),
      set_name = (\<lambda>a p n v. v),
      open_file = (\<lambda>a v. (0, v\<lparr>small_open := a\<rparr>)),
      read_file = (\<lambda>i b n v. ((case small_files v (small_open v) of None \<Rightarrow> b | Some (_, _, c) \<Rightarrow> c), v)),
      write_file = (\<lambda>i b n v. case small_files v (small_open v) of None \<Rightarrow> v | Some (t, _) \<Rightarrow> put_file (small_open v) (Some (t, n, b)) v),
      close_file = (\<lambda>i v. v),
      create_file = (\<lambda>p n k v. let a = ucast (p 0) in
        if a = 0 \<or> small_files v a \<noteq> None then (0, v) else (a, put_file a (Some (blank_attribute, k, (\<lambda>_. 0))) v)),
      delete_file = small_delete False,
      create_directory = (\<lambda>p n v. (0, v)),
      delete_directory = small_delete True,
      add_file = (\<lambda>d a v. v),
      remove_file = (\<lambda>d a v. (1, v)),
      working_address = (\<lambda>v. (0, v)),
      working_name = (\<lambda>b v. ((0, b), v)),
      working_stack = (\<lambda>v. (0, v)),
      change_working = (\<lambda>p n v. v),
      set_working_address = (\<lambda>a v. v),
      set_working_name = (\<lambda>a v. v),
      set_working_stack = (\<lambda>k v. v),
      clear_working = (\<lambda>v. v),
      working_to_parent = (\<lambda>v. (0, v)),
      device_capacity = (\<lambda>v. (0x8000, v)),
      device_context = (\<lambda>v. (0, v)),
      set_device_context = (\<lambda>a v. v),
      root_letter = (\<lambda>v. (ch CHR ''a'', v)),
      set_root_letter = (\<lambda>k v. v),
      format_volume = (\<lambda>a k v. v),
      construct_table = (\<lambda>a k n v. v),
      read_byte = (\<lambda>a v. (ch CHR ''d'', v)),
      write_byte = (\<lambda>a b v. v\<lparr>small_bytes := (small_bytes v)(a := b)\<rparr>),
      fs_sector_size = 32,
      ATTRIBUTE_OFFSET_SPECIAL = 0,
      FORMAT_CAPACITY_8K = 0x2000,
      FORMAT_CAPACITY_16K = 0x4000,
      FORMAT_CAPACITY_32K = 0x8000,
      FORMAT_SECTOR_EMPTY = 0x55\<rparr>"

lemma small_find_same: "snd (small_find dir p n v) = v"
  by (simp add: small_find_def split: option.splits)

lemma small_find_known: "fst (small_find dir p n v) \<noteq> 0 \<Longrightarrow> small_files v (fst (small_find dir p n v)) \<noteq> None"
  by (auto simp: small_find_def split: option.splits if_splits)

lemma view_put: "small_view (put_file a e v) = (if a = 0 then small_view v
    else (small_view v)(a := map_option (\<lambda>(t, k, b). (t, map b [0..<unat k])) e))"
  by (auto simp: fun_eq_iff small_view_def put_file_def)

lemma view_at: "small_view v 0 = None" "small_files v a = None \<Longrightarrow> small_view v a = None"
  "small_files v a = Some (t, k, b) \<Longrightarrow> a \<noteq> 0 \<Longrightarrow> small_view v a = Some (t, map b [0..<unat k])"
  "(small_view v)(0 := None) = small_view v"
  by (auto simp: small_view_def fun_eq_iff)

lemma small_laws: "file_laws small_calls small_view (\<lambda>v i. small_open v)"
proof -
  have open_view: "small_view (v\<lparr>small_open := a\<rparr>) = small_view v" for v a by (simp add: fun_eq_iff small_view_def)
  have "leaves_files small_calls small_view"
    by (simp add: leaves_files_def answers_def keeps_files_def small_calls_def small_find_same open_view)
  moreover have "finds_files small_calls small_view (\<lambda>v i. small_open v)"
    using small_find_known unsigned_less [where 'a = nat and 'b = 32]
    by (auto simp: finds_files_def small_calls_def small_view_def split: if_splits)
  moreover have "changes_files small_calls small_view (\<lambda>v i. small_open v)"
    unfolding changes_files_def
  proof (intro conjI allI)
    show "case create_file small_calls p n k v of (a, v') \<Rightarrow> if a = 0 then small_view v' = small_view v
        else small_view v a = None \<and> (\<exists>e. small_view v' = (small_view v)(a \<mapsto> e))" for p n k v
      by (cases "small_files v (ucast (p 0))") (auto simp: small_calls_def view_put Let_def view_at)
    show "small_view (snd (set_attributes small_calls a t v)) =
        (case small_view v a of None \<Rightarrow> small_view v | Some (_, d) \<Rightarrow> (small_view v)(a \<mapsto> (t, d)))" for a t v
      by (cases "small_files v a"; cases "a = 0") (auto simp: small_calls_def view_put view_at)
    show "small_view (write_file small_calls i b n v) = (case small_view v (small_open v) of None \<Rightarrow> small_view v
        | Some (t, _) \<Rightarrow> (small_view v)(small_open v \<mapsto> (t, map b [0..<unat n])))" for i b n v
      by (cases "small_files v (small_open v)"; cases "small_open v = 0") (auto simp: small_calls_def view_put view_at)
  qed (auto simp: small_calls_def small_delete_def Let_def view_put view_at)
  ultimately show ?thesis by (simp add: file_laws_def)
qed

lemma small_queries: "queries_only small_calls"
  by (simp add: queries_only_def small_calls_def small_find_same)

text \<open>The file \<open>f\<close> of three bytes, and a directory \<open>d\<close>.\<close>

definition small_example :: small_volume where
  "small_example =
     \<lparr>small_files = [ucast (ch CHR ''f'') \<mapsto> (blank_attribute, 3, literal ''abc''),
                     ucast (ch CHR ''d'') \<mapsto> (blank_attribute\<lparr>attr_type := ch CHR ''d''\<rparr>, 0, (\<lambda>_. 0))],
      small_open = 0, small_bytes = (\<lambda>_. 0)\<rparr>"

definition small_utilities :: "small_volume utilities" where
  "small_utilities = (console.extend (console_initial 1) \<lparr>volume = small_example\<rparr>)\<lparr>display := PERIPHERAL_BEGIN\<rparr>"

lemma small_ready: "display_ready PERIPHERAL_BEGIN small_utilities (\<lambda>_. 0x10)"
  by (simp add: small_utilities_def display_ready_def console_initial_def console.defs)

lemma small_volume_example [simp]: "volume small_utilities = small_example"
  by (simp add: small_utilities_def console.defs)

lemma small_base: "behind_volume PERIPHERAL_BEGIN"
  using first_slot.above by (simp add: behind_volume_def)



lemma split_f_g:
  "splitA (split_names (\<lambda>_. 0) (literal ''f g'') 3) = (\<lambda>i. if i = 0 then ch CHR ''f'' else if i < 10 then space else 0)"
  "splitB (split_names (\<lambda>_. 0) (literal ''f g'') 3) = (\<lambda>i. if i = 0 then ch CHR ''g'' else if i < 10 then space else 0)"
  by (auto simp: split_names_def StringSplit_def Let_def literal_def ch_def upt_rec fun_eq_iff)

lemma f_g: "split_fits (literal ''f g'') 3" "copy_named (split_names (\<lambda>_. 0) (literal ''f g'') 3)"
  "copy_source small_calls (split_names (\<lambda>_. 0) (literal ''f g'') 3) small_example = ucast (ch CHR ''f'')"
  "small_view small_example (ucast (ch CHR ''f'')) = Some (blank_attribute, str ''abc'')"
  "small_view small_example (ucast (ch CHR ''g'')) = None"
proof -
  show "split_fits (literal ''f g'') 3" by (simp add: split_fits_def literal_def ch_def upt_rec)
qed (simp_all add: copy_named_def copy_source_def split_f_g, simp_all add: small_calls_def small_find_def small_example_def
      small_view_def blank_attribute_def literal_def ch_def upt_rec)


lemma only_view: "small_view v = small_view small_example \<Longrightarrow> small_files v (ucast (ch CHR ''g'')) = None"
proof -
  assume "small_view v = small_view small_example"
  then have "small_view v (ucast (ch CHR ''g'')) = None" using f_g(5) by simp
  then show ?thesis by (simp add: small_view_def ch_def)
qed


lemma small_typed: "well_typed (small_view small_example)"
  by (auto simp: well_typed_def small_view_def small_example_def attribute_typed_def blank_attribute_def)


end
