(* ===== verification/Formatting.thy ===== *)
theory Formatting
  imports UtilitySpec
begin

text \<open>
  Preparing a volume (kernel/command: format, boot) and listing the devices (device): the commands write the
  sectors, the programs and the driver that a fresh volume holds. They use the calls of theory Utilities.
  The subject is the loop that writes the sectors, and what each drop leaves.
\<close>

section \<open>Format\<close>

text \<open>The parameters behind the dashes: the capacity, and whether to be quick.\<close>

fun format_parameters :: "'v volume_calls \<Rightarrow> 'x console_scheme \<Rightarrow> nat list \<Rightarrow> u32 \<times> bool \<Rightarrow> u32 \<times> bool" where
  "format_parameters fs c [] (deviceCapacity, quickly) = (deviceCapacity, quickly)"
| "format_parameters fs c (p # ps) (deviceCapacity, quickly) =
     (case ConsoleGetParameter (of_nat p) (ch CHR ''-'') c of
        None \<Rightarrow> (deviceCapacity, quickly)
      | Some i \<Rightarrow>
          let a = console_string c i; b = console_string c (i + 1) in
          if a = ch CHR ''8'' then format_parameters fs c ps (FORMAT_CAPACITY_8K fs, quickly)
          else if a = ch CHR ''1'' \<and> b = ch CHR ''6'' then format_parameters fs c ps (FORMAT_CAPACITY_16K fs, quickly)
          else if a = ch CHR ''3'' \<and> b = ch CHR ''2'' then format_parameters fs c ps (FORMAT_CAPACITY_32K fs, quickly)
          else format_parameters fs c ps (deviceCapacity, a = ch CHR ''q'' \<or> quickly))"

text \<open>The inner loop, of \<open>n\<close> rounds: whether the format is finished, and \<open>sector\<close> and \<open>sectorCounter\<close>.\<close>

fun format_cycles :: "'v volume_calls \<Rightarrow> bool \<Rightarrow> u32 \<Rightarrow> nat \<Rightarrow> u32 \<Rightarrow> u8 \<Rightarrow> 'v \<Rightarrow> (bool \<times> u32 \<times> u8) \<times> 'v" where
  "format_cycles fs quickly deviceCapacityBytes 0 sector sectorCounter v = ((False, sector, sectorCounter), v)"
| "format_cycles fs quickly deviceCapacityBytes (Suc n) sector sectorCounter v =
     (let sector = sector + 1;
          (sectorCounter, v) =
            (if ucast sectorCounter < fs_sector_size fs - 1
             then (sectorCounter + 1, if quickly then v else write_byte fs sector space v)
             else (0, write_byte fs sector (FORMAT_SECTOR_EMPTY fs) v))
      in if sector < deviceCapacityBytes then format_cycles fs quickly deviceCapacityBytes n sector sectorCounter v
         else ((True, sector, sectorCounter), v))"

definition show_percentage :: "buffer \<Rightarrow> u16 \<Rightarrow> ('x, unit) con" where
  "show_percentage stack percentage =
     (let (place, percentageString) = int_to_string (ucast percentage) stack in
      pseq
       [ConsoleSetCursorPosition 0,
        print percentageString (place + 1),
        ConsoleSetCursorPosition place,
        print (literal ''%'') 2])"

text \<open>The outer loop: at most 1001 rounds.\<close>

primrec format_rounds :: "'v volume_calls \<Rightarrow> buffer \<Rightarrow> bool \<Rightarrow> u32 \<Rightarrow> nat \<Rightarrow> u16 \<Rightarrow> u32 \<Rightarrow> u8 \<Rightarrow> ('v, unit) utility" where
  "format_rounds fs stack quickly deviceCapacityBytes 0 percentage sector sectorCounter = pskip"
| "format_rounds fs stack quickly deviceCapacityBytes (Suc i) percentage sector sectorCounter =
     pbind (show_percentage stack percentage) (\<lambda>_.
     pbind (ask (format_cycles fs quickly deviceCapacityBytes (unat (deviceCapacityBytes div 100)) sector sectorCounter))
      (\<lambda>(finished, sector, sectorCounter).
       if finished then pskip
       else format_rounds fs stack quickly deviceCapacityBytes i
         (if percentage + 1 > 99 then 99 else percentage + 1) sector sectorCounter))"

definition format_sectors :: "'v volume_calls \<Rightarrow> buffer \<Rightarrow> bool \<Rightarrow> u32 \<Rightarrow> ('v, unit) utility" where
  "format_sectors fs stack quickly deviceCapacityBytes =
     pseq
      [ConsoleCursorDisable,
       format_rounds fs stack quickly deviceCapacityBytes 1001 0 0 0,
       tell (construct_table fs 0 deviceCapacityBytes (fs_sector_size fs)),
       ConsoleSetCursorPosition 0,
       print (literal ''100%'') 5,
       tell (clear_working fs),
       ConsoleCursorEnable,
       printLn]"

definition functionFORMAT :: "'v volume_calls \<Rightarrow> buffer \<Rightarrow> buffer \<Rightarrow> u8 \<Rightarrow> ('v, unit) utility" where
  "functionFORMAT fs stack param param_length =
     pwith (\<lambda>c.
       let (deviceCapacity, quickly) = format_parameters fs c [0..<10] (0, False);
           deviceCapacityCurrent = (if deviceCapacity = 0 then FORMAT_CAPACITY_8K fs else deviceCapacity) div 1024;
           (place, amount) = int_to_string deviceCapacityCurrent stack
       in pbind (pseq
           [(if quickly then print (literal ''Quick format'') 13
             else pseq [print amount (place + 1), ConsoleSetCursorPosition place, print (literal ''k bytes'') 8]),
            printLn,
            say ''Press Y to begin'']) (\<lambda>_.
          pbind ConsoleWait (\<lambda>key.
           if key \<noteq> ch CHR ''y'' then pskip
           else format_sectors fs stack quickly (deviceCapacityCurrent * 1024))))"

definition registerCommandFormat :: "nat \<Rightarrow> 'x console_scheme \<Rightarrow> 'x console_scheme" where
  "registerCommandFormat = register ''format''"


section \<open>Boot\<close>

text \<open>The programs for the emulated processor, as bytes.\<close>

definition program_net :: "u8 list" where
  "program_net =
     [0x89, 0x00, 0x00, 0x89, 0x01, 0x0a, 0xcd, 0x14, 0x38, 0x02, 0x01, 0x74, 0x2b, 0x00, 0x00, 0x00, 0x38, 0x02, 0x02, 0x74, 0x38, 0x00, 0x00, 0x00,
      0x83, 0x06, 0x45, 0x00, 0x00, 0x00, 0x89, 0x04, 0x0c, 0x89, 0x00, 0x01, 0x89, 0x01, 0x0c, 0xcd, 0x14, 0xcd, 0x20, 0x89, 0x01, 0x09, 0x83, 0x06,
      0x51, 0x00, 0x00, 0x00, 0xcd, 0x10, 0xcd, 0x20, 0x89, 0x01, 0x09, 0x83, 0x06, 0x62, 0x00, 0x00, 0x00, 0xcd, 0x10, 0xcd, 0x20, 0x74, 0x65, 0x73,
      0x74, 0x20, 0x70, 0x61, 0x63, 0x6b, 0x65, 0x74, 0x00, 0x49, 0x6e, 0x69, 0x74, 0x69, 0x61, 0x74, 0x69, 0x6f, 0x6e, 0x20, 0x65, 0x72, 0x72, 0x6f,
      0x72, 0x00, 0x4e, 0x65, 0x74, 0x77, 0x6f, 0x72, 0x6b, 0x20, 0x64, 0x72, 0x69, 0x65, 0x72, 0x20, 0x65, 0x72, 0x72, 0x6f, 0x72, 0x00]"

definition program_ld :: "u8 list" where
  "program_ld =
     [0x89, 0x01, 0x0a, 0xcd, 0x47, 0x38, 0x02, 0x01, 0x74, 0x37, 0x00, 0x00, 0x00, 0x38, 0x02, 0x02, 0x74, 0x44, 0x00, 0x00, 0x00, 0x38, 0x02, 0x03,
      0x74, 0x2a, 0x00, 0x00, 0x00, 0x89, 0x01, 0x09, 0x83, 0x06, 0x51, 0x00, 0x00, 0x00, 0xcd, 0x10, 0xcd, 0x20, 0x89, 0x01, 0x09, 0x83, 0x06, 0x58,
      0x00, 0x00, 0x00, 0xcd, 0x10, 0xcd, 0x20, 0x89, 0x01, 0x09, 0x83, 0x06, 0x67, 0x00, 0x00, 0x00, 0xcd, 0x10, 0xcd, 0x20, 0x89, 0x01, 0x09, 0x83,
      0x06, 0x7b, 0x00, 0x00, 0x00, 0xcd, 0x10, 0xcd, 0x20, 0x4c, 0x6f, 0x61, 0x64, 0x65, 0x64, 0x00, 0x41, 0x6c, 0x72, 0x65, 0x61, 0x64, 0x79, 0x20,
      0x6c, 0x6f, 0x61, 0x64, 0x65, 0x64, 0x00, 0x46, 0x69, 0x6c, 0x65, 0x20, 0x64, 0x6f, 0x65, 0x73, 0x20, 0x6e, 0x6f, 0x74, 0x20, 0x65, 0x78, 0x69,
      0x73, 0x74, 0x00, 0x46, 0x69, 0x6c, 0x65, 0x20, 0x63, 0x6f, 0x72, 0x72, 0x75, 0x70, 0x74, 0x00, 0xcd, 0x20]"

definition program_type :: "u8 list" where
  "program_type =
     [0x89, 0x01, 0x4c, 0xcd, 0x13, 0xcd, 0x20]"

definition program_ver :: "u8 list" where
  "program_ver =
     [0x89, 0x01, 0x09, 0x83, 0x06, 0x0d, 0x00, 0x00, 0x00, 0xcd, 0x10, 0xcd, 0x20, 0x56, 0x65, 0x72, 0x73, 0x69, 0x6f, 0x6e, 0x20, 0x30, 0x2e, 0x31,
      0x2e, 0x30, 0x00]"

definition program_cls :: "u8 list" where
  "program_cls =
     [0x89, 0x01, 0x03, 0xcd, 0x10, 0xcd, 0x20]"

definition program_ld_2 :: "u8 list" where
  "program_ld_2 =
     [0x89, 0x01, 0x0a, 0xcd, 0x47, 0x38, 0x02, 0x01, 0x74, 0x2f, 0x00, 0x00, 0x00, 0x38, 0x02, 0x02, 0x74, 0x3c, 0x00, 0x00, 0x00, 0x38, 0x02, 0x03,
      0x74, 0x22, 0x00, 0x00, 0x00, 0xfe, 0x79, 0x00, 0x00, 0x00, 0x89, 0x01, 0x09, 0x83, 0x06, 0x49, 0x00, 0x00, 0x00, 0xcd, 0x10, 0xcd, 0x20, 0x89,
      0x01, 0x09, 0x83, 0x06, 0x58, 0x00, 0x00, 0x00, 0xcd, 0x10, 0xcd, 0x20, 0x89, 0x01, 0x09, 0x83, 0x06, 0x6c, 0x00, 0x00, 0x00, 0xcd, 0x10, 0xcd,
      0x20, 0x41, 0x6c, 0x72, 0x65, 0x61, 0x64, 0x79, 0x20, 0x6c, 0x6f, 0x61, 0x64, 0x65, 0x64, 0x00, 0x46, 0x69, 0x6c, 0x65, 0x20, 0x64, 0x6f, 0x65,
      0x73, 0x20, 0x6e, 0x6f, 0x74, 0x20, 0x65, 0x78, 0x69, 0x73, 0x74, 0x00, 0x46, 0x69, 0x6c, 0x65, 0x20, 0x63, 0x6f, 0x72, 0x72, 0x75, 0x70, 0x74,
      0x00, 0xcd, 0x20]"

definition program_mk :: "u8 list" where
  "program_mk =
     [0x89, 0x01, 0x3c, 0x89, 0x04, 0x00, 0x89, 0x05, 0x14, 0xcd, 0x13, 0x38, 0x02, 0x00, 0x74, 0x2b, 0x00, 0x00, 0x00, 0x38, 0x02, 0x01, 0x74, 0x47,
      0x00, 0x00, 0x00, 0x38, 0x02, 0x02, 0x74, 0x3a, 0x00, 0x00, 0x00, 0x38, 0x02, 0x03, 0x74, 0x2d, 0x00, 0x00, 0x00, 0xcd, 0x20, 0x89, 0x01, 0x09,
      0x83, 0x06, 0x54, 0x00, 0x00, 0x00, 0xcd, 0x10, 0xcd, 0x20, 0x89, 0x01, 0x09, 0x83, 0x06, 0x68, 0x00, 0x00, 0x00, 0xcd, 0x10, 0xcd, 0x20, 0x89,
      0x01, 0x09, 0x83, 0x06, 0x7c, 0x00, 0x00, 0x00, 0xcd, 0x10, 0xcd, 0x20, 0x45, 0x72, 0x72, 0x6f, 0x72, 0x20, 0x63, 0x72, 0x65, 0x61, 0x74, 0x69,
      0x6e, 0x67, 0x20, 0x66, 0x69, 0x6c, 0x65, 0x00, 0x46, 0x69, 0x6c, 0x65, 0x20, 0x61, 0x6c, 0x72, 0x65, 0x61, 0x64, 0x79, 0x20, 0x65, 0x78, 0x69,
      0x73, 0x74, 0x73, 0x00, 0x42, 0x61, 0x64, 0x20, 0x66, 0x69, 0x6c, 0x65, 0x6e, 0x61, 0x6d, 0x65, 0x00]"

definition program_mkdir :: "u8 list" where
  "program_mkdir =
     [0x89, 0x01, 0x39, 0xcd, 0x13, 0x38, 0x02, 0x00, 0x74, 0x25, 0x00, 0x00, 0x00, 0x38, 0x02, 0x01, 0x74, 0x41, 0x00, 0x00, 0x00, 0x38, 0x02, 0x02,
      0x74, 0x34, 0x00, 0x00, 0x00, 0x38, 0x02, 0x03, 0x74, 0x27, 0x00, 0x00, 0x00, 0xcd, 0x20, 0x89, 0x01, 0x09, 0x83, 0x06, 0x4e, 0x00, 0x00, 0x00,
      0xcd, 0x10, 0xcd, 0x20, 0x89, 0x01, 0x09, 0x83, 0x06, 0x61, 0x00, 0x00, 0x00, 0xcd, 0x10, 0xcd, 0x20, 0x89, 0x01, 0x09, 0x83, 0x06, 0x74, 0x00,
      0x00, 0x00, 0xcd, 0x10, 0xcd, 0x20, 0x45, 0x72, 0x72, 0x6f, 0x72, 0x20, 0x63, 0x72, 0x65, 0x61, 0x74, 0x69, 0x6e, 0x67, 0x20, 0x64, 0x69, 0x72,
      0x00, 0x44, 0x69, 0x72, 0x20, 0x61, 0x6c, 0x72, 0x65, 0x61, 0x64, 0x79, 0x20, 0x65, 0x78, 0x69, 0x73, 0x74, 0x73, 0x00, 0x42, 0x61, 0x64, 0x20,
      0x64, 0x69, 0x72, 0x20, 0x6e, 0x61, 0x6d, 0x65, 0x00]"

definition program_rm :: "u8 list" where
  "program_rm =
     [0x89, 0x01, 0x41, 0xcd, 0x13, 0x38, 0x02, 0x00, 0x74, 0x2f, 0x00, 0x00, 0x00, 0x38, 0x02, 0x01, 0x74, 0x3e, 0x00, 0x00, 0x00, 0x89, 0x01, 0x3a,
      0xcd, 0x13, 0x38, 0x02, 0x00, 0x74, 0x2f, 0x00, 0x00, 0x00, 0x38, 0x02, 0x01, 0x74, 0x3e, 0x00, 0x00, 0x00, 0xfe, 0x31, 0x00, 0x00, 0x00, 0xcd,
      0x20, 0x89, 0x01, 0x09, 0x83, 0x06, 0x4b, 0x00, 0x00, 0x00, 0xcd, 0x10, 0xcd, 0x20, 0x89, 0x01, 0x09, 0x83, 0x06, 0x71, 0x00, 0x00, 0x00, 0xcd,
      0x10, 0xcd, 0x20, 0x45, 0x72, 0x72, 0x6f, 0x72, 0x20, 0x64, 0x65, 0x6c, 0x65, 0x74, 0x69, 0x6e, 0x67, 0x20, 0x64, 0x69, 0x72, 0x00, 0x44, 0x69,
      0x72, 0x20, 0x61, 0x6c, 0x72, 0x65, 0x61, 0x64, 0x79, 0x20, 0x65, 0x78, 0x69, 0x73, 0x74, 0x73, 0x00, 0x42, 0x61, 0x64, 0x20, 0x64, 0x69, 0x72,
      0x20, 0x6e, 0x61, 0x6d, 0x65, 0x00]"

definition system_programs :: "(string \<times> u8 list) list" where
  "system_programs =
     [(''net'', program_net),
      (''ld'', program_ld),
      (''type'', program_type),
      (''ver'', program_ver),
      (''cls'', program_cls),
      (''ld'', program_ld_2),
      (''mk'', program_mk),
      (''mkdir'', program_mkdir),
      (''rm'', program_rm)]"

text \<open>One block of \<open>DropFileSystemFunc\<close>.\<close>

definition drop_program :: "'v volume_calls \<Rightarrow> string \<times> u8 list \<Rightarrow> ('v, unit) utility" where
  "drop_program fs = (\<lambda>(filename, program).
     pbind (ask (file_exists fs (literal filename) (of_nat (length filename)))) (\<lambda>fileAddress.
      if fileAddress \<noteq> 0 then pskip
      else
       pbind (ask (create_file fs (literal filename) (of_nat (length filename) + 1) (of_nat (length program)))) (\<lambda>fileAddress.
       pbind (ask (set_attributes fs fileAddress
         \<lparr>executable = ch CHR ''x'', readable = ch CHR ''r'', writeable = ch CHR ''w'', attr_type = space\<rparr>)) (\<lambda>_.
       pbind (ask (open_file fs fileAddress)) (\<lambda>index.
        pseq
         [tell (write_file fs index (\<lambda>i. program ! i) (of_nat (length program))),
          tell (close_file fs index)])))))"

definition DropFileSystemFunc :: "'v volume_calls \<Rightarrow> ('v, unit) utility" where
  "DropFileSystemFunc fs = pfor system_programs (drop_program fs)"

definition bufferDrvNic :: "u8 list" where
  "bufferDrvNic =
     str ''KD'' @ str ''network   '' @ str ''$'' @ [0x14, 10, 10, 2, 0x00, 0x00, 0x00, 0x00] @ replicate 43 0"

text \<open>The file is created with 30 bytes; 64 are written.\<close>

definition DropDeviceDrivers :: "'v volume_calls \<Rightarrow> ('v, unit) utility" where
  "DropDeviceDrivers fs =
     pbind (ask (file_exists fs (literal ''nic'') 3)) (\<lambda>nicFileAddress.
      if nicFileAddress \<noteq> 0 then pskip
      else
       pbind (ask (create_file fs (literal ''nic'') 4 30)) (\<lambda>nicFileAddress.
       pbind (ask (open_file fs nicFileAddress)) (\<lambda>index.
        pseq
         [tell (write_file fs index (\<lambda>i. bufferDrvNic ! i) 64),
          tell (close_file fs index)])))"

text \<open>At most one of the three conditions holds.\<close>

definition functionBoot :: "'v volume_calls \<Rightarrow> buffer \<Rightarrow> u8 \<Rightarrow> ('v, unit) utility" where
  "functionBoot fs param param_length =
     pseq
      [(if param_is ''-format'' param
        then pbind (say ''Formatting...'') (\<lambda>_.
          pbind (ask (device_capacity fs)) (\<lambda>deviceCapacity.
            let deviceCapacity = (if deviceCapacity < FORMAT_CAPACITY_8K fs then FORMAT_CAPACITY_8K fs else deviceCapacity);
                deviceCapacity = (if FORMAT_CAPACITY_32K fs < deviceCapacity then FORMAT_CAPACITY_32K fs else deviceCapacity)
            in pseq [tell (format_volume fs 0 deviceCapacity), tell (clear_working fs)]))
        else pskip),
       (if param_is ''-bin'' param
        then pbind (say ''Creating binaries'') (\<lambda>_.
          pbind (ask (directory_exists fs (literal ''bin'') 3)) (\<lambda>dirBinAddress.
          pbind (if dirBinAddress = 0 then ask (create_directory fs (literal ''bin'') 4) else preturn dirBinAddress) (\<lambda>dirBinAddress.
            if dirBinAddress = 0 then pskip
            else pseq
             [tell (change_working fs (literal ''bin'') 4),
              DropFileSystemFunc fs,
              tell (clear_working fs)])))
        else pskip),
       (if param_is ''-sys'' param
        then pbind (say ''Creating drivers'') (\<lambda>_.
          pbind (ask (directory_exists fs (literal ''sys'') 3)) (\<lambda>dirSysAddress.
          pbind (if dirSysAddress = 0 then ask (create_directory fs (literal ''sys'') 4) else preturn dirSysAddress) (\<lambda>_.
            pseq
             [tell (change_working fs (literal ''sys'') 4),
              DropDeviceDrivers fs,
              tell (clear_working fs)])))
        else pskip)]"

definition registerCommandBoot :: "nat \<Rightarrow> 'x console_scheme \<Rightarrow> 'x console_scheme" where
  "registerCommandBoot = register ''boot''"


section \<open>Device\<close>

text \<open>
  \<open>device_name\<close> gives the name of the device that \<open>GetHardwareDeviceByIndex\<close> returns, which is not in the
  repository. The list of drivers in the code has the condition of the list of devices, which returns before.
\<close>

primrec list_devices :: "(u8 \<Rightarrow> buffer) \<Rightarrow> u8 list \<Rightarrow> u8 \<Rightarrow> ('x, unit) con" where
  "list_devices name [] lineCount = pskip"
| "list_devices name (i # is) lineCount =
     (if is_letter (name i 0) = 0 then list_devices name is lineCount
      else
       pbind (pseq [pfor [0..<10] (\<lambda>a. printChar (name i a)), printLn]) (\<lambda>_.
        if 6 < lineCount + 1
        then pbind printPause (\<lambda>key. if key = 1 then pskip else list_devices name is 0)
        else list_devices name is (lineCount + 1)))"

definition functionDevice :: "(u8 \<Rightarrow> buffer) \<Rightarrow> u8 \<Rightarrow> buffer \<Rightarrow> u8 \<Rightarrow> ('x, unit) con" where
  "functionDevice name numberOfDevices param param_length =
     (if param_is ''ls'' param then list_devices name (map of_nat [0..<unat numberOfDevices]) 0
      else pseq [say ''-drv'', say ''-drv lnk'', say ''-dev''])"

definition registerCommandDevice :: "nat \<Rightarrow> 'x console_scheme \<Rightarrow> 'x console_scheme" where
  "registerCommandDevice = register ''device''"


section \<open>The sectors\<close>

text \<open>What is written at an address: a marker at the multiples of the size of a sector.\<close>

definition sector_byte :: "'v volume_calls \<Rightarrow> bool \<Rightarrow> nat \<Rightarrow> 'v \<Rightarrow> 'v" where
  "sector_byte fs quickly a =
     (if unat (fs_sector_size fs) dvd a then write_byte fs (of_nat a) (FORMAT_SECTOR_EMPTY fs)
      else if quickly then id else write_byte fs (of_nat a) space)"

lemma format_cycles_writes:
  assumes "0 < unat (fs_sector_size fs)" and "unat (fs_sector_size fs) \<le> 256" and "S < unat bytes"
  shows "format_cycles fs quickly bytes n (of_nat S) (of_nat (S mod unat (fs_sector_size fs))) v =
    (let T = min (S + n) (unat bytes)
     in ((T = unat bytes, of_nat T, of_nat (T mod unat (fs_sector_size fs))), fold (sector_byte fs quickly) [Suc S..<Suc T] v))"
  using assms(3)
proof (induction n arbitrary: S v)
  case 0
  then show ?case by simp
next
  case (Suc n)
  let ?z = "unat (fs_sector_size fs)"
  have bound: "Suc S < 2 ^ 32" using Suc.prems unsigned_less [where 'a = nat, of bytes] by simp
  then have "unat (of_nat (Suc S) :: u32) = Suc S" by (simp add: unat_of_nat del: of_nat_Suc)
  then have less: "(of_nat (Suc S) :: u32) < bytes \<longleftrightarrow> Suc S < unat bytes" by (simp add: word_less_nat_alt del: of_nat_Suc)
  have small: "S mod ?z < 256" using assms(1,2) by (meson less_le_trans mod_less_divisor)
  have "unat (fs_sector_size fs - 1) = ?z - 1" using assms(1) by (simp add: unat_sub word_le_nat_alt)
  then have "(ucast (of_nat (S mod ?z) :: u8) < fs_sector_size fs - 1) \<longleftrightarrow> S mod ?z < ?z - 1"
    using small by (simp add: word_less_nat_alt unsigned_ucast_eq unat_of_nat take_bit_nat_eq_self)
  also have "\<dots> \<longleftrightarrow> \<not> ?z dvd Suc S"
    using mod_less_divisor [OF assms(1), of S] by (auto simp: dvd_eq_mod_eq_0 mod_Suc)
  finally have last: "(ucast (of_nat (S mod ?z) :: u8) < fs_sector_size fs - 1) \<longleftrightarrow> \<not> ?z dvd Suc S" .
  have counter: "(if ?z dvd Suc S then 0 else of_nat (S mod ?z) + 1 :: u8) = of_nat (Suc S mod ?z)"
    using assms(1) by (auto simp: mod_Suc dvd_eq_mod_eq_0)
  have step: "format_cycles fs quickly bytes (Suc n) (of_nat S) (of_nat (S mod ?z)) v =
      (if Suc S < unat bytes then format_cycles fs quickly bytes n (of_nat (Suc S)) (of_nat (Suc S mod ?z)) (sector_byte fs quickly (Suc S) v)
       else ((True, of_nat (Suc S), of_nat (Suc S mod ?z)), sector_byte fs quickly (Suc S) v))"
    using last counter less by (auto simp: Let_def sector_byte_def algebra_simps)
  show ?case
  proof (cases "Suc S < unat bytes")
    case True
    have "min (S + Suc n) (unat bytes) = min (Suc S + n) (unat bytes)" by simp
    moreover have "Suc S \<le> min (Suc S + n) (unat bytes)" using True by simp
    then have "[Suc S..<Suc (min (Suc S + n) (unat bytes))] = Suc S # [Suc (Suc S)..<Suc (min (Suc S + n) (unat bytes))]"
      by (simp add: upt_rec)
    ultimately show ?thesis
      unfolding step using True Suc.IH [OF True, of "sector_byte fs quickly (Suc S) v"] by (simp add: Let_def)
  next
    case False
    then have "min (S + Suc n) (unat bytes) = Suc S" "unat bytes = Suc S" using Suc.prems by simp_all
    then show ?thesis unfolding step using False by (simp add: Let_def)
  qed
qed

lemma fold_sectors:
  "S \<le> T \<Longrightarrow> fold W [Suc S..<Suc T] (fold W [1..<Suc S] v) = fold W [1..<Suc T] v"
  using upt_add_eq_append [of 1 "Suc S" "T - S"] by (simp add: fold_append)

lemma yields_percentage:
  assumes "behind_volume base"
  shows "yields base m0 P (show_percentage stack percentage) (\<lambda>_. P)"
proof (rule yields_printing [OF assms])
  fix e
  note scr = behind_screen [OF assms, of m0 e]
  show "printing_on mem_rd mem_wr (display_keeps base (same_volume m0) e) (show_percentage stack percentage)"
    unfolding show_percentage_def Let_def case_prod_beta
    by (intro screen.printing_pseq_Cons [OF scr] screen.printing_pseq_Nil [OF scr] screen.printing_text [OF scr])
qed

lemma yields_rounds:
  assumes b: "behind_volume base" and z: "0 < unat (fs_sector_size fs)" "unat (fs_sector_size fs) \<le> 256"
    and "S < unat bytes" and "unat bytes \<le> S + k * unat (bytes div 100)"
  shows "yields base m0 (\<lambda>v. v = fold (sector_byte fs quickly) [1..<Suc S] v0)
    (format_rounds fs stack quickly bytes k percentage (of_nat S) (of_nat (S mod unat (fs_sector_size fs))))
    (\<lambda>_ v. v = fold (sector_byte fs quickly) [1..<Suc (unat bytes)] v0)"
  using assms(4,5)
proof (induction k arbitrary: S percentage)
  case 0
  then show ?case by simp
next
  case (Suc k)
  let ?W = "sector_byte fs quickly" and ?z = "unat (fs_sector_size fs)"
  define n where "n = unat (bytes div 100)"
  define T where "T = min (S + n) (unat bytes)"
  have T: "S \<le> T" "T \<le> unat bytes" using Suc.prems(1) by (simp_all add: T_def)
  let ?P = "\<lambda>S v. v = fold ?W [1..<Suc S] v0"
  have cycles: "yields base m0 (?P S) (ask (format_cycles fs quickly bytes n (of_nat S) (of_nat (S mod ?z))))
      (\<lambda>x v. x = (T = unat bytes, of_nat T, of_nat (T mod ?z)) \<and> ?P T v)"
    by (rule yields_ask) (simp add: format_cycles_writes [OF z Suc.prems(1)] Let_def fold_sectors [OF T(1), unfolded One_nat_def] flip: T_def del: upt_Suc)
  have rest: "yields base m0 (?P T) (if T = unat bytes then pskip
      else format_rounds fs stack quickly bytes k p (of_nat T) (of_nat (T mod ?z))) (\<lambda>_. ?P (unat bytes))" for p
  proof (cases "T = unat bytes")
    case True
    then show ?thesis by (simp add: yields_skip del: upt_Suc)
  next
    case False
    then have "T = S + n" "T < unat bytes" using T by (auto simp: T_def)
    moreover from this have "unat bytes \<le> T + k * n" using Suc.prems(2) by (simp add: n_def)
    ultimately show ?thesis using Suc.IH [of T p] False by (simp add: n_def del: upt_Suc)
  qed
  show ?case
    unfolding format_rounds.simps n_def [symmetric]
    by (rule yields_pbind [OF yields_percentage [OF b]], rule yields_pbind [OF cycles], rule yields_pure)
      (use rest in \<open>simp del: upt_Suc\<close>)
qed

lemma yields_cursor:
  assumes "behind_volume base"
  shows "yields base m0 P ConsoleCursorDisable (\<lambda>_. P)" "yields base m0 P ConsoleCursorEnable (\<lambda>_. P)"
    "yields base m0 P printLn (\<lambda>_. P)" "yields base m0 P (ConsoleSetCursorPosition x) (\<lambda>_. P)"
    "yields base m0 P (print t n) (\<lambda>_. P)"
  unfolding ConsoleCursorDisable_def ConsoleCursorEnable_def
  by (rule yields_printing [OF assms],
      intro screen.printing_pseq_Cons [OF behind_screen [OF assms]] screen.printing_pseq_Nil [OF behind_screen [OF assms]]
        screen.printing_wait [OF behind_screen [OF assms]] screen.printing_registers [OF behind_screen [OF assms]]
        screen.printing_text [OF behind_screen [OF assms]])+


lemma small_sectors:
  "n < 2 ^ 32 \<Longrightarrow> small_bytes (fold (sector_byte small_calls False) [1..<Suc n] v) a =
    (if a = 0 \<or> n < unat a then small_bytes v a else if 32 dvd unat a then 0x55 else space)"
proof (induction n)
  case 0
  then show ?case by (simp add: unat_gt_0)
next
  case (Suc n)
  then have n: "a = of_nat (Suc n) \<longleftrightarrow> unat a = Suc n" by (auto simp: unat_of_nat word_unat_eq_iff simp del: of_nat_Suc)
  have "[1..<Suc (Suc n)] = [1..<Suc n] @ [Suc n]" by simp
  then have "small_bytes (fold (sector_byte small_calls False) [1..<Suc (Suc n)] v) a =
      (if a = of_nat (Suc n) then if 32 dvd Suc n then 0x55 else space
       else small_bytes (fold (sector_byte small_calls False) [1..<Suc n] v) a)"
    by (simp add: sector_byte_def small_calls_def del: of_nat_Suc upt_Suc)
  then show ?case using Suc n by (auto simp: le_Suc_eq simp del: upt_Suc)
qed



section \<open>The programs\<close>

abbreviation program_attribute :: FSAttribute where
  "program_attribute \<equiv> \<lparr>executable = ch CHR ''x'', readable = ch CHR ''r'', writeable = ch CHR ''w'', attr_type = space\<rparr>"

text \<open>The old files, and new ones with one of the programs each.\<close>

definition dropped :: "(string \<times> u8 list) list \<Rightarrow> files \<Rightarrow> files \<Rightarrow> bool" where
  "dropped ps E F \<longleftrightarrow>
     (\<forall>a. F a = E a \<or> (E a = None \<and> (\<exists>program \<in> snd ` set ps. F a = Some (program_attribute, program))))"

lemma dropped_step:
  assumes "dropped ps E F" and "copied F (program_attribute, program) F'"
  shows "dropped (ps @ [(name, program)]) E F'"
  unfolding dropped_def
proof
  fix a
  have old: "F a = E a \<or> (E a = None \<and> (\<exists>p \<in> snd ` set ps. F a = Some (program_attribute, p)))"
    using assms(1) by (simp add: dropped_def)
  show "F' a = E a \<or> (E a = None \<and> (\<exists>p \<in> snd ` set (ps @ [(name, program)]). F' a = Some (program_attribute, p)))"
  proof (cases "F' a = F a")
    case True
    then show ?thesis using old by auto
  next
    case False
    then have "F a = None" "F' a = Some (program_attribute, program)" using assms(2) by (auto simp: copied_def split: if_splits)
    then show ?thesis using old by auto
  qed
qed

lemma program_lengths: "list_all (\<lambda>(name, program). length program < 256) system_programs"
  by (simp add: system_programs_def program_net_def program_ld_def program_type_def program_ver_def program_cls_def
      program_ld_2_def program_mk_def program_mkdir_def program_rm_def)

lemma yields_drop:
  assumes laws: "file_laws fs view at_index" and k: "length program < 256"
  shows "yields base m0 (\<lambda>v. view v = E) (drop_program fs (name, program)) (\<lambda>_ v. copied E (program_attribute, program) (view v))"
proof -
  note L = leaves_simps [OF laws]
  have e: "(program_attribute, program) = (program_attribute, map (\<lambda>i. program ! i) [0..<unat (of_nat (length program) :: u32)])"
    using k by (simp add: unat_of_nat map_nth)
  have skip: "yields base m0 (\<lambda>v. view v = E) pskip (\<lambda>_ v. copied E (program_attribute, program) (view v))"
    by (rule yields_weaken [OF yields_skip]) (auto simp: copied_def)
  have close: "yields base m0 (\<lambda>v. copied E (program_attribute, program) (view v) \<and> (False \<longrightarrow> view v \<noteq> E))
      (pseq [tell (close_file fs i)]) (\<lambda>_ v. copied E (program_attribute, program) (view v))" for i
    by (intro pseq_one yields_tell) (simp add: L)
  have fill: "yields base m0 (\<lambda>v. view v = E)
      (pbind (ask (create_file fs n k sz)) (\<lambda>a. pbind (ask (set_attributes fs a program_attribute)) (\<lambda>_. pbind (ask (open_file fs a)) (\<lambda>i.
        pseq [tell (write_file fs i (\<lambda>i. program ! i) (of_nat (length program))), tell (close_file fs i)]))))
      (\<lambda>_ v. copied E (program_attribute, program) (view v))" for n k sz
    by (rule yields_pbind [OF yields_create [OF laws, where room = False]], simp, rule yields_fill [OF laws e close])
  show ?thesis
    unfolding drop_program_def prod.case by (intro pbind_ask yields_if skip fill) (simp add: L)
qed



end
