(* ===== verification/Programs.thy ===== *)
theory Programs
  imports Formatting EmulatorX4
begin

text \<open>
  The programs that \<open>boot\<close> drops (theory Formatting), run by the emulator (theory EmulatorX4): the files
  that one part of the system writes are what the other executes. The lemmas are the steps that the
  programs use; the theorem says what \<open>ver\<close>, \<open>cls\<close>, \<open>mkdir\<close> and \<open>rm\<close> do, for any device and any state.
\<close>

section \<open>Steps\<close>

lemma run_do: "run rd wr (x4_do f) s d = (Some (case f s of None \<Rightarrow> (Undefined, s) | Some s' \<Rightarrow> (Continue, s')), d)"
  by (simp add: x4_do_def run_def)

lemma step_MOVB:
  assumes "fetch 0 t = 0x89" and "unat (fetch 1 t) < length (reg t)"
  shows "run rd wr (x4_step nic) t d =
    (Some (Continue, t\<lparr>reg := (reg t)[unat (fetch 1 t) := fetch 2 t], pc := pc t + 3\<rparr>), d)"
  using assms
  by (simp add: x4_step_def x4_execute_def opcodes run_simps run_do x4_MOVB_def set_reg_def advance_def add.assoc)

lemma step_MOVA:
  assumes "fetch 0 t = 0x83" and "unat (fetch 1 t) + 1 < length (reg t)"
  shows "run rd wr (x4_step nic) t d =
    (Some (Continue, t\<lparr>reg := (reg t)[unat (fetch 1 t) := fetch 2 t, unat (fetch 1 t) + 1 := fetch 3 t], pc := pc t + 6\<rparr>), d)"
  using assms
  by (simp add: x4_step_def x4_execute_def opcodes run_simps run_do x4_MOVA_def set_reg_def advance_def add.assoc)

lemma step_CMP:
  assumes "fetch 0 t = 0x38" and "unat (fetch 1 t) < length (reg t)"
  shows "run rd wr (x4_step nic) t d =
    (Some (Continue, compare_bytes (reg t ! unat (fetch 1 t)) (fetch 2 t) (t\<lparr>pc := pc t + 3\<rparr>)), d)"
  using assms
  by (simp add: x4_step_def x4_execute_def opcodes run_simps run_do x4_CMP_def reg_at_def advance_def
      compare_bytes_def add.assoc)

lemma step_INT:
  assumes "fetch 0 t = 0xCD" and "fetch 1 t = 0x10"
  shows "run rd wr (x4_step nic) t d =
    (case run rd wr ISC_DisplayRoutine (t\<lparr>pc := pc t + 2\<rparr>) d of
       (None, d') \<Rightarrow> (None, d') | (Some (_, t'), d') \<Rightarrow> (Some (Continue, t'), d'))"
  using assms
  by (simp add: x4_step_def x4_execute_def opcodes run_simps x4_INT_def advance_def add.assoc split: prod.splits option.splits)

lemma step_exit:
  assumes "fetch 0 t = 0xCD" and "fetch 1 t = 0x20"
  shows "run rd wr (x4_step nic) t d =
    (case run rd wr (if flag_consoleDirty t = 1 then on_console printLn else pskip) (t\<lparr>pc := pc t + 2\<rparr>) d of
       (None, d') \<Rightarrow> (None, d') | (Some (_, t'), d') \<Rightarrow> (Some (Return, t'), d'))"
  using assms
  by (simp add: x4_step_def x4_execute_def opcodes run_simps x4_INT_def advance_def add.assoc split: prod.splits option.splits)

lemma step_JE:
  assumes "fetch 0 t = 0x74"
  shows "run rd wr (x4_step nic) t d =
    (Some (Continue, t\<lparr>pc := (if flag_compare t = 1 then pointer (fetch 1 t) (fetch 2 t) (fetch 3 t) (fetch 4 t) else pc t + 5)\<rparr>), d)"
  using assms
  by (simp add: x4_step_def x4_execute_def opcodes run_simps run_do x4_jump_if_def advance_def add.assoc)

lemma step_files:
  assumes "fetch 0 t = 0xCD" and "fetch 1 t = 0x13"
  shows "run rd wr (x4_step nic) t d = (Some (Continue, set_service_result 1 (t\<lparr>pc := pc t + 2\<rparr>)), d)"
  using assms
  by (simp add: x4_step_def x4_execute_def opcodes run_simps x4_INT_def ISC_FileSystemRoutine_def advance_def add.assoc)

lemma run_loop:
  "run rd wr (x4_loop nic (Suc n)) t d =
    (if unat (pc t) < 256
     then case run rd wr (x4_step nic) t d of
       (None, d') \<Rightarrow> (None, d')
     | (Some (r, t'), d') \<Rightarrow> if r = Continue then run rd wr (x4_loop nic n) t' d' else (Some (r, t'), d')
     else (Some (Ended, t), d))"
  by (simp add: run_simps MAX_PROGRAM_SIZE_def split: prod.splits option.splits)

lemma print_string_from:
  assumes "\<And>i. i < length w \<Longrightarrow> program (unat (address + of_nat (k + i))) = w ! i \<and> w ! i \<noteq> 0 \<and> w ! i \<noteq> 0x0A"
    and "program (unat (address + of_nat (k + length w))) = 0" and "k + length w < n"
  shows "run rd wr (print_program_string program address [k..<n]) c d = run rd wr (pfor w printChar) c d"
  using assms
proof (induction w arbitrary: k c d)
  case Nil
  then show ?case by (simp add: upt_rec run_simps)
next
  case (Cons b w)
  have "[k..<n] = k # [Suc k..<n]" using Cons.prems(3) by (simp add: upt_rec)
  moreover have "program (unat (address + of_nat k)) = b \<and> b \<noteq> 0 \<and> b \<noteq> 0x0A" using Cons.prems(1) [of 0] by simp
  moreover have "run rd wr (print_program_string program address [Suc k..<n]) c d = run rd wr (pfor w printChar) c d" for c d
    by (rule Cons.IH) (use Cons.prems(1) [of "Suc i" for i] Cons.prems(2,3) in auto)
  ultimately show ?case by (simp add: run_simps split: prod.splits option.splits)
qed


section \<open>What the programs do\<close>

text \<open>
  \<open>behaves rd wr program n p\<close>: from any state of the emulator with its eight registers, and for any
  device, loading the program and running it for \<open>n\<close> turns does on the console what the statement \<open>p\<close> does, and ends
  with the return of interrupt 0x20.
\<close>

definition behaves :: "('d \<Rightarrow> u32 \<Rightarrow> u8 \<times> 'd) \<Rightarrow> ('d \<Rightarrow> u32 \<Rightarrow> u8 \<Rightarrow> 'd) \<Rightarrow> u8 list \<Rightarrow> nat \<Rightarrow> (unit, unit) con \<Rightarrow> bool" where
  "behaves rd wr program n p \<longleftrightarrow> (\<forall>nic s d. length (reg s) = 8 \<longrightarrow>
     (\<exists>t. (\<forall>c. x4_console (t c) = c) \<and>
       run rd wr (EmulateX4 nic n) (EmulatorSetProgram (\<lambda>i. program ! i) (of_nat (length program)) s) d =
         (case run rd wr p (x4_console s) d of
            (None, d') \<Rightarrow> (None, d') | (Some (_, c), d') \<Rightarrow> (Some (Return, t c), d'))))"

lemma run_Emulate:
  "run rd wr (EmulateX4 nic n) s d =
    (case run rd wr (x4_loop nic n) (x4_start s) d of
       (Some (Ended, t), d') \<Rightarrow> run rd wr (pbind (pmod x4_end) (\<lambda>_.
         pbind (pwith (\<lambda>s. if flag_consoleDirty s = 1 then on_console printLn else pskip)) (\<lambda>_. preturn Ended))) t d'
     | r \<Rightarrow> r)"
  by (auto simp: EmulateX4_def run_simps split: prod.splits option.splits outcome.splits)

text \<open>The emulator after \<open>x4_start\<close> with a program of \<open>n\<close> bytes.\<close>

definition ready :: "u8 list \<Rightarrow> x4 \<Rightarrow> bool" where
  "ready program t \<longleftrightarrow> pc t = 0 \<and> length (reg t) = 8 \<and> flag_consoleDirty t = 1 \<and>
     unat (programSize t) = length program \<and> (\<forall>i < length program. programBuffer t i = program ! i)"

lemma behavesI:
  assumes "length program \<le> 256"
    and "\<And>nic t d. ready program t \<Longrightarrow> \<exists>f. (\<forall>c. x4_console (f c) = c) \<and>
      run rd wr (x4_loop nic n) t d =
        (case run rd wr p (x4_console t) d of
           (None, d') \<Rightarrow> (None, d') | (Some (_, c), d') \<Rightarrow> (Some (Return, f c), d'))"
  shows "behaves rd wr program n p"
  unfolding behaves_def
proof (intro allI impI)
  fix nic and s :: x4 and d assume r: "length (reg s) = 8"
  let ?s = "EmulatorSetProgram (\<lambda>i. program ! i) (of_nat (length program)) s"
  have "ready program (x4_start ?s)" "x4_console (x4_start ?s) = x4_console s"
    using assms(1) r by (simp_all add: ready_def x4_start_def EmulatorSetProgram_def Let_def unat_of_nat)
  with assms(2) [of "x4_start ?s" nic d] obtain f where f: "\<forall>c. x4_console (f c) = c"
    "run rd wr (x4_loop nic n) (x4_start ?s) d =
      (case run rd wr p (x4_console s) d of
         (None, d') \<Rightarrow> (None, d') | (Some (_, c), d') \<Rightarrow> (Some (Return, f c), d'))" by auto
  then show "\<exists>t. (\<forall>c. x4_console (t c) = c) \<and> run rd wr (EmulateX4 nic n) ?s d =
      (case run rd wr p (x4_console s) d of
         (None, d') \<Rightarrow> (None, d') | (Some (_, c), d') \<Rightarrow> (Some (Return, t c), d'))"
    by (intro exI [of _ f]) (simp add: run_Emulate split: prod.split option.split)
qed

text \<open>Turns of the loop at the program counter \<open>k\<close>, with the registers \<open>r\<close> and the comparison \<open>b\<close>.\<close>

definition at :: "x4 \<Rightarrow> u8 list \<Rightarrow> u8 \<Rightarrow> u32 \<Rightarrow> x4" where
  "at t r b k = t\<lparr>reg := r, flag_compare := b, pc := k\<rparr>"

lemma at_simps [simp]:
  "reg (at t r b k) = r" "pc (at t r b k) = k" "flag_compare (at t r b k) = b"
  "programBuffer (at t r b k) = programBuffer t" "programSize (at t r b k) = programSize t"
  "x4_console (at t r b k) = x4_console t" "flag_consoleDirty (at t r b k) = flag_consoleDirty t"
  "(at t r b k)\<lparr>pc := k'\<rparr> = at t r b k'" "(at t r b k)\<lparr>reg := r', pc := k'\<rparr> = at t r' b k'"
  "(at t r b k)\<lparr>reg := r'\<rparr> = at t r' b k"
  by (simp_all add: at_def)

lemma at_console [simp]:
  "(at t r b k)\<lparr>x4_console := c\<rparr> = at (t\<lparr>x4_console := c\<rparr>) r b k"
  "(at t r b k)\<lparr>flag_consoleDirty := x\<rparr> = at (t\<lparr>flag_consoleDirty := x\<rparr>) r b k"
  by (cases t; simp add: at_def)+

lemma ready_at: "ready program t \<Longrightarrow> t = at t (reg t) (flag_compare t) 0"
  by (cases t) (simp add: at_def ready_def)

lemma turn_MOVB:
  assumes "0 < m" and "programBuffer t (unat k) = 0x89" and "unat k < 256" and "unat (programBuffer t (unat (k + 1))) < length r"
  shows "run rd wr (x4_loop nic m) (at t r b k) d =
    run rd wr (x4_loop nic (m - 1)) (at t (r[unat (programBuffer t (unat (k + 1))) := programBuffer t (unat (k + 2))]) b (k + 3)) d"
  using assms by (cases m; simp add: run_loop step_MOVB fetch_def del: x4_loop.simps)

lemma turn_MOVA:
  assumes "0 < m" and "programBuffer t (unat k) = 0x83" and "unat k < 256" and "unat (programBuffer t (unat (k + 1))) + 1 < length r"
  shows "run rd wr (x4_loop nic m) (at t r b k) d =
    run rd wr (x4_loop nic (m - 1)) (at t (r[unat (programBuffer t (unat (k + 1))) := programBuffer t (unat (k + 2)),
      unat (programBuffer t (unat (k + 1))) + 1 := programBuffer t (unat (k + 3))]) b (k + 6)) d"
  using assms by (cases m; simp add: run_loop step_MOVA fetch_def del: x4_loop.simps)

lemma turn_CMP:
  assumes "0 < m" and "programBuffer t (unat k) = 0x38" and "unat k < 256" and "unat (programBuffer t (unat (k + 1))) < length r"
  shows "run rd wr (x4_loop nic m) (at t r b k) d =
    (let a = r ! unat (programBuffer t (unat (k + 1))); c = programBuffer t (unat (k + 2))
     in run rd wr (x4_loop nic (m - 1))
       (at (t\<lparr>flag_greater := (if c < a then 1 else 0)\<rparr>) r (if a = c then 1 else 0) (k + 3)) d)"
proof -
  have "compare_bytes a c (at t r b k') = at (t\<lparr>flag_greater := (if c < a then 1 else 0)\<rparr>) r (if a = c then 1 else 0) k'" for a c k'
    by (cases t) (simp add: compare_bytes_def at_def)
  then show ?thesis
    using assms by (cases m; simp add: run_loop step_CMP fetch_def Let_def del: x4_loop.simps)
qed

lemma turn_JE:
  assumes "0 < m" and "programBuffer t (unat k) = 0x74" and "unat k < 256"
  shows "run rd wr (x4_loop nic m) (at t r b k) d =
    run rd wr (x4_loop nic (m - 1)) (at t r b (if b = 1 then pointer (programBuffer t (unat (k + 1))) (programBuffer t (unat (k + 2)))
      (programBuffer t (unat (k + 3))) (programBuffer t (unat (k + 4))) else k + 5)) d"
  using assms by (cases m; simp add: run_loop step_JE fetch_def del: x4_loop.simps)

lemma turn_files:
  assumes "0 < m" and "programBuffer t (unat k) = 0xCD" and "unat k < 256" and "programBuffer t (unat (k + 1)) = 0x13"
  shows "run rd wr (x4_loop nic m) (at t r b k) d = run rd wr (x4_loop nic (m - 1)) (at t (r[2 := 1]) b (k + 2)) d"
  using assms by (cases m; simp add: run_loop step_files fetch_def set_service_result_def rBL_def del: x4_loop.simps)

lemma turn_exit:
  assumes "0 < m" and "programBuffer t (unat k) = 0xCD" and "unat k < 256" and "programBuffer t (unat (k + 1)) = 0x20"
  shows "run rd wr (x4_loop nic m) (at t r b k) d =
    (case run rd wr (if flag_consoleDirty t = 1 then printLn else pskip) (x4_console t) d of
       (None, d') \<Rightarrow> (None, d') | (Some (_, c), d') \<Rightarrow> (Some (Return, (at t r b (k + 2))\<lparr>x4_console := c\<rparr>), d'))"
proof -
  have "run rd wr (if flag_consoleDirty t = 1 then on_console printLn else pskip) u d =
    (case run rd wr (if flag_consoleDirty t = 1 then printLn else pskip) (x4_console u) d of
       (None, d') \<Rightarrow> (None, d') | (Some (x, c), d') \<Rightarrow> (Some (x, u\<lparr>x4_console := c\<rparr>), d'))" for u
    by (simp add: on_console_def run_pzoom run_pskip split: prod.split option.split)
  then show ?thesis
    using assms by (cases m; simp add: run_loop step_exit fetch_def del: x4_loop.simps split: prod.split option.split)
qed

lemma turn_print:
  assumes "0 < m" and "programBuffer t (unat k) = 0xCD" and "unat k < 256" and "programBuffer t (unat (k + 1)) = 0x10"
    and "length r = 8" and "r ! 1 = 9"
  shows "run rd wr (x4_loop nic m) (at t r b k) d =
    (case run rd wr (print_program_string (programBuffer t) (pointer (r ! 6) (r ! 7) 0 0) [0..<unat (programSize t)]) (x4_console t) d of
       (None, d') \<Rightarrow> (None, d')
     | (Some (_, c), d') \<Rightarrow> run rd wr (x4_loop nic (m - 1)) (at (t\<lparr>x4_console := c, flag_consoleDirty := 1\<rparr>) r b (k + 2)) d')"
  using assms
  by (cases m; simp add: run_loop step_INT fetch_def ISC_DisplayRoutine_def run_pwith run_pseq_Cons run_pseq_Nil run_pmod on_console_def run_pzoom
      rAH_def data_offset_def rDL_def rDH_def del: x4_loop.simps split: prod.split option.split)

lemma turn_clear:
  assumes "0 < m" and "programBuffer t (unat k) = 0xCD" and "unat k < 256" and "programBuffer t (unat (k + 1)) = 0x10"
    and "r ! 1 = 3"
  shows "run rd wr (x4_loop nic m) (at t r b k) d =
    (case run rd wr (pseq [ConsoleClearScreen (ch CHR '' ''), ConsoleSetCursor 0 0]) (x4_console t) d of
       (None, d') \<Rightarrow> (None, d')
     | (Some (_, c), d') \<Rightarrow> run rd wr (x4_loop nic (m - 1)) (at (t\<lparr>x4_console := c, flag_consoleDirty := 0\<rparr>) r b (k + 2)) d')"
  using assms
  by (cases m; simp add: run_loop step_INT fetch_def ISC_DisplayRoutine_def run_pwith run_pseq_Cons run_pseq_Nil run_pmod on_console_def run_pzoom
      rAH_def del: x4_loop.simps split: prod.split option.split)

lemma cls_clears: "behaves rd wr program_cls 3 (pseq [ConsoleClearScreen (ch CHR '' ''), ConsoleSetCursor 0 0])"
proof (rule behavesI)
  show "length program_cls \<le> 256" by (simp add: program_cls_def)
  fix nic t d assume t: "ready program_cls t"
  define r b where "r = reg t" and "b = flag_compare t"
  have p: "programBuffer t 0 = 0x89" "programBuffer t (Suc 0) = 1" "programBuffer t 2 = 3" "programBuffer t 3 = 0xCD"
    "programBuffer t 4 = 0x10" "programBuffer t 5 = 0xCD" "programBuffer t 6 = 0x20" "length r = 8"
    using t by (simp_all add: ready_def program_cls_def r_def)
  let ?p = "pseq [ConsoleClearScreen (ch CHR '' ''), ConsoleSetCursor 0 0]"
  let ?f = "\<lambda>c. (at (t\<lparr>x4_console := c, flag_consoleDirty := 0\<rparr>) (r[1 := 3]) b 7)\<lparr>x4_console := c\<rparr>"
  have "run rd wr (x4_loop nic 3) t d = run rd wr (x4_loop nic 3) (at t r b 0) d"
    using ready_at [OF t] by (simp add: r_def b_def)
  also have "\<dots> = run rd wr (x4_loop nic 2) (at t (r[1 := 3]) b 3) d"
    by (subst turn_MOVB) (simp_all add: p del: x4_loop.simps)
  also have "\<dots> = (case run rd wr ?p (x4_console t) d of (None, d') \<Rightarrow> (None, d')
     | (Some (_, c), d') \<Rightarrow> run rd wr (x4_loop nic 1) (at (t\<lparr>x4_console := c, flag_consoleDirty := 0\<rparr>) (r[1 := 3]) b 5) d')"
    by (subst turn_clear) (simp_all add: p del: x4_loop.simps cong: prod.case_cong option.case_cong)
  also have "\<dots> = (case run rd wr ?p (x4_console t) d of (None, d') \<Rightarrow> (None, d')
     | (Some (_, c), d') \<Rightarrow> (Some (Return, ?f c), d'))"
    by (simp add: p run_pskip turn_exit del: x4_loop.simps cong: prod.case_cong option.case_cong)
  finally show "\<exists>f. (\<forall>c. x4_console (f c) = c) \<and> run rd wr (x4_loop nic 3) t d =
        (case run rd wr ?p (x4_console t) d of (None, d') \<Rightarrow> (None, d') | (Some (_, c), d') \<Rightarrow> (Some (Return, f c), d'))"
    by (intro exI [of _ ?f]) simp
qed

text \<open>The sequence that prints a string of the program and returns.\<close>

definition say_code :: "u8 \<Rightarrow> u8 \<Rightarrow> u8 list" where
  "say_code lo hi = [0x89, 1, 9, 0x83, 6, lo, hi, 0, 0, 0xCD, 0x10, 0xCD, 0x20]"

lemma print_program:
  assumes "\<And>i. i < length w \<Longrightarrow> program (unat (address + of_nat i)) = w ! i \<and> w ! i \<noteq> 0 \<and> w ! i \<noteq> 0x0A"
    and "program (unat (address + of_nat (length w))) = 0" and "length w < n"
  shows "run rd wr (print_program_string program address [0..<n]) c d = run rd wr (pfor w printChar) c d"
  by (rule print_string_from) (use assms in simp_all)

lemma turns_say:
  fixes t :: x4 and k :: u32
  assumes m: "3 < m" and code: "list_all (\<lambda>i. programBuffer t (unat (k + of_nat i)) = say_code lo hi ! i) [0..<13]"
    and k: "unat k < 240" and r: "length r = 8"
    and w: "\<And>i. i < length w \<Longrightarrow> programBuffer t (unat (pointer lo hi 0 0 + of_nat i)) = w ! i \<and> w ! i \<noteq> 0 \<and> w ! i \<noteq> 0x0A"
      "programBuffer t (unat (pointer lo hi 0 0 + of_nat (length w))) = 0" "length w < unat (programSize t)"
  shows "\<exists>f. (\<forall>c. x4_console (f c) = c) \<and> run rd wr (x4_loop nic m) (at t r b k) d =
    (case run rd wr (pseq [pfor w printChar, printLn]) (x4_console t) d of
       (None, d') \<Rightarrow> (None, d') | (Some (_, c), d') \<Rightarrow> (Some (Return, f c), d'))"
proof -
  have c: "programBuffer t (unat k) = 0x89" "programBuffer t (unat (k + 1)) = 1" "programBuffer t (unat (k + 2)) = 9"
    "programBuffer t (unat (k + 3)) = 0x83" "programBuffer t (unat (k + 4)) = 6" "programBuffer t (unat (k + 5)) = lo"
    "programBuffer t (unat (k + 6)) = hi" "programBuffer t (unat (k + 9)) = 0xCD" "programBuffer t (unat (k + 10)) = 0x10"
    "programBuffer t (unat (k + 11)) = 0xCD" "programBuffer t (unat (k + 12)) = 0x20"
    using code by (simp_all add: say_code_def upt_rec)
  have b [simp]: "unat (k + 3) < 256" "unat (k + 9) < 256" "unat (k + 11) < 256" "unat k < 256"
    using k by (simp_all add: unat_word_ariths)
  let ?r1 = "r[1 := 9]"
  let ?r2 = "?r1[6 := lo, 7 := hi]"
  let ?q = "print_program_string (programBuffer t) (pointer lo hi 0 0) [0..<unat (programSize t)]"
  let ?f = "\<lambda>c. (at (t\<lparr>x4_console := c, flag_consoleDirty := 1\<rparr>) ?r2 b (k + 13))\<lparr>x4_console := c\<rparr>"
  have "run rd wr (x4_loop nic m) (at t r b k) d = run rd wr (x4_loop nic (m - 1)) (at t ?r1 b (k + 3)) d"
    using m r by (subst turn_MOVB) (simp_all add: c)
  also have "\<dots> = run rd wr (x4_loop nic (m - 1 - 1)) (at t ?r2 b (k + 9)) d"
    using m r by (subst turn_MOVA) (simp_all add: c add.assoc)
  also have "\<dots> = (case run rd wr ?q (x4_console t) d of (None, d') \<Rightarrow> (None, d')
     | (Some (_, c), d') \<Rightarrow> run rd wr (x4_loop nic (m - 1 - 1 - 1)) (at (t\<lparr>x4_console := c, flag_consoleDirty := 1\<rparr>) ?r2 b (k + 11)) d')"
    using m r by (subst turn_print) (simp_all add: c add.assoc cong: prod.case_cong option.case_cong)
  also have "\<dots> = (case run rd wr (pseq [pfor w printChar, printLn]) (x4_console t) d of (None, d') \<Rightarrow> (None, d')
     | (Some (_, c), d') \<Rightarrow> (Some (Return, (?f c)), d'))"
    using m r
    by (simp add: print_program [OF w] turn_exit c add.assoc run_pseq_Cons run_pseq_Nil split: prod.split option.split)
  finally show ?thesis by (intro exI [of _ ?f]) simp
qed

text \<open>\<open>program\<close> has the sequence at \<open>k\<close>, for a string \<open>w\<close> of its own.\<close>

definition says_at :: "u8 list \<Rightarrow> nat \<Rightarrow> u8 \<Rightarrow> u8 \<Rightarrow> u8 list \<Rightarrow> bool" where
  "says_at program k lo hi w \<longleftrightarrow>
     (let a = unat (pointer lo hi 0 0) in
      length program \<le> 240 \<and> k + 13 \<le> length program \<and> take 13 (drop k program) = say_code lo hi \<and>
      a + length w < length program \<and> take (length w) (drop a program) = w \<and> program ! (a + length w) = 0 \<and>
      list_all (\<lambda>c. c \<noteq> 0 \<and> c \<noteq> 0x0A) w)"

lemma code_at:
  assumes "ready program t" and "take n (drop k program) = code" and "k + n \<le> length program" and "length program \<le> 240"
  shows "list_all (\<lambda>i. programBuffer t (unat (of_nat k + of_nat i :: u32)) = code ! i) [0..<n]"
proof -
  have "programBuffer t (unat (of_nat k + of_nat i :: u32)) = code ! i" if "i < n" for i
  proof -
    have "k + i < length program" using assms(3) that by simp
    moreover from this have "unat (of_nat k + of_nat i :: u32) = k + i" using assms(4) by (simp add: unat_word_ariths unat_of_nat)
    moreover have "program ! (k + i) = code ! i"
      using assms(2,3) that by (metis add_leD1 nth_drop nth_take)
    ultimately show ?thesis using assms(1) by (simp add: ready_def)
  qed
  then show ?thesis by (simp add: list_all_iff)
qed

lemma says:
  assumes t: "ready program t" and s: "says_at program k lo hi w" and m: "3 < m" and r: "length r = 8"
  shows "\<exists>f. (\<forall>c. x4_console (f c) = c) \<and> run rd wr (x4_loop nic m) (at t r b (of_nat k)) d =
    (case run rd wr (pseq [pfor w printChar, printLn]) (x4_console t) d of
       (None, d') \<Rightarrow> (None, d') | (Some (_, c), d') \<Rightarrow> (Some (Return, f c), d'))"
proof (rule turns_say [OF m _ _ r])
  let ?a = "unat (pointer lo hi 0 0)"
  have s: "length program \<le> 240" "k + 13 \<le> length program" "take 13 (drop k program) = say_code lo hi"
    "?a + length w < length program" "take (length w) (drop ?a program) = w" "program ! (?a + length w) = 0"
    "list_all (\<lambda>c. c \<noteq> 0 \<and> c \<noteq> 0x0A) w"
    using s by (simp_all add: says_at_def Let_def)
  have p: "programBuffer t i = program ! i" if "i < length program" for i using t that by (simp add: ready_def)
  show "list_all (\<lambda>i. programBuffer t (unat (of_nat k + of_nat i :: u32)) = say_code lo hi ! i) [0..<13]"
    by (rule code_at [OF t s(3,2,1)])
  show "unat (of_nat k :: u32) < 240" using s(1,2) by (simp add: unat_of_nat)
  have a: "unat (pointer lo hi 0 0 + of_nat i) = ?a + i" if "i \<le> length w" for i
    using s(1,4) that by (simp add: unat_word_ariths unat_of_nat)
  fix i assume i: "i < length w"
  have "program ! (?a + i) = take (length w) (drop ?a program) ! i" using s(4) i by simp
  then have "program ! (?a + i) = w ! i" unfolding s(5) .
  then show "programBuffer t (unat (pointer lo hi 0 0 + of_nat i)) = w ! i \<and> w ! i \<noteq> 0 \<and> w ! i \<noteq> 0x0A"
    using i s(4,7) by (simp add: a p list_all_length)
next
  have s: "length program \<le> 240" "unat (pointer lo hi 0 0) + length w < length program" "program ! (unat (pointer lo hi 0 0) + length w) = 0"
    using s by (simp_all add: says_at_def Let_def)
  show "programBuffer t (unat (pointer lo hi 0 0 + of_nat (length w))) = 0"
    using s t by (simp add: unat_word_ariths unat_of_nat ready_def)
  show "length w < unat (programSize t)" using s t by (simp add: ready_def)
qed

lemma at_start: "ready program t \<Longrightarrow> at t (reg t) (flag_compare t) (of_nat 0) = t"
  using ready_at [of program t] by simp

lemma behaves_says:
  assumes "says_at program 0 lo hi w" and "3 < n"
  shows "behaves rd wr program n (pseq [pfor w printChar, printLn])"
proof (rule behavesI)
  show "length program \<le> 256" using assms(1) by (simp add: says_at_def Let_def)
  fix nic t d assume t: "ready program t"
  then have "length (reg t) = 8" by (simp add: ready_def)
  from says [OF t assms this, where b = "flag_compare t"]
  show "\<exists>f. (\<forall>c. x4_console (f c) = c) \<and> run rd wr (x4_loop nic n) t d =
    (case run rd wr (pseq [pfor w printChar, printLn]) (x4_console t) d of
       (None, d') \<Rightarrow> (None, d') | (Some (_, c), d') \<Rightarrow> (Some (Return, f c), d'))"
    unfolding at_start [OF t] .
qed

text \<open>
  The sequence that calls the file service and compares its result with 0 and 1: the service of this kernel
  returns 1, and the program goes on at \<open>j\<close>.
\<close>

definition fails_at :: "u8 list \<Rightarrow> nat \<Rightarrow> u8 \<Rightarrow> bool" where
  "fails_at program k j \<longleftrightarrow> (\<exists>a. k + 18 \<le> length program \<and> length program \<le> 240 \<and>
     take 18 (drop k program) = [0xCD, 0x13, 0x38, 2, 0, 0x74, a, 0, 0, 0, 0x38, 2, 1, 0x74, j, 0, 0, 0])"

lemma pointer_byte: "pointer j 0 0 0 = of_nat (unat j)"
  by (simp add: pointer_def)

lemma turns_fail:
  assumes t: "ready program t" and s: "fails_at program k j" and m: "4 < m" and r: "length r = 8"
  shows "\<exists>t'. ready program t' \<and> x4_console t' = x4_console t \<and>
    run rd wr (x4_loop nic m) (at t r b (of_nat k)) d =
    run rd wr (x4_loop nic (m - 1 - 1 - 1 - 1 - 1)) (at t' (r[2 := 1]) 1 (of_nat (unat j))) d"
proof -
  from s obtain a where s: "k + 18 \<le> length program" "length program \<le> 240"
    "take 18 (drop k program) = [0xCD, 0x13, 0x38, 2, 0, 0x74, a, 0, 0, 0, 0x38, 2, 1, 0x74, j, 0, 0, 0]"
    by (auto simp: fails_at_def)
  define p where "p = (of_nat k :: u32)"
  have c: "programBuffer t (unat p) = 0xCD" "programBuffer t (unat (p + 1)) = 0x13" "programBuffer t (unat (p + 2)) = 0x38"
    "programBuffer t (unat (p + 3)) = 2" "programBuffer t (unat (p + 4)) = 0" "programBuffer t (unat (p + 5)) = 0x74"
    "programBuffer t (unat (p + 10)) = 0x38" "programBuffer t (unat (p + 11)) = 2" "programBuffer t (unat (p + 12)) = 1"
    "programBuffer t (unat (p + 13)) = 0x74" "programBuffer t (unat (p + 14)) = j" "programBuffer t (unat (p + 15)) = 0"
    "programBuffer t (unat (p + 16)) = 0" "programBuffer t (unat (p + 17)) = 0"
    using code_at [OF t s(3,1,2)] by (simp_all add: upt_rec flip: p_def)
  have "unat p < 223" using s(1,2) by (simp add: p_def unat_of_nat)
  then have b [simp]: "unat p < 256" "unat (p + 2) < 256" "unat (p + 5) < 256" "unat (p + 10) < 256" "unat (p + 13) < 256"
    by (simp_all add: unat_word_ariths)
  let ?r = "r[2 := 1]"
  let ?t1 = "t\<lparr>flag_greater := 1\<rparr>" and ?t2 = "t\<lparr>flag_greater := 0\<rparr>"
  have "run rd wr (x4_loop nic m) (at t r b p) d = run rd wr (x4_loop nic (m - 1)) (at t ?r b (p + 2)) d"
    using m r by (subst turn_files) (simp_all add: c)
  also have "\<dots> = run rd wr (x4_loop nic (m - 1 - 1)) (at ?t1 ?r 0 (p + 5)) d"
    using m r by (subst turn_CMP) (simp_all add: c add.assoc)
  also have "\<dots> = run rd wr (x4_loop nic (m - 1 - 1 - 1)) (at ?t1 ?r 0 (p + 10)) d"
    using m r by (subst turn_JE) (simp_all add: c add.assoc)
  also have "\<dots> = run rd wr (x4_loop nic (m - 1 - 1 - 1 - 1)) (at ?t2 ?r 1 (p + 13)) d"
    using m r by (subst turn_CMP) (simp_all add: c add.assoc)
  also have "\<dots> = run rd wr (x4_loop nic (m - 1 - 1 - 1 - 1 - 1)) (at ?t2 ?r 1 (of_nat (unat j))) d"
    using m r by (subst turn_JE) (simp_all add: c add.assoc pointer_byte)
  finally show ?thesis
    unfolding p_def by (intro exI [of _ ?t2]) (use t in \<open>simp add: ready_def\<close>)
qed

text \<open>A byte moved into a register, and the whole of a program whose call of the file service fails.\<close>

lemma turn_set:
  assumes t: "ready program t" and s: "take 3 (drop k program) = [0x89, a, v]" "k + 3 \<le> length program" "length program \<le> 240"
    and m: "0 < m" and r: "length r = 8" "unat a < 8"
  shows "run rd wr (x4_loop nic m) (at t r b (of_nat k)) d = run rd wr (x4_loop nic (m - 1)) (at t (r[unat a := v]) b (of_nat (k + 3))) d"
proof -
  define p where "p = (of_nat k :: u32)"
  have c: "programBuffer t (unat p) = 0x89" "programBuffer t (unat (p + 1)) = a" "programBuffer t (unat (p + 2)) = v"
    using code_at [OF t s] by (simp_all add: upt_rec flip: p_def)
  have "unat p < 256" using s(2,3) by (simp add: p_def unat_of_nat)
  then have "run rd wr (x4_loop nic m) (at t r b p) d = run rd wr (x4_loop nic (m - 1)) (at t (r[unat a := v]) b (p + 3)) d"
    using m r by (subst turn_MOVB) (simp_all add: c)
  then show ?thesis by (simp add: p_def add.commute)
qed

lemma fails_says:
  assumes t: "ready program t" and s: "fails_at program k j" "says_at program (unat j) lo hi w" and m: "8 < m" and r: "length r = 8"
  shows "\<exists>f. (\<forall>c. x4_console (f c) = c) \<and> run rd wr (x4_loop nic m) (at t r b (of_nat k)) d =
    (case run rd wr (pseq [pfor w printChar, printLn]) (x4_console t) d of
       (None, d') \<Rightarrow> (None, d') | (Some (_, c), d') \<Rightarrow> (Some (Return, f c), d'))"
proof -
  have m4: "4 < m" using m by simp
  obtain t' where t': "ready program t'" "x4_console t' = x4_console t"
    "run rd wr (x4_loop nic m) (at t r b (of_nat k)) d =
     run rd wr (x4_loop nic (m - 1 - 1 - 1 - 1 - 1)) (at t' (r[2 := 1]) 1 (of_nat (unat j))) d"
    using turns_fail [OF t s(1) m4 r, where rd = rd and wr = wr and nic = nic and b = b and d = d] by (elim exE conjE)
  have "3 < m - 1 - 1 - 1 - 1 - 1" "length (r[2 := 1]) = 8" using m r by simp_all
  from says [OF t'(1) s(2) this, where rd = rd and wr = wr and nic = nic and b = 1 and d = d] show ?thesis unfolding t'(2,3) .
qed

lemma behaves_fails:
  assumes s: "fails_at program 3 j" "says_at program (unat j) lo hi w" "take 3 program = [0x89, a, v]" "unat a < 8" and n: "9 < n"
  shows "behaves rd wr program n (pseq [pfor w printChar, printLn])"
proof (rule behavesI)
  have l: "21 \<le> length program" "length program \<le> 240" using s(1) by (auto simp: fails_at_def)
  then show "length program \<le> 256" by simp
  fix nic t d assume t: "ready program t"
  then have r: "length (reg t) = 8" by (simp add: ready_def)
  have "run rd wr (x4_loop nic n) (at t (reg t) (flag_compare t) (of_nat 0)) d =
      run rd wr (x4_loop nic (n - 1)) (at t ((reg t)[unat a := v]) (flag_compare t) (of_nat (0 + 3))) d"
    by (rule turn_set [OF t]) (use s(3,4) l n r in simp_all)
  then have "run rd wr (x4_loop nic n) t d =
      run rd wr (x4_loop nic (n - 1)) (at t ((reg t)[unat a := v]) (flag_compare t) (of_nat 3)) d"
    unfolding at_start [OF t] add_0 .
  moreover have "8 < n - 1" "length ((reg t)[unat a := v]) = 8" using n r by simp_all
  ultimately show "\<exists>f. (\<forall>c. x4_console (f c) = c) \<and> run rd wr (x4_loop nic n) t d =
    (case run rd wr (pseq [pfor w printChar, printLn]) (x4_console t) d of
       (None, d') \<Rightarrow> (None, d') | (Some (_, c), d') \<Rightarrow> (Some (Return, f c), d'))"
    using fails_says [OF t s(1,2), where rd = rd and wr = wr and nic = nic and b = "flag_compare t" and d = d and m = "n - 1" and r = "(reg t)[unat a := v]"]
    by simp
qed

section \<open>The programs of the kernel\<close>

text \<open>C14.
  What four of the dropped programs do when the emulator runs them: \<open>ver\<close> prints the version, \<open>cls\<close> clears the
  screen, and \<open>mkdir\<close> and \<open>rm\<close>, whatever the device, print that the name is bad, as the file service of this kernel fails on
  every call.
\<close>

theorem dropped_programs_behave:
  "behaves rd wr program_ver 4 (pseq [pfor (str ''Version 0.1.0'') printChar, printLn]) \<and>
   behaves rd wr program_cls 3 (pseq [ConsoleClearScreen (ch CHR '' ''), ConsoleSetCursor 0 0]) \<and>
   behaves rd wr program_mkdir 10 (pseq [pfor (str ''Bad dir name'') printChar, printLn]) \<and>
   behaves rd wr program_rm 10 (pseq [pfor (str ''Bad dir name'') printChar, printLn])"
proof (intro conjI)
  have "says_at program_ver 0 13 0 (str ''Version 0.1.0'')" by code_simp
  then show "behaves rd wr program_ver 4 (pseq [pfor (str ''Version 0.1.0'') printChar, printLn])"
    by (rule behaves_says) simp
  show "behaves rd wr program_cls 3 (pseq [ConsoleClearScreen (ch CHR '' ''), ConsoleSetCursor 0 0])"
    by (rule cls_clears)
  have "says_at program_mkdir 0x41 0x74 0 (str ''Bad dir name'')" by code_simp
  then show "behaves rd wr program_mkdir 10 (pseq [pfor (str ''Bad dir name'') printChar, printLn])"
    by (intro behaves_fails [where j = "0x41" and a = 1]) (simp_all add: fails_at_def program_mkdir_def)
  have "says_at program_rm 0x3E 0x71 0 (str ''Bad dir name'')" by code_simp
  then show "behaves rd wr program_rm 10 (pseq [pfor (str ''Bad dir name'') printChar, printLn])"
    by (intro behaves_fails [where j = "0x3E" and a = 1]) (simp_all add: fails_at_def program_rm_def)
qed

end
