(* ===== verification/Spec2Isabelle.thy ===== *)
theory Spec2Isabelle
  imports BusPins BusCache RetroBus FsLayout FsAlloc FsFile FsDirectory FsDevice CString KList PortIO
    Keyboard Console Screen Shell Network Router Server Drivers KernelBase Virtual Triples EmulatorX4 X4Machine
    X4Safety Interrupts Scheduler Boot Linking Session KernelMain Commands RetroKeyboard
    Utilities UtilitySpec Formatting Programs
begin

text \<open>
  A verification library for the AVR micro-kernel: an operating system for an ATmega1284 on a board with
  external memory, a character display, a PS/2 keyboard and network cards on one bus. Paths below are
  under src/.

  \<^bold>\<open>The program and the theories.\<close> Everything outside the processor is reached by reading and writing
  bytes at bus addresses. Code is therefore a tree of bus transactions (\<open>'a io\<close>, theory BusProgram), and code
  with variables is a function from them to such a tree (\<open>('s, 'a) prog\<close>, theory PortIO, where
  None is a loop that has used up its bound). What is behind the bus is a parameter: two functions
  \<open>rd\<close> and \<open>wr\<close> on a state of the reader's choice, restricted by a contract where a proof needs it.

  \<^item> KPrelude: byte, word and address types, little-endian layout, lemmas on lists and words.
  \<^item> BusProgram, BusPins, BusCache: kernel/bus/Retroboard_REV2/bus.c. The pins of one bus cycle, the
    write-back cache in front of the memory, and the contract \<open>byte_store\<close> that any memory
    meets; \<open>mem_rd\<close> and \<open>mem_wr\<close> are the plain one.
  \<^item> RetroBus: kernel/bus/RetroAVRx4/bus.c, the bus and the cache of the other board.
  \<^item> FsLayout, FsAlloc, FsFile, FsDirectory, FsDevice: kernel/fs. Headers, the sector allocator, files
    with the table of open ones, directories with their extents, formatting and opening a device.
  \<^item> CString, KList: kernel/cstring.c and kernel/list.c; lists live in an explicit heap.
  \<^item> PortIO, Triples: statements, their runs, the busy wait and the contract \<open>ready_device\<close> of a peripheral;
    rules for programs that keep an invariant or satisfy a triple.
  \<^item> Console, Screen, Keyboard, RetroKeyboard, Shell: kernel/command/cli.c, shell.c, command.c, parse.c, environment.c, the print
    and graphics calls of kernel/syscalls, and drivers/keyboard/PS2/main.c for both boards.
  \<^item> Network, Router, Server: kernel/network/network.c, packet.c, router.c and server.c, which run on
    the network card and are composed with each other.
  \<^item> Drivers, Linking: kernel/driver/driver.c, kernel/device/device.c, kernel/drivers.c and the drivers it registers;
    from power-up to drivers that are linked to what answers on the bus.
  \<^item> KernelBase, Virtual, Interrupts, Scheduler: kernel/version.c, throw.c, kalloc.c, virtual/virtual.c,
    interrupt.c, scheduler.c, mutex.c, kref.c and the vector table of kernel.c.
  \<^item> EmulatorX4, X4Machine, X4Safety: kernel/emulation/x4, the emulator that runs programs.
  \<^item> Boot, Session: \<open>kInit\<close> of kernel.c, the listing of fsVirtual.c and the commands \<open>ls\<close> and \<open>cd\<close>; the shell
    on a volume.
  \<^item> KernelMain: kernel/main.c, the state of the whole kernel, the code in front of the loop, and the loop with
    the interrupts between its turns as a step relation.
  \<^item> Commands: the commands of kernel/command that \<open>main\<close> does not register, the speaker and the timer of
    kernel/syscalls, and the constants that kernel/vfs.c and the allocator are.
  \<^item> Utilities, Formatting: the commands rm, mk, mkdir, rn, type, attrib, cap, copy, format, boot and device. They
    are written on an earlier file system: its calls are an argument, the record \<open>volume_calls\<close> of functions on
    a volume of any type. UtilitySpec: what the utilities do to the files of a volume whose calls obey \<open>file_laws\<close>.
  \<^item> Programs: the programs that \<open>boot\<close> writes, run by the emulator.

  Names are those of the code. A C struct is a record, a static or global variable a field of the record of its
  component, and an array that is filled through a pointer a function from indices. A function that
  leaves an array, follows a null pointer or divides by zero has the value None (in the emulator, the
  outcome \<open>Undefined\<close>), so that a proof that a function returns is a proof that it does not.

  \<^bold>\<open>What the lemmas show.\<close> Each component has an abstract specification, and its operations implement it: the
  cache a flat memory, a header a record, the allocator first fit on a map of
  extents, a file a list of bytes, a directory a list of handles, a linked list a sequence, the shell a
  line editor, a packet its fields, the emulator a machine with named instructions. Invariants
  hold at every step, whatever the devices do: the router's tables, the scheduler's lock and frames, the
  emulator's arrays and segments. The components compose: the file system runs on any \<open>byte_store\<close>, among
  them the cache, and \<open>kInit\<close> chains formatting, creation and directories on a blank memory. The program
  is their composition: \<open>main\<close> runs from reset to its loop, and every state that turns, interrupts and
  peripherals lead to keeps the volume and can take the next turn. The utilities end with the files
  that their specification gives, and any sequence of them keeps a volume well typed; the
  bytes that \<open>boot\<close> drops as programs print and clear what they are meant to when the emulator runs them. Where
  the code does something else than its comments say, the theorem states what it does.

  \<^bold>\<open>Bounds.\<close> Polling loops take the number of polls as an argument; the theorems assume a device that is ready
  within it, and hold for every larger bound. Loops that run along a chain of extents take a fuel, and the
  theorems say how much is enough (the length of the chain). Loops that never end (router,
  emulator) take a number of turns; the theorems hold for every number, and the emulator's says that
  \<open>n\<close> steps of the machine are \<open>n\<close> turns. Integers have the width of the code.

  \<^bold>\<open>Not modelled.\<close> Delays and wait states, which have no effect on the state. The parts of kernel/main.c
  that the configuration of the Retroboard REV2 leaves out. The C++ classes (kernel/array.cpp, string.cpp), which nothing
  uses and whose accesses to the memory are comments. The commands asm, edit and repair and the driver of the network
  card are comments. The file system that rm, copy, boot and the others call (\<open>fsFileExists\<close>,
  \<open>fsWorkingDirectoryGetAddress\<close>) is no longer in the repository: nothing is said of it but the laws, which a small volume
  in UtilitySpec satisfies. The same holds of \<open>GetHardwareDeviceByIndex\<close>, which device calls. The arithmetic of
  floats in graph is an argument.
  Memory on the processor itself is not bounded: \<open>malloc\<close> succeeds or fails as an argument says.
\<close>

end
